(* ===== verification/Prelude.thy ===== *)
theory Prelude
  imports Main "HOL-Library.AList"
begin

text \<open>
  Shared vocabulary of the development: results with a Go error text, Go maps as association
  lists with one entry per key, 64-bit signed arithmetic, instants and durations, the contracts
  (locales) that several components share, and the theorem collections their proofs use.
\<close>

named_theorems go_simps \<open>unfolding equations of the small wrappers around the Go library\<close>
named_theorems preserves \<open>preservation lemmas of invariants\<close>

section \<open>Results\<close>

text \<open>A Go function returning \<open>(T, error)\<close>: \<open>Inl\<close> carries the text of a non-nil error.\<close>

type_synonym error = string
type_synonym 'a result = "error + 'a"

text \<open>The loop \<open>for _, x := range xs { y, err := f(x); if err != nil { return err }; ... }\<close>.\<close>

fun mapM :: "('a \<Rightarrow> 'b result) \<Rightarrow> 'a list \<Rightarrow> 'b list result" where
  "mapM f [] = Inr []"
| "mapM f (x # xs) =
     (case f x of
        Inl e \<Rightarrow> Inl e
      | Inr y \<Rightarrow> (case mapM f xs of Inl e \<Rightarrow> Inl e | Inr ys \<Rightarrow> Inr (y # ys)))"

lemma mapM_Inr_iff: "mapM f xs = Inr ys \<longleftrightarrow> list_all2 (\<lambda>x y. f x = Inr y) xs ys"
proof (induction xs arbitrary: ys)
  case Nil
  then show ?case by auto
next
  case (Cons x xs)
  show ?case
  proof (cases "f x")
    case (Inr y)
    then show ?thesis
      by (cases "mapM f xs") (auto simp: list_all2_Cons1 Cons.IH[symmetric])
  qed (auto simp: list_all2_Cons1)
qed

lemma find_SomeD: "find P xs = Some x \<Longrightarrow> x \<in> set xs \<and> P x"
  by (induction xs) (auto split: if_splits)

section \<open>Go maps\<close>

text \<open>
  A Go map is an association list with distinct keys. Go leaves the iteration order open; the
  order of the list stands for the order one run happens to see, so a fact proved for every
  list with distinct keys holds for every order.
\<close>

type_synonym ('k, 'v) gomap = "('k \<times> 'v) list"

abbreviation mget :: "('k, 'v) gomap \<Rightarrow> 'k \<Rightarrow> 'v option" where
  "mget m k \<equiv> map_of m k"

abbreviation mput :: "'k \<Rightarrow> 'v \<Rightarrow> ('k, 'v) gomap \<Rightarrow> ('k, 'v) gomap" where
  "mput k v m \<equiv> AList.update k v m"

abbreviation wf_map :: "('k, 'v) gomap \<Rightarrow> bool" where
  "wf_map m \<equiv> distinct (map fst m)"

lemma mget_mput [simp]: "mget (mput k v m) k' = (if k' = k then Some v else mget m k')"
  by (simp add: update_conv')

lemma wf_mput [simp, intro]: "wf_map m \<Longrightarrow> wf_map (mput k v m)"
  by (rule distinct_update)

lemma mget_iff_mem: "wf_map m \<Longrightarrow> mget m k = Some v \<longleftrightarrow> (k, v) \<in> set m"
  by simp

lemma set_mput_subset: "set (mput k v m) \<subseteq> insert (k, v) (set m)"
  by (induction m) auto

section \<open>64-bit integers, instants and durations\<close>

text \<open>
  Go's \<open>int64\<close> (and \<open>time.Duration\<close>, in nanoseconds) is an \<open>int\<close> whose arithmetic is wrapped
  by \<open>wrap64\<close>. An instant is an \<open>int\<close>: nanoseconds since the Unix epoch.
\<close>

definition wrap64 :: "int \<Rightarrow> int" where
  "wrap64 x = (x + 2 ^ 63) mod 2 ^ 64 - 2 ^ 63"

abbreviation in_int64 :: "int \<Rightarrow> bool" where
  "in_int64 x \<equiv> - (2 ^ 63) \<le> x \<and> x < 2 ^ 63"

lemma wrap64_id [simp]: "- (2 ^ 63) \<le> x \<Longrightarrow> x < 2 ^ 63 \<Longrightarrow> wrap64 x = x"
  by (simp add: wrap64_def)

lemma wrap64_range: "in_int64 (wrap64 x)"
  by (simp add: wrap64_def)

definition time_second :: int where [go_simps]: "time_second = 1000000000"
definition time_minute :: int where [go_simps]: "time_minute = 60 * 1000000000"

text \<open>The zero \<open>time.Time\<close> is January 1 of the year 1, UTC.\<close>

definition zero_time :: int where [go_simps]: "zero_time = - (62135596800 * 1000000000)"

text \<open>\<open>t.Truncate(d)\<close> rounds down to a multiple of \<open>d\<close> since the zero time.\<close>

definition time_truncate :: "int \<Rightarrow> int \<Rightarrow> int" where
  "time_truncate t d = t - (t - zero_time) mod d"

section \<open>Contracts shared by several components\<close>

text \<open>A text encoding: what the decoder returns on the encoder's output.\<close>

locale codec =
  fixes enc :: "'a \<Rightarrow> 'b" and dec :: "'b \<Rightarrow> 'a option"
  assumes dec_enc: "dec (enc x) = Some x"
begin

lemma enc_inject: "enc x = enc y \<longleftrightarrow> x = y"
  by (metis dec_enc option.inject)

lemma dec_enc_eq: "dec (enc x) = Some y \<longleftrightarrow> y = x"
  by (auto simp: dec_enc)

end

text \<open>
  A component driven by events: a step function with an invariant it keeps. The invariant then
  holds after every sequence of events.
\<close>

locale invariant_system =
  fixes step :: "'e \<Rightarrow> 's \<Rightarrow> 's" and inv :: "'s \<Rightarrow> bool"
  assumes step_inv: "inv s \<Longrightarrow> inv (step e s)"
begin

lemma run_inv: "inv s \<Longrightarrow> inv (fold step es s)"
  by (induction es arbitrary: s) (auto intro: step_inv)

end

text \<open>
  A component some observation of which only grows: \<open>obs s\<close> is kept by every step, hence by
  every sequence of steps.
\<close>

locale monotone_system =
  fixes step :: "'e \<Rightarrow> 's \<Rightarrow> 's" and obs :: "'s \<Rightarrow> 'a set"
  assumes step_mono: "obs s \<subseteq> obs (step e s)"
begin

lemma run_mono: "obs s \<subseteq> obs (fold step es s)"
proof (induction es arbitrary: s)
  case Nil
  show ?case by simp
next
  case (Cons e es)
  have "obs s \<subseteq> obs (step e s)" by (rule step_mono)
  also have "\<dots> \<subseteq> obs (fold step es (step e s))" by (rule Cons.IH)
  finally show ?case by simp
qed

end

text \<open>
  Components that run concurrently: a step relation with an invariant that every step keeps, hence every
  reachable state has.
\<close>

locale concurrent_invariant =
  fixes step :: "'s \<Rightarrow> 's \<Rightarrow> bool" and inv :: "'s \<Rightarrow> bool"
  assumes step_inv: "step s t \<Longrightarrow> inv s \<Longrightarrow> inv t"
begin

lemma reach_inv: "step\<^sup>*\<^sup>* s t \<Longrightarrow> inv s \<Longrightarrow> inv t"
  by (induction rule: rtranclp_induct) (auto intro: step_inv)

end

text \<open>
  A step relation that cannot run forever: every step decreases a measure, and a state that is not final can
  take a step.
\<close>

locale terminating_system = concurrent_invariant step inv
  for step :: "'s \<Rightarrow> 's \<Rightarrow> bool" and inv :: "'s \<Rightarrow> bool" +
  fixes steps_left :: "'s \<Rightarrow> nat" and final :: "'s \<Rightarrow> bool"
  assumes step_less: "step s t \<Longrightarrow> inv s \<Longrightarrow> steps_left t < steps_left s"
    and progress: "inv s \<Longrightarrow> \<not> final s \<Longrightarrow> \<exists>t. step s t"
begin

lemma steps_bounded: "(step ^^ n) s t \<Longrightarrow> inv s \<Longrightarrow> n \<le> steps_left s"
proof (induction n arbitrary: s)
  case (Suc n)
  then obtain u where u: "step s u" "(step ^^ n) u t" by (meson relpowp_Suc_E2)
  from Suc.IH[OF u(2) step_inv[OF u(1) Suc.prems(2)]] step_less[OF u(1) Suc.prems(2)] show ?case by simp
qed simp

lemma reaches_final: "inv s \<Longrightarrow> \<exists>t. step\<^sup>*\<^sup>* s t \<and> final t"
proof (induction "steps_left s" arbitrary: s rule: less_induct)
  case less
  show ?case
  proof (cases "final s")
    case False
    then obtain u where u: "step s u" using progress less.prems by blast
    from less.hyps[OF step_less[OF u less.prems] step_inv[OF u less.prems]] u show ?thesis
      by (meson converse_rtranclp_into_rtranclp)
  qed blast
qed

lemma stuck_final: "step\<^sup>*\<^sup>* s t \<Longrightarrow> inv s \<Longrightarrow> (\<nexists>u. step t u) \<Longrightarrow> final t"
  using reach_inv progress by blast

end

end
