(* ===== verification/GoStrings.thy ===== *)
theory GoStrings
  imports Prelude
begin

text \<open>
  The functions of Go's \<open>strings\<close> and \<open>strconv\<close> packages the program calls. A Go string is a
  byte sequence, which is what \<open>string\<close> (a list of 8-bit characters) is. \<open>TrimSpace\<close> knows the
  UTF-8 encodings of every Unicode space; the case mappings act on ASCII letters and leave
  other bytes alone, so they agree with Go on ASCII input.
\<close>

section \<open>Prefixes, suffixes, substrings\<close>

definition hasPrefix :: "string \<Rightarrow> string \<Rightarrow> bool" where
  "hasPrefix s p \<longleftrightarrow> take (length p) s = p"

definition hasSuffix :: "string \<Rightarrow> string \<Rightarrow> bool" where
  "hasSuffix s p \<longleftrightarrow> length p \<le> length s \<and> drop (length s - length p) s = p"

fun contains :: "string \<Rightarrow> string \<Rightarrow> bool" where
  "contains [] sub \<longleftrightarrow> sub = []"
| "contains (c # cs) sub \<longleftrightarrow> hasPrefix (c # cs) sub \<or> contains cs sub"

definition trimPrefix :: "string \<Rightarrow> string \<Rightarrow> string" where
  "trimPrefix s p = (if hasPrefix s p then drop (length p) s else s)"

definition trimSuffix :: "string \<Rightarrow> string \<Rightarrow> string" where
  "trimSuffix s p = (if hasSuffix s p then take (length s - length p) s else s)"

lemma hasPrefix_iff: "hasPrefix s p \<longleftrightarrow> (\<exists>t. s = p @ t)"
  by (metis append_eq_conv_conj hasPrefix_def)

lemma hasSuffix_iff: "hasSuffix s p \<longleftrightarrow> (\<exists>t. s = t @ p)"
proof
  assume "hasSuffix s p"
  then have "s = take (length s - length p) s @ p"
    by (metis append_take_drop_id hasSuffix_def)
  then show "\<exists>t. s = t @ p" by blast
qed (auto simp: hasSuffix_def)

lemma contains_iff: "contains s sub \<longleftrightarrow> (\<exists>a b. s = a @ sub @ b)"
proof (induction s)
  case Nil
  then show ?case by simp
next
  case (Cons c cs)
  have "(\<exists>a b. c # cs = a @ sub @ b) \<longleftrightarrow>
        (\<exists>b. c # cs = sub @ b) \<or> (\<exists>a b. cs = a @ sub @ b)" (is "?l \<longleftrightarrow> ?r")
  proof
    assume ?l
    then obtain a b where ab: "c # cs = a @ sub @ b" by blast
    then show ?r by (cases a) auto
  next
    assume ?r
    then show ?l by (metis append_Cons append_Nil)
  qed
  with Cons.IH show ?case by (simp add: hasPrefix_iff)
qed

section \<open>Cutting and splitting at a separator byte\<close>

text \<open>\<open>strings.Cut\<close> and \<open>strings.Split\<close>; every separator in the program is one byte.\<close>

definition cut :: "string \<Rightarrow> char \<Rightarrow> string \<times> string \<times> bool" where
  "cut s c = (takeWhile (\<lambda>x. x \<noteq> c) s, drop 1 (dropWhile (\<lambda>x. x \<noteq> c) s), c \<in> set s)"

fun split_at :: "char \<Rightarrow> string \<Rightarrow> string list" where
  "split_at c [] = [[]]"
| "split_at c (x # xs) =
     (if x = c then [] # split_at c xs
      else (case split_at c xs of [] \<Rightarrow> [[x]] | y # ys \<Rightarrow> (x # y) # ys))"

fun join :: "string \<Rightarrow> string list \<Rightarrow> string" where
  "join sep [] = []"
| "join sep [x] = x"
| "join sep (x # y # ys) = x @ sep @ join sep (y # ys)"

lemma cut_append [simp]: "c \<notin> set a \<Longrightarrow> cut (a @ c # b) c = (a, b, True)"
  by (auto simp: cut_def takeWhile_append dropWhile_append)

lemma cut_notin [simp]: "c \<notin> set a \<Longrightarrow> cut a c = (a, [], False)"
proof -
  assume "c \<notin> set a"
  then have "\<forall>x\<in>set a. x \<noteq> c" by metis
  then show ?thesis using \<open>c \<notin> set a\<close>
    by (simp add: cut_def takeWhile_eq_all_conv[THEN iffD2] dropWhile_eq_Nil_conv[THEN iffD2])
qed

lemma split_at_neq_Nil [simp]: "split_at c s \<noteq> []"
  by (induction s) (auto split: list.splits)

lemma split_at_append: "c \<notin> set a \<Longrightarrow> split_at c (a @ c # b) = a # split_at c b"
  by (induction a) auto

lemma split_at_notin: "c \<notin> set a \<Longrightarrow> split_at c a = [a]"
  by (induction a) auto

lemma split_at_parts: "p \<in> set (split_at c s) \<Longrightarrow> c \<notin> set p \<and> set p \<subseteq> set s"
proof (induction s arbitrary: p)
  case (Cons x xs)
  then show ?case
    by (cases "split_at c xs") (fastforce split: if_splits)+
qed simp

lemma split_at_join:
  "ps \<noteq> [] \<Longrightarrow> \<forall>p\<in>set ps. c \<notin> set p \<Longrightarrow> split_at c (join [c] ps) = ps"
proof (induction ps rule: induct_list012)
  case (2 p)
  then show ?case by (simp add: split_at_notin)
next
  case (3 p q ps)
  then show ?case by (simp add: split_at_append)
qed simp

lemma append_sep_eq_iff:
  "c \<notin> set a \<Longrightarrow> c \<notin> set a' \<Longrightarrow> a @ c # b = a' @ c # b' \<longleftrightarrow> a = a' \<and> b = b'"
proof (induction a arbitrary: a')
  case Nil
  then show ?case by (cases a') auto
next
  case (Cons x a)
  then show ?case by (cases a') auto
qed

lemma join_split_at: "join [c] (split_at c s) = s"
proof (induction s)
  case (Cons x xs)
  then show ?case
  proof (cases "split_at c xs")
    case (Cons y ys)
    with Cons.IH show ?thesis by (cases ys) auto
  qed simp
qed simp

section \<open>Trimming\<close>

text \<open>
  The UTF-8 encodings of the code points \<open>unicode.IsSpace\<close> accepts. Go's \<open>TrimSpace\<close> decodes one
  rune at a time from either end; a rune is a space exactly when the bytes at that end are one
  of these encodings.
\<close>

definition space_seqs :: "string list" where
  "space_seqs =
     [[CHR 0x20], [CHR 0x09], [CHR 0x0A], [CHR 0x0B], [CHR 0x0C], [CHR 0x0D],
      [CHR 0xC2, CHR 0x85], [CHR 0xC2, CHR 0xA0],
      [CHR 0xE1, CHR 0x9A, CHR 0x80],
      [CHR 0xE2, CHR 0x80, CHR 0x80], [CHR 0xE2, CHR 0x80, CHR 0x81],
      [CHR 0xE2, CHR 0x80, CHR 0x82], [CHR 0xE2, CHR 0x80, CHR 0x83],
      [CHR 0xE2, CHR 0x80, CHR 0x84], [CHR 0xE2, CHR 0x80, CHR 0x85],
      [CHR 0xE2, CHR 0x80, CHR 0x86], [CHR 0xE2, CHR 0x80, CHR 0x87],
      [CHR 0xE2, CHR 0x80, CHR 0x88], [CHR 0xE2, CHR 0x80, CHR 0x89],
      [CHR 0xE2, CHR 0x80, CHR 0x8A], [CHR 0xE2, CHR 0x80, CHR 0xA8],
      [CHR 0xE2, CHR 0x80, CHR 0xA9], [CHR 0xE2, CHR 0x80, CHR 0xAF],
      [CHR 0xE2, CHR 0x81, CHR 0x9F], [CHR 0xE3, CHR 0x80, CHR 0x80]]"

function trim_left_seqs :: "string list \<Rightarrow> string \<Rightarrow> string" where
  "trim_left_seqs qs s =
     (case find (\<lambda>q. q \<noteq> [] \<and> hasPrefix s q) qs of
        None \<Rightarrow> s
      | Some q \<Rightarrow> trim_left_seqs qs (drop (length q) s))"
  by pat_completeness auto
termination
  by (relation "measure (\<lambda>(qs, s). length s)")
     (auto simp: find_Some_iff hasPrefix_iff)

declare trim_left_seqs.simps [simp del]

definition trimSpace :: "string \<Rightarrow> string" where
  "trimSpace s =
     rev (trim_left_seqs (map rev space_seqs) (rev (trim_left_seqs space_seqs s)))"

text \<open>\<open>strings.TrimRight(s, "/")\<close>, \<open>strings.Trim(s, "/")\<close> with a one-byte cutset.\<close>

definition trimRight :: "string \<Rightarrow> char \<Rightarrow> string" where
  "trimRight s c = rev (dropWhile (\<lambda>x. x = c) (rev s))"

definition trim :: "string \<Rightarrow> char \<Rightarrow> string" where
  "trim s c = trimRight (dropWhile (\<lambda>x. x = c) s) c"

definition no_edge_space :: "string \<Rightarrow> bool" where
  "no_edge_space s \<longleftrightarrow>
     (\<forall>q\<in>set space_seqs. \<not> hasPrefix s q \<and> \<not> hasPrefix (rev s) (rev q))"

text \<open>On ASCII text only the six ASCII spaces matter, at the two ends.\<close>

abbreviation ascii :: "string \<Rightarrow> bool" where
  "ascii s \<equiv> \<forall>c\<in>set s. (of_char c :: nat) < 128"

definition ascii_space :: "char \<Rightarrow> bool" where
  "ascii_space c \<longleftrightarrow> c \<in> set [CHR 0x20, CHR 0x09, CHR 0x0A, CHR 0x0B, CHR 0x0C, CHR 0x0D]"

lemma space_seqs_shape:
  assumes "q \<in> set space_seqs"
  shows "(\<exists>x. q = [x] \<and> ascii_space x)
       \<or> q \<noteq> [] \<and> 128 \<le> (of_char (hd q) :: nat) \<and> 128 \<le> (of_char (last q) :: nat)"
proof -
  have "\<forall>q\<in>set space_seqs. length q = 1 \<and> ascii_space (hd q)
       \<or> q \<noteq> [] \<and> 128 \<le> (of_char (hd q) :: nat) \<and> 128 \<le> (of_char (last q) :: nat)"
    by code_simp
  then have "length q = 1 \<and> ascii_space (hd q)
       \<or> q \<noteq> [] \<and> 128 \<le> (of_char (hd q) :: nat) \<and> 128 \<le> (of_char (last q) :: nat)"
    using assms by (rule bspec)
  then show ?thesis
  proof (elim disjE conjE)
    assume "length q = 1" "ascii_space (hd q)"
    then have "q = [hd q]" by (cases q) simp_all
    then show ?thesis using \<open>ascii_space (hd q)\<close> by blast
  qed simp
qed

lemma ascii_space_in_seqs: "ascii_space c \<Longrightarrow> [c] \<in> set space_seqs"
  by (auto simp: ascii_space_def space_seqs_def)

lemma hasPrefix_Cons_hd: "hasPrefix (c # cs) q \<Longrightarrow> q \<noteq> [] \<Longrightarrow> hd q = c"
  by (auto simp: hasPrefix_iff Cons_eq_append_conv)

lemma hasPrefix_spaces_ascii:
  assumes "ascii (c # cs)"
  shows "(\<exists>q\<in>set space_seqs. hasPrefix (c # cs) q) \<longleftrightarrow> ascii_space c"
    and "(\<exists>q\<in>set space_seqs. hasPrefix (c # cs) (rev q)) \<longleftrightarrow> ascii_space c"
proof -
  have c: "(of_char c :: nat) < 128" using assms by simp
  have "ascii_space c" if q: "q \<in> set space_seqs" and p: "hasPrefix (c # cs) r"
    and r: "r = q \<or> r = rev q" for q r
    using space_seqs_shape[OF q]
  proof (elim disjE exE conjE)
    fix x assume "q = [x]" "ascii_space x"
    then show ?thesis using p r by (auto simp: hasPrefix_def)
  next
    assume ne: "q \<noteq> []" and h: "128 \<le> (of_char (hd q) :: nat)" "128 \<le> (of_char (last q) :: nat)"
    have "hd r = c" by (rule hasPrefix_Cons_hd[OF p]) (use r ne in auto)
    then show ?thesis using h r c by (auto simp: hd_rev)
  qed
  moreover have "hasPrefix (c # cs) [c]" by (simp add: hasPrefix_def)
  ultimately show "(\<exists>q\<in>set space_seqs. hasPrefix (c # cs) q) \<longleftrightarrow> ascii_space c"
    and "(\<exists>q\<in>set space_seqs. hasPrefix (c # cs) (rev q)) \<longleftrightarrow> ascii_space c"
    using ascii_space_in_seqs by (blast, metis rev_singleton_conv)
qed

lemma no_edge_space_ascii:
  assumes "ascii s" and "s \<noteq> []"
  shows "no_edge_space s \<longleftrightarrow> \<not> ascii_space (hd s) \<and> \<not> ascii_space (last s)"
proof -
  obtain c cs where s: "s = c # cs" using assms(2) by (cases s) auto
  obtain d ds where r: "rev s = d # ds" using assms(2) by (cases "rev s") auto
  have "last s = d" using r by (metis hd_rev list.sel(1))
  moreover have "ascii (d # ds)" using assms(1) r by (metis set_rev)
  ultimately show ?thesis
    using hasPrefix_spaces_ascii(1)[of c cs] hasPrefix_spaces_ascii(2)[of d ds] assms(1)
    by (auto simp: no_edge_space_def s[symmetric] r simp del: rev_rev_ident) (auto simp: s)
qed

lemma trim_left_seqs_None:
  "find (\<lambda>q. q \<noteq> [] \<and> hasPrefix s q) qs = None \<Longrightarrow> trim_left_seqs qs s = s"
  by (subst trim_left_seqs.simps) (simp only: option.case)

lemma trim_left_seqs_Some:
  "find (\<lambda>q. q \<noteq> [] \<and> hasPrefix s q) qs = Some p \<Longrightarrow>
   trim_left_seqs qs s = trim_left_seqs qs (drop (length p) s)"
  by (subst trim_left_seqs.simps) (simp only: option.case)

lemma trim_left_seqs_id:
  "\<forall>q\<in>set qs. q \<noteq> [] \<longrightarrow> \<not> hasPrefix s q \<Longrightarrow> trim_left_seqs qs s = s"
  by (rule trim_left_seqs_None) (auto simp: find_None_iff)

lemma trimSpace_id [simp]: "no_edge_space s \<Longrightarrow> trimSpace s = s"
  by (simp add: trimSpace_def no_edge_space_def trim_left_seqs_id)

lemma trim_left_seqs_stop:
  "q \<in> set qs \<Longrightarrow> q \<noteq> [] \<Longrightarrow> \<not> hasPrefix (trim_left_seqs qs s) q"
proof (induction qs s rule: trim_left_seqs.induct)
  case (1 qs s)
  show ?case
  proof (cases "find (\<lambda>q. q \<noteq> [] \<and> hasPrefix s q) qs")
    case None
    then show ?thesis using "1.prems" trim_left_seqs_None[OF None]
      by (auto simp: find_None_iff)
  next
    case (Some p)
    then show ?thesis using "1.IH"[OF Some "1.prems"] by (simp add: trim_left_seqs_Some)
  qed
qed

lemma trim_left_seqs_suffix: "\<exists>p. s = p @ trim_left_seqs qs s"
proof (induction qs s rule: trim_left_seqs.induct)
  case (1 qs s)
  show ?case
  proof (cases "find (\<lambda>q. q \<noteq> [] \<and> hasPrefix s q) qs")
    case None
    then show ?thesis using trim_left_seqs_None[OF None] by simp
  next
    case (Some p)
    from "1.IH"[OF Some] obtain r
      where "drop (length p) s = r @ trim_left_seqs qs (drop (length p) s)" by blast
    then have "s = (take (length p) s @ r) @ trim_left_seqs qs (drop (length p) s)"
      by (metis append.assoc append_take_drop_id)
    then show ?thesis unfolding trim_left_seqs_Some[OF Some] by blast
  qed
qed

lemma set_trim_left_seqs: "set (trim_left_seqs qs s) \<subseteq> set s"
  using trim_left_seqs_suffix[of s qs] by (metis set_append Un_upper2)

lemma set_trimSpace: "set (trimSpace s) \<subseteq> set s"
  using set_trim_left_seqs[of "map rev space_seqs" "rev (trim_left_seqs space_seqs s)"]
    set_trim_left_seqs[of space_seqs s]
  by (auto simp: trimSpace_def)

lemma trim_left_seqs_removed:
  "\<exists>p. s = p @ trim_left_seqs qs s \<and> set p \<subseteq> (\<Union>q\<in>set qs. set q)"
proof (induction qs s rule: trim_left_seqs.induct)
  case (1 qs s)
  show ?case
  proof (cases "find (\<lambda>q. q \<noteq> [] \<and> hasPrefix s q) qs")
    case None
    then show ?thesis using trim_left_seqs_None[OF None] by simp
  next
    case (Some q)
    then have q: "q \<in> set qs" "hasPrefix s q" by (auto simp: find_Some_iff)
    then obtain t where s: "s = q @ t" by (auto simp: hasPrefix_iff)
    obtain p where p: "t = p @ trim_left_seqs qs t" "set p \<subseteq> (\<Union>q\<in>set qs. set q)"
      using "1.IH"[OF Some] s by auto
    have "trim_left_seqs qs s = trim_left_seqs qs t" using trim_left_seqs_Some[OF Some] s by simp
    then have "s = (q @ p) @ trim_left_seqs qs s" using s p(1) by simp
    moreover have "set (q @ p) \<subseteq> (\<Union>q\<in>set qs. set q)" using p(2) q(1) by auto
    ultimately show ?thesis by blast
  qed
qed

lemma trimSpace_empty [simp]: "trimSpace [] = []"
  by (rule trimSpace_id) (simp add: no_edge_space_def space_seqs_def hasPrefix_def)

text \<open>Trimmed text has no space at its ends, so trimming it again changes nothing.\<close>

lemma space_seqs_nonempty: "q \<in> set space_seqs \<Longrightarrow> q \<noteq> []"
  using space_seqs_shape by fastforce

lemma no_edge_space_trimSpace: "no_edge_space (trimSpace s)"
proof -
  define t where "t = trim_left_seqs space_seqs s"
  define u where "u = trim_left_seqs (map rev space_seqs) (rev t)"
  obtain p where "rev t = p @ u" using trim_left_seqs_suffix unfolding u_def by blast
  then have t: "t = rev u @ rev p" by (metis rev_append rev_rev_ident)
  have "\<not> hasPrefix (rev u) q" if "q \<in> set space_seqs" for q
    using trim_left_seqs_stop[OF that space_seqs_nonempty[OF that], of s] t unfolding t_def[symmetric]
    by (auto simp: hasPrefix_iff)
  moreover have "\<not> hasPrefix u (rev q)" if "q \<in> set space_seqs" for q
    using trim_left_seqs_stop[of "rev q" "map rev space_seqs" "rev t"] that space_seqs_nonempty[OF that]
    unfolding u_def[symmetric] by simp
  ultimately show ?thesis by (simp add: no_edge_space_def trimSpace_def t_def[symmetric] u_def[symmetric])
qed

lemma trimSpace_idem [simp]: "trimSpace (trimSpace s) = trimSpace s"
  by (rule trimSpace_id) (rule no_edge_space_trimSpace)

text \<open>Text with an ASCII character other than a space is not trimmed away.\<close>

lemma trimSpace_neq_Nil:
  assumes "c \<in> set s" and "(of_char c :: nat) < 128" and "\<not> ascii_space c"
  shows "trimSpace s \<noteq> []"
proof
  assume e: "trimSpace s = []"
  let ?t = "trim_left_seqs space_seqs s"
  have "\<forall>q\<in>set space_seqs. \<forall>c\<in>set q. (of_char c :: nat) < 128 \<longrightarrow> ascii_space c" by code_simp
  then have no: "c \<notin> (\<Union>q\<in>set space_seqs. set q)" using assms(2,3) by auto
  obtain p where p: "s = p @ ?t" "set p \<subseteq> (\<Union>q\<in>set space_seqs. set q)"
    using trim_left_seqs_removed[of s space_seqs] by blast
  obtain p' where "rev ?t = p' @ trim_left_seqs (map rev space_seqs) (rev ?t)"
    "set p' \<subseteq> (\<Union>q\<in>set (map rev space_seqs). set q)"
    using trim_left_seqs_removed[of "rev ?t" "map rev space_seqs"] by blast
  then have "set (rev ?t) \<subseteq> (\<Union>q\<in>set space_seqs. set q)" using e by (auto simp: trimSpace_def)
  then have "set s \<subseteq> (\<Union>q\<in>set space_seqs. set q)"
    using p by (metis Un_least set_append set_rev)
  with no assms(1) show False by blast
qed

text \<open>One ASCII space in front is dropped; text that does not start with a space stays.\<close>

lemma trim_left_space:
  assumes "ascii_space c" and "ascii (c # s)"
  shows "trim_left_seqs space_seqs (c # s) = trim_left_seqs space_seqs s"
    and "trim_left_seqs (map rev space_seqs) (c # s) = trim_left_seqs (map rev space_seqs) s"
proof -
  have one: "q = [c]" if "q \<in> set space_seqs" "r = q \<or> r = rev q" "hasPrefix (c # s) r" for q r
    using space_seqs_shape[OF that(1)]
  proof (elim disjE exE conjE)
    fix x assume "q = [x]"
    then show ?thesis using that(2,3) by (auto simp: hasPrefix_def)
  next
    assume h: "q \<noteq> []" "128 \<le> (of_char (hd q) :: nat)" "128 \<le> (of_char (last q) :: nat)"
    have "hd r = c" by (rule hasPrefix_Cons_hd[OF that(3)]) (use that(2) h in auto)
    then show ?thesis using h that(2) assms(2) by (auto simp: hd_rev)
  qed
  have p: "hasPrefix (c # s) [c]" by (simp add: hasPrefix_def)
  have m: "[c] \<in> set space_seqs" using assms(1) by (rule ascii_space_in_seqs)
  obtain q1 where f1: "find (\<lambda>q. q \<noteq> [] \<and> hasPrefix (c # s) q) space_seqs = Some q1"
    using m p by (cases "find (\<lambda>q. q \<noteq> [] \<and> hasPrefix (c # s) q) space_seqs") (auto simp: find_None_iff)
  then have "q1 \<in> set space_seqs" "hasPrefix (c # s) q1" by (auto simp: find_Some_iff)
  then have "q1 = [c]" using one by blast
  then show "trim_left_seqs space_seqs (c # s) = trim_left_seqs space_seqs s"
    using trim_left_seqs_Some[OF f1] by simp
  have m': "[c] \<in> set (map rev space_seqs)" using m by force
  obtain q2 where f2: "find (\<lambda>q. q \<noteq> [] \<and> hasPrefix (c # s) q) (map rev space_seqs) = Some q2"
    using m' p by (cases "find (\<lambda>q. q \<noteq> [] \<and> hasPrefix (c # s) q) (map rev space_seqs)") (auto simp: find_None_iff)
  then have "q2 \<in> rev ` set space_seqs" "hasPrefix (c # s) q2" using find_SomeD[OF f2] by auto
  then have "q2 = [c]" using one by (metis imageE rev_singleton_conv)
  then show "trim_left_seqs (map rev space_seqs) (c # s) = trim_left_seqs (map rev space_seqs) s"
    using trim_left_seqs_Some[OF f2] by simp
qed

lemma trim_left_nonspace:
  assumes "\<not> ascii_space c" and "ascii (c # s)"
  shows "trim_left_seqs space_seqs (c # s) = c # s"
    and "trim_left_seqs (map rev space_seqs) (c # s) = c # s"
  using hasPrefix_spaces_ascii[OF assms(2)] assms(1)
  by (auto intro!: trim_left_seqs_None simp: find_None_iff)

lemma trimSpace_newline:
  assumes "ascii s" and "no_edge_space s"
  shows "trimSpace (s @ [CHR 0x0A]) = s"
proof (cases s)
  case Nil
  have "trim_left_seqs space_seqs [CHR 0x0A] = []"
    using trim_left_space(1)[of "CHR 0x0A" "[]"] trim_left_seqs_None[of "[]" space_seqs]
    by (simp add: ascii_space_def hasPrefix_def find_None_iff)
  then show ?thesis using trim_left_seqs_None[of "[]" "map rev space_seqs"]
    by (simp add: Nil trimSpace_def hasPrefix_def find_None_iff)
next
  case (Cons c cs)
  then obtain d ds where r: "rev s = d # ds" by (cases "rev s") auto
  have e: "\<not> ascii_space c" "\<not> ascii_space d"
    using assms no_edge_space_ascii[of s] Cons r by (auto, metis hd_rev list.sel(1) list.distinct(1))
  have "ascii (c # cs @ [CHR 0x0A])" using assms(1) Cons by auto
  then have "trim_left_seqs space_seqs (s @ [CHR 0x0A]) = s @ [CHR 0x0A]"
    using trim_left_nonspace(1)[OF e(1), of "cs @ [CHR 0x0A]"] Cons by simp
  moreover have "ascii (CHR 0x0A # rev s)" using assms(1) by simp
  then have "trim_left_seqs (map rev space_seqs) (CHR 0x0A # rev s) = trim_left_seqs (map rev space_seqs) (rev s)"
    by (intro trim_left_space(2)) (simp_all add: ascii_space_def)
  moreover have "ascii (d # ds)" using assms(1) r by (metis set_rev)
  then have "trim_left_seqs (map rev space_seqs) (rev s) = rev s"
    using trim_left_nonspace(2)[OF e(2)] r by simp
  ultimately show ?thesis by (simp add: trimSpace_def)
qed

section \<open>Letter case\<close>

definition lower_char :: "char \<Rightarrow> char" where
  "lower_char c =
     (let n = (of_char c :: nat) in if 65 \<le> n \<and> n \<le> 90 then char_of (n + 32) else c)"

definition upper_char :: "char \<Rightarrow> char" where
  "upper_char c =
     (let n = (of_char c :: nat) in if 97 \<le> n \<and> n \<le> 122 then char_of (n - 32) else c)"

definition toLower :: "string \<Rightarrow> string" where
  "toLower s = map lower_char s"

definition toUpper :: "string \<Rightarrow> string" where
  "toUpper s = map upper_char s"

definition equalFold :: "string \<Rightarrow> string \<Rightarrow> bool" where
  "equalFold s t \<longleftrightarrow> toLower s = toLower t"

lemma char_of_nat_inj: "n < 256 \<Longrightarrow> (of_char (char_of n :: char) :: nat) = n"
  by simp

section \<open>Numbers\<close>

text \<open>
  \<open>strconv.ParseInt(s, 10, 64)\<close>: an optional sign, then at least one decimal digit and nothing
  else; the value must fit 64 bits. The two errors (syntax, range) are one \<open>None\<close>: the callers
  only test for an error.
\<close>

definition digit_val :: "char \<Rightarrow> nat option" where
  "digit_val c =
     (let n = (of_char c :: nat) in if 48 \<le> n \<and> n \<le> 57 then Some (n - 48) else None)"

fun parse_digits :: "nat \<Rightarrow> string \<Rightarrow> nat option" where
  "parse_digits acc [] = Some acc"
| "parse_digits acc (c # cs) =
     (case digit_val c of None \<Rightarrow> None | Some d \<Rightarrow> parse_digits (10 * acc + d) cs)"

definition parse_nat :: "string \<Rightarrow> nat option" where
  "parse_nat s = (if s = [] then None else parse_digits 0 s)"

definition parseInt64 :: "string \<Rightarrow> int option" where
  "parseInt64 s =
     (let (neg, ds) =
        (case s of [] \<Rightarrow> (False, [])
         | c # cs \<Rightarrow> if c = CHR ''-'' then (True, cs)
                    else if c = CHR ''+'' then (False, cs) else (False, s))
      in (case parse_nat ds of
            None \<Rightarrow> None
          | Some n \<Rightarrow> (let v = (if neg then - int n else int n)
                      in if in_int64 v then Some v else None)))"

lemma parseInt64_range: "parseInt64 s = Some v \<Longrightarrow> in_int64 v"
  by (auto simp: parseInt64_def Let_def split: option.splits if_splits prod.splits)

text \<open>\<open>strconv.Itoa\<close>, \<open>strconv.FormatInt(_, 10)\<close> and \<open>%d\<close>.\<close>

fun show_nat :: "nat \<Rightarrow> string" where
  "show_nat n =
     (if n < 10 then [char_of (48 + n)] else show_nat (n div 10) @ [char_of (48 + n mod 10)])"

declare show_nat.simps [simp del]

definition itoa :: "int \<Rightarrow> string" where
  "itoa i = (if i < 0 then CHR ''-'' # show_nat (nat (- i)) else show_nat (nat i))"

lemma digit_val_char_of: "d < 10 \<Longrightarrow> digit_val (char_of (48 + d)) = Some d"
  by (simp add: digit_val_def char_of_nat_inj)

lemma parse_digits_snoc:
  "parse_digits acc (ds @ [c]) =
     (case parse_digits acc ds of None \<Rightarrow> None
      | Some n \<Rightarrow> map_option (\<lambda>d. 10 * n + d) (digit_val c))"
  by (induction ds arbitrary: acc) (auto split: option.splits)

lemma parse_digits_show_nat: "parse_digits 0 (show_nat n) = Some n"
proof (induction n rule: show_nat.induct)
  case (1 n)
  show ?case
  proof (cases "n < 10")
    case True
    then show ?thesis
      by (subst show_nat.simps) (simp add: digit_val_char_of)
  next
    case False
    then show ?thesis using "1.IH"
      by (subst show_nat.simps) (simp add: parse_digits_snoc digit_val_char_of)
  qed
qed

lemma show_nat_neq_Nil [simp]: "show_nat n \<noteq> []"
  by (subst show_nat.simps) simp

lemma show_nat_digits: "c \<in> set (show_nat n) \<Longrightarrow> digit_val c \<noteq> None"
proof (induction n rule: show_nat.induct)
  case (1 n)
  then show ?case
    by (subst (asm) (2) show_nat.simps) (auto simp: digit_val_char_of split: if_splits)
qed

lemma digit_val_ascii: "digit_val c \<noteq> None \<Longrightarrow> 48 \<le> (of_char c :: nat) \<and> (of_char c :: nat) \<le> 57"
  by (auto simp: digit_val_def Let_def split: if_splits)

lemma parseInt64_show_nat: "n < 2 ^ 63 \<Longrightarrow> parseInt64 (show_nat n) = Some (int n)"
proof -
  assume n: "n < 2 ^ 63"
  obtain c cs where s: "show_nat n = c # cs" using show_nat_neq_Nil[of n] by (cases "show_nat n") blast+
  then have "48 \<le> (of_char c :: nat)" using show_nat_digits[of c n] digit_val_ascii[of c] by simp
  then have "c \<noteq> CHR ''-''" "c \<noteq> CHR ''+''" by auto
  then show ?thesis
    using n parse_digits_show_nat[of n] by (simp add: parseInt64_def s parse_nat_def)
qed

lemma trim_id: "s \<noteq> [] \<Longrightarrow> hd s \<noteq> c \<Longrightarrow> last s \<noteq> c \<Longrightarrow> trim s c = s"
proof -
  assume s: "s \<noteq> []" "hd s \<noteq> c" "last s \<noteq> c"
  obtain x xs where x: "s = x # xs" using s(1) by (cases s) auto
  obtain y ys where y: "rev s = y # ys" using s(1) by (cases "rev s") auto
  have "hd s = x" "last s = y" using x y by (simp, metis hd_rev list.sel(1))
  then have "dropWhile (\<lambda>z. z = c) s = s" "dropWhile (\<lambda>z. z = c) (rev s) = rev s"
    using s x y by simp_all
  then show ?thesis by (simp add: trim_def trimRight_def)
qed

end
