(* ===== verification/GoEncoding.thy ===== *)
theory GoEncoding
  imports GoStrings
begin

text \<open>
  The text encodings the program uses from Go's standard library: \<open>encoding/base64\<close> (the padded
  standard and the raw URL alphabet), \<open>encoding/hex\<close>, and the string and object output of
  \<open>encoding/json\<close>. The base64 and hex decoders are shown to undo the encoders, and JSON output
  is shown to stay on one line.
\<close>

section \<open>Base64\<close>

definition std_alphabet :: string where
  "std_alphabet = ''ABCDEFGHIJKLMNOPQRSTUVWXYZabcdefghijklmnopqrstuvwxyz0123456789+/''"

definition url_alphabet :: string where
  "url_alphabet = ''ABCDEFGHIJKLMNOPQRSTUVWXYZabcdefghijklmnopqrstuvwxyz0123456789-_''"

fun b64_enc :: "string \<Rightarrow> bool \<Rightarrow> string \<Rightarrow> string" where
  "b64_enc al pad [] = []"
| "b64_enc al pad [a] =
     (let x = of_char a
      in [al ! (x div 4), al ! (x mod 4 * 16)] @ (if pad then ''=='' else []))"
| "b64_enc al pad [a, b] =
     (let x = of_char a; y = of_char b
      in [al ! (x div 4), al ! (x mod 4 * 16 + y div 16), al ! (y mod 16 * 4)]
           @ (if pad then ''='' else []))"
| "b64_enc al pad (a # b # c # rest) =
     (let x = of_char a; y = of_char b; z = of_char c
      in [al ! (x div 4), al ! (x mod 4 * 16 + y div 16), al ! (y mod 16 * 4 + z div 64),
          al ! (z mod 64)] @ b64_enc al pad rest)"

fun idx_from :: "nat \<Rightarrow> string \<Rightarrow> char \<Rightarrow> nat option" where
  "idx_from n [] c = None"
| "idx_from n (x # xs) c = (if x = c then Some n else idx_from (Suc n) xs c)"

abbreviation idx :: "string \<Rightarrow> char \<Rightarrow> nat option" where
  "idx al c \<equiv> idx_from 0 al c"

definition byte1 :: "nat \<Rightarrow> nat \<Rightarrow> char" where "byte1 p q = char_of (p * 4 + q div 16)"
definition byte2 :: "nat \<Rightarrow> nat \<Rightarrow> char" where "byte2 q r = char_of (q mod 16 * 16 + r div 4)"
definition byte3 :: "nat \<Rightarrow> nat \<Rightarrow> char" where "byte3 r s = char_of (r mod 4 * 64 + s)"

definition dec2 :: "string \<Rightarrow> char \<Rightarrow> char \<Rightarrow> string option" where
  "dec2 al a b = (case (idx al a, idx al b) of
      (Some p, Some q) \<Rightarrow> Some [byte1 p q] | _ \<Rightarrow> None)"

definition dec3 :: "string \<Rightarrow> char \<Rightarrow> char \<Rightarrow> char \<Rightarrow> string option" where
  "dec3 al a b c = (case (idx al a, idx al b, idx al c) of
      (Some p, Some q, Some r) \<Rightarrow> Some [byte1 p q, byte2 q r] | _ \<Rightarrow> None)"

definition dec4 :: "string \<Rightarrow> char \<Rightarrow> char \<Rightarrow> char \<Rightarrow> char \<Rightarrow> string option" where
  "dec4 al a b c d = (case (idx al a, idx al b, idx al c, idx al d) of
      (Some p, Some q, Some r, Some s) \<Rightarrow> Some [byte1 p q, byte2 q r, byte3 r s] | _ \<Rightarrow> None)"

text \<open>
  Quanta of four characters; padding only at the end and only complete when the encoding pads.
  As in Go's non-strict mode the unused low bits of the last character are not checked.
\<close>

fun b64_quads :: "string \<Rightarrow> bool \<Rightarrow> string \<Rightarrow> string option" where
  "b64_quads al pad [] = Some []"
| "b64_quads al pad [a] = None"
| "b64_quads al pad [a, b] = (if pad then None else dec2 al a b)"
| "b64_quads al pad [a, b, c] = (if pad then None else dec3 al a b c)"
| "b64_quads al pad (a # b # c # d # rest) =
     (if pad \<and> c = CHR ''='' then (if d = CHR ''='' \<and> rest = [] then dec2 al a b else None)
      else if pad \<and> d = CHR ''='' then (if rest = [] then dec3 al a b c else None)
      else (case dec4 al a b c d of
              None \<Rightarrow> None
            | Some xs \<Rightarrow> map_option (\<lambda>ys. xs @ ys) (b64_quads al pad rest)))"

text \<open>Go's decoder skips carriage returns and line feeds wherever they stand.\<close>

definition b64_dec :: "string \<Rightarrow> bool \<Rightarrow> string \<Rightarrow> string option" where
  "b64_dec al pad s = b64_quads al pad (filter (\<lambda>c. c \<noteq> CHR 0x0A \<and> c \<noteq> CHR 0x0D) s)"

definition stdEncode :: "string \<Rightarrow> string" where "stdEncode = b64_enc std_alphabet True"
definition stdDecode :: "string \<Rightarrow> string option" where "stdDecode = b64_dec std_alphabet True"
definition rawURLEncode :: "string \<Rightarrow> string" where "rawURLEncode = b64_enc url_alphabet False"
definition rawURLDecode :: "string \<Rightarrow> string option" where
  "rawURLDecode = b64_dec url_alphabet False"

lemma idx_from_nth:
  "distinct xs \<Longrightarrow> i < length xs \<Longrightarrow> idx_from n xs (xs ! i) = Some (n + i)"
proof (induction xs arbitrary: i n)
  case (Cons x xs)
  then show ?case by (cases i) (auto simp: nth_mem)
qed simp

lemma mult_add_div_mod:
  fixes m y k :: nat
  assumes "y < k"
  shows "(m * k + y) div k = m" and "(m * k + y) mod k = y"
  using assms by simp_all

lemma byte_div: "n < 256 \<Longrightarrow> n div 4 < (64::nat)" "n < 256 \<Longrightarrow> n div 16 < (16::nat)"
    "n < 256 \<Longrightarrow> n div 64 < (4::nat)"
  by (simp_all add: div_less_iff_less_mult)

lemma byte1_enc: "y < 16 \<Longrightarrow> byte1 (of_char a div 4) (of_char a mod 4 * 16 + y) = a"
  by (simp add: byte1_def mult_add_div_mod)

lemma byte2_enc:
  assumes "z < 4"
  shows "byte2 (x * 16 + of_char b div 16) (of_char b mod 16 * 4 + z) = b"
proof -
  have "of_char b div 16 < (16::nat)" by (rule byte_div) simp
  then show ?thesis using assms by (simp add: byte2_def mult_add_div_mod)
qed

lemma byte3_enc: "byte3 (x * 4 + of_char c div 64) (of_char c mod 64) = c"
proof -
  have "of_char c div 64 < (4::nat)" by (rule byte_div) simp
  then show ?thesis by (simp add: byte3_def mult_add_div_mod)
qed

text \<open>The encoder takes three bytes at a time.\<close>

lemma chunk3_induct [case_names Nil One Two Three]:
  fixes P :: "string \<Rightarrow> bool"
  assumes "P []" and "\<And>a. P [a]" and "\<And>a b. P [a, b]"
    and "\<And>a b c rest. P rest \<Longrightarrow> P (a # b # c # rest)"
  shows "P s"
  by (rule b64_enc.induct[of "\<lambda>_ _ s. P s"]) (use assms in auto)

locale b64_alphabet =
  fixes al :: string
  assumes distinct_al: "distinct al" and length_al: "length al = 64"
    and no_special: "CHR ''='' \<notin> set al" "CHR 0x0A \<notin> set al" "CHR 0x0D \<notin> set al"
begin

lemma idx_nth: "n < 64 \<Longrightarrow> idx al (al ! n) = Some n"
  using idx_from_nth[OF distinct_al, of n 0] by (simp add: length_al)

lemma nth_neq: "n < 64 \<Longrightarrow> al ! n \<noteq> CHR ''='' \<and> al ! n \<noteq> CHR 0x0A \<and> al ! n \<noteq> CHR 0x0D"
  using no_special length_al by (metis nth_mem)

lemma sextets:
  fixes a b :: char
  shows "of_char a div 4 < (64::nat)" "of_char a mod 4 * 16 < (64::nat)"
    "of_char a mod 16 * 4 < (64::nat)" "of_char a mod 64 < (64::nat)"
    "of_char a mod 4 * 16 + of_char b div 16 < (64::nat)"
    "of_char a mod 16 * 4 + of_char b div 64 < (64::nat)"
proof -
  have a: "of_char a mod 4 < (4::nat)" "of_char a mod 16 < (16::nat)" by simp_all
  have b: "of_char b div 16 < (16::nat)" "of_char b div 64 < (4::nat)" by (simp_all add: byte_div)
  show "of_char a div 4 < (64::nat)" by (simp add: byte_div)
  show "of_char a mod 4 * 16 < (64::nat)" "of_char a mod 16 * 4 < (64::nat)"
    "of_char a mod 64 < (64::nat)" "of_char a mod 4 * 16 + of_char b div 16 < (64::nat)"
    "of_char a mod 16 * 4 + of_char b div 64 < (64::nat)"
    using a b by linarith+
qed

lemma nth_facts:
  assumes "n < 64"
  shows "idx al (al ! n) = Some n" and "al ! n \<noteq> CHR ''=''"
    and "CHR 0x0A \<noteq> al ! n" and "CHR 0x0D \<noteq> al ! n"
  using idx_nth nth_neq assms by metis+

lemma dec2_enc: "dec2 al (al ! (of_char a div 4)) (al ! (of_char a mod 4 * 16)) = Some [a]"
  using byte1_enc[of 0 a] by (simp add: dec2_def nth_facts(1) sextets)

lemma dec3_enc:
  "dec3 al (al ! (of_char a div 4)) (al ! (of_char a mod 4 * 16 + of_char b div 16))
     (al ! (of_char b mod 16 * 4)) = Some [a, b]"
  using byte2_enc[of 0 _ b]
  by (simp add: dec3_def nth_facts(1) sextets byte1_enc byte_div)

lemma dec4_enc:
  "dec4 al (al ! (of_char a div 4)) (al ! (of_char a mod 4 * 16 + of_char b div 16))
     (al ! (of_char b mod 16 * 4 + of_char c div 64)) (al ! (of_char c mod 64)) = Some [a, b, c]"
  by (simp add: dec4_def nth_facts(1) sextets byte1_enc byte2_enc byte3_enc byte_div)

lemma quads_enc: "b64_quads al pad (b64_enc al pad s) = Some s"
  by (induction s rule: chunk3_induct)
     (simp_all add: Let_def dec2_enc dec3_enc dec4_enc nth_facts sextets)

lemma enc_no_newline: "CHR 0x0A \<notin> set (b64_enc al pad s) \<and> CHR 0x0D \<notin> set (b64_enc al pad s)"
  by (induction s rule: chunk3_induct) (simp_all add: Let_def nth_facts sextets)

lemma enc_alphabet: "set (b64_enc al pad s) \<subseteq> set al \<union> (if pad then {CHR ''=''} else {})"
  by (induction s rule: chunk3_induct) (auto simp: Let_def length_al sextets)

sublocale codec "b64_enc al pad" "b64_dec al pad"
proof
  fix s
  have "filter (\<lambda>c. c \<noteq> CHR 0x0A \<and> c \<noteq> CHR 0x0D) (b64_enc al pad s) = b64_enc al pad s"
    using enc_no_newline[of pad s] by (auto simp: filter_id_conv)
  then show "b64_dec al pad (b64_enc al pad s) = Some s"
    by (simp add: b64_dec_def quads_enc)
qed

end

lemma std_alphabet_ok: "b64_alphabet std_alphabet"
  by unfold_locales (simp_all add: std_alphabet_def)

lemma url_alphabet_ok: "b64_alphabet url_alphabet"
  by unfold_locales (simp_all add: url_alphabet_def)

interpretation std64: b64_alphabet std_alphabet by (rule std_alphabet_ok)
interpretation url64: b64_alphabet url_alphabet by (rule url_alphabet_ok)

interpretation stdc: codec stdEncode stdDecode
  unfolding stdEncode_def stdDecode_def by (rule std64.codec_axioms)

interpretation urlc: codec rawURLEncode rawURLDecode
  unfolding rawURLEncode_def rawURLDecode_def by (rule url64.codec_axioms)

text \<open>The raw URL encoding uses no dot, quote or slash, so it can stand in cookies and paths.\<close>

lemma rawURLEncode_safe: "set (rawURLEncode s) \<subseteq> set url_alphabet"
  using url64.enc_alphabet[of False s] by (simp add: rawURLEncode_def)

lemma stdEncode_eq_Nil [simp]: "stdEncode s = [] \<longleftrightarrow> s = []"
  by (induction s rule: chunk3_induct) (simp_all add: stdEncode_def Let_def)

section \<open>Hexadecimal\<close>

definition hex_digits :: string where "hex_digits = ''0123456789abcdef''"

fun hexEncode :: "string \<Rightarrow> string" where
  "hexEncode [] = []"
| "hexEncode (c # cs) = hex_digits ! (of_char c div 16) # hex_digits ! (of_char c mod 16) # hexEncode cs"

definition hex_val :: "char \<Rightarrow> nat option" where
  "hex_val c =
     (let n = (of_char c :: nat)
      in if 48 \<le> n \<and> n \<le> 57 then Some (n - 48)
         else if 97 \<le> n \<and> n \<le> 102 then Some (n - 87)
         else if 65 \<le> n \<and> n \<le> 70 then Some (n - 55) else None)"

fun hexDecode :: "string \<Rightarrow> string option" where
  "hexDecode [] = Some []"
| "hexDecode [a] = None"
| "hexDecode (a # b # rest) =
     (case (hex_val a, hex_val b, hexDecode rest) of
        (Some x, Some y, Some cs) \<Rightarrow> Some (char_of (x * 16 + y) # cs)
      | _ \<Rightarrow> None)"

lemma hex_val_digit: "n < 16 \<Longrightarrow> hex_val (hex_digits ! n) = Some n"
proof -
  have "\<forall>k\<in>set [0..<16]. hex_val (hex_digits ! k) = Some k" by code_simp
  then show "n < 16 \<Longrightarrow> ?thesis" by simp
qed

lemma hex_dec_enc: "hexDecode (hexEncode s) = Some s"
proof (induction s)
  case (Cons c cs)
  have "of_char c div 16 < (16::nat)" by (rule byte_div) simp
  with Cons.IH show ?case by (simp add: hex_val_digit)
qed simp

interpretation hexc: codec hexEncode hexDecode
  by unfold_locales (rule hex_dec_enc)

section \<open>JSON output\<close>

text \<open>
  How \<open>encoding/json\<close> writes a string: HTML-sensitive and control characters escaped, well-formed
  UTF-8 copied (but for U+2028 and U+2029), every byte that starts no rune replaced by U+FFFD.
  \<open>utf8_width\<close> is the length of a multi-byte rune at the head of the string, if there is one.
\<close>

abbreviation cont_byte :: "char \<Rightarrow> bool" where
  "cont_byte c \<equiv> 128 \<le> (of_char c :: nat) \<and> (of_char c :: nat) \<le> 191"

definition second_ok :: "nat \<Rightarrow> char \<Rightarrow> bool" where
  "second_ok b c \<longleftrightarrow> cont_byte c \<and>
     (b = 224 \<longrightarrow> 160 \<le> (of_char c :: nat)) \<and> (b = 237 \<longrightarrow> (of_char c :: nat) \<le> 159) \<and>
     (b = 240 \<longrightarrow> 144 \<le> (of_char c :: nat)) \<and> (b = 244 \<longrightarrow> (of_char c :: nat) \<le> 143)"

definition utf8_width :: "char \<Rightarrow> string \<Rightarrow> nat option" where
  "utf8_width c cs =
     (let b = (of_char c :: nat);
          n = (if 194 \<le> b \<and> b \<le> 223 then 1 else if 224 \<le> b \<and> b \<le> 239 then 2
               else if 240 \<le> b \<and> b \<le> 244 then 3 else 0)
      in if n = 0 \<or> length cs < n then None
         else if second_ok b (hd cs) \<and> list_all cont_byte (take n cs) then Some n else None)"

definition json_ascii :: "char \<Rightarrow> string" where
  "json_ascii c =
     (let b = (of_char c :: nat)
      in if c = CHR 0x22 \<or> c = CHR 0x5C then [CHR 0x5C, c]
         else if b = 8 then [CHR 0x5C, CHR ''b'']
         else if b = 12 then [CHR 0x5C, CHR ''f'']
         else if b = 10 then [CHR 0x5C, CHR ''n'']
         else if b = 13 then [CHR 0x5C, CHR ''r'']
         else if b = 9 then [CHR 0x5C, CHR ''t'']
         else if b < 32 \<or> c = CHR ''<'' \<or> c = CHR ''>'' \<or> c = CHR ''&''
         then CHR 0x5C # ''u00'' @ [hex_digits ! (b div 16), hex_digits ! (b mod 16)]
         else [c])"

function json_body :: "string \<Rightarrow> string" where
  "json_body [] = []"
| "json_body (c # cs) =
     (if (of_char c :: nat) < 128 then json_ascii c @ json_body cs
      else (case utf8_width c cs of
              None \<Rightarrow> CHR 0x5C # ''ufffd'' @ json_body cs
            | Some n \<Rightarrow>
                (if c # take n cs = [CHR 0xE2, CHR 0x80, CHR 0xA8] then CHR 0x5C # ''u2028''
                 else if c # take n cs = [CHR 0xE2, CHR 0x80, CHR 0xA9] then CHR 0x5C # ''u2029''
                 else c # take n cs) @ json_body (drop n cs)))"
  by pat_completeness auto
termination
  by (relation "measure length") auto

definition json_string :: "string \<Rightarrow> string" where
  "json_string s = [CHR 0x22] @ json_body s @ [CHR 0x22]"

text \<open>An object: the names are string constants of the source, the values already rendered.\<close>

definition json_object :: "(string \<times> string) list \<Rightarrow> string" where
  "json_object fs =
     ''{'' @ join '','' (map (\<lambda>(k, v). json_string k @ '':'' @ v) fs) @ ''}''"

text \<open>\<open>omitempty\<close> on a string or int field drops the zero value.\<close>

definition omit_empty :: "string \<Rightarrow> string \<Rightarrow> (string \<times> string) list" where
  "omit_empty k v = (if v = [] then [] else [(k, json_string v)])"

definition json_int :: "int \<Rightarrow> string" where "json_int = itoa"

abbreviation newline :: char where "newline \<equiv> CHR 0x0A"

lemma hex_digits_neq_newline: "n < 16 \<Longrightarrow> hex_digits ! n \<noteq> newline"
proof -
  have "\<forall>k\<in>set [0..<16]. hex_digits ! k \<noteq> newline" by code_simp
  then show "n < 16 \<Longrightarrow> ?thesis" by simp
qed

lemma json_ascii_one_line: "newline \<notin> set (json_ascii c)"
proof -
  have "of_char c div 16 < (16::nat)" by (rule byte_div) simp
  then show ?thesis
    using hex_digits_neq_newline[of "of_char c div 16"] hex_digits_neq_newline[of "of_char c mod 16"]
    by (auto simp: json_ascii_def Let_def)
qed

lemma cont_byte_neq_newline: "list_all cont_byte xs \<Longrightarrow> newline \<notin> set xs"
  by (auto simp: list_all_iff)

lemma json_body_one_line: "newline \<notin> set (json_body s)"
proof (induction s rule: json_body.induct)
  case (2 c cs)
  show ?case
  proof (cases "(of_char c :: nat) < 128")
    case True
    then show ?thesis using "2.IH"(1) by (simp add: json_ascii_one_line)
  next
    case False
    then have c: "c \<noteq> newline" by auto
    show ?thesis
    proof (cases "utf8_width c cs")
      case None
      then show ?thesis using "2.IH"(2) False by simp
    next
      case (Some n)
      then have "list_all cont_byte (take n cs)"
        by (auto simp: utf8_width_def Let_def split: if_splits)
      then have "newline \<notin> set (take n cs)" by (rule cont_byte_neq_newline)
      with "2.IH"(3)[OF False Some] c show ?thesis using False Some by simp
    qed
  qed
qed simp

lemma json_string_one_line [simp]: "newline \<notin> set (json_string s)"
  by (simp add: json_string_def json_body_one_line)

lemma set_join: "set (join sep xs) \<subseteq> set sep \<union> (\<Union>x\<in>set xs. set x)"
  by (induction sep xs rule: join.induct) auto

lemma json_object_one_line:
  assumes "\<forall>(k, v)\<in>set fs. newline \<notin> set v"
  shows "newline \<notin> set (json_object fs)"
proof -
  have "newline \<notin> (\<Union>x\<in>set (map (\<lambda>(k, v). json_string k @ '':'' @ v) fs). set x)"
    using assms by auto
  then have "newline \<notin> set (join '','' (map (\<lambda>(k, v). json_string k @ '':'' @ v) fs))"
    using set_join[of "'',''" "map (\<lambda>(k, v). json_string k @ '':'' @ v) fs"]
    by (auto simp del: set_map)
  then show ?thesis by (simp add: json_object_def)
qed

lemma omit_empty_one_line: "(k, v) \<in> set (omit_empty n s) \<Longrightarrow> newline \<notin> set v"
  by (auto simp: omit_empty_def split: if_splits)

text \<open>Strings that JSON writes as they are.\<close>

definition json_plain :: "char \<Rightarrow> bool" where
  "json_plain c \<longleftrightarrow> 32 \<le> (of_char c :: nat) \<and> (of_char c :: nat) < 128 \<and>
     c \<notin> {CHR 0x22, CHR 0x5C, CHR ''<'', CHR ''>'', CHR ''&''}"

lemma json_body_plain: "list_all json_plain s \<Longrightarrow> json_body s = s"
  by (induction s) (auto simp: json_plain_def json_ascii_def)

lemma json_string_plain: "list_all json_plain s \<Longrightarrow> json_string s = CHR 0x22 # s @ [CHR 0x22]"
  by (simp add: json_string_def json_body_plain)

end
