(* ===== verification/GoSystem.thy ===== *)
theory GoSystem
  imports GoEncoding
begin

text \<open>
  The operating-system and HTTP vocabulary of the program: files addressed by path (\<open>os\<close>), the
  line scanner (\<open>bufio\<close>), and header maps with canonical keys (\<open>net/http\<close>).
\<close>

section \<open>Files\<close>

text \<open>
  A file system holds file contents by path. A read or a write of a path fails with the error
  text the environment prescribes for it (permissions, a missing directory, a full disk); a failed
  write leaves the content alone. The code tells a missing file (\<open>os.ErrNotExist\<close>) from every
  other error.
\<close>

record fs =
  fs_files :: "string \<Rightarrow> string option"
  fs_read_error :: "string \<Rightarrow> error option"
  fs_write_error :: "string \<Rightarrow> error option"

datatype os_error = NotExist | OtherError error

definition os_error_text :: "os_error \<Rightarrow> error" where
  "os_error_text e = (case e of NotExist \<Rightarrow> ''file does not exist'' | OtherError t \<Rightarrow> t)"

definition readFile :: "fs \<Rightarrow> string \<Rightarrow> os_error + string" where
  "readFile d p =
     (case fs_read_error d p of
        Some e \<Rightarrow> Inl (OtherError e)
      | None \<Rightarrow> (case fs_files d p of None \<Rightarrow> Inl NotExist | Some c \<Rightarrow> Inr c))"

text \<open>\<open>os.WriteFile\<close> replaces the content, \<open>O_CREATE|O_APPEND\<close> adds to it.\<close>

definition writeFile :: "fs \<Rightarrow> string \<Rightarrow> string \<Rightarrow> fs result" where
  "writeFile d p s =
     (case fs_write_error d p of
        Some e \<Rightarrow> Inl e
      | None \<Rightarrow> Inr (d\<lparr>fs_files := (fs_files d)(p := Some s)\<rparr>))"

definition file_text :: "fs \<Rightarrow> string \<Rightarrow> string" where
  "file_text d p = (case fs_files d p of None \<Rightarrow> [] | Some c \<Rightarrow> c)"

definition appendFile :: "fs \<Rightarrow> string \<Rightarrow> string \<Rightarrow> fs result" where
  "appendFile d p s = writeFile d p (file_text d p @ s)"

text \<open>A write whose error the code discards.\<close>

definition append_ignoring_errors :: "fs \<Rightarrow> string \<Rightarrow> string \<Rightarrow> fs" where
  "append_ignoring_errors d p s = (case appendFile d p s of Inl _ \<Rightarrow> d | Inr d' \<Rightarrow> d')"

lemma file_text_append:
  "file_text (append_ignoring_errors d p s) q =
     (if q = p \<and> fs_write_error d p = None then file_text d p @ s else file_text d q)"
  by (simp add: append_ignoring_errors_def appendFile_def writeFile_def file_text_def
      split: option.splits)

lemma fs_errors_append [simp]:
  "fs_write_error (append_ignoring_errors d p s) = fs_write_error d"
  "fs_read_error (append_ignoring_errors d p s) = fs_read_error d"
  by (simp_all add: append_ignoring_errors_def appendFile_def writeFile_def split: option.splits)

section \<open>The line scanner\<close>

text \<open>
  \<open>bufio.Scanner\<close> with its default split function and buffer: lines end at a line feed, one
  trailing carriage return is dropped, a final empty line is not reported, and a line that fills
  the 64 KiB buffer stops the scan with \<open>ErrTooLong\<close>. The flag says whether that happened.
\<close>

definition scan_limit :: nat where "scan_limit = 65536"

definition drop_cr :: "string \<Rightarrow> string" where
  "drop_cr l = (if l \<noteq> [] \<and> last l = CHR 0x0D then butlast l else l)"

fun take_short :: "string list \<Rightarrow> string list \<times> bool" where
  "take_short [] = ([], True)"
| "take_short (l # ls) =
     (if scan_limit \<le> length l then ([], False)
      else (let (ks, ok) = take_short ls in (drop_cr l # ks, ok)))"

definition raw_lines :: "string \<Rightarrow> string list" where
  "raw_lines s =
     (let ls = split_at newline s in if last ls = [] then butlast ls else ls)"

definition scan_lines :: "string \<Rightarrow> string list \<times> bool" where
  "scan_lines s = take_short (raw_lines s)"

lemma split_at_append_gen:
  "split_at c (a @ c # b) = split_at c a @ split_at c b"
proof (induction a)
  case (Cons x xs)
  then show ?case by (cases "split_at c xs") auto
qed simp

lemma split_at_snoc: "split_at c (a @ [c]) = split_at c a @ [[]]"
  using split_at_append_gen[of c a "[]"] by simp

text \<open>Appending a line to a file that is empty or ends in a line feed adds exactly that line.\<close>

definition ends_line :: "string \<Rightarrow> bool" where
  "ends_line s \<longleftrightarrow> s = [] \<or> last s = newline"

lemma raw_lines_append_line:
  assumes "ends_line s" and "newline \<notin> set l"
  shows "raw_lines (s @ l @ [newline]) = raw_lines s @ [l]"
proof (cases "s = []")
  case True
  then show ?thesis using assms(2)
    by (simp add: raw_lines_def split_at_snoc split_at_notin)
next
  case False
  then obtain t where s: "s = t @ [newline]"
    using assms(1) by (metis append_butlast_last_id ends_line_def)
  have "split_at newline (s @ l @ [newline]) = split_at newline t @ [l] @ [[]]"
    using assms(2) by (simp add: s split_at_append_gen split_at_snoc split_at_notin)
  then show ?thesis by (simp add: raw_lines_def s split_at_snoc butlast_append)
qed

lemma ends_line_append [simp]: "ends_line (s @ l @ [newline])"
  by (simp add: ends_line_def)

lemma take_short_append:
  "take_short (ls @ ks) =
     (case take_short ls of
        (xs, True) \<Rightarrow> (let (ys, ok) = take_short ks in (xs @ ys, ok))
      | (xs, False) \<Rightarrow> (xs, False))"
  by (induction ls) (auto split: prod.splits bool.splits)

lemma raw_lines_clean: "l \<in> set (raw_lines s) \<Longrightarrow> newline \<notin> set l"
  using split_at_parts[of l newline s]
  by (auto simp: raw_lines_def Let_def dest: in_set_butlastD split: if_splits)

section \<open>HTTP headers\<close>

text \<open>
  An \<open>http.Header\<close> maps canonical keys to lists of values. \<open>canonicalKey\<close> is
  \<open>textproto.CanonicalMIMEHeaderKey\<close>: a key made of token bytes gets an upper-case letter at the
  start and after each hyphen and lower-case letters elsewhere; any other key is left alone.
\<close>

type_synonym header = "(string, string list) gomap"

definition token_char :: "char \<Rightarrow> bool" where
  "token_char c \<longleftrightarrow>
     (let n = (of_char c :: nat)
      in 48 \<le> n \<and> n \<le> 57 \<or> 65 \<le> n \<and> n \<le> 90 \<or> 97 \<le> n \<and> n \<le> 122) \<or>
     c \<in> set ''!#$%&*+-.^_|~'' \<or> c = CHR 0x27 \<or> c = CHR 0x60"

fun canon_from :: "bool \<Rightarrow> string \<Rightarrow> string" where
  "canon_from up [] = []"
| "canon_from up (c # cs) =
     (if up then upper_char c else lower_char c) # canon_from (c = CHR ''-'') cs"

definition canonicalKey :: "string \<Rightarrow> string" where
  "canonicalKey k = (if list_all token_char k then canon_from True k else k)"

definition hvalues :: "header \<Rightarrow> string \<Rightarrow> string list" where
  "hvalues h k = (case mget h (canonicalKey k) of None \<Rightarrow> [] | Some vs \<Rightarrow> vs)"

definition hget :: "header \<Rightarrow> string \<Rightarrow> string" where
  "hget h k = (case hvalues h k of [] \<Rightarrow> [] | v # _ \<Rightarrow> v)"

definition hset :: "header \<Rightarrow> string \<Rightarrow> string \<Rightarrow> header" where
  "hset h k v = mput (canonicalKey k) [v] h"

definition hadd :: "header \<Rightarrow> string \<Rightarrow> string \<Rightarrow> header" where
  "hadd h k v = mput (canonicalKey k) (hvalues h k @ [v]) h"

definition hdel :: "header \<Rightarrow> string \<Rightarrow> header" where
  "hdel h k = AList.delete (canonicalKey k) h"

lemma hvalues_hset:
  "hvalues (hset h k v) k' = (if canonicalKey k' = canonicalKey k then [v] else hvalues h k')"
  by (simp add: hvalues_def hset_def)

lemma hvalues_hadd:
  "hvalues (hadd h k v) k' =
     (if canonicalKey k' = canonicalKey k then hvalues h k @ [v] else hvalues h k')"
  by (simp add: hvalues_def hadd_def)

lemma hvalues_hdel:
  "hvalues (hdel h k) k' = (if canonicalKey k' = canonicalKey k then [] else hvalues h k')"
  by (simp add: hvalues_def hdel_def delete_conv')

lemma hget_hset:
  "hget (hset h k v) k' = (if canonicalKey k' = canonicalKey k then v else hget h k')"
  by (simp add: hget_def hvalues_hset)

lemma wf_hset [simp]: "wf_map h \<Longrightarrow> wf_map (hset h k v)"
  by (simp add: hset_def)

lemma wf_hadd [simp]: "wf_map h \<Longrightarrow> wf_map (hadd h k v)"
  by (simp add: hadd_def)

lemma wf_hdel [simp]: "wf_map h \<Longrightarrow> wf_map (hdel h k)"
  by (simp add: hdel_def distinct_delete)

text \<open>The header names of the program in canonical form.\<close>

lemma canonical_names [simp]:
  "canonicalKey ''X-Keyless-Token'' = ''X-Keyless-Token''"
  "canonicalKey ''X-Keyless-Client-ID'' = ''X-Keyless-Client-Id''"
  "canonicalKey ''X-Keyless-Key-ID'' = ''X-Keyless-Key-Id''"
  "canonicalKey ''Content-Type'' = ''Content-Type''"
  "canonicalKey ''Cache-Control'' = ''Cache-Control''"
  "canonicalKey ''Set-Cookie'' = ''Set-Cookie''"
  "canonicalKey ''Authorization'' = ''Authorization''"
  "canonicalKey ''Accept-Encoding'' = ''Accept-Encoding''"
  "canonicalKey ''Content-Encoding'' = ''Content-Encoding''"
  "canonicalKey ''Content-Length'' = ''Content-Length''"
  "canonicalKey ''Upgrade'' = ''Upgrade''"
  "canonicalKey ''Connection'' = ''Connection''"
  "canonicalKey ''Vary'' = ''Vary''"
  "canonicalKey ''Age'' = ''Age''"
  "canonicalKey ''Accept'' = ''Accept''"
  "canonicalKey ''Host'' = ''Host''"
  "canonicalKey ''X-Memecdn-Cache'' = ''X-Memecdn-Cache''"
  "canonicalKey ''X-Memecdn-Compression'' = ''X-Memecdn-Compression''"
  by code_simp+

end
