(* ===== verification/Protocol.thy ===== *)
theory Protocol
  imports GoSystem
begin

text \<open>
  The wire protocol of the keyless signer (\<open>internal/keyless/protocol.go\<close>): hash names, the
  translation between \<open>crypto.SignerOpts\<close> and a \<open>SignRequest\<close>, payload decoding, JSON bodies.
\<close>

section \<open>Hashes\<close>

text \<open>\<open>crypto.Hash\<close> is an unsigned number; the names the protocol knows have these values.\<close>

type_synonym hash = nat

abbreviation (input) SHA1 :: hash where "SHA1 \<equiv> 3"
abbreviation (input) SHA224 :: hash where "SHA224 \<equiv> 4"
abbreviation (input) SHA256 :: hash where "SHA256 \<equiv> 5"
abbreviation (input) SHA384 :: hash where "SHA384 \<equiv> 6"
abbreviation (input) SHA512 :: hash where "SHA512 \<equiv> 7"

definition SchemeDefault :: string where "SchemeDefault = ''default''"
definition SchemeRSAPSS :: string where "SchemeRSAPSS = ''rsa-pss''"

definition HeaderToken :: string where "HeaderToken = ''X-Keyless-Token''"
definition HeaderClientID :: string where "HeaderClientID = ''X-Keyless-Client-ID''"
definition HeaderKeyID :: string where "HeaderKeyID = ''X-Keyless-Key-ID''"

definition HashName :: "hash \<Rightarrow> string" where
  "HashName h =
     (if h = SHA1 then ''SHA1''
      else if h = SHA224 then ''SHA224''
      else if h = SHA256 then ''SHA256''
      else if h = SHA384 then ''SHA384''
      else if h = SHA512 then ''SHA512''
      else if h = 0 then ''NONE''
      else ''UNKNOWN-'' @ show_nat h)"

text \<open>\<open>%q\<close>, for text without control or non-ASCII characters.\<close>

definition go_quote :: "string \<Rightarrow> string" where
  "go_quote s =
     [CHR 0x22] @
     concat (map (\<lambda>c. if c = CHR 0x22 \<or> c = CHR 0x5C then [CHR 0x5C, c] else [c]) s) @
     [CHR 0x22]"

definition ParseHash :: "string \<Rightarrow> hash result" where
  "ParseHash name =
     (let n = toUpper name
      in if n = [] \<or> n = ''NONE'' then Inr 0
         else if n = ''SHA1'' then Inr SHA1
         else if n = ''SHA224'' then Inr SHA224
         else if n = ''SHA256'' then Inr SHA256
         else if n = ''SHA384'' then Inr SHA384
         else if n = ''SHA512'' then Inr SHA512
         else Inl (''unsupported hash '' @ go_quote name))"

section \<open>Signer options and requests\<close>

text \<open>
  \<open>crypto.SignerOpts\<close> is an interface. The code asks for its hash and whether it is a
  \<open>*rsa.PSSOptions\<close>; \<open>HashOpts\<close> is a plain \<open>crypto.Hash\<close>, \<open>OtherOpts\<close> any other implementation.
\<close>

datatype signer_opts =
    HashOpts hash
  | PSSOptions (pss_salt_length: int) (pss_hash: hash)
  | OtherOpts hash

fun HashFunc :: "signer_opts \<Rightarrow> hash" where
  "HashFunc (HashOpts h) = h"
| "HashFunc (PSSOptions _ h) = h"
| "HashFunc (OtherOpts h) = h"

record SignRequest =
  sr_payload :: string
  sr_hash :: string
  sr_scheme :: string
  sr_salt_length :: int

definition RequestFromSignerInput :: "string \<Rightarrow> signer_opts \<Rightarrow> SignRequest" where
  "RequestFromSignerInput payload opts =
     (let req = \<lparr>sr_payload = stdEncode payload, sr_hash = HashName (HashFunc opts),
                 sr_scheme = SchemeDefault, sr_salt_length = 0\<rparr>
      in case opts of
           PSSOptions salt _ \<Rightarrow> req\<lparr>sr_scheme := SchemeRSAPSS, sr_salt_length := salt\<rparr>
         | _ \<Rightarrow> req)"

definition SignerOptsFromRequest :: "SignRequest \<Rightarrow> signer_opts result" where
  "SignerOptsFromRequest req =
     (case ParseHash (sr_hash req) of
        Inl e \<Rightarrow> Inl e
      | Inr h \<Rightarrow>
          if sr_scheme req = [] \<or> sr_scheme req = SchemeDefault then Inr (HashOpts h)
          else if sr_scheme req = SchemeRSAPSS then Inr (PSSOptions (sr_salt_length req) h)
          else Inl (''unsupported signing scheme '' @ go_quote (sr_scheme req)))"

definition DecodePayload :: "string \<Rightarrow> string result" where
  "DecodePayload encoded =
     (if encoded = [] then Inl ''empty payload''
      else (case stdDecode encoded of
              None \<Rightarrow> Inl ''illegal base64 data''
            | Some bs \<Rightarrow> Inr bs))"

section \<open>Public keys\<close>

text \<open>
  Keys and \<open>crypto/x509\<close> are parameters: \<open>marshalPKIX\<close> and \<open>parsePKIX\<close> stand for
  \<open>x509.MarshalPKIXPublicKey\<close> and \<open>x509.ParsePKIXPublicKey\<close>.
\<close>

definition EncodePublicKey :: "('pub \<Rightarrow> string result) \<Rightarrow> 'pub \<Rightarrow> string result" where
  "EncodePublicKey marshalPKIX pub =
     (case marshalPKIX pub of Inl e \<Rightarrow> Inl e | Inr der \<Rightarrow> Inr (stdEncode der))"

definition DecodePublicKey :: "(string \<Rightarrow> 'pub result) \<Rightarrow> string \<Rightarrow> 'pub result" where
  "DecodePublicKey parsePKIX encoded =
     (case stdDecode encoded of
        None \<Rightarrow> Inl ''illegal base64 data''
      | Some der \<Rightarrow> parsePKIX der)"

section \<open>JSON bodies\<close>

text \<open>
  \<open>ReadJSON\<close> hands the first \<open>maxBytes\<close> bytes of the body to the JSON decoder, which is a
  parameter. The encoders write the fields in declaration order.
\<close>

definition ReadJSON :: "(string \<Rightarrow> 'a result) \<Rightarrow> nat \<Rightarrow> string \<Rightarrow> 'a result" where
  "ReadJSON decode maxBytes body = decode (take maxBytes body)"

definition json_SignRequest :: "SignRequest \<Rightarrow> string" where
  "json_SignRequest r =
     json_object ([(''payload'', json_string (sr_payload r)), (''hash'', json_string (sr_hash r)),
                   (''scheme'', json_string (sr_scheme r))]
                  @ (if sr_salt_length r = 0 then []
                     else [(''salt_length'', json_int (sr_salt_length r))]))"

section \<open>Facts\<close>

definition supported_hash :: "hash \<Rightarrow> bool" where
  "supported_hash h \<longleftrightarrow> h \<in> set [0, SHA1, SHA224, SHA256, SHA384, SHA512]"

lemma toUpper_names [simp]:
  "toUpper ''NONE'' = ''NONE''" "toUpper ''SHA1'' = ''SHA1''" "toUpper ''SHA224'' = ''SHA224''"
  "toUpper ''SHA256'' = ''SHA256''" "toUpper ''SHA384'' = ''SHA384''"
  "toUpper ''SHA512'' = ''SHA512''" "toUpper [] = []"
  by code_simp+

lemma ParseHash_range: "ParseHash n = Inr h \<Longrightarrow> supported_hash h"
  by (auto simp: ParseHash_def supported_hash_def Let_def split: if_splits)

lemma toUpper_digits: "set s \<subseteq> {c. digit_val c \<noteq> None} \<Longrightarrow> toUpper s = s"
  by (induction s) (auto simp: toUpper_def upper_char_def digit_val_def Let_def split: if_splits)

lemma ParseHash_HashName: "ParseHash (HashName h) = Inr h \<longleftrightarrow> supported_hash h"
proof (cases "supported_hash h")
  case True
  then show ?thesis
    by (auto simp: supported_hash_def HashName_def ParseHash_def Let_def)
next
  case False
  then show ?thesis using ParseHash_range[of "HashName h" h] by auto
qed

lemma ParseHash_unsupported: "\<not> supported_hash h \<Longrightarrow> \<exists>e. ParseHash (HashName h) = Inl e"
proof -
  assume h: "\<not> supported_hash h"
  have "toUpper (''UNKNOWN-'' @ show_nat h) = ''UNKNOWN-'' @ show_nat h"
    using toUpper_digits[of "show_nat h"] show_nat_digits[of _ h]
    by (simp add: toUpper_def) (use upper_char_def in \<open>force simp: Let_def\<close>)
  with h show ?thesis
    by (auto simp: supported_hash_def HashName_def ParseHash_def Let_def)
qed

lemma DecodePayload_stdEncode: "p \<noteq> [] \<Longrightarrow> DecodePayload (stdEncode p) = Inr p"
  by (simp add: DecodePayload_def stdc.dec_enc)

lemma RequestFromSignerInput_simps:
  "sr_payload (RequestFromSignerInput p opts) = stdEncode p"
  "sr_hash (RequestFromSignerInput p opts) = HashName (HashFunc opts)"
  by (simp_all add: RequestFromSignerInput_def Let_def split: signer_opts.splits)

text \<open>What an options value becomes after the trip over the wire.\<close>

fun wire_opts :: "signer_opts \<Rightarrow> signer_opts" where
  "wire_opts (OtherOpts h) = HashOpts h"
| "wire_opts opts = opts"

lemma SignerOptsFromRequest_wire:
  assumes "supported_hash (HashFunc opts)"
  shows "SignerOptsFromRequest (RequestFromSignerInput p opts) = Inr (wire_opts opts)"
proof -
  have "ParseHash (HashName (HashFunc opts)) = Inr (HashFunc opts)"
    using assms by (simp add: ParseHash_HashName)
  then show ?thesis
    by (cases opts) (simp_all add: SignerOptsFromRequest_def RequestFromSignerInput_def Let_def
        SchemeDefault_def SchemeRSAPSS_def)
qed

lemma EncodePublicKey_roundtrip:
  "marshalPKIX pub = Inr der \<Longrightarrow> parsePKIX der = Inr pub \<Longrightarrow>
   \<exists>s. EncodePublicKey marshalPKIX pub = Inr s \<and> DecodePublicKey parsePKIX s = Inr pub"
  by (simp add: EncodePublicKey_def DecodePublicKey_def stdc.dec_enc)

section \<open>Properties\<close>

text \<open>
  C21. Requests survive the wire, and only requests the server can honour do: for a non-empty digest the
  server recovers the client's payload and its options (a plain hash, or PSS with the salt length
  and the hash) exactly if the hash has a name in the protocol; any other hash is refused with an
  error instead of being signed under different options.
\<close>
theorem wire_roundtrip:
  assumes "p \<noteq> []"
  shows "DecodePayload (sr_payload (RequestFromSignerInput p opts)) = Inr p
       \<and> (if HashFunc opts \<in> {0, 3, 4, 5, 6, 7}
          then SignerOptsFromRequest (RequestFromSignerInput p opts) =
                 Inr (case opts of PSSOptions salt h \<Rightarrow> PSSOptions salt h | _ \<Rightarrow> HashOpts (HashFunc opts))
          else \<exists>e. SignerOptsFromRequest (RequestFromSignerInput p opts) = Inl e)"
proof (cases "supported_hash (HashFunc opts)")
  case True
  then show ?thesis
    using assms SignerOptsFromRequest_wire[OF True, of p]
    by (cases opts) (simp_all add: RequestFromSignerInput_simps DecodePayload_stdEncode supported_hash_def)
next
  case False
  then obtain e where "ParseHash (HashName (HashFunc opts)) = Inl e"
    using ParseHash_unsupported by blast
  with False assms show ?thesis
    by (auto simp: RequestFromSignerInput_simps DecodePayload_stdEncode SignerOptsFromRequest_def
        supported_hash_def)
qed

theorem wire_roundtrip_witness:
  "SignerOptsFromRequest (RequestFromSignerInput ''digest'' (PSSOptions (- 1) 5)) = Inr (PSSOptions (- 1) 5)
   \<and> (\<exists>e. SignerOptsFromRequest (RequestFromSignerInput ''digest'' (HashOpts 12)) = Inl e)"
  using wire_roundtrip[of "''digest''" "PSSOptions (- 1) 5"] wire_roundtrip[of "''digest''" "HashOpts 12"]
  by simp

end
