(* ===== verification/Auth.thy ===== *)
theory Auth
  imports Protocol
begin

text \<open>
  The signer's client registry (\<open>internal/keyless/auth.go\<close>): loading clients and revocations,
  authenticating a token, the per-minute counters and thresholds, automatic revocation and the
  audit log. A manager operation takes the manager and the file system and returns both.
\<close>

section \<open>Data\<close>

record SignServerOptions =
  opt_Token :: string
  opt_ClientsPath :: string
  opt_RevokedPath :: string
  opt_AuditPath :: string

record ClientConfig =
  cc_id :: string
  cc_token :: string
  cc_private_key :: string
  cc_private_keys :: "(string, string) gomap"
  cc_disabled :: bool
  cc_rate :: int
  cc_auto_signs :: int
  cc_auto_errors :: int
  cc_auto_revoke :: bool

record clientState =
  st_cfg :: ClientConfig
  st_windowStart :: int
  st_signs :: int
  st_errors :: int
  st_autoDisabled :: bool

record authManager =
  am_sharedToken :: string
  am_clientsMode :: bool
  am_clients :: "(string, clientState) gomap"
  am_revoked :: "string set"
  am_revokedPath :: string
  am_auditPath :: string

type_synonym auth_world = "authManager \<times> fs"

section \<open>Loading\<close>

definition fresh_state :: "ClientConfig \<Rightarrow> clientState" where
  "fresh_state c =
     \<lparr>st_cfg = c, st_windowStart = zero_time, st_signs = 0, st_errors = 0,
      st_autoDisabled = False\<rparr>"

fun add_clients ::
  "ClientConfig list \<Rightarrow> (string, clientState) gomap \<Rightarrow> (string, clientState) gomap result" where
  "add_clients [] m = Inr m"
| "add_clients (c # cs) m =
     (let c' = c\<lparr>cc_id := trimSpace (cc_id c)\<rparr>
      in if cc_id c' = [] \<or> cc_token c' = [] then Inl ''client id and token are required''
         else add_clients cs (mput (cc_id c') (fresh_state c') m))"

text \<open>\<open>decode\<close> stands for \<open>json.Unmarshal\<close> of a clients file.\<close>

definition loadClients ::
  "(string \<Rightarrow> ClientConfig list result) \<Rightarrow> fs \<Rightarrow> string \<Rightarrow> authManager \<Rightarrow> authManager result" where
  "loadClients decode d path a =
     (case readFile d path of
        Inl e \<Rightarrow> Inl (os_error_text e)
      | Inr data \<Rightarrow>
          (case decode data of
             Inl e \<Rightarrow> Inl e
           | Inr cs \<Rightarrow>
               (case add_clients cs (am_clients a) of
                  Inl e \<Rightarrow> Inl e
                | Inr m \<Rightarrow> Inr (a\<lparr>am_clients := m\<rparr>))))"

definition revoked_line :: "string \<Rightarrow> string option" where
  "revoked_line l =
     (let id = trimSpace l in if id \<noteq> [] \<and> \<not> hasPrefix id ''#'' then Some id else None)"

definition revoked_ids :: "string list \<Rightarrow> string list" where
  "revoked_ids ls = List.map_filter revoked_line ls"

definition loadRevoked :: "fs \<Rightarrow> string \<Rightarrow> authManager \<Rightarrow> authManager result" where
  "loadRevoked d path a =
     (case readFile d path of
        Inl NotExist \<Rightarrow> Inr a
      | Inl (OtherError e) \<Rightarrow> Inl e
      | Inr text \<Rightarrow>
          (let (ls, ok) = scan_lines text
           in if ok then Inr (a\<lparr>am_revoked := am_revoked a \<union> set (revoked_ids ls)\<rparr>)
              else Inl ''bufio.Scanner: token too long''))"

definition newAuthManager ::
  "(string \<Rightarrow> ClientConfig list result) \<Rightarrow> fs \<Rightarrow> SignServerOptions \<Rightarrow> authManager result" where
  "newAuthManager decode d opts =
     (let a0 = \<lparr>am_sharedToken = opt_Token opts, am_clientsMode = False, am_clients = [],
                am_revoked = {}, am_revokedPath = opt_RevokedPath opts,
                am_auditPath = opt_AuditPath opts\<rparr>
      in case (if opt_ClientsPath opts \<noteq> []
               then loadClients decode d (opt_ClientsPath opts) (a0\<lparr>am_clientsMode := True\<rparr>)
               else Inr a0) of
           Inl e \<Rightarrow> Inl e
         | Inr a1 \<Rightarrow>
             (if opt_RevokedPath opts \<noteq> [] then loadRevoked d (opt_RevokedPath opts) a1
              else Inr a1))"

section \<open>Authentication\<close>

text \<open>The loop over the client map, in the order of the list.\<close>

fun find_client ::
  "string \<Rightarrow> string set \<Rightarrow> (string, clientState) gomap \<Rightarrow> string \<times> bool \<times> string" where
  "find_client token revoked [] = ([], False, ''bad token'')"
| "find_client token revoked ((cid, st) # rest) =
     (if token \<noteq> cc_token (st_cfg st) then find_client token revoked rest
      else if cc_disabled (st_cfg st) then (cid, False, ''client disabled'')
      else if st_autoDisabled st then (cid, False, ''client auto-disabled'')
      else if cid \<in> revoked then (cid, False, ''client revoked'')
      else (cid, True, []))"

definition authenticate :: "authManager \<Rightarrow> string \<Rightarrow> string \<times> bool \<times> string" where
  "authenticate a token =
     (if \<not> am_clientsMode a \<and> am_clients a = [] then
        (if am_sharedToken a = [] \<or> token = am_sharedToken a then (''shared'', True, [])
         else ([], False, ''bad token''))
      else find_client token (am_revoked a) (am_clients a))"

section \<open>Audit log and revocation file\<close>

definition resultName :: "bool \<Rightarrow> string" where
  "resultName ok = (if ok then ''ok'' else ''denied'')"

text \<open>\<open>ts\<close> is the formatted time of the call.\<close>

definition audit_line :: "string \<Rightarrow> string \<Rightarrow> string \<Rightarrow> string \<Rightarrow> string \<Rightarrow> string \<Rightarrow> string" where
  "audit_line ts clientID remoteAddr action res reason =
     json_object ([(''time'', json_string ts)] @ omit_empty ''client_id'' clientID
       @ omit_empty ''remote_addr'' remoteAddr
       @ [(''action'', json_string action), (''result'', json_string res)]
       @ omit_empty ''reason'' reason)"

definition audit ::
  "authManager \<Rightarrow> string \<Rightarrow> string \<Rightarrow> string \<Rightarrow> string \<Rightarrow> string \<Rightarrow> string \<Rightarrow> fs \<Rightarrow> fs" where
  "audit a ts clientID action res reason remoteAddr d =
     (if am_auditPath a = [] then d
      else append_ignoring_errors d (am_auditPath a)
             (audit_line ts clientID remoteAddr action res reason @ [newline]))"

definition appendRevokedLocked :: "string \<Rightarrow> auth_world \<Rightarrow> auth_world" where
  "appendRevokedLocked clientID w =
     (case w of (a, d) \<Rightarrow>
        if clientID \<in> am_revoked a then (a, d)
        else (let a' = a\<lparr>am_revoked := insert clientID (am_revoked a)\<rparr>
              in if am_revokedPath a = [] then (a', d)
                 else (a', append_ignoring_errors d (am_revokedPath a) (clientID @ [newline]))))"

section \<open>Counters and thresholds\<close>

definition roll_window :: "int \<Rightarrow> clientState \<Rightarrow> clientState" where
  "roll_window now st =
     (let minute = time_truncate now time_minute
      in if st_windowStart st = zero_time \<or> st_windowStart st \<noteq> minute
         then st\<lparr>st_windowStart := minute, st_signs := 0, st_errors := 0\<rparr> else st)"

definition count_event :: "string \<Rightarrow> bool \<Rightarrow> clientState \<Rightarrow> clientState" where
  "count_event action ok st =
     (let st1 = (if ok \<and> action = ''sign'' then st\<lparr>st_signs := st_signs st + 1\<rparr> else st)
      in if \<not> ok then st1\<lparr>st_errors := st_errors st1 + 1\<rparr> else st1)"

text \<open>The three \<open>if limit := ...\<close> blocks of \<open>record\<close>, threading the local variables.\<close>

type_synonym verdict = "clientState \<times> bool \<times> string \<times> auth_world"

definition rate_block :: "string \<Rightarrow> verdict \<Rightarrow> verdict" where
  "rate_block action v =
     (case v of (st, ok, reason, w) \<Rightarrow>
        let limit = cc_rate (st_cfg st)
        in if limit > 0 \<and> action = ''sign'' \<and> st_signs st > limit
           then (st, False, ''rate limit exceeded'', w) else v)"

definition signs_block :: "string \<Rightarrow> string \<Rightarrow> verdict \<Rightarrow> verdict" where
  "signs_block clientID action v =
     (case v of (st, ok, reason, w) \<Rightarrow>
        let limit = cc_auto_signs (st_cfg st)
        in if limit > 0 \<and> action = ''sign'' \<and> st_signs st > limit
           then (if cc_auto_revoke (st_cfg st)
                 then (st\<lparr>st_autoDisabled := True\<rparr>, False,
                       ''auto-revoked: sign threshold exceeded'', appendRevokedLocked clientID w)
                 else (st, False, ''auto limit exceeded: sign threshold'', w))
           else v)"

definition errors_block :: "string \<Rightarrow> verdict \<Rightarrow> verdict" where
  "errors_block clientID v =
     (case v of (st, ok, reason, w) \<Rightarrow>
        let limit = cc_auto_errors (st_cfg st)
        in if limit > 0 \<and> st_errors st > limit
           then (if cc_auto_revoke (st_cfg st)
                 then (st\<lparr>st_autoDisabled := True\<rparr>, False,
                       ''auto-revoked: error threshold exceeded'', appendRevokedLocked clientID w)
                 else (st, False, ''auto limit exceeded: error threshold'', w))
           else v)"

definition set_client :: "string \<Rightarrow> clientState \<Rightarrow> authManager \<Rightarrow> authManager" where
  "set_client clientID st a = a\<lparr>am_clients := mput clientID st (am_clients a)\<rparr>"

definition authRecord ::
  "int \<Rightarrow> string \<Rightarrow> string \<Rightarrow> string \<Rightarrow> bool \<Rightarrow> string \<Rightarrow> string \<Rightarrow> auth_world \<Rightarrow> auth_world" where
  "authRecord now ts clientID action ok reason remoteAddr w =
     (if clientID = [] then
        (fst w, audit (fst w) ts clientID action (resultName ok) reason remoteAddr (snd w))
      else (case mget (am_clients (fst w)) clientID of
          None \<Rightarrow>
            (fst w, audit (fst w) ts clientID action (resultName ok) reason remoteAddr (snd w))
        | Some st \<Rightarrow>
            (let (st', ok', reason', a', d') =
                   errors_block clientID (signs_block clientID action (rate_block action
                     (count_event action ok (roll_window now st), ok, reason, w)));
                 a'' = set_client clientID st' a'
             in (a'', audit a'' ts clientID action (resultName ok') reason' remoteAddr d'))))"

definition allowed :: "string \<Rightarrow> string \<Rightarrow> auth_world \<Rightarrow> (bool \<times> string) \<times> auth_world" where
  "allowed clientID action w =
     (case mget (am_clients (fst w)) clientID of
        None \<Rightarrow> ((True, []), w)
      | Some st \<Rightarrow>
          if cc_rate (st_cfg st) > 0 \<and> action = ''sign'' \<and> st_signs st \<ge> cc_rate (st_cfg st)
          then ((False, ''rate limit exceeded''), w)
          else if cc_auto_signs (st_cfg st) > 0 \<and> action = ''sign''
                  \<and> st_signs st \<ge> cc_auto_signs (st_cfg st)
          then (if cc_auto_revoke (st_cfg st)
                then (let (a', d') = appendRevokedLocked clientID w
                      in ((False, ''auto-revoked: sign threshold exceeded''),
                          (set_client clientID (st\<lparr>st_autoDisabled := True\<rparr>) a', d')))
                else ((False, ''auto limit exceeded: sign threshold''), w))
          else ((True, []), w))"

section \<open>Functional behaviour\<close>

subsection \<open>Authentication\<close>

text \<open>What the loop decides about the client whose token was presented.\<close>

definition client_verdict :: "string set \<Rightarrow> string \<Rightarrow> clientState \<Rightarrow> string \<times> bool \<times> string" where
  "client_verdict revoked cid st =
     (if cc_disabled (st_cfg st) then (cid, False, ''client disabled'')
      else if st_autoDisabled st then (cid, False, ''client auto-disabled'')
      else if cid \<in> revoked then (cid, False, ''client revoked'')
      else (cid, True, []))"

definition tokens_distinct :: "(string, clientState) gomap \<Rightarrow> bool" where
  "tokens_distinct m \<longleftrightarrow>
     (\<forall>c1 s1 c2 s2. (c1, s1) \<in> set m \<and> (c2, s2) \<in> set m
        \<and> cc_token (st_cfg s1) = cc_token (st_cfg s2) \<longrightarrow> (c1, s1) = (c2, s2))"

lemma find_client_Cons_match:
  "find_client tok rv ((cid, st) # m) =
     (if tok = cc_token (st_cfg st) then client_verdict rv cid st else find_client tok rv m)"
  by (simp add: client_verdict_def)

lemma find_client_None:
  "\<forall>(c, st)\<in>set m. cc_token (st_cfg st) \<noteq> tok \<Longrightarrow> find_client tok rv m = ([], False, ''bad token'')"
  by (induction m) auto

lemma find_client_cases:
  "find_client tok rv m = ([], False, ''bad token'') \<and> (\<forall>(c, st)\<in>set m. cc_token (st_cfg st) \<noteq> tok)
   \<or> (\<exists>c st. (c, st) \<in> set m \<and> cc_token (st_cfg st) = tok
        \<and> find_client tok rv m = client_verdict rv c st)"
proof (induction m)
  case (Cons x m)
  then show ?case
    by (cases x) (auto simp del: find_client.simps(2) simp: find_client_Cons_match)
qed simp

lemma find_client_mem:
  assumes "tokens_distinct m" and "(c, st) \<in> set m" and "cc_token (st_cfg st) = tok"
  shows "find_client tok rv m = client_verdict rv c st"
  using find_client_cases[of tok rv m] assms
  by (auto simp: tokens_distinct_def)

lemma client_verdict_ok:
  "client_verdict rv c st = (cid, True, r) \<longleftrightarrow>
     cid = c \<and> r = [] \<and> \<not> cc_disabled (st_cfg st) \<and> \<not> st_autoDisabled st \<and> c \<notin> rv"
  by (auto simp: client_verdict_def)

lemma find_client_ok:
  assumes "find_client tok rv m = (cid, True, r)"
  shows "\<exists>st. (cid, st) \<in> set m \<and> cc_token (st_cfg st) = tok \<and> \<not> cc_disabled (st_cfg st)
            \<and> \<not> st_autoDisabled st \<and> cid \<notin> rv"
  using find_client_cases[of tok rv m] assms
  by (auto simp: client_verdict_def split: if_splits)

text \<open>Any two iteration orders of the same client map give the same answer.\<close>

lemma find_client_order:
  assumes "tokens_distinct m" and "set m' = set m"
  shows "find_client tok rv m' = find_client tok rv m"
proof -
  have d: "tokens_distinct m'" using assms(1) unfolding tokens_distinct_def assms(2) .
  from find_client_cases[of tok rv m] show ?thesis
  proof
    assume "find_client tok rv m = ([], False, ''bad token'')
            \<and> (\<forall>(c, st)\<in>set m. cc_token (st_cfg st) \<noteq> tok)"
    then show ?thesis using find_client_None[of m' tok rv] assms(2) by simp
  next
    assume "\<exists>c st. (c, st) \<in> set m \<and> cc_token (st_cfg st) = tok
              \<and> find_client tok rv m = client_verdict rv c st"
    then show ?thesis using find_client_mem[OF d] assms(2) by auto
  qed
qed

subsection \<open>Revocation\<close>

lemma fst_appendRevoked [simp]:
  "fst (appendRevokedLocked cid w) = (fst w)\<lparr>am_revoked := insert cid (am_revoked (fst w))\<rparr>"
  by (cases w; cases "fst w") (simp add: appendRevokedLocked_def Let_def insert_absorb)

definition revoked_disk :: "string \<Rightarrow> auth_world \<Rightarrow> fs" where
  "revoked_disk cid w =
     (if cid \<in> am_revoked (fst w) \<or> am_revokedPath (fst w) = [] then snd w
      else append_ignoring_errors (snd w) (am_revokedPath (fst w)) (cid @ [newline]))"

lemma snd_appendRevoked [simp]: "snd (appendRevokedLocked cid w) = revoked_disk cid w"
  by (cases w) (simp add: appendRevokedLocked_def revoked_disk_def Let_def)

lemma appendRevoked_pair:
  "appendRevokedLocked cid w =
     ((fst w)\<lparr>am_revoked := insert cid (am_revoked (fst w))\<rparr>, revoked_disk cid w)"
  by (rule prod_eqI) simp_all

lemma appendRevoked_idem:
  "appendRevokedLocked cid (appendRevokedLocked cid w) = appendRevokedLocked cid w"
  by (rule prod_eqI) (simp_all add: revoked_disk_def)

subsection \<open>Recording an event\<close>

definition signs_trip :: "string \<Rightarrow> clientState \<Rightarrow> bool" where
  "signs_trip action st \<longleftrightarrow>
     cc_auto_signs (st_cfg st) > 0 \<and> action = ''sign'' \<and> st_signs st > cc_auto_signs (st_cfg st)"

definition errors_trip :: "clientState \<Rightarrow> bool" where
  "errors_trip st \<longleftrightarrow>
     cc_auto_errors (st_cfg st) > 0 \<and> st_errors st > cc_auto_errors (st_cfg st)"

definition revokes :: "string \<Rightarrow> clientState \<Rightarrow> bool" where
  "revokes action st \<longleftrightarrow> (signs_trip action st \<or> errors_trip st) \<and> cc_auto_revoke (st_cfg st)"

text \<open>The client's state after an event, and the manager's.\<close>

definition counted :: "int \<Rightarrow> string \<Rightarrow> bool \<Rightarrow> clientState \<Rightarrow> clientState" where
  "counted now action ok st = count_event action ok (roll_window now st)"

definition recorded :: "int \<Rightarrow> string \<Rightarrow> bool \<Rightarrow> clientState \<Rightarrow> clientState" where
  "recorded now action ok st =
     (let st1 = counted now action ok st
      in st1\<lparr>st_autoDisabled := st_autoDisabled st1 \<or> revokes action st1\<rparr>)"

lemma counted_simps [simp]:
  "st_cfg (counted now action ok st) = st_cfg st"
  "st_autoDisabled (counted now action ok st) = st_autoDisabled st"
  by (simp_all add: counted_def count_event_def roll_window_def Let_def)

lemma recorded_simps [simp]:
  "st_cfg (recorded now action ok st) = st_cfg st"
  "st_signs (recorded now action ok st) = st_signs (counted now action ok st)"
  "st_errors (recorded now action ok st) = st_errors (counted now action ok st)"
  "st_windowStart (recorded now action ok st) = st_windowStart (counted now action ok st)"
  by (simp_all add: recorded_def Let_def)

lemma rate_block_eq: "\<exists>ok' r'. rate_block action (st, ok, r, w) = (st, ok', r', w)"
  by (auto simp: rate_block_def Let_def)

lemma signs_block_eq:
  "\<exists>ok' r'. signs_block cid action (st, ok, r, w) =
     (if signs_trip action st \<and> cc_auto_revoke (st_cfg st)
      then (st\<lparr>st_autoDisabled := True\<rparr>, ok', r', appendRevokedLocked cid w)
      else (st, ok', r', w))"
  by (auto simp: signs_block_def signs_trip_def Let_def)

lemma errors_block_eq:
  "\<exists>ok' r'. errors_block cid (st, ok, r, w) =
     (if errors_trip st \<and> cc_auto_revoke (st_cfg st)
      then (st\<lparr>st_autoDisabled := True\<rparr>, ok', r', appendRevokedLocked cid w)
      else (st, ok', r', w))"
  by (auto simp: errors_block_def errors_trip_def Let_def)

lemma errors_trip_upd [simp]: "errors_trip (st\<lparr>st_autoDisabled := b\<rparr>) = errors_trip st"
  by (simp add: errors_trip_def)

definition blocks :: "string \<Rightarrow> string \<Rightarrow> verdict \<Rightarrow> verdict" where
  "blocks cid action v = errors_block cid (signs_block cid action (rate_block action v))"

lemma blocks_eq:
  "\<exists>ok' r'. blocks cid action (st, ok, r, w) =
     (st\<lparr>st_autoDisabled := st_autoDisabled st \<or> revokes action st\<rparr>, ok', r',
      if revokes action st then appendRevokedLocked cid w else w)"
proof -
  obtain ok1 r1 where 1: "rate_block action (st, ok, r, w) = (st, ok1, r1, w)"
    using rate_block_eq by blast
  obtain ok2 r2 where 2: "signs_block cid action (st, ok1, r1, w) =
      (if signs_trip action st \<and> cc_auto_revoke (st_cfg st)
       then (st\<lparr>st_autoDisabled := True\<rparr>, ok2, r2, appendRevokedLocked cid w)
       else (st, ok2, r2, w))"
    using signs_block_eq by blast
  show ?thesis
  proof (cases "signs_trip action st \<and> cc_auto_revoke (st_cfg st)")
    case True
    then show ?thesis
      using errors_block_eq[of cid "st\<lparr>st_autoDisabled := True\<rparr>" ok2 r2 "appendRevokedLocked cid w"]
      by (auto simp: blocks_def 1 2 revokes_def appendRevoked_idem)
  next
    case False
    then show ?thesis
      using errors_block_eq[of cid st ok2 r2 w]
      by (auto simp: blocks_def 1 2 revokes_def)
  qed
qed

lemma authRecord_Some:
  assumes "cid \<noteq> []" and "mget (am_clients (fst w)) cid = Some st"
  shows "fst (authRecord now ts cid action ok reason addr w) =
           set_client cid (recorded now action ok st)
             ((fst w)\<lparr>am_revoked := (if revokes action (counted now action ok st)
                                    then insert cid (am_revoked (fst w))
                                    else am_revoked (fst w))\<rparr>)"
proof -
  obtain ok' r' where b: "blocks cid action (counted now action ok st, ok, reason, w) =
       (recorded now action ok st, ok', r',
        if revokes action (counted now action ok st) then appendRevokedLocked cid w else w)"
      (is "_ = (_, _, _, ?w')")
    using blocks_eq[of cid action "counted now action ok st" ok reason w]
    by (auto simp: recorded_def Let_def)
  have "fst (authRecord now ts cid action ok reason addr w) =
        set_client cid (recorded now action ok st) (fst ?w')"
    using assms b
    by (cases ?w') (simp add: authRecord_def counted_def[symmetric] blocks_def Let_def)
  then show ?thesis by simp
qed

lemma authRecord_None:
  assumes "cid = [] \<or> mget (am_clients (fst w)) cid = None"
  shows "fst (authRecord now ts cid action ok reason addr w) = fst w"
  using assms by (auto simp: authRecord_def)

end
