(* ===== verification/AuthProps.thy ===== *)
theory AuthProps
  imports Auth
begin

text \<open>
  Invariants of the client registry over arbitrary sequences of operations, the lifetime of a
  revocation inside a process and across a restart, and the audit log's line structure.
\<close>

section \<open>Events and the registry invariant\<close>

text \<open>The operations that change the registry, as the events of a run.\<close>

datatype auth_event =
    EvAllowed string string
  | EvRecord int string string string bool string string

fun auth_step :: "auth_event \<Rightarrow> auth_world \<Rightarrow> auth_world" where
  "auth_step (EvAllowed cid action) w = snd (allowed cid action w)"
| "auth_step (EvRecord now ts cid action ok reason addr) w =
     authRecord now ts cid action ok reason addr w"

definition client_ok :: "string set \<Rightarrow> string \<Rightarrow> clientState \<Rightarrow> bool" where
  "client_ok revoked cid st \<longleftrightarrow>
     cid \<noteq> [] \<and> trimSpace cid = cid \<and> cc_id (st_cfg st) = cid \<and> cc_token (st_cfg st) \<noteq> []
     \<and> 0 \<le> st_signs st \<and> 0 \<le> st_errors st \<and> (st_autoDisabled st \<longrightarrow> cid \<in> revoked)"

definition auth_inv :: "authManager \<Rightarrow> bool" where
  "auth_inv a \<longleftrightarrow> wf_map (am_clients a)
     \<and> (\<forall>cid st. mget (am_clients a) cid = Some st \<longrightarrow> client_ok (am_revoked a) cid st)"

lemma client_ok_mono: "client_ok R cid st \<Longrightarrow> R \<subseteq> R' \<Longrightarrow> client_ok R' cid st"
  by (auto simp: client_ok_def)

lemma set_client_simps [simp]:
  "am_clients (set_client cid st a) = mput cid st (am_clients a)"
  "am_revoked (set_client cid st a) = am_revoked a"
  "am_clientsMode (set_client cid st a) = am_clientsMode a"
  "am_revokedPath (set_client cid st a) = am_revokedPath a"
  "am_auditPath (set_client cid st a) = am_auditPath a"
  "am_sharedToken (set_client cid st a) = am_sharedToken a"
  by (simp_all add: set_client_def)

text \<open>Every change of the registry is: one client replaced, its id possibly added to the revoked.\<close>

lemma auth_inv_change:
  assumes "auth_inv a" and "am_revoked a \<subseteq> R" and "client_ok R cid st"
  shows "auth_inv (set_client cid st (a\<lparr>am_revoked := R\<rparr>))"
  using assms unfolding auth_inv_def by (simp add: client_ok_mono del: map_of_eq_Some_iff)
    (metis client_ok_mono)

lemma counted_nonneg:
  "0 \<le> st_signs st \<Longrightarrow> 0 \<le> st_errors st \<Longrightarrow>
   0 \<le> st_signs (counted now action ok st) \<and> 0 \<le> st_errors (counted now action ok st)"
  by (simp add: counted_def count_event_def roll_window_def Let_def)

lemma recorded_ok:
  assumes "client_ok R cid st"
  shows "client_ok (if revokes action (counted now action ok st) then insert cid R else R) cid
           (recorded now action ok st)"
  using assms counted_nonneg[of st now action ok]
  by (auto simp: client_ok_def recorded_def Let_def)

lemma authRecord_inv [preserves]:
  assumes inv: "auth_inv (fst w)"
  shows "auth_inv (fst (authRecord now ts cid action ok reason addr w))"
proof (cases "cid = [] \<or> mget (am_clients (fst w)) cid = None")
  case True
  then show ?thesis using inv by (simp add: authRecord_None)
next
  case False
  then obtain st where cid: "cid \<noteq> []" and st: "mget (am_clients (fst w)) cid = Some st" by auto
  from inv st have "client_ok (am_revoked (fst w)) cid st" by (simp add: auth_inv_def)
  from recorded_ok[OF this, of action now ok] show ?thesis
    unfolding authRecord_Some[OF cid st]
    by (intro auth_inv_change[OF inv]) auto
qed

text \<open>\<open>allowed\<close> either leaves everything alone or revokes the client.\<close>

lemma allowed_cases:
  "snd (allowed cid action w) = w
   \<or> (\<exists>st. mget (am_clients (fst w)) cid = Some st
        \<and> fst (allowed cid action w) = (False, ''auto-revoked: sign threshold exceeded'')
        \<and> fst (snd (allowed cid action w)) =
            set_client cid (st\<lparr>st_autoDisabled := True\<rparr>)
              ((fst w)\<lparr>am_revoked := insert cid (am_revoked (fst w))\<rparr>)
        \<and> snd (snd (allowed cid action w)) = revoked_disk cid w)"
  by (auto simp: allowed_def appendRevoked_pair split: option.splits)

lemma allowed_inv [preserves]:
  assumes inv: "auth_inv (fst w)"
  shows "auth_inv (fst (snd (allowed cid action w)))"
proof -
  from allowed_cases[of cid action w] show ?thesis
  proof (elim disjE exE conjE)
    fix st
    assume st: "mget (am_clients (fst w)) cid = Some st"
      and eq: "fst (snd (allowed cid action w)) =
            set_client cid (st\<lparr>st_autoDisabled := True\<rparr>)
              ((fst w)\<lparr>am_revoked := insert cid (am_revoked (fst w))\<rparr>)"
    from inv st have "client_ok (am_revoked (fst w)) cid st" by (simp add: auth_inv_def)
    then have "client_ok (insert cid (am_revoked (fst w))) cid (st\<lparr>st_autoDisabled := True\<rparr>)"
      by (simp add: client_ok_def)
    then show ?thesis unfolding eq by (intro auth_inv_change[OF inv]) auto
  qed (simp add: inv)
qed

interpretation auth_runs: invariant_system auth_step
  "\<lambda>w :: auth_world. auth_inv (fst w)"
proof
  fix w :: auth_world and e
  assume "auth_inv (fst w)"
  then show "auth_inv (fst (auth_step e w))" by (cases e) (simp_all add: preserves)
qed

lemma auth_step_revoked_mono:
  fixes w :: auth_world
  shows "am_revoked (fst w) \<subseteq> am_revoked (fst (auth_step e w))"
proof (cases e)
  case (EvAllowed cid action)
  then show ?thesis using allowed_cases[of cid action w] by auto
next
  case (EvRecord now ts cid action ok reason addr)
  then show ?thesis
    using authRecord_Some[of cid w _ now ts action ok reason addr]
      authRecord_None[of cid w now ts action ok reason addr]
    by (cases "cid = [] \<or> mget (am_clients (fst w)) cid = None") auto
qed

interpretation auth_revocations: monotone_system auth_step
  "\<lambda>w :: auth_world. am_revoked (fst w)"
  by unfold_locales (rule auth_step_revoked_mono)

text \<open>The configured clients and the mode never change while the process runs.\<close>

definition client_ids :: "auth_world \<Rightarrow> string set" where
  "client_ids w = dom (mget (am_clients (fst w)))"

lemma auth_step_ids:
  "client_ids (auth_step e w) = client_ids w \<and>
   am_clientsMode (fst (auth_step e w)) = am_clientsMode (fst w)"
proof (cases e)
  case (EvAllowed cid action)
  then show ?thesis
    using allowed_cases[of cid action w] by (auto simp: client_ids_def split: if_splits)
next
  case (EvRecord now ts cid action ok reason addr)
  then show ?thesis
    using authRecord_Some[of cid w _ now ts action ok reason addr]
      authRecord_None[of cid w now ts action ok reason addr]
    by (cases "cid = [] \<or> mget (am_clients (fst w)) cid = None")
       (auto simp: client_ids_def split: if_splits)
qed

lemma auth_run_ids:
  "client_ids (fold auth_step es w) = client_ids w \<and>
   am_clientsMode (fst (fold auth_step es w)) = am_clientsMode (fst w)"
  by (induction es arbitrary: w) (simp_all add: auth_step_ids)

section \<open>Loading establishes the invariant\<close>

lemma add_clients_inv:
  assumes "add_clients cs m = Inr m'" and "auth_inv (a\<lparr>am_clients := m\<rparr>)"
  shows "auth_inv (a\<lparr>am_clients := m'\<rparr>)"
  using assms
proof (induction cs arbitrary: m)
  case (Cons c cs)
  let ?c = "c\<lparr>cc_id := trimSpace (cc_id c)\<rparr>"
  from Cons.prems have ne: "cc_id ?c \<noteq> []" "cc_token ?c \<noteq> []"
    and rest: "add_clients cs (mput (cc_id ?c) (fresh_state ?c) m) = Inr m'"
    by (auto simp: Let_def split: if_splits)
  have "client_ok (am_revoked a) (cc_id ?c) (fresh_state ?c)"
    using ne by (simp add: client_ok_def fresh_state_def)
  then have "auth_inv (a\<lparr>am_clients := mput (cc_id ?c) (fresh_state ?c) m\<rparr>)"
    using Cons.prems(2) by (auto simp: auth_inv_def)
  with rest show ?case by (rule Cons.IH)
qed simp

lemma loadClients_inv:
  assumes "loadClients decode d path a = Inr a'" and "auth_inv a"
  shows "auth_inv a'"
  using assms add_clients_inv[of _ "am_clients a" _ a]
  by (auto simp: loadClients_def split: sum.splits)

lemma auth_inv_more_revoked: "auth_inv a \<Longrightarrow> auth_inv (a\<lparr>am_revoked := am_revoked a \<union> R\<rparr>)"
  unfolding auth_inv_def by (simp del: map_of_eq_Some_iff) (metis Un_upper1 client_ok_mono)

lemma loadRevoked_inv:
  assumes "loadRevoked d path a = Inr a'" and "auth_inv a"
  shows "auth_inv a'"
  using assms auth_inv_more_revoked
  by (auto simp: loadRevoked_def split: sum.splits os_error.splits prod.splits if_splits)

lemma newAuthManager_inv:
  assumes "newAuthManager decode d opts = Inr a"
  shows "auth_inv a"
proof -
  have "auth_inv \<lparr>am_sharedToken = t, am_clientsMode = b, am_clients = [], am_revoked = {},
                  am_revokedPath = p, am_auditPath = q\<rparr>" for t b p q
    by (simp add: auth_inv_def)
  with assms show ?thesis
    by (auto simp: newAuthManager_def Let_def split: sum.splits if_splits)
       (metis loadClients_inv loadRevoked_inv)+
qed

section \<open>Clients without automatic revocation\<close>

text \<open>The effect of one step on the entry of a client: the configuration stays.\<close>

lemma auth_step_clients:
  fixes w :: auth_world
  shows "am_clients (fst (auth_step e w)) = am_clients (fst w) \<or>
     (\<exists>cid st st'. mget (am_clients (fst w)) cid = Some st \<and> st_cfg st' = st_cfg st
        \<and> am_clients (fst (auth_step e w)) = mput cid st' (am_clients (fst w)))"
proof (cases e)
  case (EvAllowed cid action)
  from allowed_cases[of cid action w] show ?thesis
  proof (elim disjE exE conjE)
    fix st
    assume "mget (am_clients (fst w)) cid = Some st"
      and "fst (snd (allowed cid action w)) =
            set_client cid (st\<lparr>st_autoDisabled := True\<rparr>)
              ((fst w)\<lparr>am_revoked := insert cid (am_revoked (fst w))\<rparr>)"
    then show ?thesis using EvAllowed
      by (intro disjI2 exI[of _ cid] exI[of _ st] exI[of _ "st\<lparr>st_autoDisabled := True\<rparr>"]) simp
  qed (simp add: EvAllowed)
next
  case (EvRecord now ts cid action ok reason addr)
  show ?thesis
  proof (cases "cid = [] \<or> mget (am_clients (fst w)) cid = None")
    case True
    then show ?thesis using EvRecord by (simp add: authRecord_None)
  next
    case False
    then obtain st where "cid \<noteq> []" "mget (am_clients (fst w)) cid = Some st" by auto
    then show ?thesis using EvRecord by (simp add: authRecord_Some) (metis recorded_simps(1))
  qed
qed

definition unique_tokens :: "auth_world \<Rightarrow> bool" where
  "unique_tokens w \<longleftrightarrow> wf_map (am_clients (fst w)) \<and> tokens_distinct (am_clients (fst w))"

lemma tokens_distinct_mput:
  assumes wf: "wf_map m" and td: "tokens_distinct m" and st: "mget m cid = Some st"
    and cfg: "st_cfg st' = st_cfg st"
  shows "tokens_distinct (mput cid st' m)"
  unfolding tokens_distinct_def
proof (intro allI impI)
  fix c1 s1 c2 s2
  assume h: "(c1, s1) \<in> set (mput cid st' m) \<and> (c2, s2) \<in> set (mput cid st' m)
             \<and> cc_token (st_cfg s1) = cc_token (st_cfg s2)"
  have orig: "\<exists>s0. (c, s0) \<in> set m \<and> st_cfg s0 = st_cfg s" if "(c, s) \<in> set (mput cid st' m)" for c s
  proof -
    have "(c, s) = (cid, st') \<or> (c, s) \<in> set m"
      using that set_mput_subset[of cid st' m] by blast
    then show ?thesis using map_of_SomeD[OF st] cfg by (elim disjE) (auto intro: exI[of _ st])
  qed
  from orig h obtain t1 t2 where "(c1, t1) \<in> set m" "st_cfg t1 = st_cfg s1"
    "(c2, t2) \<in> set m" "st_cfg t2 = st_cfg s2" by metis
  with td h have "c1 = c2" unfolding tokens_distinct_def by (metis prod.inject)
  moreover have "wf_map (mput cid st' m)" using wf by simp
  ultimately show "(c1, s1) = (c2, s2)" using h by (metis eq_key_imp_eq_value)
qed

interpretation token_runs: invariant_system auth_step unique_tokens
proof
  fix w e
  assume u: "unique_tokens w"
  from auth_step_clients[of e w] show "unique_tokens (auth_step e w)"
  proof (elim disjE exE conjE)
    fix cid st st'
    assume "mget (am_clients (fst w)) cid = Some st" "st_cfg st' = st_cfg st"
      "am_clients (fst (auth_step e w)) = mput cid st' (am_clients (fst w))"
    then show ?thesis
      using u tokens_distinct_mput[of "am_clients (fst w)" cid st st'] by (simp add: unique_tokens_def)
  qed (use u in \<open>simp add: unique_tokens_def\<close>)
qed

definition live_client :: "string \<Rightarrow> ClientConfig \<Rightarrow> auth_world \<Rightarrow> bool" where
  "live_client cid cfg w \<longleftrightarrow>
     (\<exists>st. mget (am_clients (fst w)) cid = Some st \<and> st_cfg st = cfg \<and> \<not> st_autoDisabled st
        \<and> cid \<notin> am_revoked (fst w))"

lemma live_client_step:
  assumes "live_client cid cfg w" and "\<not> cc_auto_revoke cfg"
  shows "live_client cid cfg (auth_step e w)"
proof (cases e)
  case (EvAllowed c action)
  show ?thesis
  proof (cases "c = cid")
    case True
    then show ?thesis using assms EvAllowed by (auto simp: live_client_def allowed_def)
  next
    case False
    then show ?thesis using assms EvAllowed allowed_cases[of c action w]
      by (auto simp: live_client_def)
  qed
next
  case (EvRecord now ts c action ok reason addr)
  show ?thesis
  proof (cases "c = [] \<or> mget (am_clients (fst w)) c = None")
    case True
    then show ?thesis using assms(1) EvRecord by (auto simp: live_client_def authRecord_None)
  next
    case False
    then obtain st where "c \<noteq> []" "mget (am_clients (fst w)) c = Some st" by auto
    then show ?thesis using assms EvRecord
      by (auto simp: authRecord_Some live_client_def recorded_def revokes_def Let_def)
  qed
qed

interpretation soft_clients: invariant_system auth_step
  "\<lambda>w. cc_auto_revoke cfg \<or> live_client cid cfg w" for cid cfg
  by unfold_locales (auto intro: live_client_step)

lemma live_client_accepted:
  assumes "unique_tokens w" and "live_client cid cfg w" and "\<not> cc_disabled cfg"
  shows "authenticate (fst w) (cc_token cfg) = (cid, True, [])"
proof -
  obtain st where st: "mget (am_clients (fst w)) cid = Some st" "st_cfg st = cfg"
    "\<not> st_autoDisabled st" "cid \<notin> am_revoked (fst w)"
    using assms(2) by (auto simp: live_client_def)
  have mem: "(cid, st) \<in> set (am_clients (fst w))" by (rule map_of_SomeD[OF st(1)])
  then have "am_clients (fst w) \<noteq> []" by auto
  then show ?thesis
    using find_client_mem[OF _ mem, of "cc_token cfg" "am_revoked (fst w)"] assms st
    by (auto simp: authenticate_def unique_tokens_def client_verdict_def)
qed

section \<open>The revocation file\<close>

definition plain_id :: "string \<Rightarrow> bool" where
  "plain_id i \<longleftrightarrow> i \<noteq> [] \<and> no_edge_space i \<and> newline \<notin> set i \<and> \<not> hasPrefix i ''#''
     \<and> length i < scan_limit"

lemma no_edge_space_last: "no_edge_space s \<Longrightarrow> s \<noteq> [] \<Longrightarrow> last s \<noteq> CHR 0x0D"
  by (cases s rule: rev_cases) (auto simp: no_edge_space_def space_seqs_def hasPrefix_def)

lemma drop_cr_plain: "no_edge_space i \<Longrightarrow> drop_cr i = i"
  using no_edge_space_last by (auto simp: drop_cr_def)

lemma revoked_line_plain: "plain_id i \<Longrightarrow> revoked_line i = Some i"
  by (simp add: revoked_line_def plain_id_def)

lemma scan_lines_append:
  assumes "ends_line s" and "plain_id i" and "snd (scan_lines s)"
  shows "scan_lines (s @ i @ [newline]) = (fst (scan_lines s) @ [i], True)"
proof -
  have "take_short [i] = ([i], True)"
    using assms(2) by (simp add: plain_id_def drop_cr_plain)
  then show ?thesis using assms
    by (cases "take_short (raw_lines s)")
       (auto simp: scan_lines_def raw_lines_append_line take_short_append plain_id_def)
qed

lemma revoked_ids_append: "revoked_ids (xs @ ys) = revoked_ids xs @ revoked_ids ys"
  by (induction xs) (auto simp: revoked_ids_def List.map_filter_simps split: option.splits)

lemma revoked_ids_single: "plain_id i \<Longrightarrow> revoked_ids [i] = [i]"
  by (simp add: revoked_ids_def revoked_line_plain List.map_filter_simps)

lemma loadRevoked_content:
  assumes "fs_read_error d p = None"
  shows "loadRevoked d p a =
     (if snd (scan_lines (file_text d p))
      then Inr (a\<lparr>am_revoked := am_revoked a \<union> set (revoked_ids (fst (scan_lines (file_text d p))))\<rparr>)
      else Inl ''bufio.Scanner: token too long'')"
proof (cases "fs_files d p")
  case None
  then show ?thesis using assms
    by (simp add: loadRevoked_def readFile_def file_text_def scan_lines_def raw_lines_def
        revoked_ids_def List.map_filter_simps)
next
  case (Some t)
  then show ?thesis using assms
    by (cases "scan_lines t") (simp add: loadRevoked_def readFile_def file_text_def)
qed

section \<open>Properties\<close>

text \<open>A registry with one client, in the shape of \<open>deploy/env/clients.example.json\<close>.\<close>

definition edge_cfg :: "string \<Rightarrow> string \<Rightarrow> bool \<Rightarrow> ClientConfig" where
  "edge_cfg cid token autoRevoke =
     \<lparr>cc_id = cid, cc_token = token, cc_private_key = [], cc_private_keys = [],
      cc_disabled = False, cc_rate = 0, cc_auto_signs = 0, cc_auto_errors = 1,
      cc_auto_revoke = autoRevoke\<rparr>"

definition edge_mgr :: "ClientConfig list \<Rightarrow> authManager" where
  "edge_mgr cs =
     \<lparr>am_sharedToken = [], am_clientsMode = True,
      am_clients = map (\<lambda>c. (cc_id c, fresh_state c)) cs, am_revoked = {},
      am_revokedPath = ''revoked'', am_auditPath = ''audit''\<rparr>"

definition clean_fs :: "(string \<Rightarrow> string option) \<Rightarrow> fs" where
  "clean_fs files =
     \<lparr>fs_files = files, fs_read_error = (\<lambda>_. None), fs_write_error = (\<lambda>_. None)\<rparr>"

text \<open>
  C14. \<open>authenticate\<close> accepts a token, in clients mode and with tokens that tell the clients
  apart, exactly for a client that has this token, is not disabled in the configuration, not
  auto-disabled and not on the revocation list; and it answers with that client's id.
\<close>
theorem authenticate_iff:
  assumes "am_clientsMode a" and "tokens_distinct (am_clients a)"
  shows "authenticate a token = (cid, True, []) \<longleftrightarrow>
     (\<exists>st. (cid, st) \<in> set (am_clients a) \<and> cc_token (st_cfg st) = token
        \<and> \<not> cc_disabled (st_cfg st) \<and> \<not> st_autoDisabled st \<and> cid \<notin> am_revoked a)"
proof
  assume "authenticate a token = (cid, True, [])"
  then show "\<exists>st. (cid, st) \<in> set (am_clients a) \<and> cc_token (st_cfg st) = token
        \<and> \<not> cc_disabled (st_cfg st) \<and> \<not> st_autoDisabled st \<and> cid \<notin> am_revoked a"
    using assms(1) by (intro find_client_ok) (simp add: authenticate_def)
next
  assume "\<exists>st. (cid, st) \<in> set (am_clients a) \<and> cc_token (st_cfg st) = token
        \<and> \<not> cc_disabled (st_cfg st) \<and> \<not> st_autoDisabled st \<and> cid \<notin> am_revoked a"
  then show "authenticate a token = (cid, True, [])"
    using assms by (auto simp: authenticate_def find_client_mem client_verdict_def)
qed

theorem authenticate_iff_witness:
  "authenticate (edge_mgr [edge_cfg ''tw-edge'' ''secret'' False]) ''secret'' = (''tw-edge'', True, [])"
  by (subst authenticate_iff)
     (simp_all add: edge_mgr_def edge_cfg_def fresh_state_def tokens_distinct_def)

text \<open>
  Go iterates over the client map in no fixed order; the answer of \<open>authenticate\<close> does not
  depend on it when no two clients share a token.
\<close>
theorem authenticate_order_independent:
  assumes "tokens_distinct (am_clients a)" and "set m' = set (am_clients a)"
  shows "authenticate (a\<lparr>am_clients := m'\<rparr>) token = authenticate a token"
  using find_client_order[OF assms] assms(2) by (auto simp: authenticate_def)

theorem authenticate_order_independent_witness:
  "authenticate ((edge_mgr [edge_cfg ''a'' ''x'' False, edge_cfg ''b'' ''y'' False])
       \<lparr>am_clients := am_clients (edge_mgr [edge_cfg ''b'' ''y'' False, edge_cfg ''a'' ''x'' False])\<rparr>) ''y''
   = authenticate (edge_mgr [edge_cfg ''a'' ''x'' False, edge_cfg ''b'' ''y'' False]) ''y''"
  by (rule authenticate_order_independent)
     (auto simp: edge_mgr_def edge_cfg_def fresh_state_def tokens_distinct_def)

lemma revoked_stays_denied:
  assumes "am_clientsMode (fst w)" and "cid \<in> am_revoked (fst w)"
  shows "authenticate (fst (fold auth_step es w)) token \<noteq> (cid, True, reason)"
proof
  let ?w = "fold auth_step es w"
  assume "authenticate (fst ?w) token = (cid, True, reason)"
  then have "find_client token (am_revoked (fst ?w)) (am_clients (fst ?w)) = (cid, True, reason)"
    using assms(1) auth_run_ids[of es w] by (simp add: authenticate_def)
  then have "cid \<notin> am_revoked (fst ?w)" using find_client_ok by blast
  then show False using assms(2) auth_revocations.run_mono[of w es] by blast
qed

text \<open>
  C13. Revocation is final for the process: in a signer with a client file (clients mode), once an id is on the
  revocation list, no sequence of recorded events and permission checks, whatever their times and outcomes,
  makes any token authenticate as that id again.
\<close>
theorem revocation_permanent:
  assumes "am_clientsMode (fst w)" and "cid \<in> am_revoked (fst w)"
  shows "authenticate (fst (fold auth_step es w)) token \<noteq> (cid, True, reason)"
  by (rule revoked_stays_denied[OF assms])

theorem revocation_permanent_witness:
  "authenticate (fst (fold auth_step [EvAllowed ''a'' ''sign'', EvRecord 60 ''t'' ''a'' ''sign'' True [] ''h'']
      (fst (appendRevokedLocked ''a'' (edge_mgr [edge_cfg ''a'' ''x'' False], clean_fs (\<lambda>_. None))),
       clean_fs (\<lambda>_. None)))) ''x'' \<noteq> (''a'', True, [])"
  by (rule revocation_permanent) (simp_all add: edge_mgr_def)

text \<open>
  C18. The registry invariant: a manager built by \<open>newAuthManager\<close> keeps, through every sequence
  of operations, one entry per client id, ids that are not empty and without space at their ends,
  entries filed under their own id, non-empty tokens, non-negative counters, and every auto-disabled client
  on the revocation list.
\<close>
theorem registry_invariant:
  assumes "newAuthManager decode d opts = Inr a"
  shows "auth_inv (fst (fold auth_step es (a, d')))"
  by (rule auth_runs.run_inv) (simp add: newAuthManager_inv[OF assms])

theorem registry_invariant_witness:
  "auth_inv (fst (fold auth_step [EvRecord 0 ''t'' ''a'' ''sign'' False ''bad'' ''h'', EvAllowed ''a'' ''sign'']
     (edge_mgr [edge_cfg ''a'' ''x'' True], clean_fs (\<lambda>_. None))))"
proof (rule registry_invariant)
  show "newAuthManager (\<lambda>_. Inr [edge_cfg ''a'' ''x'' True]) (clean_fs [''c'' \<mapsto> ''{}''])
          \<lparr>opt_Token = [], opt_ClientsPath = ''c'', opt_RevokedPath = ''revoked'',
           opt_AuditPath = ''audit''\<rparr>
        = Inr (edge_mgr [edge_cfg ''a'' ''x'' True])"
    by (simp add: newAuthManager_def loadClients_def loadRevoked_def readFile_def clean_fs_def
        edge_cfg_def edge_mgr_def no_edge_space_ascii ascii_space_def)
qed

text \<open>
  An automatic revocation survives a restart: with a revocation file that can be written and
  read and is empty or ends in a line feed, reloading it after \<open>appendRevokedLocked\<close> yields the ids
  it held before and the new id.
\<close>
theorem revocation_survives_restart:
  assumes "plain_id cid" and "cid \<notin> am_revoked a" and "am_revokedPath a = p" and "p \<noteq> []"
    and "fs_write_error d p = None" and "fs_read_error d p = None"
    and "ends_line (file_text d p)"
    and "loadRevoked d p b = Inr b1"
  shows "loadRevoked (snd (appendRevokedLocked cid (a, d))) p b =
           Inr (b1\<lparr>am_revoked := insert cid (am_revoked b1)\<rparr>)"
proof -
  have ft: "file_text (revoked_disk cid (a, d)) p = file_text d p @ cid @ [newline]"
    and err: "fs_read_error (revoked_disk cid (a, d)) p = None"
    using assms(2-6) by (simp_all add: revoked_disk_def file_text_append)
  have ok: "snd (scan_lines (file_text d p))"
    using assms(6,8) by (simp add: loadRevoked_content split: if_splits)
  have b1: "b1 = b\<lparr>am_revoked := am_revoked b
              \<union> set (revoked_ids (fst (scan_lines (file_text d p))))\<rparr>"
    using assms(6,8) ok by (simp add: loadRevoked_content)
  show ?thesis
    using scan_lines_append[OF assms(7,1) ok]
    by (simp add: loadRevoked_content[OF err] ft b1 revoked_ids_append revoked_ids_single[OF assms(1)])
qed

definition revoked_example :: fs where
  "revoked_example = clean_fs [''revoked'' \<mapsto> ''hk-edge'' @ [newline]]"

lemma load_revoked_example:
  "loadRevoked revoked_example ''revoked'' (edge_mgr []) =
     Inr ((edge_mgr [])\<lparr>am_revoked := {''hk-edge''}\<rparr>)"
  by (simp add: loadRevoked_content revoked_example_def clean_fs_def file_text_def scan_lines_def
      raw_lines_def scan_limit_def drop_cr_def revoked_ids_def revoked_line_def trimSpace_id
      no_edge_space_def space_seqs_def hasPrefix_def List.map_filter_simps edge_mgr_def)

theorem revocation_survives_restart_witness:
  "loadRevoked (snd (appendRevokedLocked ''tw-edge'' (edge_mgr [], revoked_example))) ''revoked''
     (edge_mgr [])
   = Inr ((edge_mgr [])\<lparr>am_revoked := {''hk-edge'', ''tw-edge''}\<rparr>)"
  using revocation_survives_restart[OF _ _ _ _ _ _ _ load_revoked_example,
      of "''tw-edge''" "edge_mgr []"]
  by (simp add: plain_id_def no_edge_space_def space_seqs_def hasPrefix_def scan_limit_def
      revoked_example_def clean_fs_def file_text_def ends_line_def edge_mgr_def insert_commute)

text \<open>
  When the last line of the revocation file is not terminated (a file edited by hand), the
  appended id is glued to it: after a restart neither the old last id nor the new one is revoked,
  only their concatenation is.
\<close>
theorem unterminated_file_loses_revocations:
  assumes "plain_id old" and "plain_id cid" and "ascii (old @ cid)" and "length old + length cid < scan_limit"
    and "fs_files d p = Some old" and "fs_write_error d p = None" and "fs_read_error d p = None"
    and "p \<noteq> []" and "am_revokedPath a = p" and "cid \<notin> am_revoked a" and "am_revoked b = {}"
  shows "loadRevoked (snd (appendRevokedLocked cid (a, d))) p b = Inr (b\<lparr>am_revoked := {old @ cid}\<rparr>)
         \<and> old \<noteq> old @ cid \<and> cid \<noteq> old @ cid"
proof -
  have ft: "file_text (revoked_disk cid (a, d)) p = [] @ (old @ cid) @ [newline]"
    and err: "fs_read_error (revoked_disk cid (a, d)) p = None"
    using assms(5-10) by (simp_all add: revoked_disk_def file_text_append) (simp add: file_text_def)
  have edge: "no_edge_space (old @ cid)"
    using assms(1-3) by (auto simp: plain_id_def no_edge_space_ascii)
  have "plain_id (old @ cid)" using assms(1-4) edge
    by (cases old) (auto simp: plain_id_def hasPrefix_def)
  then show ?thesis
    using scan_lines_append[of "[]" "old @ cid"] assms(1,2,11)
    by (auto simp: loadRevoked_content[OF err] ft ends_line_def scan_lines_def raw_lines_def
        revoked_ids_def List.map_filter_simps revoked_line_plain plain_id_def)
qed

theorem unterminated_file_loses_revocations_witness:
  "loadRevoked (snd (appendRevokedLocked ''hk'' (edge_mgr [], clean_fs [''revoked'' \<mapsto> ''tw'']))) ''revoked''
     (edge_mgr []) = Inr ((edge_mgr [])\<lparr>am_revoked := {''twhk''}\<rparr>)"
  using unterminated_file_loses_revocations[of "''tw''" "''hk''" "clean_fs [''revoked'' \<mapsto> ''tw'']"
      "''revoked''" "edge_mgr []" "edge_mgr []"]
  by (simp add: plain_id_def no_edge_space_ascii ascii_space_def hasPrefix_def scan_limit_def
      clean_fs_def edge_mgr_def)

text \<open>
  The error threshold alone never denies a request: for a client without \<open>auto_revoke\<close> and
  without signing limits, its token authenticates and its signing stays permitted after any
  sequence of events, however many errors were recorded in the current minute.
\<close>
theorem error_threshold_never_denies:
  assumes "wf_map (am_clients a)" and "tokens_distinct (am_clients a)"
    and "mget (am_clients a) cid = Some st" and "\<not> st_autoDisabled st" and "cid \<notin> am_revoked a"
    and "\<not> cc_disabled (st_cfg st)" and "\<not> cc_auto_revoke (st_cfg st)"
    and "cc_rate (st_cfg st) = 0" and "cc_auto_signs (st_cfg st) = 0"
  shows "authenticate (fst (fold auth_step es (a, d))) (cc_token (st_cfg st)) = (cid, True, [])
       \<and> fst (allowed cid ''sign'' (fold auth_step es (a, d))) = (True, [])"
proof -
  let ?w = "fold auth_step es (a, d)"
  have "unique_tokens (a, d)" using assms(1,2) by (simp add: unique_tokens_def)
  then have u: "unique_tokens ?w" by (rule token_runs.run_inv)
  have "live_client cid (st_cfg st) (a, d)" using assms(3-5) by (simp add: live_client_def)
  then have l: "live_client cid (st_cfg st) ?w"
    using soft_clients.run_inv[of "st_cfg st" cid "(a, d)" es] assms(7) by blast
  then show ?thesis
    using live_client_accepted[OF u l assms(6)] assms(8,9)
    by (auto simp: allowed_def live_client_def)
qed

theorem error_threshold_never_denies_witness:
  "fst (allowed ''a'' ''sign'' (fold auth_step
      [EvRecord 0 ''t'' ''a'' ''sign'' False ''bad'' ''h'', EvRecord 1 ''t'' ''a'' ''sign'' False ''bad'' ''h'']
      (edge_mgr [edge_cfg ''a'' ''x'' False], clean_fs (\<lambda>_. None)))) = (True, [])"
proof -
  have "mget (am_clients (edge_mgr [edge_cfg ''a'' ''x'' False])) ''a'' =
        Some (fresh_state (edge_cfg ''a'' ''x'' False))"
    by (simp add: edge_mgr_def edge_cfg_def)
  then show ?thesis
    by (intro error_threshold_never_denies[where st = "fresh_state (edge_cfg ''a'' ''x'' False)",
          THEN conjunct2])
       (simp_all add: edge_mgr_def edge_cfg_def fresh_state_def tokens_distinct_def)
qed

lemma audit_line_one_line: "newline \<notin> set (audit_line ts cid addr action res reason)"
  unfolding audit_line_def
  by (intro json_object_one_line) (auto dest: omit_empty_one_line)

text \<open>
  Nothing a client sends can forge or split audit entries: whatever the client id, address,
  action and reason contain, an audit call appends exactly one line to the log, the JSON record of
  the call, and leaves every earlier line and the log's final line feed in place.
\<close>
theorem audit_appends_one_line:
  assumes "am_auditPath a = p" and "p \<noteq> []" and "fs_write_error d p = None"
    and "ends_line (file_text d p)"
  shows "raw_lines (file_text (audit a ts cid action res reason addr d) p) =
           raw_lines (file_text d p) @ [audit_line ts cid addr action res reason]
         \<and> ends_line (file_text (audit a ts cid action res reason addr d) p)"
  using assms raw_lines_append_line[OF assms(4) audit_line_one_line]
  by (simp add: audit_def file_text_append)

theorem audit_appends_one_line_witness:
  "raw_lines (file_text (audit (edge_mgr []) ''t'' (''a'' @ [newline]) ''sign'' ''denied'' [newline, CHR 0x22] ''h''
       (clean_fs (\<lambda>_. None))) ''audit'') =
     [audit_line ''t'' (''a'' @ [newline]) ''h'' ''sign'' ''denied'' [newline, CHR 0x22]]"
  using audit_appends_one_line[of "edge_mgr []" "''audit''" "clean_fs (\<lambda>_. None)"]
  by (simp add: edge_mgr_def clean_fs_def file_text_def ends_line_def raw_lines_def)

end
