(* ===== verification/SignServer.thy ===== *)
theory SignServer
  imports AuthProps
begin

text \<open>
  The signing API (\<open>internal/keyless/server.go\<close>) and private-key loading
  (\<open>internal/keyless/pem.go\<close>): construction of the server with its per-client keys, the
  authentication wrapper, and the two handlers. A handler takes the registry and the file system
  (the mutable state behind \<open>s.auth\<close>) and returns them with the response.
\<close>

section \<open>Cryptography and the environment\<close>

text \<open>
  Keys have an abstract type. Parsing them, signing, the public half, DER, and the JSON decoder of
  a sign request are parameters: they are the Go libraries' own code. \<open>ce_sign\<close> also takes the
  randomness \<open>rand.Reader\<close> supplies.
\<close>

record ('k, 'pub) crypto_env =
  ce_sign :: "'k \<Rightarrow> string \<Rightarrow> string \<Rightarrow> signer_opts \<Rightarrow> string result"
  ce_public :: "'k \<Rightarrow> 'pub"
  ce_marshalPKIX :: "'pub \<Rightarrow> string result"
  ce_available :: "hash \<Rightarrow> bool"
  ce_decodeSign :: "string \<Rightarrow> SignRequest result"

datatype 'k parsed_key = RSAKey 'k | ECDSAKey 'k | Ed25519Key 'k | OtherKey

record 'k pem_env =
  pe_decode :: "string \<Rightarrow> string option"
  pe_pkcs8 :: "string \<Rightarrow> 'k parsed_key option"
  pe_pkcs1 :: "string \<Rightarrow> 'k parsed_key option"
  pe_ec :: "string \<Rightarrow> 'k parsed_key option"

text \<open>What a handler reads from the clock (as a number and as text) and the random source.\<close>

record tick =
  tk_now :: int
  tk_ts :: string
  tk_rand :: string

record http_request =
  rq_method :: string
  rq_path :: string
  rq_header :: header
  rq_remote :: string
  rq_body :: string

record http_response =
  rs_status :: nat
  rs_header :: header
  rs_body :: string

section \<open>Private keys\<close>

definition LoadPrivateKey :: "'k pem_env \<Rightarrow> fs \<Rightarrow> string \<Rightarrow> 'k result" where
  "LoadPrivateKey pe d path =
     (case readFile d path of
        Inl e \<Rightarrow> Inl (os_error_text e)
      | Inr data \<Rightarrow>
          (case pe_decode pe data of
             None \<Rightarrow> Inl ''no PEM block found''
           | Some der \<Rightarrow>
               (case (case pe_pkcs8 pe der of Some k \<Rightarrow> Some k
                      | None \<Rightarrow> (case pe_pkcs1 pe der of Some k \<Rightarrow> Some k
                                 | None \<Rightarrow> pe_ec pe der)) of
                  None \<Rightarrow> Inl ''unsupported private key; use PKCS#8, PKCS#1 RSA, or EC PEM''
                | Some (RSAKey k) \<Rightarrow> Inr k
                | Some (ECDSAKey k) \<Rightarrow> Inr k
                | Some (Ed25519Key k) \<Rightarrow> Inr k
                | Some OtherKey \<Rightarrow> Inl ''private key does not implement crypto.Signer'')))"

type_synonym 'k key_table = "(string, (string, 'k) gomap) gomap"

definition put_key :: "string \<Rightarrow> string \<Rightarrow> 'k \<Rightarrow> 'k key_table \<Rightarrow> 'k key_table" where
  "put_key cid kid key keys =
     mput cid (mput kid key (case mget keys cid of None \<Rightarrow> [] | Some m \<Rightarrow> m)) keys"

fun load_named ::
  "'k pem_env \<Rightarrow> fs \<Rightarrow> string \<Rightarrow> (string, string) gomap \<Rightarrow> 'k key_table \<Rightarrow> 'k key_table result" where
  "load_named pe d cid [] keys = Inr keys"
| "load_named pe d cid ((kid, path) # rest) keys =
     (let kid' = trimSpace kid; path' = trimSpace path
      in if kid' = [] \<or> path' = [] then load_named pe d cid rest keys
         else (case LoadPrivateKey pe d path' of
                 Inl e \<Rightarrow> Inl e
               | Inr key \<Rightarrow> load_named pe d cid rest (put_key cid kid' key keys)))"

fun load_client_keys ::
  "'k pem_env \<Rightarrow> fs \<Rightarrow> (string, clientState) gomap \<Rightarrow> 'k key_table \<Rightarrow> 'k key_table result" where
  "load_client_keys pe d [] keys = Inr keys"
| "load_client_keys pe d ((cid, st) # rest) keys =
     (case load_named pe d cid (cc_private_keys (st_cfg st)) keys of
        Inl e \<Rightarrow> Inl e
      | Inr keys1 \<Rightarrow>
          (let path = trimSpace (cc_private_key (st_cfg st))
           in if path = [] then load_client_keys pe d rest keys1
              else (case LoadPrivateKey pe d path of
                      Inl e \<Rightarrow> Inl e
                    | Inr key \<Rightarrow> load_client_keys pe d rest (put_key cid [] key keys1))))"

definition loadClientKeys :: "'k pem_env \<Rightarrow> fs \<Rightarrow> authManager \<Rightarrow> 'k key_table result" where
  "loadClientKeys pe d a = load_client_keys pe d (am_clients a) []"

section \<open>The server\<close>

record 'k SignServer =
  sv_key :: 'k
  sv_clientKeys :: "'k key_table"

definition NewSignServerWithOptions ::
  "'k pem_env \<Rightarrow> (string \<Rightarrow> ClientConfig list result) \<Rightarrow> fs \<Rightarrow> 'k \<Rightarrow> SignServerOptions
     \<Rightarrow> ('k SignServer \<times> authManager) result" where
  "NewSignServerWithOptions pe decode d key opts =
     (case newAuthManager decode d opts of
        Inl e \<Rightarrow> Inl e
      | Inr a \<Rightarrow>
          (case loadClientKeys pe d a of
             Inl e \<Rightarrow> Inl e
           | Inr keys \<Rightarrow> Inr (\<lparr>sv_key = key, sv_clientKeys = keys\<rparr>, a)))"

text \<open>With a shared token only; \<open>None\<close> is a panic.\<close>

definition NewSignServer ::
  "'k pem_env \<Rightarrow> (string \<Rightarrow> ClientConfig list result) \<Rightarrow> fs \<Rightarrow> 'k \<Rightarrow> string \<Rightarrow> ('k SignServer \<times> authManager) option" where
  "NewSignServer pe decode d key token =
     (case NewSignServerWithOptions pe decode d key
             \<lparr>opt_Token = token, opt_ClientsPath = [], opt_RevokedPath = [], opt_AuditPath = []\<rparr> of
        Inl e \<Rightarrow> None
      | Inr srv \<Rightarrow> Some srv)"

datatype server_body = ErrorBody string | PublicKeyBody string | SignatureBody string

fun body_json :: "server_body \<Rightarrow> string" where
  "body_json (ErrorBody e) = json_object [(''error'', json_string e)]"
| "body_json (PublicKeyBody s) = json_object [(''der'', json_string s)]"
| "body_json (SignatureBody s) = json_object [(''signature'', json_string s)]"

definition WriteJSON :: "nat \<Rightarrow> server_body \<Rightarrow> http_response" where
  "WriteJSON status b =
     \<lparr>rs_status = status, rs_header = hset [] ''Content-Type'' ''application/json'',
      rs_body = body_json b @ [newline]\<rparr>"

definition keyForRequest :: "'k SignServer \<Rightarrow> string \<Rightarrow> header \<Rightarrow> 'k option" where
  "keyForRequest srv clientID h =
     (let keyID = trimSpace (hget h HeaderKeyID)
      in case mget (sv_clientKeys srv) clientID of
           Some keys \<Rightarrow>
             (case mget keys keyID of
                Some key \<Rightarrow> Some key
              | None \<Rightarrow> if keyID = [] then Some (sv_key srv) else None)
         | None \<Rightarrow> if keyID \<noteq> [] then None else Some (sv_key srv))"

text \<open>Digest sizes in bytes of the hashes Go numbers; \<open>None\<close> is the panic of \<open>Size\<close>.\<close>

definition hash_size :: "hash \<Rightarrow> nat option" where
  "hash_size h =
     (if 0 < h \<and> h < 20
      then Some ([16, 16, 20, 28, 32, 48, 64, 36, 20, 28, 32, 48, 64, 28, 32, 32, 32, 48, 64] ! (h - 1))
      else None)"

definition validatePayload :: "('k, 'pub) crypto_env \<Rightarrow> string \<Rightarrow> signer_opts \<Rightarrow> unit result" where
  "validatePayload ce payload opts =
     (let h = HashFunc opts
      in if h = 0 then Inr ()
         else if \<not> ce_available ce h then Inl ''requested hash is unavailable''
         else if Some (length payload) \<noteq> hash_size h
         then Inl ''payload length does not match requested hash''
         else Inr ())"

type_synonym handled = "auth_world \<times> http_response"

definition publicKey ::
  "('k, 'pub) crypto_env \<Rightarrow> 'k SignServer \<Rightarrow> string \<Rightarrow> tick \<Rightarrow> http_request \<Rightarrow> auth_world \<Rightarrow> handled" where
  "publicKey ce srv clientID tk r w =
     (case keyForRequest srv clientID (rq_header r) of
        None \<Rightarrow> (w, WriteJSON 403 (ErrorBody ''key not allowed''))
      | Some key \<Rightarrow>
          (case EncodePublicKey (ce_marshalPKIX ce) (ce_public ce key) of
             Inl e \<Rightarrow> (w, WriteJSON 500 (ErrorBody e))
           | Inr s \<Rightarrow> (w, WriteJSON 200 (PublicKeyBody s))))"

definition sign_body_limit :: nat where "sign_body_limit = 64 * 1024"

definition sign ::
  "('k, 'pub) crypto_env \<Rightarrow> 'k SignServer \<Rightarrow> string \<Rightarrow> tick \<Rightarrow> http_request \<Rightarrow> auth_world \<Rightarrow> handled" where
  "sign ce srv clientID tk r w =
     (let rcd = (\<lambda>ok reason. authRecord (tk_now tk) (tk_ts tk) clientID ''sign'' ok reason (rq_remote r))
      in case allowed clientID ''sign'' w of ((ok, reason), w1) \<Rightarrow>
        if \<not> ok then (rcd False reason w1, WriteJSON 429 (ErrorBody reason))
        else (case ReadJSON (ce_decodeSign ce) sign_body_limit (rq_body r) of
            Inl e \<Rightarrow> (rcd False e w1, WriteJSON 400 (ErrorBody e))
          | Inr signReq \<Rightarrow>
        (case DecodePayload (sr_payload signReq) of
            Inl e \<Rightarrow> (rcd False e w1, WriteJSON 400 (ErrorBody e))
          | Inr payload \<Rightarrow>
        (case SignerOptsFromRequest signReq of
            Inl e \<Rightarrow> (rcd False e w1, WriteJSON 400 (ErrorBody e))
          | Inr opts \<Rightarrow>
        (case validatePayload ce payload opts of
            Inl e \<Rightarrow> (rcd False e w1, WriteJSON 400 (ErrorBody e))
          | Inr _ \<Rightarrow>
        (case keyForRequest srv clientID (rq_header r) of
            None \<Rightarrow> (rcd False ''key not allowed'' w1, WriteJSON 403 (ErrorBody ''key not allowed''))
          | Some key \<Rightarrow>
        (case ce_sign ce key (tk_rand tk) payload opts of
            Inl e \<Rightarrow> (rcd False e w1, WriteJSON 500 (ErrorBody e))
          | Inr sig \<Rightarrow> (rcd True [] w1, WriteJSON 200 (SignatureBody (stdEncode sig))))))))))"

definition requireAuth ::
  "(string \<Rightarrow> tick \<Rightarrow> http_request \<Rightarrow> auth_world \<Rightarrow> handled)
     \<Rightarrow> tick \<Rightarrow> http_request \<Rightarrow> auth_world \<Rightarrow> handled" where
  "requireAuth handler tk r w =
     (let (clientID, ok, reason) = authenticate (fst w) (hget (rq_header r) HeaderToken)
      in if \<not> ok
         then (authRecord (tk_now tk) (tk_ts tk) clientID ''auth'' False reason (rq_remote r) w,
               WriteJSON 401 (ErrorBody ''unauthorized''))
         else handler clientID tk r w)"

text \<open>\<open>None\<close>: no pattern matches and Go's mux answers by itself (404, 405 or a path redirect).\<close>

definition Routes ::
  "('k, 'pub) crypto_env \<Rightarrow> 'k SignServer \<Rightarrow> tick \<Rightarrow> http_request \<Rightarrow> auth_world \<Rightarrow> handled option" where
  "Routes ce srv tk r w =
     (if (rq_method r = ''GET'' \<or> rq_method r = ''HEAD'') \<and> rq_path r = ''/v1/public-key''
      then Some (requireAuth (publicKey ce srv) tk r w)
      else if rq_method r = ''POST'' \<and> rq_path r = ''/v1/sign''
      then Some (requireAuth (sign ce srv) tk r w)
      else None)"

section \<open>Facts\<close>

lemma WriteJSON_inject [simp]:
  "rs_status (WriteJSON s b) = s"
  by (simp add: WriteJSON_def)

text \<open>Every run of \<open>sign\<close> is one permission check followed by one recorded event.\<close>

lemma sign_state:
  "\<exists>ok reason. fst (sign ce srv cid tk r w) =
     authRecord (tk_now tk) (tk_ts tk) cid ''sign'' ok reason (rq_remote r)
       (snd (allowed cid ''sign'' w))
     \<and> (ok \<longleftrightarrow> rs_status (snd (sign ce srv cid tk r w)) = 200)"
  by (cases "allowed cid ''sign'' w")
     (auto simp: sign_def Let_def split: sum.splits option.splits)

text \<open>The conditions under which \<open>sign\<close> answers 200, and what it answers then.\<close>

lemma sign_ok:
  assumes "rs_status (snd (sign ce srv cid tk r w)) = 200"
  obtains req payload opts key sig where
    "fst (allowed cid ''sign'' w) = (True, snd (fst (allowed cid ''sign'' w)))"
    "ce_decodeSign ce (take sign_body_limit (rq_body r)) = Inr req"
    "DecodePayload (sr_payload req) = Inr payload"
    "SignerOptsFromRequest req = Inr opts"
    "validatePayload ce payload opts = Inr ()"
    "keyForRequest srv cid (rq_header r) = Some key"
    "ce_sign ce key (tk_rand tk) payload opts = Inr sig"
    "snd (sign ce srv cid tk r w) = WriteJSON 200 (SignatureBody (stdEncode sig))"
  using assms
  by (cases "allowed cid ''sign'' w")
     (auto simp: sign_def Let_def ReadJSON_def split: sum.splits option.splits if_splits)

lemma validatePayload_ok:
  "validatePayload ce payload opts = Inr () \<longleftrightarrow>
     HashFunc opts = 0 \<or> ce_available ce (HashFunc opts) \<and> hash_size (HashFunc opts) = Some (length payload)"
  by (auto simp: validatePayload_def Let_def)

lemma keyForRequest_cases:
  assumes "keyForRequest srv cid h = Some key"
  shows "key = sv_key srv \<and> trimSpace (hget h HeaderKeyID) = []
     \<or> (\<exists>keys. mget (sv_clientKeys srv) cid = Some keys
              \<and> mget keys (trimSpace (hget h HeaderKeyID)) = Some key)"
  using assms by (auto simp: keyForRequest_def Let_def split: option.splits if_splits)

subsection \<open>Where the keys come from\<close>

text \<open>Client \<open>c\<close> may use under key id \<open>kid\<close> the key stored in a file its configuration names.\<close>

definition key_granted ::
  "'k pem_env \<Rightarrow> fs \<Rightarrow> (string, clientState) gomap \<Rightarrow> string \<Rightarrow> string \<Rightarrow> 'k \<Rightarrow> bool" where
  "key_granted pe d m c kid key \<longleftrightarrow>
     (\<exists>st. (c, st) \<in> set m \<and>
        (kid = [] \<and> trimSpace (cc_private_key (st_cfg st)) \<noteq> []
           \<and> LoadPrivateKey pe d (trimSpace (cc_private_key (st_cfg st))) = Inr key
         \<or> (\<exists>kid0 path. (kid0, path) \<in> set (cc_private_keys (st_cfg st)) \<and> trimSpace kid0 = kid
               \<and> kid \<noteq> [] \<and> LoadPrivateKey pe d (trimSpace path) = Inr key)))"

definition table_ok ::
  "(string \<Rightarrow> string \<Rightarrow> 'k \<Rightarrow> bool) \<Rightarrow> 'k key_table \<Rightarrow> bool" where
  "table_ok G keys \<longleftrightarrow>
     (\<forall>c m kid key. mget keys c = Some m \<and> mget m kid = Some key \<longrightarrow> G c kid key)"

lemma table_ok_put: "table_ok G keys \<Longrightarrow> G c kid key \<Longrightarrow> table_ok G (put_key c kid key keys)"
  unfolding table_ok_def put_key_def
  by (auto simp del: map_of_eq_Some_iff split: option.splits if_splits)

lemma load_named_ok:
  assumes "load_named pe d c ks keys = Inr keys'" and "table_ok G keys"
    and "\<forall>(kid0, path)\<in>set ks. \<forall>key. trimSpace kid0 \<noteq> [] \<longrightarrow>
           LoadPrivateKey pe d (trimSpace path) = Inr key \<longrightarrow> G c (trimSpace kid0) key"
  shows "table_ok G keys'"
  using assms
proof (induction pe d c ks keys rule: load_named.induct)
  case (2 pe d cid kid path rest keys)
  show ?case
  proof (cases "trimSpace kid = [] \<or> trimSpace path = []")
    case True
    then show ?thesis using 2 by auto
  next
    case False
    then obtain key where k: "LoadPrivateKey pe d (trimSpace path) = Inr key"
      using "2.prems"(1) by (auto split: sum.splits)
    then have "table_ok G (put_key cid (trimSpace kid) key keys)"
      using "2.prems"(2,3) False by (intro table_ok_put) auto
    with 2 False k show ?thesis by auto
  qed
qed simp

lemma load_client_keys_ok:
  assumes "load_client_keys pe d m keys = Inr keys'" and "table_ok (key_granted pe d M) keys"
    and "set m \<subseteq> set M"
  shows "table_ok (key_granted pe d M) keys'"
  using assms
proof (induction pe d m keys rule: load_client_keys.induct)
  case (2 pe d cid st rest keys)
  then obtain keys1 where l: "load_named pe d cid (cc_private_keys (st_cfg st)) keys = Inr keys1"
    by (auto split: sum.splits)
  have t1: "table_ok (key_granted pe d M) keys1"
    using "2.prems"(3) by (intro load_named_ok[OF l "2.prems"(2)]) (auto simp: key_granted_def)
  show ?case
  proof (cases "trimSpace (cc_private_key (st_cfg st)) = []")
    case True
    then show ?thesis using 2 l t1 by simp
  next
    case False
    then obtain key where k: "LoadPrivateKey pe d (trimSpace (cc_private_key (st_cfg st))) = Inr key"
      using "2.prems"(1) l by (auto simp: Let_def split: sum.splits)
    have "table_ok (key_granted pe d M) (put_key cid [] key keys1)"
      using t1 "2.prems"(3) k False by (intro table_ok_put) (auto simp: key_granted_def)
    with 2 l k False show ?thesis by simp
  qed
qed simp

lemma loadClientKeys_ok:
  "loadClientKeys pe d a = Inr keys \<Longrightarrow> table_ok (key_granted pe d (am_clients a)) keys"
  unfolding loadClientKeys_def by (rule load_client_keys_ok) (auto simp: table_ok_def)

text \<open>A server with a shared token only is always built, whatever is on the disk.\<close>

lemma NewSignServer_total:
  "NewSignServer pe decode d key token
     = Some (\<lparr>sv_key = key, sv_clientKeys = []\<rparr>,
             \<lparr>am_sharedToken = token, am_clientsMode = False, am_clients = [], am_revoked = {}, am_revokedPath = [],
              am_auditPath = []\<rparr>)"
  by (simp add: NewSignServer_def NewSignServerWithOptions_def newAuthManager_def loadClientKeys_def Let_def)

end
