(* ===== verification/ServerProps.thy ===== *)
theory ServerProps
  imports SignServer
begin

text \<open>
  Properties of the signing API: what a signature implies, which keys a client reaches, how every
  attempt is audited, how the counters of a past minute still deny, and how far concurrent requests
  can exceed the rate limit.
\<close>

section \<open>Disk effects of recording\<close>

lemma audit_other: "q \<noteq> am_auditPath a \<Longrightarrow> file_text (audit a ts cid act res rs addr d) q = file_text d q"
  by (simp add: audit_def file_text_append)

lemma revoked_disk_other:
  "q \<noteq> am_revokedPath (fst w) \<Longrightarrow> file_text (revoked_disk cid w) q = file_text (snd w) q"
  by (simp add: revoked_disk_def file_text_append)

lemma revoked_disk_errors [simp]: "fs_write_error (revoked_disk cid w) = fs_write_error (snd w)"
  by (simp add: revoked_disk_def)

text \<open>The manager's paths are constant.\<close>

lemma allowed_paths [simp]:
  "am_auditPath (fst (snd (allowed cid act w))) = am_auditPath (fst w)"
  "am_revokedPath (fst (snd (allowed cid act w))) = am_revokedPath (fst w)"
  using allowed_cases[of cid act w] by auto

lemma allowed_disk:
  "q \<noteq> am_revokedPath (fst w) \<Longrightarrow> file_text (snd (snd (allowed cid act w))) q = file_text (snd w) q"
  "fs_write_error (snd (snd (allowed cid act w))) = fs_write_error (snd w)"
  using allowed_cases[of cid act w] by (auto simp: revoked_disk_other)

text \<open>Recording an event writes one audit record, for some final verdict.\<close>

lemma authRecord_disk:
  "\<exists>a' d' ok' reason'. am_auditPath a' = am_auditPath (fst w)
     \<and> snd (authRecord now ts cid act ok reason addr w)
         = audit a' ts cid act (resultName ok') reason' addr d'
     \<and> (d' = snd w \<or> d' = revoked_disk cid w)"
proof (cases "cid = [] \<or> mget (am_clients (fst w)) cid = None")
  case True
  then have "snd (authRecord now ts cid act ok reason addr w)
             = audit (fst w) ts cid act (resultName ok) reason addr (snd w)"
    by (auto simp: authRecord_def)
  then show ?thesis by blast
next
  case False
  then obtain st where cid: "cid \<noteq> []" and st: "mget (am_clients (fst w)) cid = Some st" by auto
  let ?w' = "if revokes act (counted now act ok st) then appendRevokedLocked cid w else w"
  obtain ok' r' where b: "blocks cid act (counted now act ok st, ok, reason, w) =
       (recorded now act ok st, ok', r', ?w')"
    using blocks_eq[of cid act "counted now act ok st" ok reason w]
    by (auto simp: recorded_def Let_def)
  have "snd (authRecord now ts cid act ok reason addr w) =
        audit (set_client cid (recorded now act ok st) (fst ?w')) ts cid act (resultName ok') r' addr
          (snd ?w')"
    using cid st b
    by (cases ?w') (simp add: authRecord_def counted_def[symmetric] blocks_def Let_def)
  then show ?thesis
    by (intro exI[of _ "set_client cid (recorded now act ok st) (fst ?w')"] exI[of _ "snd ?w'"]
        exI[of _ ok'] exI[of _ r']) simp
qed

lemma authRecord_audit_line:
  assumes p: "am_auditPath (fst w) = p" "p \<noteq> []" and "p \<noteq> am_revokedPath (fst w)"
    and "fs_write_error (snd w) p = None" and e: "ends_line (file_text (snd w) p)"
  shows "\<exists>ok' reason'. raw_lines (file_text (snd (authRecord now ts cid act ok reason addr w)) p) =
     raw_lines (file_text (snd w) p) @ [audit_line ts cid addr act (resultName ok') reason']"
proof -
  obtain a' d' ok' reason' where a': "am_auditPath a' = p"
    and eq: "snd (authRecord now ts cid act ok reason addr w)
             = audit a' ts cid act (resultName ok') reason' addr d'"
    and d': "d' = snd w \<or> d' = revoked_disk cid w"
    using authRecord_disk[of w now ts cid act ok reason addr] p(1) by auto
  from d' assms(3) have t: "file_text d' p = file_text (snd w) p" by (auto simp: revoked_disk_other)
  from d' assms(4) have we: "fs_write_error d' p = None" by auto
  have "raw_lines (file_text (audit a' ts cid act (resultName ok') reason' addr d') p) =
        raw_lines (file_text d' p) @ [audit_line ts cid addr act (resultName ok') reason']"
    using raw_lines_append_line[OF e audit_line_one_line] a' p(2) we t
    by (simp add: audit_def file_text_append)
  then show ?thesis unfolding eq t by blast
qed

lemma find_client_denied_handled:
  "requireAuth handler tk r w =
     (case authenticate (fst w) (hget (rq_header r) HeaderToken) of (cid, ok, reason) \<Rightarrow>
        if ok then handler cid tk r w
        else (authRecord (tk_now tk) (tk_ts tk) cid ''auth'' False reason (rq_remote r) w,
              WriteJSON 401 (ErrorBody ''unauthorized'')))"
  by (simp add: requireAuth_def Let_def split: prod.splits)

section \<open>Properties\<close>

text \<open>A sample server: keys are their own names, a signature names key and payload.\<close>

definition demo_env :: "(string, string) crypto_env" where
  "demo_env =
     \<lparr>ce_sign = (\<lambda>k _ p _. Inr (k @ p)), ce_public = (\<lambda>k. k), ce_marshalPKIX = Inr,
      ce_available = (\<lambda>_. True),
      ce_decodeSign = (\<lambda>_. Inr \<lparr>sr_payload = ''AQ=='', sr_hash = [], sr_scheme = [], sr_salt_length = 0\<rparr>)\<rparr>"

definition demo_tick :: "int \<Rightarrow> tick" where
  "demo_tick now = \<lparr>tk_now = now, tk_ts = ''t'', tk_rand = []\<rparr>"

definition demo_request :: "string \<Rightarrow> http_request" where
  "demo_request token =
     \<lparr>rq_method = ''POST'', rq_path = ''/v1/sign'', rq_header = [(''X-Keyless-Token'', [token])],
      rq_remote = ''h'', rq_body = []\<rparr>"

definition demo_server :: "string SignServer" where
  "demo_server = \<lparr>sv_key = ''K'', sv_clientKeys = []\<rparr>"

lemma demo_keyid: "trimSpace (hget (rq_header (demo_request token)) HeaderKeyID) = []"
  by (simp add: demo_request_def HeaderKeyID_def hget_def hvalues_def no_edge_space_def
      space_seqs_def hasPrefix_def)

lemma demo_token: "hget (rq_header (demo_request token)) HeaderToken = token"
  by (simp add: demo_request_def HeaderToken_def hget_def hvalues_def)

lemma demo_payload: "DecodePayload ''AQ=='' = Inr [CHR 0x01]"
  by code_simp

text \<open>
  C1. A signature leaves the server only under all of its guards: a 200 answer to \<open>POST /v1/sign\<close>
  means the token authenticated a client that is allowed to sign, the first 64 KiB of the body
  decode to a request with a non-empty payload, supported options and a payload of the hash's
  length, and the answer is the signature of that payload by the key selected for that client.
\<close>
theorem signature_guards:
  assumes "Routes ce srv tk r w = Some (w', resp)" and "rq_path r = ''/v1/sign''"
    and "rs_status resp = 200"
  shows "\<exists>cid reason req payload opts key sig.
      authenticate (fst w) (hget (rq_header r) HeaderToken) = (cid, True, reason)
    \<and> fst (fst (allowed cid ''sign'' w))
    \<and> ce_decodeSign ce (take (64 * 1024) (rq_body r)) = Inr req
    \<and> DecodePayload (sr_payload req) = Inr payload
    \<and> SignerOptsFromRequest req = Inr opts
    \<and> (HashFunc opts = 0 \<or> hash_size (HashFunc opts) = Some (length payload))
    \<and> keyForRequest srv cid (rq_header r) = Some key
    \<and> ce_sign ce key (tk_rand tk) payload opts = Inr sig
    \<and> resp = WriteJSON 200 (SignatureBody (stdEncode sig))"
proof -
  obtain cid ok reason where au: "authenticate (fst w) (hget (rq_header r) HeaderToken) = (cid, ok, reason)"
    by (metis prod_cases3)
  have eq: "requireAuth (sign ce srv) tk r w = (w', resp)"
    using assms(1,2) by (simp add: Routes_def split: if_splits)
  with assms(3) au have ok: "ok" and s: "sign ce srv cid tk r w = (w', resp)"
    by (auto simp: find_client_denied_handled split: if_splits)
  from s assms(3) have "rs_status (snd (sign ce srv cid tk r w)) = 200" by simp
  then obtain req payload opts key sig where h:
    "fst (allowed cid ''sign'' w) = (True, snd (fst (allowed cid ''sign'' w)))"
    "ce_decodeSign ce (take sign_body_limit (rq_body r)) = Inr req"
    "DecodePayload (sr_payload req) = Inr payload" "SignerOptsFromRequest req = Inr opts"
    "validatePayload ce payload opts = Inr ()" "keyForRequest srv cid (rq_header r) = Some key"
    "ce_sign ce key (tk_rand tk) payload opts = Inr sig"
    "snd (sign ce srv cid tk r w) = WriteJSON 200 (SignatureBody (stdEncode sig))"
    by (rule sign_ok)
  from h(1) have al: "fst (fst (allowed cid ''sign'' w))" by (metis fst_conv)
  from h(5) have "HashFunc opts = 0 \<or> hash_size (HashFunc opts) = Some (length payload)"
    by (auto simp: validatePayload_ok)
  with au ok al h s show ?thesis by (auto simp: sign_body_limit_def)
qed

theorem signature_guards_witness:
  "\<exists>w' cid reason. Routes demo_env demo_server (demo_tick 0) (demo_request ''x'')
        (edge_mgr [edge_cfg ''a'' ''x'' False], clean_fs (\<lambda>_. None))
      = Some (w', WriteJSON 200 (SignatureBody (stdEncode (''K'' @ [CHR 0x01]))))
    \<and> authenticate (edge_mgr [edge_cfg ''a'' ''x'' False]) ''x'' = (cid, True, reason)"
proof -
  let ?w = "(edge_mgr [edge_cfg ''a'' ''x'' False], clean_fs (\<lambda>_. None))"
  have au: "authenticate (fst ?w) ''x'' = (''a'', True, [])"
    by (simp add: edge_mgr_def edge_cfg_def fresh_state_def authenticate_def)
  have r: "Routes demo_env demo_server (demo_tick 0) (demo_request ''x'') ?w =
      Some (requireAuth (sign demo_env demo_server) (demo_tick 0) (demo_request ''x'') ?w)"
    by (simp add: Routes_def demo_request_def)
  have s: "snd (requireAuth (sign demo_env demo_server) (demo_tick 0) (demo_request ''x'') ?w)
      = WriteJSON 200 (SignatureBody (stdEncode (''K'' @ [CHR 0x01])))"
    using au demo_keyid[of "''x''"]
    by (simp add: find_client_denied_handled demo_token sign_def Let_def)
       (simp add: allowed_def edge_mgr_def edge_cfg_def fresh_state_def ReadJSON_def demo_env_def
         demo_payload SignerOptsFromRequest_def ParseHash_def validatePayload_def keyForRequest_def
         demo_server_def demo_tick_def)
  then obtain w' where w': "Routes demo_env demo_server (demo_tick 0) (demo_request ''x'') ?w
      = Some (w', WriteJSON 200 (SignatureBody (stdEncode (''K'' @ [CHR 0x01]))))"
    using r by (metis prod.collapse)
  from signature_guards[OF w'] demo_token[of "''x''"] w' show ?thesis
    by (simp add: demo_request_def) blast
qed

text \<open>
  C11. No client reaches another client's key: on a server built by \<open>NewSignServerWithOptions\<close> the key
  selected for a client is the server's default key, under the empty key id only, or the key
  stored in a file that this client's own configuration entry names under that key id.
\<close>
theorem client_key_isolation:
  assumes "NewSignServerWithOptions pe decode d key opts = Inr (srv, a)"
    and "keyForRequest srv cid h = Some k"
  shows "k = key \<and> trimSpace (hget h HeaderKeyID) = []
       \<or> key_granted pe d (am_clients a) cid (trimSpace (hget h HeaderKeyID)) k"
proof -
  obtain keys where keys: "loadClientKeys pe d a = Inr keys"
    and srv: "srv = \<lparr>sv_key = key, sv_clientKeys = keys\<rparr>"
    using assms(1) by (auto simp: NewSignServerWithOptions_def split: sum.splits)
  from keyForRequest_cases[OF assms(2)] loadClientKeys_ok[OF keys] show ?thesis
    by (auto simp: srv table_ok_def simp del: map_of_eq_Some_iff)
qed

definition demo_pem :: "string pem_env" where
  "demo_pem =
     \<lparr>pe_decode = Some, pe_pkcs8 = (\<lambda>der. Some (ECDSAKey der)), pe_pkcs1 = (\<lambda>_. None),
      pe_ec = (\<lambda>_. None)\<rparr>"

definition demo_key_files :: fs where
  "demo_key_files = clean_fs [''c'' \<mapsto> ''{}'', ''k.pem'' \<mapsto> ''SECRET'']"

theorem client_key_isolation_witness:
  "\<exists>srv a. NewSignServerWithOptions demo_pem
       (\<lambda>_. Inr [(edge_cfg ''a'' ''x'' False)\<lparr>cc_private_keys := [(''alt'', ''k.pem'')]\<rparr>])
       demo_key_files ''K''
       \<lparr>opt_Token = [], opt_ClientsPath = ''c'', opt_RevokedPath = [], opt_AuditPath = []\<rparr>
     = Inr (srv, a)
   \<and> keyForRequest srv ''a'' (hset [] HeaderKeyID ''alt'') = Some ''SECRET''
   \<and> key_granted demo_pem demo_key_files (am_clients a) ''a'' ''alt'' ''SECRET''"
    (is "\<exists>srv a. ?new = Inr (srv, a) \<and> _ srv \<and> _ a")
proof -
  have clean: "no_edge_space ''a''" "no_edge_space ''alt''" "no_edge_space ''k.pem''" "no_edge_space []"
    by (simp_all add: no_edge_space_def space_seqs_def hasPrefix_def)
  define srv :: "string SignServer"
    where "srv = \<lparr>sv_key = ''K'', sv_clientKeys = [(''a'', [(''alt'', ''SECRET'')])]\<rparr>"
  define a where "a = (edge_mgr [(edge_cfg ''a'' ''x'' False)\<lparr>cc_private_keys := [(''alt'', ''k.pem'')]\<rparr>])
      \<lparr>am_revokedPath := [], am_auditPath := []\<rparr>"
  have new: "?new = Inr (srv, a)"
    by (simp add: NewSignServerWithOptions_def newAuthManager_def loadClients_def readFile_def
        demo_key_files_def clean_fs_def edge_cfg_def edge_mgr_def fresh_state_def loadClientKeys_def
        put_key_def
        LoadPrivateKey_def demo_pem_def clean srv_def a_def)
  have key: "keyForRequest srv ''a'' (hset [] HeaderKeyID ''alt'') = Some ''SECRET''"
    by (simp add: keyForRequest_def hget_hset clean srv_def)
  from client_key_isolation[OF new key] have "key_granted demo_pem
      demo_key_files (am_clients a) ''a'' ''alt'' ''SECRET''"
    by (simp add: hget_hset clean)
  with new key show ?thesis by blast
qed

text \<open>
  Every signing attempt is audited exactly once, granted or not: whatever the outcome of
  \<open>POST /v1/sign\<close>, the audit log gains exactly one line, a record with the caller's address.
\<close>
theorem sign_attempt_audited_once:
  assumes "Routes ce srv tk r w = Some (w', resp)" and "rq_path r = ''/v1/sign''"
    and "am_auditPath (fst w) = p" and "p \<noteq> []" and "p \<noteq> am_revokedPath (fst w)"
    and "fs_write_error (snd w) p = None" and "ends_line (file_text (snd w) p)"
  shows "\<exists>cid act ok reason. raw_lines (file_text (snd w') p) =
     raw_lines (file_text (snd w) p)
       @ [audit_line (tk_ts tk) cid (rq_remote r) act (resultName ok) reason]"
proof -
  obtain cid ok reason where au: "authenticate (fst w) (hget (rq_header r) HeaderToken) = (cid, ok, reason)"
    by (metis prod_cases3)
  have eq: "requireAuth (sign ce srv) tk r w = (w', resp)"
    using assms(1,2) by (simp add: Routes_def split: if_splits)
  show ?thesis
  proof (cases ok)
    case False
    with eq au have "w' = authRecord (tk_now tk) (tk_ts tk) cid ''auth'' False reason (rq_remote r) w"
      by (simp add: find_client_denied_handled)
    then show ?thesis using authRecord_audit_line[OF assms(3-7)] by blast
  next
    case True
    with eq au have s: "w' = fst (sign ce srv cid tk r w)"
      by (simp add: find_client_denied_handled)
    obtain ok' reason' where w': "w' = authRecord (tk_now tk) (tk_ts tk) cid ''sign'' ok' reason'
        (rq_remote r) (snd (allowed cid ''sign'' w))"
      using sign_state[of ce srv cid tk r w] s by auto
    show ?thesis unfolding w'
      using authRecord_audit_line[of "snd (allowed cid ''sign'' w)" p] assms(3-7)
      by (simp add: allowed_disk) blast
  qed
qed

theorem sign_attempt_audited_once_witness:
  "\<exists>w' resp cid act ok reason.
     Routes demo_env demo_server (demo_tick 0) (demo_request ''wrong'')
       (edge_mgr [edge_cfg ''a'' ''x'' False], clean_fs (\<lambda>_. None)) = Some (w', resp)
   \<and> raw_lines (file_text (snd w') ''audit'') = [audit_line ''t'' cid ''h'' act (resultName ok) reason]"
proof -
  let ?w = "(edge_mgr [edge_cfg ''a'' ''x'' False], clean_fs (\<lambda>_. None))"
  obtain w' resp where r: "Routes demo_env demo_server (demo_tick 0) (demo_request ''wrong'') ?w = Some (w', resp)"
    by (simp add: Routes_def demo_request_def) (metis surj_pair)
  have "\<exists>cid act ok reason. raw_lines (file_text (snd w') ''audit'') =
     raw_lines (file_text (snd ?w) ''audit'')
       @ [audit_line (tk_ts (demo_tick 0)) cid (rq_remote (demo_request ''wrong'')) act (resultName ok) reason]"
    by (rule sign_attempt_audited_once[OF r])
       (simp_all add: demo_request_def edge_mgr_def clean_fs_def file_text_def ends_line_def)
  with r show ?thesis
    by (simp add: clean_fs_def file_text_def raw_lines_def demo_tick_def demo_request_def)
qed

section \<open>Counters of a past minute\<close>

lemma sign_denied:
  assumes "fst (allowed cid ''sign'' w) = (False, reason)"
  shows "snd (sign ce srv cid tk r w) = WriteJSON 429 (ErrorBody reason)"
    and "fst (sign ce srv cid tk r w) = authRecord (tk_now tk) (tk_ts tk) cid ''sign'' False reason
           (rq_remote r) (snd (allowed cid ''sign'' w))"
  using assms by (cases "allowed cid ''sign'' w"; simp add: sign_def Let_def)+

text \<open>
  C40. \<open>allowed\<close> compares the counters without rolling the window, so a client with a sign threshold that has signed
  that often in some past minute is refused with 429 at its next signing request, however much later that comes.
  With \<open>auto_revoke\<close>, unless the rate limit answers first, that request puts it on the revocation list
  for good. Otherwise the refusal starts a new count, and its next request is permitted again.
\<close>
theorem stale_window_revokes:
  assumes "mget (am_clients (fst w)) cid = Some st" and "cid \<noteq> []"
    and "cc_auto_signs (st_cfg st) > 0" and "st_signs st \<ge> cc_auto_signs (st_cfg st)"
    and "st_windowStart st \<noteq> time_truncate (tk_now tk) time_minute"
  shows "rs_status (snd (sign ce srv cid tk r w)) = 429
    \<and> (if cc_auto_revoke (st_cfg st) \<and> \<not> (0 < cc_rate (st_cfg st) \<and> cc_rate (st_cfg st) \<le> st_signs st)
       then cid \<in> am_revoked (fst (fst (sign ce srv cid tk r w)))
       else am_revoked (fst (fst (sign ce srv cid tk r w))) = am_revoked (fst w)
         \<and> fst (allowed cid ''sign'' (fst (sign ce srv cid tk r w))) = (True, []))"
proof (cases "cc_auto_revoke (st_cfg st) \<and> \<not> (0 < cc_rate (st_cfg st) \<and> cc_rate (st_cfg st) \<le> st_signs st)")
  case True
  have al: "fst (allowed cid ''sign'' w) = (False, ''auto-revoked: sign threshold exceeded'')"
    and rv: "cid \<in> am_revoked (fst (snd (allowed cid ''sign'' w)))"
    using assms True by (auto simp: allowed_def appendRevoked_pair)
  have "cid \<in> am_revoked (fst (fst (sign ce srv cid tk r w)))"
    using rv auth_step_revoked_mono[of "snd (allowed cid ''sign'' w)"
        "EvRecord (tk_now tk) (tk_ts tk) cid ''sign'' False
           ''auto-revoked: sign threshold exceeded'' (rq_remote r)"]
    unfolding sign_denied(2)[OF al] by auto
  then show ?thesis using True by (simp add: sign_denied(1)[OF al])
next
  case False
  have "\<exists>reason. allowed cid ''sign'' w = ((False, reason), w)"
    using assms(1-4) False by (cases "0 < cc_rate (st_cfg st) \<and> cc_rate (st_cfg st) \<le> st_signs st") (auto simp: allowed_def)
  then obtain reason where al: "allowed cid ''sign'' w = ((False, reason), w)" by blast
  have al1: "fst (allowed cid ''sign'' w) = (False, reason)" by (simp add: al)
  let ?st = "recorded (tk_now tk) ''sign'' False st"
  have eq: "fst (sign ce srv cid tk r w) = authRecord (tk_now tk) (tk_ts tk) cid ''sign'' False reason (rq_remote r) w"
    by (simp add: sign_denied(2)[OF al1] al)
  have n: "st_signs ?st = 0" "\<not> revokes ''sign'' (counted (tk_now tk) ''sign'' False st)"
    using assms(5) by (simp_all add: revokes_def signs_trip_def errors_trip_def counted_def count_event_def roll_window_def Let_def)
  have "mget (am_clients (fst (fst (sign ce srv cid tk r w)))) cid = Some ?st"
    unfolding eq using assms(1,2) by (simp add: authRecord_Some)
  moreover have "am_revoked (fst (fst (sign ce srv cid tk r w))) = am_revoked (fst w)"
    unfolding eq using assms(1,2) n(2) by (simp add: authRecord_Some)
  ultimately show ?thesis using False assms(3) n(1)
    by (auto simp: sign_denied(1)[OF al1] allowed_def)
qed

definition one_sign_cfg :: ClientConfig where
  "one_sign_cfg = (edge_cfg ''a'' ''x'' True)\<lparr>cc_auto_signs := 1, cc_auto_errors := 0\<rparr>"

text \<open>One permitted signature at time 0; the next request comes an hour later.\<close>

theorem stale_window_revokes_witness:
  "let w0 = (edge_mgr [one_sign_cfg], clean_fs (\<lambda>_. None));
       w1 = authRecord 0 ''t'' ''a'' ''sign'' True [] ''h'' (snd (allowed ''a'' ''sign'' w0));
       res = sign demo_env demo_server ''a'' (demo_tick (3600 * 1000000000)) (demo_request ''x'') w1
   in fst (fst (allowed ''a'' ''sign'' w0)) \<and> rs_status (snd res) = 429
      \<and> ''a'' \<in> am_revoked (fst (fst res))"
proof -
  define w0 where "w0 = (edge_mgr [one_sign_cfg], clean_fs (\<lambda>_. None))"
  define w1 where "w1 = authRecord 0 ''t'' ''a'' ''sign'' True [] ''h'' (snd (allowed ''a'' ''sign'' w0))"
  have st0: "mget (am_clients (fst w0)) ''a'' = Some (fresh_state one_sign_cfg)"
    by (simp add: w0_def edge_mgr_def one_sign_cfg_def edge_cfg_def)
  have al: "allowed ''a'' ''sign'' w0 = ((True, []), w0)"
    using st0 by (simp add: allowed_def one_sign_cfg_def edge_cfg_def fresh_state_def)
  have st1: "mget (am_clients (fst w1)) ''a'' = Some (recorded 0 ''sign'' True (fresh_state one_sign_cfg))"
    unfolding w1_def al using st0 by (simp add: authRecord_Some)
  have "st_signs (recorded 0 ''sign'' True (fresh_state one_sign_cfg)) = 1"
    by (simp add: counted_def count_event_def roll_window_def fresh_state_def Let_def)
  then have "rs_status (snd (sign demo_env demo_server ''a'' (demo_tick (3600 * 1000000000)) (demo_request ''x'') w1)) = 429
       \<and> ''a'' \<in> am_revoked (fst (fst (sign demo_env demo_server ''a'' (demo_tick (3600 * 1000000000)) (demo_request ''x'') w1)))"
    using stale_window_revokes[OF st1, of "demo_tick (3600 * 1000000000)"]
    by (simp add: one_sign_cfg_def edge_cfg_def fresh_state_def counted_def count_event_def roll_window_def Let_def
        demo_tick_def time_truncate_def go_simps)
  then show ?thesis
    unfolding Let_def w0_def[symmetric] w1_def[symmetric] using al by simp
qed

text \<open>
  The soft limit heals one request late: the first signing request of a new minute is still
  refused with 429 on the strength of the old minute's count, and refusing it resets the window, so
  the next request is permitted again.
\<close>
theorem rate_limit_heals_one_late:
  assumes "mget (am_clients (fst w)) cid = Some st" and "cid \<noteq> []"
    and "cc_rate (st_cfg st) > 0" and "cc_auto_signs (st_cfg st) = 0"
    and "st_signs st \<ge> cc_rate (st_cfg st)"
    and "st_windowStart st \<noteq> time_truncate (tk_now tk) time_minute"
  shows "rs_status (snd (sign ce srv cid tk r w)) = 429
       \<and> fst (allowed cid ''sign'' (fst (sign ce srv cid tk r w))) = (True, [])"
proof -
  have al: "allowed cid ''sign'' w = ((False, ''rate limit exceeded''), w)"
    using assms by (simp add: allowed_def)
  then have al1: "fst (allowed cid ''sign'' w) = (False, ''rate limit exceeded'')" by simp
  have "mget (am_clients (fst (fst (sign ce srv cid tk r w)))) cid
        = Some (recorded (tk_now tk) ''sign'' False st)"
    unfolding sign_denied(2)[OF al1] al using assms(1,2) by (simp add: authRecord_Some)
  moreover have "st_signs (recorded (tk_now tk) ''sign'' False st) = 0"
    using assms(6) by (simp add: counted_def count_event_def roll_window_def Let_def)
  ultimately show ?thesis using assms(3,4)
    by (simp add: sign_denied(1)[OF al1] allowed_def)
qed

theorem rate_limit_heals_one_late_witness:
  "let st = (fresh_state (one_sign_cfg\<lparr>cc_auto_signs := 0, cc_rate := 1\<rparr>))\<lparr>st_signs := 1, st_windowStart := 0\<rparr>;
       w = ((edge_mgr [])\<lparr>am_clients := [(''a'', st)]\<rparr>, clean_fs (\<lambda>_. None));
       res = sign demo_env demo_server ''a'' (demo_tick (60 * 1000000000)) (demo_request ''x'') w
   in rs_status (snd res) = 429 \<and> fst (allowed ''a'' ''sign'' (fst res)) = (True, [])"
proof -
  define st where "st = (fresh_state (one_sign_cfg\<lparr>cc_auto_signs := 0, cc_rate := 1\<rparr>))
      \<lparr>st_signs := 1, st_windowStart := 0\<rparr>"
  define w where "w = ((edge_mgr [])\<lparr>am_clients := [(''a'', st)]\<rparr>, clean_fs (\<lambda>_. None))"
  have "mget (am_clients (fst w)) ''a'' = Some st" by (simp add: w_def)
  then have "rs_status (snd (sign demo_env demo_server ''a'' (demo_tick (60 * 1000000000)) (demo_request ''x'') w)) = 429
      \<and> fst (allowed ''a'' ''sign'' (fst (sign demo_env demo_server ''a'' (demo_tick (60 * 1000000000)) (demo_request ''x'') w))) = (True, [])"
    by (rule rate_limit_heals_one_late)
       (simp_all add: st_def fresh_state_def one_sign_cfg_def edge_cfg_def demo_tick_def
         time_truncate_def go_simps)
  then show ?thesis unfolding Let_def st_def[symmetric] w_def[symmetric] .
qed

end
