(* ===== verification/SignConcurrency.thy ===== *)
theory SignConcurrency
  imports ServerProps
begin

text \<open>
  Concurrent signing requests. The server runs each request in its own goroutine; \<open>allowed\<close> and
  \<open>record\<close> are two separate critical sections with the signature between them. A step relation over
  the registry and the number of requests of one client between the two sections describes every
  interleaving with at most \<open>N\<close> such requests.
\<close>

record conc =
  cn_world :: auth_world
  cn_inflight :: nat

text \<open>The events that can happen at any time without being one of the client's signatures.\<close>

fun background :: "string \<Rightarrow> auth_event \<Rightarrow> bool" where
  "background cid (EvAllowed c act) = True"
| "background cid (EvRecord now ts c act ok reason addr) = (\<not> (c = cid \<and> act = ''sign'' \<and> ok))"

inductive conc_step :: "string \<Rightarrow> nat \<Rightarrow> conc \<Rightarrow> conc \<Rightarrow> bool" for cid :: string and N :: nat where
  enter: "fst (allowed cid ''sign'' (cn_world s)) = (True, reason) \<Longrightarrow> cn_inflight s < N \<Longrightarrow>
     conc_step cid N s \<lparr>cn_world = snd (allowed cid ''sign'' (cn_world s)), cn_inflight = Suc (cn_inflight s)\<rparr>"
| signed: "cn_inflight s = Suc n \<Longrightarrow>
     conc_step cid N s \<lparr>cn_world = authRecord now ts cid ''sign'' True [] addr (cn_world s), cn_inflight = n\<rparr>"
| failed: "cn_inflight s = Suc n \<Longrightarrow>
     conc_step cid N s \<lparr>cn_world = authRecord now ts cid ''sign'' False reason addr (cn_world s), cn_inflight = n\<rparr>"
| other: "background cid e \<Longrightarrow>
     conc_step cid N s \<lparr>cn_world = auth_step e (cn_world s), cn_inflight = cn_inflight s\<rparr>"

inductive_cases conc_stepE: "conc_step cid N s t"

inductive conc_run :: "string \<Rightarrow> nat \<Rightarrow> conc \<Rightarrow> conc \<Rightarrow> bool" for cid :: string and N :: nat where
  refl: "conc_run cid N s s"
| step: "conc_run cid N s t \<Longrightarrow> conc_step cid N t u \<Longrightarrow> conc_run cid N s u"

text \<open>The counter of a client after a recorded event grows by one only for a signature.\<close>

lemma recorded_signs:
  "st_signs (recorded now act ok st) \<le> max 0 (st_signs st) + (if ok \<and> act = ''sign'' then 1 else 0)"
  by (simp add: counted_def count_event_def roll_window_def Let_def)

lemma authRecord_client:
  assumes "mget (am_clients (fst w)) cid = Some st"
  shows "\<exists>st'. mget (am_clients (fst (authRecord now ts c act ok reason addr w))) cid = Some st'
     \<and> st_cfg st' = st_cfg st
     \<and> st_signs st' \<le> max 0 (st_signs st) + (if c = cid \<and> ok \<and> act = ''sign'' then 1 else 0)"
proof (cases "c = [] \<or> mget (am_clients (fst w)) c = None")
  case True
  moreover have "st_signs st \<le> max 0 (st_signs st) + 1" by linarith
  ultimately show ?thesis using assms by (simp add: authRecord_None)
next
  case False
  then obtain st0 where c: "c \<noteq> []" "mget (am_clients (fst w)) c = Some st0" by auto
  show ?thesis
  proof (cases "c = cid")
    case True
    then show ?thesis using assms c recorded_signs[of now act ok st] by (simp add: authRecord_Some)
  next
    case False
    then show ?thesis using assms c by (simp add: authRecord_Some)
  qed
qed

lemma allowed_client:
  assumes "mget (am_clients (fst w)) cid = Some st"
  shows "\<exists>st'. mget (am_clients (fst (snd (allowed c act w)))) cid = Some st'
     \<and> st_cfg st' = st_cfg st \<and> st_signs st' = st_signs st"
  using allowed_cases[of c act w] assms by auto

text \<open>
  The invariant: the signatures counted in the current window plus the requests in flight stay
  below the limit plus the number of concurrent requests.
\<close>

definition conc_inv :: "string \<Rightarrow> nat \<Rightarrow> int \<Rightarrow> conc \<Rightarrow> bool" where
  "conc_inv cid N limit s \<longleftrightarrow>
     (\<exists>st. mget (am_clients (fst (cn_world s))) cid = Some st \<and> cc_rate (st_cfg st) = limit
        \<and> max 0 (st_signs st) + int (cn_inflight s) \<le> limit + int N - 1) \<and> cn_inflight s \<le> N"

lemma allowed_rate:
  assumes "fst (allowed cid ''sign'' w) = (True, reason)"
    and "mget (am_clients (fst w)) cid = Some st" and "cc_rate (st_cfg st) > 0"
  shows "st_signs st < cc_rate (st_cfg st)"
  using assms by (auto simp: allowed_def Let_def split: if_splits prod.splits)

lemma conc_step_inv:
  assumes "conc_step cid N s t" and "conc_inv cid N limit s" and "limit > 0"
  shows "conc_inv cid N limit t"
proof -
  obtain st where st: "mget (am_clients (fst (cn_world s))) cid = Some st" "cc_rate (st_cfg st) = limit"
    and bound: "max 0 (st_signs st) + int (cn_inflight s) \<le> limit + int N - 1" "cn_inflight s \<le> N"
    using assms(2) by (auto simp: conc_inv_def)
  from assms(1) show ?thesis
  proof (cases rule: conc_step.cases)
    case (enter reason)
    then have "st_signs st < limit" using allowed_rate[OF enter(2) st(1)] st(2) assms(3) by simp
    with allowed_client[OF st(1), of cid "''sign''"] st(2) enter assms(3) show ?thesis
      by (auto simp: conc_inv_def simp del: map_of_eq_Some_iff)
  next
    case (signed n now ts addr)
    with authRecord_client[OF st(1), of now ts cid "''sign''" True "[]" addr] st(2) bound
    show ?thesis by (auto simp: conc_inv_def simp del: map_of_eq_Some_iff)
  next
    case (failed n now ts reason addr)
    with authRecord_client[OF st(1), of now ts cid "''sign''" False reason addr] st(2) bound
    show ?thesis by (auto simp: conc_inv_def simp del: map_of_eq_Some_iff)
  next
    case (other e)
    show ?thesis
    proof (cases e)
      case (EvAllowed c act)
      with other allowed_client[OF st(1), of c act] st(2) bound show ?thesis
        by (auto simp: conc_inv_def simp del: map_of_eq_Some_iff)
    next
      case (EvRecord now ts c act ok reason addr)
      with other authRecord_client[OF st(1), of now ts c act ok reason addr] st(2) bound
      show ?thesis by (auto simp: conc_inv_def simp del: map_of_eq_Some_iff split: if_splits)
    qed
  qed
qed

lemma conc_run_inv:
  assumes "conc_run cid N s t" and "conc_inv cid N limit s" and "limit > 0"
  shows "conc_inv cid N limit t"
  using assms by (induction rule: conc_run.induct) (auto intro: conc_step_inv)

section \<open>Properties\<close>

text \<open>
  The rate limit under concurrency: with at most \<open>N\<close> requests of a client between permission
  check and bookkeeping, in any interleaving with any other events, the signatures counted for the
  client in a window never exceed \<open>rate_per_minute + N - 1\<close>; requests handled one at a time
  (\<open>N = 1\<close>) never exceed the limit.
\<close>
theorem rate_limit_concurrent:
  assumes "conc_run cid N \<lparr>cn_world = w, cn_inflight = 0\<rparr> t" and "N \<ge> 1"
    and "mget (am_clients (fst w)) cid = Some st" and "cc_rate (st_cfg st) > 0"
    and "0 \<le> st_signs st" and "st_signs st \<le> cc_rate (st_cfg st)"
  shows "\<exists>st'. mget (am_clients (fst (cn_world t))) cid = Some st'
     \<and> st_signs st' \<le> cc_rate (st_cfg st) + int N - 1"
proof -
  have "conc_inv cid N (cc_rate (st_cfg st)) \<lparr>cn_world = w, cn_inflight = 0\<rparr>"
    using assms(2-6) by (auto simp: conc_inv_def simp del: map_of_eq_Some_iff)
  from conc_run_inv[OF assms(1) this assms(4)] show ?thesis by (auto simp: conc_inv_def simp del: map_of_eq_Some_iff)
qed

definition rate_one_cfg :: ClientConfig where
  "rate_one_cfg = (edge_cfg ''a'' ''x'' False)\<lparr>cc_rate := 1, cc_auto_errors := 0\<rparr>"

definition rate_one_world :: auth_world where
  "rate_one_world = (edge_mgr [rate_one_cfg], clean_fs (\<lambda>_. None))"

lemma rate_one_client:
  "mget (am_clients (fst rate_one_world)) ''a'' = Some (fresh_state rate_one_cfg)"
  by (simp add: rate_one_world_def edge_mgr_def rate_one_cfg_def edge_cfg_def)

lemma rate_one_allowed: "allowed ''a'' ''sign'' rate_one_world = ((True, []), rate_one_world)"
  using rate_one_client by (simp add: allowed_def rate_one_cfg_def edge_cfg_def fresh_state_def)

theorem rate_limit_concurrent_witness:
  "\<exists>st'. mget (am_clients (fst (authRecord 0 ''t'' ''a'' ''sign'' True [] ''h'' rate_one_world))) ''a'' = Some st'
     \<and> st_signs st' \<le> 1"
proof -
  have "conc_run ''a'' 1 \<lparr>cn_world = rate_one_world, cn_inflight = 0\<rparr>
          \<lparr>cn_world = authRecord 0 ''t'' ''a'' ''sign'' True [] ''h'' rate_one_world, cn_inflight = 0\<rparr>"
    using conc_step.enter[of "''a''" "\<lparr>cn_world = rate_one_world, cn_inflight = 0\<rparr>" "[]" 1]
      conc_step.signed[of "\<lparr>cn_world = rate_one_world, cn_inflight = 1\<rparr>" 0 "''a''" 1 0 "''t''" "''h''"]
    by (auto simp: rate_one_allowed intro!: conc_run.step[OF conc_run.step[OF conc_run.refl]])
  from rate_limit_concurrent[OF this _ rate_one_client] show ?thesis
    by (simp add: fresh_state_def rate_one_cfg_def edge_cfg_def)
qed

text \<open>
  The bound is reached: two requests that both pass the check before either is recorded are
  both signed, so a client with \<open>rate_per_minute = 1\<close> obtains two signatures in one minute.
\<close>
theorem rate_limit_overshoot:
  "\<exists>t st'. conc_run ''a'' 2 \<lparr>cn_world = rate_one_world, cn_inflight = 0\<rparr> t
     \<and> mget (am_clients (fst (cn_world t))) ''a'' = Some st'
     \<and> cc_rate (st_cfg st') = 1 \<and> st_signs st' = 2"
proof -
  let ?w1 = "authRecord 0 ''t'' ''a'' ''sign'' True [] ''h'' rate_one_world"
  let ?w2 = "authRecord 1 ''t'' ''a'' ''sign'' True [] ''h'' ?w1"
  have e1: "conc_step ''a'' 2 \<lparr>cn_world = rate_one_world, cn_inflight = 0\<rparr> \<lparr>cn_world = rate_one_world, cn_inflight = 1\<rparr>"
    using conc_step.enter[of "''a''" "\<lparr>cn_world = rate_one_world, cn_inflight = 0\<rparr>" "[]" 2]
    by (simp add: rate_one_allowed)
  have e2: "conc_step ''a'' 2 \<lparr>cn_world = rate_one_world, cn_inflight = 1\<rparr> \<lparr>cn_world = rate_one_world, cn_inflight = 2\<rparr>"
    using conc_step.enter[of "''a''" "\<lparr>cn_world = rate_one_world, cn_inflight = 1\<rparr>" "[]" 2]
    by (simp add: rate_one_allowed numeral_2_eq_2)
  have s1: "conc_step ''a'' 2 \<lparr>cn_world = rate_one_world, cn_inflight = 2\<rparr> \<lparr>cn_world = ?w1, cn_inflight = 1\<rparr>"
    using conc_step.signed[of "\<lparr>cn_world = rate_one_world, cn_inflight = 2\<rparr>" 1 "''a''" 2 0 "''t''" "''h''"]
    by (simp add: numeral_2_eq_2)
  have s2: "conc_step ''a'' 2 \<lparr>cn_world = ?w1, cn_inflight = 1\<rparr> \<lparr>cn_world = ?w2, cn_inflight = 0\<rparr>"
    using conc_step.signed[of "\<lparr>cn_world = ?w1, cn_inflight = 1\<rparr>" 0 "''a''" 2 1 "''t''" "''h''"] by simp
  have run: "conc_run ''a'' 2 \<lparr>cn_world = rate_one_world, cn_inflight = 0\<rparr> \<lparr>cn_world = ?w2, cn_inflight = 0\<rparr>"
    by (rule conc_run.step[OF conc_run.step[OF conc_run.step[OF conc_run.step[OF conc_run.refl e1] e2] s1] s2])
  have st1: "mget (am_clients (fst ?w1)) ''a'' = Some (recorded 0 ''sign'' True (fresh_state rate_one_cfg))"
    using rate_one_client by (simp add: authRecord_Some)
  then have st2: "mget (am_clients (fst ?w2)) ''a''
      = Some (recorded 1 ''sign'' True (recorded 0 ''sign'' True (fresh_state rate_one_cfg)))"
    by (simp add: authRecord_Some)
  have "st_signs (recorded 1 ''sign'' True (recorded 0 ''sign'' True (fresh_state rate_one_cfg))) = 2"
    by (simp add: recorded_def counted_def count_event_def roll_window_def fresh_state_def Let_def
        time_truncate_def go_simps)
  with run st2 show ?thesis
    by (intro exI conjI[OF run]) (auto simp: rate_one_cfg_def edge_cfg_def fresh_state_def)
qed

end
