(* ===== verification/RemoteSigner.thy ===== *)
theory RemoteSigner
  imports SignConcurrency
begin

text \<open>
  The edge's side of the protocol (\<open>internal/keyless/client.go\<close>): a \<open>crypto.Signer\<close> whose \<open>Sign\<close>
  is an HTTP request. The HTTP client is a parameter that maps the state of the world and a request
  to the next state and a response or an error; the last section puts the signing server behind it.
\<close>

section \<open>The client\<close>

record url =
  u_scheme :: string
  u_host :: string
  u_string :: string

record out_request =
  or_method :: string
  or_url :: string
  or_header :: header
  or_body :: string

record ('w, 'pub) client_env =
  cl_do :: "'w \<Rightarrow> out_request \<Rightarrow> 'w \<times> http_response result"
  cl_parseURL :: "string \<Rightarrow> url result"
  cl_decodeSignature :: "string \<Rightarrow> string result"
  cl_decodeDER :: "string \<Rightarrow> string result"
  cl_parsePKIX :: "string \<Rightarrow> 'pub result"

record 'pub RemoteSigner =
  rsn_baseURL :: string
  rsn_token :: string
  rsn_keyID :: string
  rsn_publicKey :: "'pub option"
  rsn_clientID :: string

function stringsTrimRightSlash :: "string \<Rightarrow> string" where
  "stringsTrimRightSlash v =
     (if v \<noteq> [] \<and> last v = CHR ''/'' then stringsTrimRightSlash (butlast v) else v)"
  by pat_completeness auto
termination by (relation "measure length") auto

declare stringsTrimRightSlash.simps [simp del]

text \<open>The status line Go's client reports, for the codes the two sides exchange.\<close>

definition statusText :: "nat \<Rightarrow> string" where
  "statusText n =
     show_nat n @ '' '' @
     (if n = 200 then ''OK'' else if n = 400 then ''Bad Request'' else if n = 401 then ''Unauthorized''
      else if n = 403 then ''Forbidden'' else if n = 404 then ''Not Found''
      else if n = 405 then ''Method Not Allowed'' else if n = 429 then ''Too Many Requests''
      else if n = 500 then ''Internal Server Error'' else if n = 502 then ''Bad Gateway'' else [])"

definition keyless_headers :: "'pub RemoteSigner \<Rightarrow> header \<Rightarrow> header" where
  "keyless_headers s h0 =
     (let h1 = (if rsn_token s \<noteq> [] then hset h0 HeaderToken (rsn_token s) else h0);
          h2 = (if rsn_keyID s \<noteq> [] then hset h1 HeaderKeyID (rsn_keyID s) else h1)
      in if rsn_clientID s \<noteq> [] then hset h2 HeaderClientID (rsn_clientID s) else h2)"

definition SetClientID :: "string \<Rightarrow> 'pub RemoteSigner \<Rightarrow> 'pub RemoteSigner" where
  "SetClientID clientID s = s\<lparr>rsn_clientID := clientID\<rparr>"

definition fetchPublicKey ::
  "('w, 'pub) client_env \<Rightarrow> 'pub RemoteSigner \<Rightarrow> 'w \<Rightarrow> 'w \<times> 'pub result" where
  "fetchPublicKey cl s w =
     (let u = rsn_baseURL s @ ''/v1/public-key''
      in case cl_parseURL cl u of
           Inl e \<Rightarrow> (w, Inl e)
         | Inr _ \<Rightarrow>
        (case cl_do cl w \<lparr>or_method = ''GET'', or_url = u, or_header = keyless_headers s [], or_body = []\<rparr> of
           (w', Inl e) \<Rightarrow> (w', Inl e)
         | (w', Inr resp) \<Rightarrow>
             if rs_status resp \<noteq> 200
             then (w', Inl (''keyless public key failed: '' @ statusText (rs_status resp) @ '': ''
                            @ take 4096 (rs_body resp)))
             else (case cl_decodeDER cl (rs_body resp) of
                     Inl e \<Rightarrow> (w', Inl e)
                   | Inr der \<Rightarrow> (w', DecodePublicKey (cl_parsePKIX cl) der))))"

definition NewRemoteSignerForKey ::
  "('w, 'pub) client_env \<Rightarrow> string \<Rightarrow> string \<Rightarrow> string \<Rightarrow> 'w \<Rightarrow> 'w \<times> 'pub RemoteSigner result" where
  "NewRemoteSignerForKey cl baseURL token keyID w =
     (case cl_parseURL cl baseURL of
        Inl e \<Rightarrow> (w, Inl e)
      | Inr parsed \<Rightarrow>
          if u_scheme parsed \<noteq> ''https'' \<and> u_scheme parsed \<noteq> ''http''
          then (w, Inl ''keyless URL must use http or https'')
          else (let signer = \<lparr>rsn_baseURL = stringsTrimRightSlash (u_string parsed), rsn_token = token,
                              rsn_keyID = keyID, rsn_publicKey = None, rsn_clientID = []\<rparr>
                in case fetchPublicKey cl signer w of
                     (w', Inl e) \<Rightarrow> (w', Inl e)
                   | (w', Inr pub) \<Rightarrow> (w', Inr (signer\<lparr>rsn_publicKey := Some pub\<rparr>))))"

definition NewRemoteSigner ::
  "('w, 'pub) client_env \<Rightarrow> string \<Rightarrow> string \<Rightarrow> 'w \<Rightarrow> 'w \<times> 'pub RemoteSigner result" where
  "NewRemoteSigner cl baseURL token w = NewRemoteSignerForKey cl baseURL token [] w"

definition Public :: "'pub RemoteSigner \<Rightarrow> 'pub option" where
  "Public s = rsn_publicKey s"

definition remoteSign ::
  "('w, 'pub) client_env \<Rightarrow> 'pub RemoteSigner \<Rightarrow> string \<Rightarrow> signer_opts \<Rightarrow> 'w \<Rightarrow> 'w \<times> string result" where
  "remoteSign cl s digest opts w =
     (let payload = json_SignRequest (RequestFromSignerInput digest opts);
          u = rsn_baseURL s @ ''/v1/sign''
      in case cl_parseURL cl u of
           Inl e \<Rightarrow> (w, Inl e)
         | Inr _ \<Rightarrow>
        (case cl_do cl w \<lparr>or_method = ''POST'', or_url = u,
                or_header = keyless_headers s (hset [] ''Content-Type'' ''application/json''),
                or_body = payload\<rparr> of
           (w', Inl e) \<Rightarrow> (w', Inl e)
         | (w', Inr resp) \<Rightarrow>
             if rs_status resp \<noteq> 200
             then (w', Inl (''keyless sign failed: '' @ statusText (rs_status resp) @ '': ''
                            @ take 4096 (rs_body resp)))
             else (case cl_decodeSignature cl (rs_body resp) of
                     Inl e \<Rightarrow> (w', Inl e)
                   | Inr sig \<Rightarrow>
                       (case stdDecode sig of
                          None \<Rightarrow> (w', Inl ''illegal base64 data'')
                        | Some bs \<Rightarrow> (w', Inr bs)))))"

section \<open>Facts\<close>

lemma stringsTrimRightSlash_eq: "stringsTrimRightSlash v = trimRight v CHR ''/''"
proof (induction v rule: stringsTrimRightSlash.induct)
  case (1 v)
  show ?case
  proof (cases v rule: rev_cases)
    case Nil
    then show ?thesis by (subst stringsTrimRightSlash.simps) (simp add: trimRight_def)
  next
    case (snoc u c)
    show ?thesis
    proof (cases "c = CHR ''/''")
      case True
      with 1 snoc have "stringsTrimRightSlash u = trimRight u CHR ''/''" by simp
      then show ?thesis using snoc True
        by (subst stringsTrimRightSlash.simps) (simp add: trimRight_def)
    next
      case False
      then show ?thesis using snoc
        by (subst stringsTrimRightSlash.simps) (simp add: trimRight_def)
    qed
  qed
qed

lemma trimRight_last: "trimRight v c = [] \<or> last (trimRight v c) \<noteq> c"
proof (cases "dropWhile (\<lambda>x. x = c) (rev v)")
  case (Cons x xs)
  then have "x \<noteq> c" using hd_dropWhile[of "\<lambda>x. x = c" "rev v"] by auto
  with Cons show ?thesis by (simp add: trimRight_def)
qed (simp add: trimRight_def)

lemma keyless_headers_get:
  "canonicalKey k \<noteq> ''X-Keyless-Token'' \<Longrightarrow> canonicalKey k \<noteq> ''X-Keyless-Key-Id'' \<Longrightarrow>
   canonicalKey k \<noteq> ''X-Keyless-Client-Id'' \<Longrightarrow> hget (keyless_headers s h) k = hget h k"
  by (simp add: keyless_headers_def Let_def hget_hset HeaderToken_def HeaderKeyID_def HeaderClientID_def)

lemma keyless_headers_token:
  "hget h HeaderToken = [] \<Longrightarrow> hget (keyless_headers s h) HeaderToken = rsn_token s"
  by (simp add: keyless_headers_def Let_def hget_hset HeaderToken_def HeaderKeyID_def HeaderClientID_def)

lemma keyless_headers_keyID:
  "hget h HeaderKeyID = [] \<Longrightarrow> hget (keyless_headers s h) HeaderKeyID = rsn_keyID s"
  by (simp add: keyless_headers_def Let_def hget_hset HeaderToken_def HeaderKeyID_def HeaderClientID_def)

lemma hget_content_type:
  "hget (hset [] ''Content-Type'' v) HeaderToken = []" "hget (hset [] ''Content-Type'' v) HeaderKeyID = []"
  by (simp_all add: hget_hset HeaderToken_def HeaderKeyID_def hget_def hvalues_def hset_def)

section \<open>The server behind the client\<close>

text \<open>
  The HTTP client connected to a signing server at a base URL: the path is what follows the base,
  the headers and the body arrive as sent.
\<close>

definition connect ::
  "('k, 'pub) crypto_env \<Rightarrow> 'k SignServer \<Rightarrow> tick \<Rightarrow> string \<Rightarrow> string
     \<Rightarrow> auth_world \<Rightarrow> out_request \<Rightarrow> auth_world \<times> http_response result" where
  "connect ce srv tk base remote w q =
     (case Routes ce srv tk \<lparr>rq_method = or_method q, rq_path = trimPrefix (or_url q) base,
              rq_header = or_header q, rq_remote = remote, rq_body = or_body q\<rparr> w of
        None \<Rightarrow> (w, Inl ''not found'')
      | Some (w', resp) \<Rightarrow> (w', Inr resp))"

text \<open>
  The same connection as it lives on: each request is handled at the next of the given moments (time, time stamp and
  random bytes), on the state the requests before it left.
\<close>

definition connect_live ::
  "('k, 'pub) crypto_env \<Rightarrow> 'k SignServer \<Rightarrow> string \<Rightarrow> string
     \<Rightarrow> (nat \<Rightarrow> tick) \<times> auth_world \<Rightarrow> out_request \<Rightarrow> ((nat \<Rightarrow> tick) \<times> auth_world) \<times> http_response result" where
  "connect_live ce srv base remote v q =
     (case connect ce srv (fst v 0) base remote (snd v) q of (w', r) \<Rightarrow> ((fst v \<circ> Suc, w'), r))"

lemma snd_connect_live [simp]: "snd (connect_live ce srv base remote v q) = snd (connect ce srv (fst v 0) base remote (snd v) q)"
  by (simp add: connect_live_def split: prod.splits)

lemma trimPrefix_append [simp]: "trimPrefix (a @ b) a = b"
  by (simp add: trimPrefix_def hasPrefix_iff)

text \<open>The server's answer to a well-formed request of an authenticated, permitted client.\<close>

lemma sign_answers:
  assumes "fst (allowed cid ''sign'' w) = (True, reason)"
    and "ce_decodeSign ce (take sign_body_limit (rq_body r)) = Inr req"
    and "DecodePayload (sr_payload req) = Inr payload"
    and "SignerOptsFromRequest req = Inr opts"
    and "validatePayload ce payload opts = Inr ()"
    and "keyForRequest srv cid (rq_header r) = Some key"
    and "ce_sign ce key (tk_rand tk) payload opts = Inr sig"
  shows "snd (sign ce srv cid tk r w) = WriteJSON 200 (SignatureBody (stdEncode sig))"
  using assms by (cases "allowed cid ''sign'' w") (simp add: sign_def Let_def ReadJSON_def)

lemma keyForRequest_cong:
  "hget h HeaderKeyID = hget h' HeaderKeyID \<Longrightarrow> keyForRequest srv cid h = keyForRequest srv cid h'"
  by (simp add: keyForRequest_def)

lemma HashFunc_wire [simp]: "HashFunc (wire_opts opts) = HashFunc opts"
  by (cases opts) simp_all

lemma sign_fails:
  assumes "fst (fst (allowed cid ''sign'' w))"
    and "ce_decodeSign ce (take sign_body_limit (rq_body r)) = Inr req"
    and "DecodePayload (sr_payload req) = Inr payload"
    and "SignerOptsFromRequest req = Inr opts"
    and "validatePayload ce payload opts = Inr ()"
    and "keyForRequest srv cid (rq_header r) = Some key"
    and "ce_sign ce key (tk_rand tk) payload opts = Inl e"
  shows "snd (sign ce srv cid tk r w) = WriteJSON 500 (ErrorBody e)"
  using assms by (cases "allowed cid ''sign'' w") (auto simp: sign_def Let_def ReadJSON_def)

section \<open>Property\<close>

text \<open>
  What the protocol can carry and the server accepts: a digest that is not empty, a hash with a name in the protocol,
  and, when there is a hash, one that is linked in and whose length the digest has.
\<close>

definition honoured :: "('k, 'pub) crypto_env \<Rightarrow> string \<Rightarrow> signer_opts \<Rightarrow> bool" where
  "honoured ce digest opts \<longleftrightarrow> digest \<noteq> [] \<and> supported_hash (HashFunc opts)
     \<and> (HashFunc opts = 0 \<or> ce_available ce (HashFunc opts) \<and> hash_size (HashFunc opts) = Some (length digest))"

lemma sign_refuses:
  assumes "fst (fst (allowed cid ''sign'' w))"
    and "ce_decodeSign ce (take sign_body_limit (rq_body r)) = Inr (RequestFromSignerInput digest opts)"
    and "\<not> honoured ce digest opts"
  shows "\<exists>e. snd (sign ce srv cid tk r w) = WriteJSON 400 (ErrorBody e)"
proof -
  obtain reason w1 where al: "allowed cid ''sign'' w = ((True, reason), w1)"
    using assms(1) by (cases "allowed cid ''sign'' w") auto
  consider "digest = []" | "digest \<noteq> []" "\<not> supported_hash (HashFunc opts)"
    | "digest \<noteq> []" "supported_hash (HashFunc opts)" "validatePayload ce digest (wire_opts opts) \<noteq> Inr ()"
    using assms(3) by (auto simp: honoured_def validatePayload_ok)
  then show ?thesis
  proof cases
    case 1
    have "DecodePayload (stdEncode []) = Inl ''empty payload''" by code_simp
    then show ?thesis using assms(2) 1
      by (intro exI[of _ "''empty payload''"]) (simp add: sign_def Let_def al ReadJSON_def RequestFromSignerInput_simps)
  next
    case 2
    then obtain e where "ParseHash (HashName (HashFunc opts)) = Inl e" using ParseHash_unsupported by blast
    then show ?thesis using assms(2) 2(1)
      by (auto simp: sign_def Let_def al ReadJSON_def RequestFromSignerInput_simps DecodePayload_stdEncode
          SignerOptsFromRequest_def)
  next
    case 3
    obtain e where "validatePayload ce digest (wire_opts opts) = Inl e"
      using 3(3) by (cases "validatePayload ce digest (wire_opts opts)") auto
    then show ?thesis using assms(2) 3(1,2)
      by (auto simp: sign_def Let_def al ReadJSON_def RequestFromSignerInput_simps DecodePayload_stdEncode
          SignerOptsFromRequest_wire)
  qed
qed

text \<open>What \<open>Sign\<close> makes of the answer of a server it is connected to.\<close>

lemma remoteSign_over_server:
  assumes cl: "\<And>q. snd (cl_do cl v q) = snd (connect ce srv tk (rsn_baseURL s) remote w q)"
    and url: "cl_parseURL cl (rsn_baseURL s @ ''/v1/sign'') = Inr u"
    and h: "h = keyless_headers s (hset [] ''Content-Type'' ''application/json'')"
    and ro: "Routes ce srv tk \<lparr>rq_method = ''POST'', rq_path = ''/v1/sign'', rq_header = h, rq_remote = remote,
        rq_body = json_SignRequest (RequestFromSignerInput digest opts)\<rparr> w = Some (w', resp)"
  shows "snd (remoteSign cl s digest opts v) =
      (if rs_status resp \<noteq> 200
       then Inl (''keyless sign failed: '' @ statusText (rs_status resp) @ '': '' @ take 4096 (rs_body resp))
       else (case cl_decodeSignature cl (rs_body resp) of Inl e \<Rightarrow> Inl e
             | Inr sig \<Rightarrow> (case stdDecode sig of None \<Rightarrow> Inl ''illegal base64 data'' | Some bs \<Rightarrow> Inr bs)))"
proof -
  let ?q = "\<lparr>or_method = ''POST'', or_url = rsn_baseURL s @ ''/v1/sign'', or_header = h,
      or_body = json_SignRequest (RequestFromSignerInput digest opts)\<rparr>"
  have "snd (cl_do cl v ?q) = Inr resp" using ro by (simp add: cl connect_def)
  then obtain v' where "cl_do cl v ?q = (v', Inr resp)" by (metis prod.collapse)
  then show ?thesis
    using url by (simp add: remoteSign_def Let_def h[symmetric] split: sum.splits option.splits)
qed

text \<open>The result of asking for a signature, in terms of the key on the server.\<close>

definition remote_result ::
  "('k, 'pub) crypto_env \<Rightarrow> 'k \<Rightarrow> tick \<Rightarrow> string \<Rightarrow> signer_opts \<Rightarrow> string result \<Rightarrow> bool" where
  "remote_result ce key tk digest opts res \<longleftrightarrow>
     (if honoured ce digest opts
      then res = (case ce_sign ce key (tk_rand tk) digest (wire_opts opts) of
                    Inr sig \<Rightarrow> Inr sig
                  | Inl e \<Rightarrow> Inl (''keyless sign failed: 500 Internal Server Error: ''
                                  @ take 4096 (body_json (ErrorBody e) @ [newline])))
      else (\<exists>e. res = Inl (''keyless sign failed: 400 Bad Request: '' @ e)))"

lemma remote_sign_correct:
  assumes cl: "\<And>q. snd (cl_do cl v q) = snd (connect ce srv tk (rsn_baseURL s) remote w q)"
    and url: "cl_parseURL cl (rsn_baseURL s @ ''/v1/sign'') = Inr u"
    and au: "authenticate (fst w) (rsn_token s) = (cid, True, reason)"
    and al: "fst (fst (allowed cid ''sign'' w))"
    and key: "keyForRequest srv cid [(''X-Keyless-Key-Id'', [rsn_keyID s])] = Some key"
    and req: "length (json_SignRequest (RequestFromSignerInput digest opts)) \<le> 65536"
      "ce_decodeSign ce (json_SignRequest (RequestFromSignerInput digest opts))
         = Inr (RequestFromSignerInput digest opts)"
    and ans: "\<And>sig. ce_sign ce key (tk_rand tk) digest (wire_opts opts) = Inr sig \<Longrightarrow>
       cl_decodeSignature cl (body_json (SignatureBody (stdEncode sig)) @ [newline]) = Inr (stdEncode sig)"
  shows "remote_result ce key tk digest opts (snd (remoteSign cl s digest opts v))"
proof -
  define h where "h = keyless_headers s (hset [] ''Content-Type'' ''application/json'')"
  define body where "body = json_SignRequest (RequestFromSignerInput digest opts)"
  define r where "r = \<lparr>rq_method = ''POST'', rq_path = ''/v1/sign'', rq_header = h,
      rq_remote = remote, rq_body = body\<rparr>"
  have tok: "hget h HeaderToken = rsn_token s"
    by (simp add: h_def keyless_headers_token hget_content_type)
  have k: "keyForRequest srv cid h = Some key"
    unfolding key[symmetric] by (rule keyForRequest_cong)
      (simp add: h_def keyless_headers_keyID hget_content_type, simp add: hget_def hvalues_def HeaderKeyID_def)
  have wire: "ce_decodeSign ce (take sign_body_limit (rq_body r)) = Inr (RequestFromSignerInput digest opts)"
    using req by (simp add: r_def body_def sign_body_limit_def)
  have kr: "keyForRequest srv cid (rq_header r) = Some key" using k by (simp add: r_def)
  obtain w' resp where sg: "sign ce srv cid tk r w = (w', resp)" by (metis surj_pair)
  have ro: "Routes ce srv tk r w = Some (w', resp)"
    using au tok sg by (simp add: Routes_def r_def find_client_denied_handled)
  note eq = remoteSign_over_server[OF cl url h_def ro[unfolded r_def body_def]]
  show ?thesis
  proof (cases "honoured ce digest opts")
    case False
    obtain e where "resp = WriteJSON 400 (ErrorBody e)" using sign_refuses[OF al wire False, of srv tk] sg by auto
    moreover have "statusText 400 = ''400 Bad Request''" by code_simp
    ultimately show ?thesis using False unfolding eq by (simp add: remote_result_def WriteJSON_def)
  next
    case dg: True
    then have hf: "supported_hash (HashFunc opts)" by (simp add: honoured_def)
    have pl: "DecodePayload (sr_payload (RequestFromSignerInput digest opts)) = Inr digest"
      using dg by (simp add: honoured_def RequestFromSignerInput_simps DecodePayload_stdEncode)
    have va: "validatePayload ce digest (wire_opts opts) = Inr ()"
      using dg by (auto simp: honoured_def validatePayload_ok)
    show ?thesis
    proof (cases "ce_sign ce key (tk_rand tk) digest (wire_opts opts)")
      case (Inl e)
      have "resp = WriteJSON 500 (ErrorBody e)"
        using sign_fails[OF al wire pl SignerOptsFromRequest_wire[OF hf] va kr Inl] sg by simp
      moreover have "statusText 500 = ''500 Internal Server Error''" by code_simp
      ultimately show ?thesis using dg unfolding eq by (simp add: remote_result_def Inl WriteJSON_def)
    next
      case (Inr sig)
      have "fst (allowed cid ''sign'' w) = (True, snd (fst (allowed cid ''sign'' w)))"
        using al by (metis prod.collapse)
      then have "resp = WriteJSON 200 (SignatureBody (stdEncode sig))"
        using sign_answers[OF _ wire pl SignerOptsFromRequest_wire[OF hf] va kr Inr] sg by fastforce
      then show ?thesis using dg ans[OF Inr]
        unfolding eq by (simp add: remote_result_def Inr WriteJSON_def stdc.dec_enc)
    qed
  qed
qed

text \<open>
  C4. The remote signer refines a local one as far as the protocol goes: behind it, with a server that knows the
  token, permits the client and has the key it names, and a request of at most 64 KiB, \<open>Sign\<close> returns exactly what
  the key itself returns for the same digest and options (as a plain hash or PSS options), an error of the key as an
  error with status 500 and the key's message, if the digest is not empty, its hash is none or one the protocol
  names, and a hash is linked into the server and has the digest's length. In every other case, a digest with the
  combined MD5 and SHA-1 hash of old TLS versions among them, \<open>Sign\<close> fails with status 400 whatever the key
  would do. JSON decoding of the two bodies is a hypothesis.
\<close>
theorem remote_signer_refines_local:
  assumes cl: "cl_do cl = connect ce srv tk (rsn_baseURL s) remote"
    and url: "cl_parseURL cl (rsn_baseURL s @ ''/v1/sign'') = Inr u"
    and au: "authenticate (fst w) (rsn_token s) = (cid, True, reason)"
    and al: "fst (fst (allowed cid ''sign'' w))"
    and key: "keyForRequest srv cid [(''X-Keyless-Key-Id'', [rsn_keyID s])] = Some key"
    and req: "length (json_SignRequest (RequestFromSignerInput digest opts)) \<le> 65536"
      "ce_decodeSign ce (json_SignRequest (RequestFromSignerInput digest opts))
         = Inr (RequestFromSignerInput digest opts)"
    and ans: "\<And>sig. ce_sign ce key (tk_rand tk) digest (wire_opts opts) = Inr sig \<Longrightarrow>
       cl_decodeSignature cl (body_json (SignatureBody (stdEncode sig)) @ [newline]) = Inr (stdEncode sig)"
  shows "if digest \<noteq> [] \<and> HashFunc opts \<in> {0, SHA1, SHA224, SHA256, SHA384, SHA512}
       \<and> (HashFunc opts = 0 \<or> ce_available ce (HashFunc opts) \<and> hash_size (HashFunc opts) = Some (length digest))
     then snd (remoteSign cl s digest opts w) =
       (case ce_sign ce key (tk_rand tk) digest (wire_opts opts) of
          Inr sig \<Rightarrow> Inr sig
        | Inl e \<Rightarrow> Inl (''keyless sign failed: 500 Internal Server Error: ''
                        @ take 4096 (body_json (ErrorBody e) @ [newline])))
     else \<exists>e. snd (remoteSign cl s digest opts w) = Inl (''keyless sign failed: 400 Bad Request: '' @ e)"
proof -
  have "remote_result ce key tk digest opts (snd (remoteSign cl s digest opts w))"
    by (rule remote_sign_correct[OF _ url au al key req ans]) (simp_all add: cl)
  moreover have "HashFunc opts \<in> {0, SHA1, SHA224, SHA256, SHA384, SHA512} \<longleftrightarrow> supported_hash (HashFunc opts)"
    by (auto simp: supported_hash_def)
  ultimately show ?thesis unfolding remote_result_def honoured_def by presburger
qed

text \<open>The sample server again, behind a client whose decoder knows the one answer.\<close>

definition demo_wire_env :: "(string, string) crypto_env" where
  "demo_wire_env = demo_env\<lparr>ce_decodeSign := (\<lambda>_. Inr (RequestFromSignerInput [CHR 0x01] (HashOpts 0)))\<rparr>"

definition demo_client :: "(auth_world, string) client_env" where
  "demo_client =
     \<lparr>cl_do = connect demo_wire_env demo_server (demo_tick 0) ''http://s'' ''h'',
      cl_parseURL = (\<lambda>u. Inr \<lparr>u_scheme = ''http'', u_host = ''s'', u_string = u\<rparr>),
      cl_decodeSignature = (\<lambda>_. Inr (stdEncode (''K'' @ [CHR 0x01]))),
      cl_decodeDER = Inr, cl_parsePKIX = Inr\<rparr>"

lemma json_SignRequest_demo:
  "json_SignRequest (RequestFromSignerInput [CHR 0x01] (HashOpts 0)) =
     json_object [(''payload'', json_string ''AQ==''), (''hash'', json_string ''NONE''),
       (''scheme'', json_string ''default'')]"
proof -
  have "stdEncode [CHR 0x01] = ''AQ==''" by code_simp
  then show ?thesis
    by (simp add: json_SignRequest_def RequestFromSignerInput_def HashName_def SchemeDefault_def)
qed

lemma demo_request_short:
  "length (json_SignRequest (RequestFromSignerInput [CHR 0x01] (HashOpts 0))) \<le> 65536"
  by (simp add: json_SignRequest_demo json_object_def json_string_plain json_plain_def)

theorem remote_signer_refines_local_witness:
  "snd (remoteSign demo_client
      \<lparr>rsn_baseURL = ''http://s'', rsn_token = ''x'', rsn_keyID = [], rsn_publicKey = None, rsn_clientID = []\<rparr>
      [CHR 0x01] (OtherOpts 0) (edge_mgr [edge_cfg ''a'' ''x'' False], clean_fs (\<lambda>_. None)))
   = Inr (''K'' @ [CHR 0x01])"
proof -
  let ?s = "\<lparr>rsn_baseURL = ''http://s'', rsn_token = ''x'', rsn_keyID = [], rsn_publicKey = None,
      rsn_clientID = []\<rparr> :: string RemoteSigner"
  let ?w = "(edge_mgr [edge_cfg ''a'' ''x'' False], clean_fs (\<lambda>_. None))"
  have au: "authenticate (fst ?w) (rsn_token ?s) = (''a'', True, [])"
    by (simp add: edge_mgr_def edge_cfg_def fresh_state_def authenticate_def)
  have al: "fst (fst (allowed ''a'' ''sign'' ?w))"
    by (simp add: allowed_def edge_mgr_def edge_cfg_def fresh_state_def)
  have key: "keyForRequest demo_server ''a'' [(''X-Keyless-Key-Id'', [rsn_keyID ?s])] = Some ''K''"
    by (simp add: keyForRequest_def demo_server_def hget_def hvalues_def HeaderKeyID_def
        no_edge_space_def space_seqs_def hasPrefix_def)
  have req: "RequestFromSignerInput [CHR 0x01] (OtherOpts 0) = RequestFromSignerInput [CHR 0x01] (HashOpts 0)"
    by (simp add: RequestFromSignerInput_def)
  have len: "length (json_SignRequest (RequestFromSignerInput [CHR 0x01] (OtherOpts 0))) \<le> 65536"
    unfolding req by (rule demo_request_short)
  show ?thesis
    using remote_signer_refines_local[OF _ _ au al key, where cl = demo_client and ce = demo_wire_env
          and tk = "demo_tick 0" and remote = "''h''" and digest = "[CHR 0x01]" and opts = "OtherOpts 0"] len
    by (simp add: demo_client_def demo_wire_env_def demo_env_def req demo_tick_def)
qed

end
