(* ===== verification/EdgeHttp.thy ===== *)
theory EdgeHttp
  imports RemoteSigner
begin

text \<open>
  What the edge proxy (\<open>cmd/edgeproxy/main.go\<close>) sees of HTTP: incoming requests, backend
  responses whose body is a stream that may fail, the reverse proxy's rewriting of a request, and
  the small text and number helpers of the program.
\<close>

section \<open>Requests and responses\<close>

text \<open>
  A request as the server parsed it: \<open>er_path\<close> is \<open>URL.Path\<close>, \<open>er_epath\<close> the escaped path and
  \<open>er_query\<close> the raw query.
\<close>

record edge_request =
  er_method :: string
  er_host :: string
  er_path :: string
  er_epath :: string
  er_query :: string
  er_header :: header
  er_remote :: string

definition RequestURI :: "edge_request \<Rightarrow> string" where
  "RequestURI r =
     (if er_epath r = [] then ''/'' else er_epath r)
     @ (if er_query r = [] then [] else ''?'' @ er_query r)"

text \<open>A body delivers its bytes and then ends, or fails with an error.\<close>

record body_stream =
  bs_data :: string
  bs_error :: "error option"

text \<open>\<open>io.ReadAll(io.LimitReader(b, n))\<close>: a body that fails beyond the limit is not noticed.\<close>

definition readLimited :: "body_stream \<Rightarrow> int \<Rightarrow> string \<times> error option" where
  "readLimited b n =
     (if int (length (bs_data b)) < n then (bs_data b, bs_error b)
      else (take (nat n) (bs_data b), None))"

record response =
  rp_status :: int
  rp_header :: header
  rp_body :: "body_stream option"
  rp_contentLength :: int
  rp_request :: edge_request

section \<open>The reverse proxy's director\<close>

text \<open>
  \<open>httputil.NewSingleHostReverseProxy\<close> joins the target's path and query with the request's and
  leaves the \<open>Host\<close> alone. What it does to the headers is a parameter.
\<close>

definition singleJoiningSlash :: "string \<Rightarrow> string \<Rightarrow> string" where
  "singleJoiningSlash a b =
     (if hasSuffix a ''/'' \<and> hasPrefix b ''/'' then a @ tl b
      else if \<not> hasSuffix a ''/'' \<and> \<not> hasPrefix b ''/'' then a @ ''/'' @ b
      else a @ b)"

record backend_url =
  bu_path :: string
  bu_epath :: string
  bu_query :: string

definition director :: "backend_url \<Rightarrow> (header \<Rightarrow> header) \<Rightarrow> edge_request \<Rightarrow> edge_request" where
  "director b outHeader r =
     r\<lparr>er_path := singleJoiningSlash (bu_path b) (er_path r),
       er_epath := singleJoiningSlash (bu_epath b) (er_epath r),
       er_query := (if bu_query b = [] \<or> er_query r = [] then bu_query b @ er_query r
                    else bu_query b @ ''&'' @ er_query r),
       er_header := outHeader (er_header r)\<rparr>"

section \<open>Helpers\<close>

definition maxInt64 :: "int \<Rightarrow> int \<Rightarrow> int" where
  "maxInt64 a b = (if a > b then a else b)"

text \<open>\<open>None\<close> is \<open>log.Fatalf\<close>.\<close>

definition mustParseBytes :: "string \<Rightarrow> int option" where
  "mustParseBytes v =
     (if v = [] then Some 0
      else (case parseInt64 v of
              None \<Rightarrow> None
            | Some n \<Rightarrow> if n < 0 then None else Some n))"

text \<open>\<open>time.ParseDuration\<close> is a parameter.\<close>

definition mustParseDuration :: "(string \<Rightarrow> int option) \<Rightarrow> string \<Rightarrow> int option" where
  "mustParseDuration parseDuration v = (if v = [] then Some 0 else parseDuration v)"

text \<open>A copy shares nothing with the original; as values the two are equal.\<close>

definition cloneHeader :: "header \<Rightarrow> header" where
  "cloneHeader h = map (\<lambda>(k, vs). (k, vs)) h"

text \<open>Go's integer division truncates towards zero; \<open>t.Sub(u)\<close> saturates at the int64 range.\<close>

definition go_div :: "int \<Rightarrow> int \<Rightarrow> int" where
  "go_div a b = (if a < 0 then - ((- a) div b) else a div b)"

definition time_sub :: "int \<Rightarrow> int \<Rightarrow> int" where
  "time_sub t u = max (- (2 ^ 63)) (min (2 ^ 63 - 1) (t - u))"

lemma cloneHeader_id [simp]: "cloneHeader h = h"
  by (induction h) (auto simp: cloneHeader_def)

lemma mustParseBytes_range: "mustParseBytes v = Some n \<Longrightarrow> 0 \<le> n \<and> n < 2 ^ 63"
  using parseInt64_range[of v n] by (auto simp: mustParseBytes_def split: option.splits if_splits)

lemma director_host [simp]:
  "er_host (director b oh r) = er_host r" "er_method (director b oh r) = er_method r"
  "er_remote (director b oh r) = er_remote r"
  by (simp_all add: director_def)

text \<open>With no path and no query in the backend's URL, the request URI does not change.\<close>

lemma singleJoiningSlash_root:
  "hasPrefix p ''/'' \<Longrightarrow> a = [] \<or> a = ''/'' \<Longrightarrow> singleJoiningSlash a p = p"
  by (auto simp: singleJoiningSlash_def hasPrefix_iff hasSuffix_iff)

lemma RequestURI_director:
  assumes "bu_epath b = [] \<or> bu_epath b = ''/''" and "bu_query b = []" and "hasPrefix (er_epath r) ''/''"
  shows "RequestURI (director b oh r) = RequestURI r"
  using assms by (auto simp: RequestURI_def director_def singleJoiningSlash_root)

end
