(* ===== verification/ResponseCache.thy ===== *)
theory ResponseCache
  imports EdgeHttp
begin

text \<open>
  The edge's response cache (\<open>responseCache\<close> of \<open>cmd/edgeproxy/main.go\<close>): a map to the elements of a
  list in order of use, bounded by the total size of the bodies, together with the rules for what may
  be cached and for how long. List elements have an identity, as the pointers of \<open>container/list\<close> do.
\<close>

section \<open>Data\<close>

record cacheEntry =
  en_key :: string
  en_status :: int
  en_header :: header
  en_body :: string
  en_storedAt :: int
  en_expiresAt :: int
  en_size :: int

type_synonym element = "nat \<times> cacheEntry"

text \<open>The list runs from front to back; \<open>rc_fresh\<close> is the identity of the next element.\<close>

record responseCache =
  rc_ttl :: int
  rc_maxBytes :: int
  rc_maxObjectBytes :: int
  rc_bytes :: int
  rc_ll :: "element list"
  rc_items :: "(string, element) gomap"
  rc_fresh :: nat

definition newResponseCache :: "int \<Rightarrow> int \<Rightarrow> int \<Rightarrow> responseCache" where
  "newResponseCache maxBytes maxObjectBytes ttl =
     \<lparr>rc_ttl = ttl, rc_maxBytes = maxBytes, rc_maxObjectBytes = maxObjectBytes, rc_bytes = 0,
      rc_ll = [], rc_items = [], rc_fresh = 0\<rparr>"

definition enabled :: "responseCache \<Rightarrow> bool" where
  "enabled c \<longleftrightarrow> rc_ttl c > 0 \<and> rc_maxBytes c > 0 \<and> rc_maxObjectBytes c > 0"

section \<open>Cache-Control\<close>

fun directive_loop :: "string list \<Rightarrow> string \<Rightarrow> int" where
  "directive_loop [] name = 0"
| "directive_loop (p # ps) name =
     (case cut (trimSpace p) CHR ''='' of (key, value, ok) \<Rightarrow>
        if \<not> ok \<or> trimSpace key \<noteq> name then directive_loop ps name
        else (case parseInt64 (trim value CHR 0x22) of
                Some seconds \<Rightarrow> if seconds > 0 then seconds else directive_loop ps name
              | None \<Rightarrow> directive_loop ps name))"

definition cacheDirectiveSeconds :: "string \<Rightarrow> string \<Rightarrow> int" where
  "cacheDirectiveSeconds cacheControl name = directive_loop (split_at CHR '','' cacheControl) name"

definition cacheTTLFromResponse :: "response \<Rightarrow> int \<Rightarrow> int" where
  "cacheTTLFromResponse resp fallback =
     (let cacheControl = toLower (hget (rp_header resp) ''Cache-Control'');
          shared = cacheDirectiveSeconds cacheControl ''s-maxage'';
          seconds = cacheDirectiveSeconds cacheControl ''max-age''
      in if shared > 0 then wrap64 (shared * time_second)
         else if seconds > 0 then wrap64 (seconds * time_second)
         else fallback)"

definition isCacheableResponse :: "edge_request \<Rightarrow> response \<Rightarrow> bool" where
  "isCacheableResponse r resp =
     (if er_method r \<noteq> ''GET'' then False
      else if hget (er_header r) ''Authorization'' \<noteq> [] then False
      else if rp_status resp \<noteq> 200 then False
      else (let cacheControl = toLower (hget (rp_header resp) ''Cache-Control'')
            in if contains cacheControl ''private'' \<or> contains cacheControl ''no-store''
                  \<or> contains cacheControl ''no-cache'' then False
               else if hget (rp_header resp) ''Set-Cookie'' \<noteq> []
                       \<or> hget (rp_header resp) ''Authorization'' \<noteq> [] then False
               else contains cacheControl ''public''
                    \<or> cacheDirectiveSeconds cacheControl ''s-maxage'' > 0
                    \<or> cacheDirectiveSeconds cacheControl ''max-age'' > 0))"

definition cacheKey :: "edge_request \<Rightarrow> string" where
  "cacheKey r =
     er_host r @ [CHR 0x00] @ RequestURI r @ [CHR 0x00] @ hget (er_header r) ''Accept-Encoding''"

section \<open>Operations\<close>

definition removeElement :: "element option \<Rightarrow> responseCache \<Rightarrow> responseCache" where
  "removeElement elem c =
     (case elem of
        None \<Rightarrow> c
      | Some (i, entry) \<Rightarrow>
          c\<lparr>rc_items := AList.delete (en_key entry) (rc_items c),
            rc_bytes := wrap64 (rc_bytes c - en_size entry),
            rc_ll := filter (\<lambda>(j, _). j \<noteq> i) (rc_ll c)\<rparr>)"

definition list_back :: "'a list \<Rightarrow> 'a option" where
  "list_back xs = (if xs = [] then None else Some (last xs))"

definition moveToFront :: "element \<Rightarrow> responseCache \<Rightarrow> responseCache" where
  "moveToFront elem c = c\<lparr>rc_ll := elem # filter (\<lambda>(j, _). j \<noteq> fst elem) (rc_ll c)\<rparr>"

definition pushFront :: "cacheEntry \<Rightarrow> responseCache \<Rightarrow> element \<times> responseCache" where
  "pushFront entry c =
     (let elem = (rc_fresh c, entry)
      in (elem, c\<lparr>rc_ll := elem # rc_ll c, rc_fresh := rc_fresh c + 1\<rparr>))"

definition clone :: "cacheEntry \<Rightarrow> cacheEntry" where
  "clone e =
     \<lparr>en_key = [], en_status = en_status e, en_header = cloneHeader (en_header e), en_body = en_body e,
      en_storedAt = en_storedAt e, en_expiresAt = en_expiresAt e, en_size = en_size e\<rparr>"

definition cache_get ::
  "int \<Rightarrow> edge_request \<Rightarrow> responseCache \<Rightarrow> cacheEntry option \<times> responseCache" where
  "cache_get now r c =
     (if \<not> enabled c \<or> er_method r \<noteq> ''GET'' \<and> er_method r \<noteq> ''HEAD'' then (None, c)
      else (case mget (rc_items c) (cacheKey r) of
              None \<Rightarrow> (None, c)
            | Some elem \<Rightarrow>
                if now > en_expiresAt (snd elem) then (None, removeElement (Some elem) c)
                else (Some (clone (snd elem)), moveToFront elem c)))"

text \<open>The eviction loop. \<open>None\<close> would be a loop that never ends: over the bound with nothing to remove.\<close>

partial_function (option) evict :: "responseCache \<Rightarrow> responseCache option" where
  "evict c =
     (if rc_bytes c > rc_maxBytes c then evict (removeElement (list_back (rc_ll c)) c) else Some c)"

text \<open>\<open>store\<close> under the lock: replace the key's entry, put the new one in front, evict.\<close>

definition insert_entry :: "cacheEntry \<Rightarrow> responseCache \<Rightarrow> responseCache option" where
  "insert_entry entry c =
     (let c1 = (case mget (rc_items c) (en_key entry) of
                  None \<Rightarrow> c | Some elem \<Rightarrow> removeElement (Some elem) c);
          (elem, c2) = pushFront entry c1;
          c3 = c2\<lparr>rc_items := mput (en_key entry) elem (rc_items c2),
                  rc_bytes := wrap64 (rc_bytes c2 + en_size entry)\<rparr>
      in evict c3)"

definition cache_store ::
  "int \<Rightarrow> edge_request \<Rightarrow> response \<Rightarrow> responseCache \<Rightarrow> (error option \<times> response \<times> responseCache) option" where
  "cache_store now r resp c =
     (case rp_body resp of
        None \<Rightarrow> Some (None, resp, c)
      | Some b \<Rightarrow>
          if \<not> enabled c then Some (None, resp, c)
          else (let (body, err) = readLimited b (wrap64 (rc_maxObjectBytes c + 1));
                    resp' = resp\<lparr>rp_body := Some \<lparr>bs_data = body, bs_error = None\<rparr>,
                                 rp_contentLength := int (length body),
                                 rp_header := hset (rp_header resp) ''Content-Length''
                                                (itoa (int (length body)))\<rparr>
                in if err \<noteq> None \<or> int (length body) > rc_maxObjectBytes c then Some (err, resp', c)
                   else (let entry = \<lparr>en_key = cacheKey r, en_status = rp_status resp',
                                      en_header = cloneHeader (rp_header resp'), en_body = body,
                                      en_storedAt = now,
                                      en_expiresAt = now + cacheTTLFromResponse resp' (rc_ttl c),
                                      en_size = int (length body)\<rparr>
                         in map_option (\<lambda>c'. (None, resp', c')) (insert_entry entry c))))"

section \<open>Answering from the cache, compression\<close>

record client_response =
  cr_status :: int
  cr_header :: header
  cr_body :: body_stream

fun copy_values :: "header \<Rightarrow> header \<Rightarrow> header" where
  "copy_values [] h = h"
| "copy_values ((k, vs) # rest) h = copy_values rest (fold (\<lambda>v h. hadd h k v) vs (hdel h k))"

definition entry_write :: "int \<Rightarrow> edge_request \<Rightarrow> cacheEntry \<Rightarrow> header \<Rightarrow> client_response" where
  "entry_write now r e h0 =
     (let h1 = copy_values (en_header e) h0;
          h2 = hset h1 ''X-Memecdn-Cache'' ''HIT'';
          h3 = hset h2 ''Age'' (itoa (maxInt64 0 (go_div (time_sub now (en_storedAt e)) time_second)));
          h4 = hset h3 ''Content-Length'' (itoa (int (length (en_body e))))
      in \<lparr>cr_status = en_status e, cr_header = h4,
          cr_body = \<lparr>bs_data = (if er_method r \<noteq> ''HEAD'' then en_body e else []), bs_error = None\<rparr>\<rparr>)"

definition shouldGzip :: "edge_request \<Rightarrow> response \<Rightarrow> bool" where
  "shouldGzip r resp =
     (if er_method r = ''HEAD'' then False
      else if \<not> contains (toLower (hget (er_header r) ''Accept-Encoding'')) ''gzip'' then False
      else if hget (rp_header resp) ''Content-Encoding'' \<noteq> [] \<or> hget (rp_header resp) ''Upgrade'' \<noteq> []
      then False
      else (let contentType = toLower (hget (rp_header resp) ''Content-Type'')
            in hasPrefix contentType ''text/'' \<or> contains contentType ''json''
               \<or> contains contentType ''javascript'' \<or> contains contentType ''xml''))"

text \<open>
  \<open>gzip\<close> compresses a byte string. A body that fails is compressed up to the failure, which the
  reader of the pipe then sees.
\<close>

definition gzipResponse :: "(string \<Rightarrow> string) \<Rightarrow> response \<Rightarrow> response" where
  "gzipResponse gzip resp =
     resp\<lparr>rp_body := map_option (\<lambda>b. b\<lparr>bs_data := gzip (bs_data b)\<rparr>) (rp_body resp),
          rp_header := hadd (hset (hdel (rp_header resp) ''Content-Length'') ''Content-Encoding'' ''gzip'')
                         ''Vary'' ''Accept-Encoding'',
          rp_contentLength := - 1\<rparr>"

definition ModifyResponse ::
  "(string \<Rightarrow> string) \<Rightarrow> int \<Rightarrow> response \<Rightarrow> responseCache
     \<Rightarrow> (error option \<times> response \<times> responseCache) option" where
  "ModifyResponse gzip now resp c =
     (case (if enabled c \<and> isCacheableResponse (rp_request resp) resp
            then (case cache_store now (rp_request resp) resp c of
                    None \<Rightarrow> None
                  | Some (Some e, resp1, c1) \<Rightarrow> Some (Some e, resp1, c1)
                  | Some (None, resp1, c1) \<Rightarrow>
                      Some (None, resp1\<lparr>rp_header := hset (rp_header resp1) ''X-Memecdn-Cache'' ''MISS''\<rparr>, c1))
            else Some (None, resp, c)) of
        None \<Rightarrow> None
      | Some (Some e, resp1, c1) \<Rightarrow> Some (Some e, resp1, c1)
      | Some (None, resp1, c1) \<Rightarrow>
          if shouldGzip (rp_request resp1) resp1
          then (let resp2 = gzipResponse gzip resp1
                in Some (None, resp2\<lparr>rp_header := hset (rp_header resp2) ''X-Memecdn-Compression'' ''gzip''\<rparr>, c1))
          else Some (None, resp1, c1))"

end
