(* ===== verification/CacheProps.thy ===== *)
theory CacheProps
  imports ResponseCache
begin

text \<open>
  Correctness of the response cache: the invariant that ties map, list and byte count together, an
  abstract least-recently-used store that the operations refine, the contract a cache offers to its
  user as a locale, and what the proxy builds on it.
\<close>

section \<open>The abstract store\<close>

text \<open>Entries in order of use, the most recently used first.\<close>

abbreviation other_key :: "string \<Rightarrow> cacheEntry list \<Rightarrow> cacheEntry list" where
  "other_key k es \<equiv> filter (\<lambda>e. en_key e \<noteq> k) es"

definition lru_get :: "int \<Rightarrow> string \<Rightarrow> cacheEntry list \<Rightarrow> cacheEntry option \<times> cacheEntry list" where
  "lru_get now k es =
     (case find (\<lambda>e. en_key e = k) es of
        None \<Rightarrow> (None, es)
      | Some e \<Rightarrow> if now > en_expiresAt e then (None, other_key k es) else (Some e, e # other_key k es))"

text \<open>The longest prefix whose total size is within the limit.\<close>

fun fit :: "int \<Rightarrow> cacheEntry list \<Rightarrow> cacheEntry list" where
  "fit limit [] = []"
| "fit limit (e # es) = (if en_size e \<le> limit then e # fit (limit - en_size e) es else [])"

definition lru_put :: "int \<Rightarrow> cacheEntry \<Rightarrow> cacheEntry list \<Rightarrow> cacheEntry list" where
  "lru_put limit e es = fit limit (e # other_key (en_key e) es)"

abbreviation total :: "cacheEntry list \<Rightarrow> int" where
  "total es \<equiv> sum_list (map en_size es)"

lemma total_nonneg: "\<forall>e\<in>set es. 0 \<le> en_size e \<Longrightarrow> 0 \<le> total es"
  by (induction es) auto

lemma fit_all: "\<forall>e\<in>set es. 0 \<le> en_size e \<Longrightarrow> total es \<le> limit \<Longrightarrow> fit limit es = es"
proof (induction es arbitrary: limit)
  case (Cons e es)
  then have "0 \<le> total es" by (intro total_nonneg) simp
  with Cons show ?case by simp
qed simp

lemma fit_drop_last:
  "\<forall>x\<in>set (es @ [e]). 0 \<le> en_size x \<Longrightarrow> total (es @ [e]) > limit \<Longrightarrow> fit limit (es @ [e]) = fit limit es"
  by (induction es arbitrary: limit) auto

lemma fit_prefix: "\<exists>ys. es = fit limit es @ ys"
  by (induction es arbitrary: limit) auto

lemma set_fit: "set (fit limit es) \<subseteq> set es"
  using fit_prefix[of es limit] by (metis Un_upper1 set_append)

lemma total_fit: "0 \<le> limit \<Longrightarrow> total (fit limit es) \<le> limit"
proof (induction es arbitrary: limit)
  case (Cons e es)
  have "en_size e \<le> limit \<Longrightarrow> total (fit (limit - en_size e) es) \<le> limit - en_size e"
    by (rule Cons.IH) simp
  with Cons.prems show ?case by auto
qed simp

section \<open>The invariant\<close>

definition entries :: "responseCache \<Rightarrow> cacheEntry list" where
  "entries c = map snd (rc_ll c)"

lemma set_entries: "set (entries c) = snd ` set (rc_ll c)"
  by (simp add: entries_def)

definition linked :: "responseCache \<Rightarrow> bool" where
  "linked c \<longleftrightarrow>
     distinct (map fst (rc_ll c)) \<and> (\<forall>i\<in>fst ` set (rc_ll c). i < rc_fresh c) \<and>
     distinct (map en_key (entries c)) \<and> wf_map (rc_items c) \<and>
     (\<forall>k el. mget (rc_items c) k = Some el \<longleftrightarrow> el \<in> set (rc_ll c) \<and> en_key (snd el) = k) \<and>
     rc_bytes c = total (entries c) \<and> (\<forall>e\<in>set (entries c). 0 \<le> en_size e) \<and> rc_bytes c < 2 ^ 63"

definition cache_limits :: "responseCache \<Rightarrow> bool" where
  "cache_limits c \<longleftrightarrow>
     0 \<le> rc_maxBytes c \<and> 0 \<le> rc_maxObjectBytes c \<and> rc_maxBytes c + rc_maxObjectBytes c < 2 ^ 63"

definition entry_ok :: "responseCache \<Rightarrow> cacheEntry \<Rightarrow> bool" where
  "entry_ok c e \<longleftrightarrow> en_size e = int (length (en_body e)) \<and> en_size e \<le> rc_maxObjectBytes c"

definition cache_inv :: "responseCache \<Rightarrow> bool" where
  "cache_inv c \<longleftrightarrow> cache_limits c \<and> linked c \<and> rc_bytes c \<le> rc_maxBytes c
     \<and> (\<forall>e\<in>set (entries c). entry_ok c e)"

definition same_config :: "responseCache \<Rightarrow> responseCache \<Rightarrow> bool" where
  "same_config c c' \<longleftrightarrow> rc_ttl c' = rc_ttl c \<and> rc_maxBytes c' = rc_maxBytes c
     \<and> rc_maxObjectBytes c' = rc_maxObjectBytes c"

lemma same_config_refl [simp]: "same_config c c"
  by (simp add: same_config_def)

lemma same_config_trans: "same_config a b \<Longrightarrow> same_config b c \<Longrightarrow> same_config a c"
  by (simp add: same_config_def)

lemma removeElement_config [simp]: "same_config c (removeElement el c)"
  by (auto simp: same_config_def removeElement_def split: option.splits)

lemma moveToFront_config [simp]: "same_config c (moveToFront el c)"
  by (simp add: same_config_def moveToFront_def)

lemma linkedD:
  assumes "linked c"
  shows "distinct (map fst (rc_ll c))" and "x \<in> set (rc_ll c) \<Longrightarrow> fst x < rc_fresh c"
    and "distinct (map en_key (entries c))" and "wf_map (rc_items c)"
    and "mget (rc_items c) k = Some el \<longleftrightarrow> el \<in> set (rc_ll c) \<and> en_key (snd el) = k"
    and "rc_bytes c = total (entries c)" and "e \<in> set (entries c) \<Longrightarrow> 0 \<le> en_size e"
    and "total (entries c) < 2 ^ 63" and "0 \<le> total (entries c)"
proof -
  note l = assms[unfolded linked_def]
  show "distinct (map fst (rc_ll c))" "distinct (map en_key (entries c))" "wf_map (rc_items c)"
    "rc_bytes c = total (entries c)" using l by blast+
  show "x \<in> set (rc_ll c) \<Longrightarrow> fst x < rc_fresh c" using l by blast
  show "mget (rc_items c) k = Some el \<longleftrightarrow> el \<in> set (rc_ll c) \<and> en_key (snd el) = k" using l by blast
  show "e \<in> set (entries c) \<Longrightarrow> 0 \<le> en_size e" using l by blast
  show "total (entries c) < 2 ^ 63" using l by linarith
  show "0 \<le> total (entries c)" using l by (intro total_nonneg) blast
qed

lemma linkedI:
  assumes "distinct (map fst (rc_ll c))" and "\<And>x. x \<in> set (rc_ll c) \<Longrightarrow> fst x < rc_fresh c"
    and "distinct (map en_key (entries c))" and "wf_map (rc_items c)"
    and "\<And>k el. mget (rc_items c) k = Some el \<longleftrightarrow> el \<in> set (rc_ll c) \<and> en_key (snd el) = k"
    and "rc_bytes c = total (entries c)" and "\<And>e. e \<in> set (entries c) \<Longrightarrow> 0 \<le> en_size e"
    and "total (entries c) < 2 ^ 63"
  shows "linked c"
  unfolding linked_def using assms by (intro conjI ballI allI) (auto simp del: map_of_eq_Some_iff)

text \<open>By identity or by key: in a linked cache an element is determined by either.\<close>

lemma same_key: "linked c \<Longrightarrow> x \<in> set (rc_ll c) \<Longrightarrow> y \<in> set (rc_ll c) \<Longrightarrow>
    en_key (snd x) = en_key (snd y) \<Longrightarrow> x = y"
  using linkedD(3)[of c] by (simp add: entries_def distinct_map comp_def inj_on_def)

lemma same_id: "linked c \<Longrightarrow> x \<in> set (rc_ll c) \<Longrightarrow> y \<in> set (rc_ll c) \<Longrightarrow> fst x = fst y \<Longrightarrow> x = y"
  using linkedD(1)[of c] unfolding distinct_map by (meson inj_onD)

lemma filter_id_key:
  assumes "linked c" and "el \<in> set (rc_ll c)"
  shows "filter (\<lambda>(j, _). j \<noteq> fst el) (rc_ll c) = filter (\<lambda>x. en_key (snd x) \<noteq> en_key (snd el)) (rc_ll c)"
proof (rule filter_cong)
  fix x assume x: "x \<in> set (rc_ll c)"
  show "(case x of (j, _) \<Rightarrow> j \<noteq> fst el) = (en_key (snd x) \<noteq> en_key (snd el))"
    using same_key[OF assms(1) x assms(2)] same_id[OF assms(1) x assms(2)]
    by (cases x; cases el) auto
qed simp

lemma map_snd_filter: "map snd (filter (\<lambda>x. P (snd x)) xs) = filter P (map snd xs)"
  by (induction xs) auto

lemma total_remove:
  "distinct (map en_key es) \<Longrightarrow> e \<in> set es \<Longrightarrow> total es = en_size e + total (other_key (en_key e) es)"
proof (induction es)
  case (Cons x xs)
  show ?case
  proof (cases "x = e")
    case True
    then have "other_key (en_key e) xs = xs"
      using Cons.prems(1) by (intro filter_True) (metis distinct.simps(2) image_eqI list.set_map list.simps(9))
    then show ?thesis by (simp add: True)
  next
    case False
    then have e: "e \<in> set xs" using Cons.prems(2) by simp
    then have "en_key e \<in> en_key ` set xs" by blast
    then have "en_key x \<noteq> en_key e" using Cons.prems(1) by auto
    then show ?thesis using Cons e by simp
  qed
qed simp

lemma removeElement_fields:
  assumes "linked c" and "el \<in> set (rc_ll c)"
  shows "rc_ll (removeElement (Some el) c) = filter (\<lambda>x. en_key (snd x) \<noteq> en_key (snd el)) (rc_ll c)"
    and "rc_items (removeElement (Some el) c) = AList.delete (en_key (snd el)) (rc_items c)"
    and "rc_fresh (removeElement (Some el) c) = rc_fresh c"
    and "rc_bytes (removeElement (Some el) c) = wrap64 (rc_bytes c - en_size (snd el))"
  using filter_id_key[OF assms] by (cases el; simp add: removeElement_def)+

lemma removeElement_entries:
  assumes "linked c" and "el \<in> set (rc_ll c)"
  shows "entries (removeElement (Some el) c) = other_key (en_key (snd el)) (entries c)"
  unfolding entries_def removeElement_fields[OF assms] by (rule map_snd_filter)

lemma removeElement_linked:
  assumes l: "linked c" and el: "el \<in> set (rc_ll c)"
  shows "linked (removeElement (Some el) c)"
proof (rule linkedI)
  let ?k = "en_key (snd el)" and ?c = "removeElement (Some el) c"
  note f = removeElement_fields[OF l el] and ent = removeElement_entries[OF l el]
  have tot: "rc_bytes c = en_size (snd el) + total (other_key ?k (entries c))"
    using total_remove[OF linkedD(3)[OF l], of "snd el"] el linkedD(6)[OF l]
    by (simp add: set_entries)
  have sz: "0 \<le> en_size (snd el)" and nn: "0 \<le> total (other_key ?k (entries c))"
    using linkedD(7)[OF l] el by (auto simp: set_entries intro!: total_nonneg)
  show "rc_bytes ?c = total (entries ?c)" "total (entries ?c) < 2 ^ 63"
    using tot sz nn linkedD(6,8)[OF l] unfolding f ent by simp_all
  show "distinct (map fst (rc_ll ?c))"
    unfolding f using linkedD(1)[OF l] by (rule distinct_map_filter)
  show "distinct (map en_key (entries ?c))"
    unfolding ent using linkedD(3)[OF l] by (rule distinct_map_filter)
  show "wf_map (rc_items ?c)" unfolding f using linkedD(4)[OF l] by (rule distinct_delete)
  show "fst x < rc_fresh ?c" if "x \<in> set (rc_ll ?c)" for x
    using that linkedD(2)[OF l] by (simp add: f)
  show "mget (rc_items ?c) k = Some x \<longleftrightarrow> x \<in> set (rc_ll ?c) \<and> en_key (snd x) = k" for k x
    using linkedD(5)[OF l, of k x] by (auto simp: f delete_conv' simp del: map_of_eq_Some_iff)
  show "0 \<le> en_size e" if "e \<in> set (entries ?c)" for e
    using that linkedD(7)[OF l, of e] unfolding ent by simp
qed

lemma moveToFront_fields:
  assumes "linked c" and "el \<in> set (rc_ll c)"
  shows "rc_ll (moveToFront el c) = el # filter (\<lambda>x. en_key (snd x) \<noteq> en_key (snd el)) (rc_ll c)"
    and "rc_items (moveToFront el c) = rc_items c" "rc_fresh (moveToFront el c) = rc_fresh c"
    and "rc_bytes (moveToFront el c) = rc_bytes c"
  using filter_id_key[OF assms] by (simp_all add: moveToFront_def)

lemma moveToFront_entries:
  assumes "linked c" and "el \<in> set (rc_ll c)"
  shows "entries (moveToFront el c) = snd el # other_key (en_key (snd el)) (entries c)"
  unfolding entries_def moveToFront_fields[OF assms] using map_snd_filter[of _ "rc_ll c"] by simp

lemma moveToFront_set:
  assumes "linked c" and "el \<in> set (rc_ll c)"
  shows "set (rc_ll (moveToFront el c)) = set (rc_ll c)"
  unfolding moveToFront_fields[OF assms] using same_key[OF assms(1) _ assms(2)] assms(2) by auto

lemma moveToFront_linked:
  assumes l: "linked c" and el: "el \<in> set (rc_ll c)"
  shows "linked (moveToFront el c)"
proof (rule linkedI)
  let ?k = "en_key (snd el)" and ?c = "moveToFront el c"
  note f = moveToFront_fields[OF l el] and ent = moveToFront_entries[OF l el]
    and set = moveToFront_set[OF l el]
  have tot: "total (entries ?c) = total (entries c)"
    using total_remove[OF linkedD(3)[OF l], of "snd el"] el unfolding ent by (simp add: set_entries)
  show "rc_bytes ?c = total (entries ?c)" "total (entries ?c) < 2 ^ 63"
    using linkedD(6,8)[OF l] unfolding tot f by simp_all
  show "distinct (map fst (rc_ll ?c))"
    unfolding f using linkedD(1)[OF l] same_id[OF l _ el] by (auto simp: distinct_map_filter)
  show "distinct (map en_key (entries ?c))"
    unfolding ent using linkedD(3)[OF l] by (auto intro: distinct_map_filter)
  show "wf_map (rc_items ?c)" unfolding f by (rule linkedD(4)[OF l])
  show "fst x < rc_fresh ?c" if "x \<in> set (rc_ll ?c)" for x
    using that linkedD(2)[OF l] unfolding set f(3) by blast
  show "mget (rc_items ?c) k = Some x \<longleftrightarrow> x \<in> set (rc_ll ?c) \<and> en_key (snd x) = k" for k x
    unfolding set f(2) by (rule linkedD(5)[OF l])
  show "0 \<le> en_size e" if "e \<in> set (entries ?c)" for e
    using that linkedD(7)[OF l, of e] set by (simp add: set_entries)
qed

section \<open>Eviction\<close>

lemma list_back_linked:
  assumes "linked c" and "entries c \<noteq> []"
  obtains el where "list_back (rc_ll c) = Some el" "el \<in> set (rc_ll c)"
    "entries c = butlast (entries c) @ [snd el]"
    "other_key (en_key (snd el)) (entries c) = butlast (entries c)"
proof -
  let ?el = "last (rc_ll c)"
  have ne: "rc_ll c \<noteq> []" using assms(2) by (simp add: entries_def)
  then have sn: "entries c = butlast (entries c) @ [snd ?el]"
    unfolding entries_def by (metis append_butlast_last_id list.map_disc_iff map_butlast last_map)
  have d: "distinct (map en_key (butlast (entries c) @ [snd ?el]))"
    using linkedD(3)[OF assms(1)] sn by simp
  have "other_key (en_key (snd ?el)) (butlast (entries c)) = butlast (entries c)"
    using d by (intro filter_True) (auto simp del: map_map simp: image_iff)
  then have "other_key (en_key (snd ?el)) (butlast (entries c) @ [snd ?el]) = butlast (entries c)"
    by simp
  with that[of ?el] ne sn show ?thesis by (simp add: list_back_def)
qed

text \<open>
  The loop ends, with the longest prefix of the entries that fits; it stops at the latest when the
  list is empty, since then no bytes are accounted for.
\<close>

lemma evict_fit:
  assumes "linked c" and "0 \<le> rc_maxBytes c"
  shows "\<exists>c'. evict c = Some c' \<and> linked c' \<and> same_config c c'
     \<and> entries c' = fit (rc_maxBytes c) (entries c) \<and> rc_bytes c' \<le> rc_maxBytes c"
  using assms
proof (induction "length (entries c)" arbitrary: c rule: less_induct)
  case less
  note l = less.prems(1) and mx = less.prems(2)
  show ?case
  proof (cases "rc_bytes c > rc_maxBytes c")
    case False
    then have "evict c = Some c" by (simp add: evict.simps)
    moreover have "fit (rc_maxBytes c) (entries c) = entries c"
      using False linkedD(6,7)[OF l] by (intro fit_all) auto
    ultimately show ?thesis using l False by auto
  next
    case True
    have "entries c \<noteq> []" using True mx linkedD(6)[OF l] by auto
    then obtain el where el: "list_back (rc_ll c) = Some el" "el \<in> set (rc_ll c)"
      and sn: "entries c = butlast (entries c) @ [snd el]"
      and bl: "other_key (en_key (snd el)) (entries c) = butlast (entries c)"
      using list_back_linked[OF l] by blast
    let ?c = "removeElement (Some el) c"
    have ent: "entries ?c = butlast (entries c)"
      using removeElement_entries[OF l el(2)] bl by simp
    have cfg: "same_config c ?c" by simp
    have shorter: "length (entries ?c) < length (entries c)"
      using \<open>entries c \<noteq> []\<close> by (simp add: ent)
    have mx': "rc_maxBytes ?c = rc_maxBytes c" using cfg by (simp add: same_config_def)
    obtain c' where c': "evict ?c = Some c'" "linked c'" "same_config ?c c'"
      "entries c' = fit (rc_maxBytes c) (entries ?c)" "rc_bytes c' \<le> rc_maxBytes c"
      using less.hyps[OF shorter removeElement_linked[OF l el(2)]] mx unfolding mx' by blast
    have "total (butlast (entries c) @ [snd el]) > rc_maxBytes c"
      using True linkedD(6)[OF l] sn by simp
    then have "fit (rc_maxBytes c) (entries c) = fit (rc_maxBytes c) (entries ?c)"
      using fit_drop_last[of "butlast (entries c)" "snd el" "rc_maxBytes c"] linkedD(7)[OF l]
      unfolding ent sn[symmetric] by blast
    moreover have "evict c = Some c'" using True el c'(1) by (simp add: evict.simps)
    moreover have "same_config c c'" using cfg c'(3) by (rule same_config_trans)
    ultimately show ?thesis using c'(2,4,5) by simp
  qed
qed

section \<open>Insertion and lookup\<close>

lemma items_entries:
  assumes "linked c"
  shows "find (\<lambda>e. en_key e = k) (entries c) = map_option snd (mget (rc_items c) k)"
proof (cases "mget (rc_items c) k")
  case None
  then have "\<not> (\<exists>e\<in>set (entries c). en_key e = k)"
    using linkedD(5)[OF assms, of k] by (auto simp: set_entries simp del: map_of_eq_Some_iff)
  then have "find (\<lambda>e. en_key e = k) (entries c) = None" by (simp add: find_None_iff)
  with None show ?thesis by simp
next
  case (Some el)
  then have el: "el \<in> set (rc_ll c)" "en_key (snd el) = k"
    using linkedD(5)[OF assms, of k el] by auto
  then have "find (\<lambda>e. en_key e = k) (entries c) \<noteq> None"
    by (auto simp: find_None_iff set_entries)
  then obtain e where e: "find (\<lambda>e. en_key e = k) (entries c) = Some e" by blast
  then obtain x where "x \<in> set (rc_ll c)" "snd x = e" "en_key e = k"
    using find_SomeD[OF e] by (auto simp: set_entries)
  then have "x = el" using same_key[OF assms _ el(1)] el(2) by simp
  with e \<open>snd x = e\<close> Some show ?thesis by simp
qed

lemma insert_linked:
  assumes l: "linked c" and new: "\<forall>e\<in>set (entries c). en_key e \<noteq> en_key entry"
    and sz: "0 \<le> en_size entry" "rc_bytes c + en_size entry < 2 ^ 63"
    and c3: "c3 = (snd (pushFront entry c))
        \<lparr>rc_items := mput (en_key entry) (rc_fresh c, entry) (rc_items c),
         rc_bytes := wrap64 (rc_bytes c + en_size entry)\<rparr>"
  shows "linked c3" and "entries c3 = entry # entries c" and "same_config c c3"
proof -
  have f: "rc_ll c3 = (rc_fresh c, entry) # rc_ll c" "rc_fresh c3 = rc_fresh c + 1"
    "rc_items c3 = mput (en_key entry) (rc_fresh c, entry) (rc_items c)"
    "rc_bytes c3 = wrap64 (rc_bytes c + en_size entry)"
    by (simp_all add: c3 pushFront_def Let_def)
  show ent: "entries c3 = entry # entries c" by (simp add: entries_def f)
  show "same_config c c3" by (simp add: same_config_def c3 pushFront_def Let_def)
  have look: "mget (rc_items c) (en_key entry) = None"
    using linkedD(5)[OF l, of "en_key entry"] new
    by (cases "mget (rc_items c) (en_key entry)") (auto simp: set_entries simp del: map_of_eq_Some_iff)
  show "linked c3"
  proof (rule linkedI)
    show "rc_bytes c3 = total (entries c3)" "total (entries c3) < 2 ^ 63"
      using sz linkedD(6,9)[OF l] unfolding ent f by simp_all
    show "distinct (map fst (rc_ll c3))"
      using linkedD(1)[OF l] linkedD(2)[OF l, of "(rc_fresh c, _)"] by (fastforce simp: f)
    show "distinct (map en_key (entries c3))"
      using linkedD(3)[OF l] new by (auto simp: ent)
    show "wf_map (rc_items c3)" unfolding f using linkedD(4)[OF l] by (rule wf_mput)
    show "fst x < rc_fresh c3" if "x \<in> set (rc_ll c3)" for x
      using that linkedD(2)[OF l, of x] by (auto simp: f)
    show "mget (rc_items c3) k = Some x \<longleftrightarrow> x \<in> set (rc_ll c3) \<and> en_key (snd x) = k" for k x
      using linkedD(5)[OF l, of k x] new look
      by (auto simp: f set_entries simp del: map_of_eq_Some_iff)
    show "0 \<le> en_size e" if "e \<in> set (entries c3)" for e
      using that linkedD(7)[OF l, of e] sz by (auto simp: ent)
  qed
qed

lemma insert_entry_lru:
  assumes inv: "cache_inv c" and e: "entry_ok c entry"
  shows "\<exists>c'. insert_entry entry c = Some c' \<and> cache_inv c' \<and> same_config c c'
     \<and> entries c' = lru_put (rc_maxBytes c) entry (entries c)"
proof -
  have l: "linked c" and lim: "cache_limits c" and oks: "\<forall>e\<in>set (entries c). entry_ok c e"
    and mx: "rc_bytes c \<le> rc_maxBytes c"
    using inv by (simp_all add: cache_inv_def)
  define c1 where "c1 = (case mget (rc_items c) (en_key entry) of
      None \<Rightarrow> c | Some elem \<Rightarrow> removeElement (Some elem) c)"
  have c1: "linked c1 \<and> entries c1 = other_key (en_key entry) (entries c) \<and> same_config c c1"
  proof (cases "mget (rc_items c) (en_key entry)")
    case None
    then have "\<forall>e\<in>set (entries c). en_key e \<noteq> en_key entry"
      using items_entries[OF l, of "en_key entry"] by (auto simp: find_None_iff)
    then have "other_key (en_key entry) (entries c) = entries c" by (intro filter_True) auto
    with None l show ?thesis by (simp add: c1_def)
  next
    case (Some el)
    then have "el \<in> set (rc_ll c)" "en_key (snd el) = en_key entry"
      using linkedD(5)[OF l, of "en_key entry" el] by auto
    with Some l show ?thesis
      by (simp add: c1_def removeElement_linked removeElement_entries)
  qed
  have b1: "rc_bytes c1 \<le> rc_bytes c"
  proof -
    have "total (other_key k es) \<le> total es" if "\<forall>e\<in>set es. 0 \<le> en_size e" for k es
      using that by (induction es) auto
    then show ?thesis using c1 linkedD(6,7)[OF l] linkedD(6)[of c1] by simp
  qed
  have sz: "0 \<le> en_size entry" "rc_bytes c1 + en_size entry < 2 ^ 63"
    using e b1 mx lim by (auto simp: entry_ok_def cache_limits_def)
  define c3 where "c3 = (snd (pushFront entry c1))
        \<lparr>rc_items := mput (en_key entry) (rc_fresh c1, entry) (rc_items c1),
         rc_bytes := wrap64 (rc_bytes c1 + en_size entry)\<rparr>"
  have c3: "linked c3" "entries c3 = entry # entries c1" "same_config c1 c3"
    using insert_linked[OF _ _ sz c3_def] c1 by auto
  have eq: "insert_entry entry c = evict c3"
    unfolding insert_entry_def c1_def[symmetric] c3_def by (simp add: pushFront_def Let_def)
  have cfg: "same_config c c3" using c1 c3(3) same_config_trans by blast
  then have "0 \<le> rc_maxBytes c3" "rc_maxBytes c3 = rc_maxBytes c"
    using lim by (simp_all add: same_config_def cache_limits_def)
  then obtain c' where c': "evict c3 = Some c'" "linked c'" "same_config c3 c'"
    "entries c' = fit (rc_maxBytes c) (entries c3)" "rc_bytes c' \<le> rc_maxBytes c"
    using evict_fit[OF c3(1)] by auto
  have ent: "entries c' = lru_put (rc_maxBytes c) entry (entries c)"
    using c'(4) c3(2) c1 by (simp add: lru_put_def)
  have cfg': "same_config c c'" using cfg c'(3) by (rule same_config_trans)
  have "set (entries c') \<subseteq> insert entry (set (entries c))"
    using set_fit[of "rc_maxBytes c" "entry # other_key (en_key entry) (entries c)"]
    by (auto simp: ent lru_put_def)
  then have "\<forall>e\<in>set (entries c'). entry_ok c' e"
    using oks e cfg' by (auto simp: entry_ok_def same_config_def)
  then have "cache_inv c'"
    using c'(2,5) lim cfg' by (auto simp: cache_inv_def cache_limits_def same_config_def)
  with c'(1) ent cfg' show ?thesis by (auto simp: eq)
qed

lemma cache_get_lru:
  assumes inv: "cache_inv c" and q: "enabled c" "er_method r = ''GET'' \<or> er_method r = ''HEAD''"
    and g: "cache_get now r c = (res, c')"
  shows "cache_inv c' \<and> same_config c c'
     \<and> (map_option clone (fst (lru_get now (cacheKey r) (entries c))), snd (lru_get now (cacheKey r) (entries c)))
       = (res, entries c')"
proof -
  have l: "linked c" using inv by (simp add: cache_inv_def)
  have keep: "cache_inv c2" if "linked c2" "same_config c c2" "set (entries c2) \<subseteq> set (entries c)"
      "rc_bytes c2 \<le> rc_bytes c" for c2
    using that inv unfolding cache_inv_def cache_limits_def same_config_def entry_ok_def by auto
  show ?thesis
  proof (cases "mget (rc_items c) (cacheKey r)")
    case None
    then show ?thesis using g q inv items_entries[OF l, of "cacheKey r"]
      by (auto simp: cache_get_def lru_get_def)
  next
    case (Some el)
    then have el: "el \<in> set (rc_ll c)" "en_key (snd el) = cacheKey r"
      using linkedD(5)[OF l, of "cacheKey r" el] by auto
    have find: "find (\<lambda>e. en_key e = cacheKey r) (entries c) = Some (snd el)"
      using Some items_entries[OF l, of "cacheKey r"] by simp
    show ?thesis
    proof (cases "now > en_expiresAt (snd el)")
      case True
      then have c': "c' = removeElement (Some el) c" and res: "res = None"
        using g q Some by (auto simp: cache_get_def)
      have ent: "entries c' = other_key (cacheKey r) (entries c)"
        using removeElement_entries[OF l el(1)] el(2) c' by simp
      have "rc_bytes c' \<le> rc_bytes c"
        using removeElement_linked[OF l el(1)] linkedD(6) total_remove[OF linkedD(3)[OF l], of "snd el"]
          linkedD(7)[OF l, of "snd el"] el l ent c' by (simp add: set_entries)
      then have "cache_inv c'"
        using keep[of c'] removeElement_linked[OF l el(1)] ent c' by auto
      then show ?thesis using True find res ent c' by (simp add: lru_get_def)
    next
      case False
      then have c': "c' = moveToFront el c" and res: "res = Some (clone (snd el))"
        using g q Some by (auto simp: cache_get_def)
      have "cache_inv c'"
        using keep[OF moveToFront_linked[OF l el(1)]] moveToFront_set[OF l el(1)]
          moveToFront_fields(4)[OF l el(1)] c' by (simp add: set_entries)
      then show ?thesis
        using False find res moveToFront_entries[OF l el(1)] el(2) c' by (simp add: lru_get_def)
    qed
  qed
qed

end
