(* ===== verification/EdgeCache.thy ===== *)
theory EdgeCache
  imports CacheProps
begin

text \<open>
  The default route of the edge (the handler of \<open>/\<close> in \<open>cmd/edgeproxy/main.go\<close>, plugin routes
  apart): answer from the cache or proxy to the backend and run \<open>ModifyResponse\<close> on what it returns.
  The contract a store offers to this handler is a locale, interpreted on the cache.
\<close>

section \<open>The contract of a store\<close>

datatype ('q, 'e) store_event = Lookup 'q | Insert 'e

fun run_store ::
  "('q \<Rightarrow> 'c \<Rightarrow> 'v option \<times> 'c) \<Rightarrow> ('e \<Rightarrow> 'c \<Rightarrow> 'c option) \<Rightarrow> ('q, 'e) store_event list \<Rightarrow> 'c \<Rightarrow> 'c option" where
  "run_store lookup ins [] c = Some c"
| "run_store lookup ins (Lookup q # evs) c = run_store lookup ins evs (snd (lookup q c))"
| "run_store lookup ins (Insert e # evs) c =
     (case ins e c of None \<Rightarrow> None | Some c' \<Rightarrow> run_store lookup ins evs c')"

text \<open>
  What the user of a store relies on: lookups and insertions keep the invariant, insertion returns,
  a lookup answers with the view of an entry it holds, and entries come from insertions only.
\<close>

locale bounded_store =
  fixes lookup :: "'q \<Rightarrow> 'c \<Rightarrow> 'v option \<times> 'c" and ins :: "'e \<Rightarrow> 'c \<Rightarrow> 'c option"
    and inv :: "'c \<Rightarrow> bool" and ok :: "'e \<Rightarrow> bool" and held :: "'c \<Rightarrow> 'e set"
    and answers :: "'q \<Rightarrow> 'e \<Rightarrow> 'v \<Rightarrow> bool"
  assumes lookup_inv: "inv c \<Longrightarrow> inv (snd (lookup q c))"
    and lookup_held: "inv c \<Longrightarrow> held (snd (lookup q c)) \<subseteq> held c"
    and lookup_answer: "inv c \<Longrightarrow> fst (lookup q c) = Some v \<Longrightarrow> \<exists>e\<in>held c. answers q e v"
    and insert_returns: "inv c \<Longrightarrow> ok e \<Longrightarrow> \<exists>c'. ins e c = Some c' \<and> inv c' \<and> held c' \<subseteq> insert e (held c)"
begin

lemma run_returns:
  assumes "inv c" and "\<forall>e. Insert e \<in> set evs \<longrightarrow> ok e"
  shows "\<exists>c'. run_store lookup ins evs c = Some c' \<and> inv c'
     \<and> held c' \<subseteq> held c \<union> {e. Insert e \<in> set evs}"
  using assms
proof (induction evs arbitrary: c)
  case (Cons ev evs)
  show ?case
  proof (cases ev)
    case (Lookup q)
    then show ?thesis
      using Cons.IH[of "snd (lookup q c)"] Cons.prems lookup_inv[of c q] lookup_held[of c q] by fastforce
  next
    case (Insert e)
    then obtain c' where c': "ins e c = Some c'" "inv c'" "held c' \<subseteq> insert e (held c)"
      using insert_returns Cons.prems by fastforce
    have ok': "\<forall>e. Insert e \<in> set evs \<longrightarrow> ok e" using Cons.prems(2) by simp
    obtain c'' where "run_store lookup ins evs c' = Some c''" "inv c''"
      "held c'' \<subseteq> held c' \<union> {e. Insert e \<in> set evs}"
      using Cons.IH[OF c'(2) ok'] by blast
    then show ?thesis using Insert c' by auto
  qed
qed simp

text \<open>Everything a lookup answers was inserted before, or held at the start.\<close>

lemma run_answers:
  assumes "inv c" and "\<forall>e. Insert e \<in> set evs \<longrightarrow> ok e"
    and "run_store lookup ins evs c = Some c'" and "fst (lookup q c') = Some v"
  shows "\<exists>e. (e \<in> held c \<or> Insert e \<in> set evs) \<and> answers q e v"
  using run_returns[OF assms(1,2)] assms(3) lookup_answer[OF _ assms(4)] by fastforce

end

section \<open>The cache as a store\<close>

definition cache_answers :: "int \<times> edge_request \<Rightarrow> cacheEntry \<Rightarrow> cacheEntry \<Rightarrow> bool" where
  "cache_answers q e v \<longleftrightarrow> en_key e = cacheKey (snd q) \<and> fst q \<le> en_expiresAt e \<and> v = clone e"

lemma set_lru_get: "set (snd (lru_get now k es)) \<subseteq> set es"
  by (auto simp: lru_get_def split: option.splits dest: find_SomeD)

lemma cache_get_disabled:
  "\<not> enabled c \<or> er_method r \<noteq> ''GET'' \<and> er_method r \<noteq> ''HEAD'' \<Longrightarrow> cache_get now r c = (None, c)"
  by (simp add: cache_get_def)

lemma cache_get_facts:
  assumes "cache_inv c" and "cache_get now r c = (res, c')"
  shows "cache_inv c'" and "same_config c c'" and "set (entries c') \<subseteq> set (entries c)"
    and "res = Some v \<Longrightarrow> \<exists>e\<in>set (entries c). cache_answers (now, r) e v"
proof -
  have "cache_inv c' \<and> same_config c c' \<and> set (entries c') \<subseteq> set (entries c)
      \<and> (\<forall>v. res = Some v \<longrightarrow> (\<exists>e\<in>set (entries c). cache_answers (now, r) e v))"
  proof (cases "enabled c \<and> (er_method r = ''GET'' \<or> er_method r = ''HEAD'')")
    case False
    then have "(res, c') = (None, c)" using cache_get_disabled[of c r now] assms(2) by auto
    then show ?thesis using assms(1) by simp
  next
    case True
    have "cache_inv c' \<and> same_config c c' \<and>
        (map_option clone (fst (lru_get now (cacheKey r) (entries c))), snd (lru_get now (cacheKey r) (entries c)))
        = (res, entries c')"
      by (rule cache_get_lru[OF assms(1)]) (use True assms(2) in auto)
    moreover from this have "\<forall>v. res = Some v \<longrightarrow> (\<exists>e\<in>set (entries c). cache_answers (now, r) e v)"
      by (auto simp: lru_get_def cache_answers_def split: option.splits if_splits dest: find_SomeD)
    ultimately show ?thesis using set_lru_get[of now "cacheKey r" "entries c"] by auto
  qed
  then show "cache_inv c'" "same_config c c'" "set (entries c') \<subseteq> set (entries c)"
    "res = Some v \<Longrightarrow> \<exists>e\<in>set (entries c). cache_answers (now, r) e v" by blast+
qed

interpretation rc: bounded_store "\<lambda>q. cache_get (fst q) (snd q)" insert_entry
    "\<lambda>c. cache_inv c \<and> same_config c0 c" "entry_ok c0" "\<lambda>c. set (entries c)" cache_answers
  for c0 :: responseCache
proof (unfold_locales, goal_cases)
  case (1 c q)
  then show ?case
    using cache_get_facts(1,2)[of c "fst q" "snd q"] same_config_trans[of c0 c]
    by (cases "cache_get (fst q) (snd q) c") auto
next
  case (2 c q)
  then show ?case
    using cache_get_facts(3)[of c "fst q" "snd q"] by (cases "cache_get (fst q) (snd q) c") auto
next
  case (3 c q v)
  then show ?case
    using cache_get_facts(4)[of c "fst q" "snd q"] by (cases "cache_get (fst q) (snd q) c") auto
next
  case (4 c e)
  then have "entry_ok c e" by (simp add: entry_ok_def same_config_def)
  then obtain c' where c': "insert_entry e c = Some c'" "cache_inv c'" "same_config c c'"
    "entries c' = lru_put (rc_maxBytes c) e (entries c)"
    using 4 insert_entry_lru by blast
  then have "set (entries c') \<subseteq> insert e (set (entries c))"
    using set_fit[of "rc_maxBytes c" "e # other_key (en_key e) (entries c)"] by (auto simp: lru_put_def)
  with c' 4 same_config_trans[of c0 c c'] show ?case by auto
qed

section \<open>Storing a response\<close>

text \<open>The entry \<open>store\<close> makes of a response whose body is read completely.\<close>

definition made_entry :: "int \<Rightarrow> int \<Rightarrow> edge_request \<Rightarrow> response \<Rightarrow> string \<Rightarrow> cacheEntry" where
  "made_entry ttl now r resp body =
     (let h = hset (rp_header resp) ''Content-Length'' (itoa (int (length body)))
      in \<lparr>en_key = cacheKey r, en_status = rp_status resp, en_header = h, en_body = body,
          en_storedAt = now, en_expiresAt = now + cacheTTLFromResponse (resp\<lparr>rp_header := h\<rparr>) ttl,
          en_size = int (length body)\<rparr>)"

lemma cacheTTL_header: "rp_header a = rp_header b \<Longrightarrow> cacheTTLFromResponse a t = cacheTTLFromResponse b t"
  by (simp add: cacheTTLFromResponse_def)

lemma made_entry_fields:
  "en_key (made_entry ttl now r resp body) = cacheKey r"
  "en_expiresAt (made_entry ttl now r resp body) = now + cacheTTLFromResponse resp ttl"
  "en_body (made_entry ttl now r resp body) = body" "en_status (made_entry ttl now r resp body) = rp_status resp"
  "en_size (made_entry ttl now r resp body) = int (length body)"
  by (simp_all add: made_entry_def Let_def cacheTTLFromResponse_def hget_hset)

lemma object_limit:
  "cache_inv c \<Longrightarrow> enabled c \<Longrightarrow> wrap64 (rc_maxObjectBytes c + 1) = rc_maxObjectBytes c + 1"
  by (auto simp: cache_inv_def cache_limits_def enabled_def)

lemma cache_store_stores:
  assumes "cache_inv c" and "enabled c" and "rp_body resp = Some b" and "bs_error b = None"
    and "int (length (bs_data b)) \<le> rc_maxObjectBytes c"
    and "insert_entry (made_entry (rc_ttl c) now r resp (bs_data b)) c = Some c'"
  shows "\<exists>resp'. cache_store now r resp c = Some (None, resp', c')"
proof -
  have rd: "readLimited b (rc_maxObjectBytes c + 1) = (bs_data b, None)"
    using assms(4,5) by (simp add: readLimited_def)
  show ?thesis
    using assms(2-6) unfolding cache_store_def object_limit[OF assms(1,2)]
    by (simp add: rd made_entry_def Let_def cong: cacheTTL_header)
       (simp add: cacheTTLFromResponse_def)
qed

text \<open>How \<open>store\<close> ends: it returns, and has inserted one entry or left the cache alone.\<close>

lemma cache_store_cases:
  assumes inv: "cache_inv c" and st: "rp_body resp = Some b" "enabled c"
  shows "(\<exists>err resp'. cache_store now r resp c = Some (err, resp', c))
     \<or> (\<exists>resp' c'. cache_store now r resp c = Some (None, resp', c') \<and> bs_error b = None
          \<and> int (length (bs_data b)) \<le> rc_maxObjectBytes c
          \<and> insert_entry (made_entry (rc_ttl c) now r resp (bs_data b)) c = Some c'
          \<and> entry_ok c (made_entry (rc_ttl c) now r resp (bs_data b)))"
proof (cases "int (length (bs_data b)) \<le> rc_maxObjectBytes c \<and> bs_error b = None")
  case False
  then have "\<exists>err resp'. cache_store now r resp c = Some (err, resp', c)"
    using st by (auto simp: cache_store_def object_limit[OF inv st(2)] readLimited_def Let_def)
  then show ?thesis by blast
next
  case True
  define e where "e = made_entry (rc_ttl c) now r resp (bs_data b)"
  have ok: "entry_ok c e" using True by (simp add: e_def made_entry_def entry_ok_def Let_def)
  obtain c' where c': "insert_entry e c = Some c'" using insert_entry_lru[OF inv ok] by blast
  have "\<exists>resp'. cache_store now r resp c = Some (None, resp', c')"
    using cache_store_stores[OF inv st(2,1)] True c' by (simp add: e_def)
  with True c' ok show ?thesis unfolding e_def by blast
qed

section \<open>The default route\<close>

text \<open>The backend answers a request, in a state of its own, with a response or fails.\<close>

record backend_answer =
  ba_status :: int
  ba_header :: header
  ba_body :: body_stream

record 'w backend =
  bk_url :: backend_url
  bk_outHeader :: "header \<Rightarrow> header"
  bk_roundTrip :: "'w \<Rightarrow> edge_request \<Rightarrow> 'w \<times> backend_answer result"

definition answer_response :: "edge_request \<Rightarrow> backend_answer \<Rightarrow> response" where
  "answer_response outreq a =
     \<lparr>rp_status = ba_status a, rp_header = ba_header a, rp_body = Some (ba_body a),
      rp_contentLength = - 1, rp_request = outreq\<rparr>"

definition bad_gateway :: client_response where
  "bad_gateway = \<lparr>cr_status = 502, cr_header = [], cr_body = \<lparr>bs_data = [], bs_error = None\<rparr>\<rparr>"

text \<open>\<open>ReverseProxy.ServeHTTP\<close>: a failed round trip or a failed \<open>ModifyResponse\<close> is a 502.\<close>

definition proxyServe ::
  "(string \<Rightarrow> string) \<Rightarrow> 'w backend \<Rightarrow> int \<Rightarrow> edge_request \<Rightarrow> 'w \<times> responseCache
     \<Rightarrow> (('w \<times> responseCache) \<times> client_response) option" where
  "proxyServe gzip bk now r s =
     (case s of (w, c) \<Rightarrow>
        let outreq = director (bk_url bk) (bk_outHeader bk) r
        in case bk_roundTrip bk w outreq of
             (w', Inl e) \<Rightarrow> Some ((w', c), bad_gateway)
           | (w', Inr a) \<Rightarrow>
               (case ModifyResponse gzip now (answer_response outreq a) c of
                  None \<Rightarrow> None
                | Some (Some e, resp, c') \<Rightarrow> Some ((w', c'), bad_gateway)
                | Some (None, resp, c') \<Rightarrow>
                    Some ((w', c'),
                      \<lparr>cr_status = rp_status resp, cr_header = rp_header resp,
                       cr_body = (case rp_body resp of None \<Rightarrow> \<lparr>bs_data = [], bs_error = None\<rparr> | Some b \<Rightarrow> b)\<rparr>)))"

text \<open>The handler of \<open>/\<close>: \<open>t1\<close> is the time of the lookup, \<open>t2\<close> that of storing.\<close>

definition serveDefault ::
  "(string \<Rightarrow> string) \<Rightarrow> 'w backend \<Rightarrow> int \<Rightarrow> int \<Rightarrow> edge_request \<Rightarrow> 'w \<times> responseCache
     \<Rightarrow> (('w \<times> responseCache) \<times> client_response) option" where
  "serveDefault gzip bk t1 t2 r s =
     (case cache_get t1 r (snd s) of
        (Some e, c) \<Rightarrow> Some ((fst s, c), entry_write t1 r e [])
      | (None, c) \<Rightarrow> proxyServe gzip bk t2 r (fst s, c))"

text \<open>The exchange with the backend that serving a request involves, if any.\<close>

type_synonym exchange = "int \<times> edge_request \<times> backend_answer"

definition exchanged :: "'w backend \<Rightarrow> int \<Rightarrow> int \<Rightarrow> edge_request \<Rightarrow> 'w \<times> responseCache \<Rightarrow> exchange set" where
  "exchanged bk t1 t2 r s =
     (let outreq = director (bk_url bk) (bk_outHeader bk) r
      in case (fst (cache_get t1 r (snd s)), snd (bk_roundTrip bk (fst s) outreq)) of
           (None, Inr a) \<Rightarrow> {(t2, outreq, a)}
         | _ \<Rightarrow> {})"

text \<open>Runs of the handler from a new cache, with the exchanges that took place.\<close>

inductive served ::
  "(string \<Rightarrow> string) \<Rightarrow> 'w backend \<Rightarrow> responseCache \<Rightarrow> 'w \<times> responseCache \<Rightarrow> exchange set \<Rightarrow> bool"
  for gzip bk c0 where
  served_start: "served gzip bk c0 (w, c0) {}"
| served_step: "served gzip bk c0 s H \<Longrightarrow> serveDefault gzip bk t1 t2 r s = Some (s', resp) \<Longrightarrow>
     served gzip bk c0 s' (H \<union> exchanged bk t1 t2 r s)"

section \<open>Facts about the route\<close>

lemma ModifyResponse_cases:
  assumes inv: "cache_inv c" and b: "rp_body resp = Some b"
  shows "\<exists>err resp' c'. ModifyResponse gzip now resp c = Some (err, resp', c')
     \<and> (c' = c \<or>
        isCacheableResponse (rp_request resp) resp \<and> bs_error b = None
        \<and> insert_entry (made_entry (rc_ttl c) now (rp_request resp) resp (bs_data b)) c = Some c'
        \<and> entry_ok c (made_entry (rc_ttl c) now (rp_request resp) resp (bs_data b)))"
proof (cases "enabled c \<and> isCacheableResponse (rp_request resp) resp")
  case False
  then show ?thesis by (auto simp: ModifyResponse_def Let_def)
next
  case True
  then show ?thesis
    using cache_store_cases[OF inv b, of now "rp_request resp"]
    by (auto simp: ModifyResponse_def Let_def split: option.splits) 
qed

text \<open>What an exchange puts into a cache whose default lifetime is \<open>ttl\<close>.\<close>

definition cached_from :: "int \<Rightarrow> exchange \<Rightarrow> cacheEntry \<Rightarrow> bool" where
  "cached_from ttl x e \<longleftrightarrow>
     (case x of (now, q, a) \<Rightarrow>
        isCacheableResponse q (answer_response q a) \<and> bs_error (ba_body a) = None
        \<and> e = made_entry ttl now q (answer_response q a) (bs_data (ba_body a)))"

text \<open>Serving one request is a lookup, after a miss perhaps followed by one insertion.\<close>

lemma serveDefault_store:
  assumes inv: "cache_inv c"
  shows "\<exists>s' resp. serveDefault gzip bk t1 t2 r (w, c) = Some (s', resp)
     \<and> (snd s' = snd (cache_get t1 r c)
        \<or> (\<exists>e. entry_ok c e \<and> (\<exists>x\<in>exchanged bk t1 t2 r (w, c). cached_from (rc_ttl c) x e)
               \<and> insert_entry e (snd (cache_get t1 r c)) = Some (snd s')))"
proof -
  obtain res c1 where g: "cache_get t1 r c = (res, c1)" by (metis surj_pair)
  show ?thesis
  proof (cases res)
    case (Some v)
    then show ?thesis using g by (simp add: serveDefault_def)
  next
    case None
    have inv1: "cache_inv c1" and cfg: "same_config c c1"
      using cache_get_facts(1,2)[OF inv g] by simp_all
    let ?q = "director (bk_url bk) (bk_outHeader bk) r"
    obtain w' ans where rt: "bk_roundTrip bk w ?q = (w', ans)" by (metis surj_pair)
    show ?thesis
    proof (cases ans)
      case (Inl e)
      then show ?thesis using None g rt by (simp add: serveDefault_def proxyServe_def)
    next
      case (Inr a)
      have q: "rp_request (answer_response ?q a) = ?q" "rp_body (answer_response ?q a) = Some (ba_body a)"
        by (simp_all add: answer_response_def)
      obtain err resp' c' where m: "ModifyResponse gzip t2 (answer_response ?q a) c1 = Some (err, resp', c')"
        and alt: "c' = c1 \<or> isCacheableResponse ?q (answer_response ?q a) \<and> bs_error (ba_body a) = None
          \<and> insert_entry (made_entry (rc_ttl c1) t2 ?q (answer_response ?q a) (bs_data (ba_body a))) c1 = Some c'
          \<and> entry_ok c1 (made_entry (rc_ttl c1) t2 ?q (answer_response ?q a) (bs_data (ba_body a)))"
        using ModifyResponse_cases[OF inv1 q(2), of gzip t2] unfolding q(1) by blast
      obtain resp where sv: "serveDefault gzip bk t1 t2 r (w, c) = Some ((w', c'), resp)"
        using None g rt Inr m
        by (cases err) (auto simp: serveDefault_def proxyServe_def Let_def)
      have ex: "exchanged bk t1 t2 r (w, c) = {(t2, ?q, a)}"
        using None g rt Inr by (simp add: exchanged_def)
      from alt show ?thesis
      proof
        assume "c' = c1"
        with sv g show ?thesis by auto
      next
        assume h: "isCacheableResponse ?q (answer_response ?q a) \<and> bs_error (ba_body a) = None
          \<and> insert_entry (made_entry (rc_ttl c1) t2 ?q (answer_response ?q a) (bs_data (ba_body a))) c1 = Some c'
          \<and> entry_ok c1 (made_entry (rc_ttl c1) t2 ?q (answer_response ?q a) (bs_data (ba_body a)))"
        let ?e = "made_entry (rc_ttl c1) t2 ?q (answer_response ?q a) (bs_data (ba_body a))"
        have "entry_ok c ?e" "rc_ttl c1 = rc_ttl c"
          using h cfg by (auto simp: entry_ok_def same_config_def)
        then have "entry_ok c ?e \<and> (\<exists>x\<in>exchanged bk t1 t2 r (w, c). cached_from (rc_ttl c) x ?e)
            \<and> insert_entry ?e (snd (cache_get t1 r c)) = Some c'"
          using h unfolding ex g by (simp add: cached_from_def)
        with sv show ?thesis by auto
      qed
    qed
  qed
qed

lemma served_inv:
  assumes "served gzip bk c0 s H" and "cache_inv c0" and "rc_ll c0 = []"
  shows "cache_inv (snd s) \<and> same_config c0 (snd s)
     \<and> (\<forall>e\<in>set (entries (snd s)). \<exists>x\<in>H. cached_from (rc_ttl c0) x e)"
  using assms
proof (induction rule: served.induct)
  case (served_start w)
  then show ?case by (simp add: entries_def)
next
  case (served_step s H t1 t2 r s' resp)
  obtain w c where s: "s = (w, c)" by (metis surj_pair)
  obtain res c1 where g: "cache_get t1 r c = (res, c1)" by (metis surj_pair)
  have IH: "cache_inv c" "same_config c0 c" "\<forall>e\<in>set (entries c). \<exists>x\<in>H. cached_from (rc_ttl c0) x e"
    using served_step.IH served_step.prems s by auto
  note c1 = cache_get_facts(1-3)[OF IH(1) g]
  have cfg1: "same_config c0 c1" using IH(2) c1(2) by (rule same_config_trans)
  have ttl: "rc_ttl c = rc_ttl c0" using IH(2) by (simp add: same_config_def)
  have "snd s' = c1 \<or> (\<exists>e. entry_ok c e \<and> (\<exists>x\<in>exchanged bk t1 t2 r (w, c). cached_from (rc_ttl c) x e)
      \<and> insert_entry e c1 = Some (snd s'))"
    using serveDefault_store[OF IH(1), of gzip bk t1 t2 r w] served_step.hyps(2)
    unfolding s g by (simp only: option.inject prod.inject snd_conv) metis
  then consider (same) "snd s' = c1"
    | (new) e where "entry_ok c e" "\<exists>x\<in>exchanged bk t1 t2 r (w, c). cached_from (rc_ttl c) x e"
        "insert_entry e c1 = Some (snd s')"
    by blast
  then show ?case
  proof cases
    case same
    then show ?thesis using c1 cfg1 IH(3) by fastforce
  next
    case new
    have "entry_ok c0 e" using new(1) IH(2) by (auto simp: entry_ok_def same_config_def)
    then have "cache_inv (snd s') \<and> same_config c0 (snd s') \<and> set (entries (snd s')) \<subseteq> insert e (set (entries c1))"
      using rc.insert_returns[of c1 c0 e] c1(1) cfg1 new(3) by auto
    then show ?thesis using new(2) c1(3) IH(3) unfolding s ttl by fastforce
  qed
qed

end
