(* ===== verification/CacheTheorems.thy ===== *)
theory CacheTheorems
  imports EdgeCache
begin

text \<open>
  Properties of the edge's response cache and of the default route: refinement of the
  least-recently-used store, memory bound, soundness of every hit, separation of hosts, lifetimes,
  and what happens to bodies over the object limit.
\<close>

section \<open>Samples\<close>

definition small_cache :: responseCache where
  "small_cache = newResponseCache 100 10 (60 * 1000000000)"

definition get_request :: "string \<Rightarrow> edge_request" where
  "get_request path =
     \<lparr>er_method = ''GET'', er_host = ''h'', er_path = path, er_epath = path, er_query = [],
      er_header = [], er_remote = ''1.2.3.4:5''\<rparr>"

definition sample_answer :: "string \<Rightarrow> backend_answer" where
  "sample_answer body =
     \<lparr>ba_status = 200, ba_header = [(''Cache-Control'', [''public''])],
      ba_body = \<lparr>bs_data = body, bs_error = None\<rparr>\<rparr>"

definition sample_backend :: "string \<Rightarrow> unit backend" where
  "sample_backend body =
     \<lparr>bk_url = \<lparr>bu_path = [], bu_epath = [], bu_query = []\<rparr>, bk_outHeader = (\<lambda>h. h),
      bk_roundTrip = (\<lambda>w _. (w, Inr (sample_answer body)))\<rparr>"

lemma new_cache_inv:
  assumes "0 \<le> maxBytes" and "0 \<le> maxObject" and "maxBytes + maxObject < 2 ^ 63"
  shows "cache_inv (newResponseCache maxBytes maxObject ttl)"
  using assms
  by (simp add: cache_inv_def cache_limits_def newResponseCache_def linked_def entries_def)

lemma small_cache_inv: "cache_inv small_cache"
  unfolding small_cache_def by (rule new_cache_inv) simp_all

lemma small_cache_enabled: "enabled small_cache"
  by (simp add: small_cache_def newResponseCache_def enabled_def)

section \<open>Refinement\<close>

text \<open>
  C3. The cache is a least-recently-used store: for a cache in its invariant a lookup returns what the
  abstract list of entries returns (nothing for an expired entry, which is dropped; otherwise the
  entry, which becomes the most recent), and storing an entry of admissible size returns, with the
  longest run of most recently used entries that fits the byte limit. Both keep the invariant.
\<close>
theorem cache_refines_lru:
  assumes "cache_inv c" and "enabled c"
  shows "((er_method r = ''GET'' \<or> er_method r = ''HEAD'') \<longrightarrow>
      (case lru_get now (cacheKey r) (entries c) of (res, es) \<Rightarrow>
         fst (cache_get now r c) = map_option clone res
         \<and> entries (snd (cache_get now r c)) = es \<and> cache_inv (snd (cache_get now r c))))
    \<and> (en_size e = int (length (en_body e)) \<and> en_size e \<le> rc_maxObjectBytes c \<longrightarrow>
      (\<exists>c'. insert_entry e c = Some c' \<and> cache_inv c'
         \<and> entries c' = lru_put (rc_maxBytes c) e (entries c)))"
proof
  obtain res c' where g: "cache_get now r c = (res, c')" by (metis surj_pair)
  show "(er_method r = ''GET'' \<or> er_method r = ''HEAD'') \<longrightarrow>
      (case lru_get now (cacheKey r) (entries c) of (res, es) \<Rightarrow>
         fst (cache_get now r c) = map_option clone res
         \<and> entries (snd (cache_get now r c)) = es \<and> cache_inv (snd (cache_get now r c)))"
    using cache_get_lru[OF assms _ g] g by (auto split: prod.splits)
  show "en_size e = int (length (en_body e)) \<and> en_size e \<le> rc_maxObjectBytes c \<longrightarrow>
      (\<exists>c'. insert_entry e c = Some c' \<and> cache_inv c'
         \<and> entries c' = lru_put (rc_maxBytes c) e (entries c))"
    using insert_entry_lru[OF assms(1), of e] by (auto simp: entry_ok_def)
qed

definition sample_entry :: "string \<Rightarrow> string \<Rightarrow> cacheEntry" where
  "sample_entry key body =
     \<lparr>en_key = key, en_status = 200, en_header = [], en_body = body, en_storedAt = 0,
      en_expiresAt = 10, en_size = int (length body)\<rparr>"

theorem cache_refines_lru_witness:
  "fst (cache_get 0 (get_request ''/'') small_cache) = None
   \<and> (\<exists>c. insert_entry (sample_entry ''k'' ''body'') small_cache = Some c
          \<and> entries c = [sample_entry ''k'' ''body''])"
  using cache_refines_lru[OF small_cache_inv small_cache_enabled, of "get_request ''/''" 0
      "sample_entry ''k'' ''body''"]
  by (auto simp: get_request_def lru_get_def entries_def small_cache_def newResponseCache_def
      sample_entry_def lru_put_def)

section \<open>Runs of the route\<close>

lemma cached_bodies:
  assumes "cache_inv c"
  shows "(\<Sum>e\<leftarrow>entries c. int (length (en_body e))) = rc_bytes c"
proof -
  have ok: "\<forall>e\<in>set (entries c). entry_ok c e" and l: "linked c" using assms by (simp_all add: cache_inv_def)
  have "map (\<lambda>e. int (length (en_body e))) (entries c) = map en_size (entries c)"
    using ok by (auto simp: entry_ok_def)
  then show ?thesis by (simp only: linkedD(6)[OF l])
qed

text \<open>
  Memory stays bounded and no request hangs: after any sequence of requests the bodies held sum to
  the accounted bytes and do not exceed the configured limit, no single body exceeds the object
  limit, and serving the next request returns, eviction loop included, whatever the backend answers.
\<close>
theorem cache_memory_bounded:
  assumes "0 \<le> maxBytes" and "0 \<le> maxObject" and "maxBytes + maxObject < 2 ^ 63"
    and "served gzip bk (newResponseCache maxBytes maxObject ttl) s H"
  shows "(\<Sum>e\<leftarrow>entries (snd s). int (length (en_body e))) = rc_bytes (snd s)
       \<and> rc_bytes (snd s) \<le> maxBytes
       \<and> (\<forall>e\<in>set (entries (snd s)). int (length (en_body e)) \<le> maxObject)
       \<and> (\<exists>s' resp. serveDefault gzip bk t1 t2 r s = Some (s', resp))"
proof -
  let ?c0 = "newResponseCache maxBytes maxObject ttl"
  have inv: "cache_inv (snd s)" and cfg: "same_config ?c0 (snd s)"
    using served_inv[OF assms(4) new_cache_inv[OF assms(1-3)]] by (simp_all add: newResponseCache_def)
  have ok: "\<forall>e\<in>set (entries (snd s)). entry_ok (snd s) e"
    and b: "rc_bytes (snd s) \<le> rc_maxBytes (snd s)"
    using inv by (simp_all add: cache_inv_def)
  have "(\<Sum>e\<leftarrow>entries (snd s). int (length (en_body e))) = rc_bytes (snd s)"
    by (rule cached_bodies[OF inv])
  moreover have "\<exists>s' resp. serveDefault gzip bk t1 t2 r s = Some (s', resp)"
    using serveDefault_store[OF inv, of gzip bk t1 t2 r "fst s"] by auto
  ultimately show ?thesis
    using ok b cfg by (auto simp: entry_ok_def same_config_def newResponseCache_def)
qed

theorem cache_memory_bounded_witness:
  "\<exists>s' resp. serveDefault (\<lambda>x. x) (sample_backend ''body'') 0 0 (get_request ''/'') ((), small_cache)
     = Some (s', resp)"
  using cache_memory_bounded[of 100 10 "\<lambda>x. x" "sample_backend ''body''" "60 * 1000000000"
      "((), small_cache)" "{}" 0 0 "get_request ''/''"]
  by (simp add: small_cache_def served_start)

text \<open>What the entry of an exchange, served as a hit, says about that exchange.\<close>

definition sound_hit :: "int \<Rightarrow> exchange set \<Rightarrow> int \<Rightarrow> edge_request \<Rightarrow> cacheEntry \<Rightarrow> bool" where
  "sound_hit ttl H t r v \<longleftrightarrow>
     (\<exists>now q a. (now, q, a) \<in> H \<and> cacheKey q = cacheKey r
       \<and> er_method q = ''GET'' \<and> hget (er_header q) ''Authorization'' = []
       \<and> ba_status a = 200 \<and> hget (ba_header a) ''Set-Cookie'' = []
       \<and> (\<forall>d\<in>{''private'', ''no-store'', ''no-cache''}.
            \<not> contains (toLower (hget (ba_header a) ''Cache-Control'')) d)
       \<and> en_status v = 200 \<and> en_body v = bs_data (ba_body a) \<and> bs_error (ba_body a) = None
       \<and> t \<le> now + cacheTTLFromResponse (answer_response q a) ttl)"

lemma cached_hit_sound:
  assumes "\<forall>e\<in>set (entries c). \<exists>x\<in>H. cached_from ttl x e" and "cache_inv c" and "cache_get t r c = (Some v, c')"
  shows "sound_hit ttl H t r v"
proof -
  obtain e where e: "e \<in> set (entries c)" "cache_answers (t, r) e v"
    using cache_get_facts(4)[OF assms(2,3)] by blast
  then obtain now q a where x: "(now, q, a) \<in> H" "cached_from ttl (now, q, a) e"
    using assms(1) by fastforce
  have c: "isCacheableResponse q (answer_response q a)" and b: "bs_error (ba_body a) = None"
    and en: "e = made_entry ttl now q (answer_response q a) (bs_data (ba_body a))"
    using x(2) by (simp_all add: cached_from_def)
  have "en_expiresAt e = now + cacheTTLFromResponse (answer_response q a) ttl" "en_key e = cacheKey q"
    "en_body e = bs_data (ba_body a)" "en_status e = ba_status a"
    by (simp_all add: en made_entry_fields) (simp add: answer_response_def)
  with e(2) have v: "cacheKey q = cacheKey r" "t \<le> now + cacheTTLFromResponse (answer_response q a) ttl"
    "en_body v = bs_data (ba_body a)" "en_status v = ba_status a"
    by (simp_all add: cache_answers_def clone_def)
  have "er_method q = ''GET''" "hget (er_header q) ''Authorization'' = []" "ba_status a = 200"
    "hget (ba_header a) ''Set-Cookie'' = []"
    "\<forall>d\<in>{''private'', ''no-store'', ''no-cache''}.
       \<not> contains (toLower (hget (ba_header a) ''Cache-Control'')) d"
    using c by (auto simp: isCacheableResponse_def answer_response_def Let_def split: if_splits)
  then show ?thesis using x(1) v b unfolding sound_hit_def by (intro exI[of _ now] exI[of _ q] exI[of _ a]) simp
qed

text \<open>
  Every hit is sound: an entry served to a request comes from an earlier exchange with the backend
  for a request with the same key, a plain \<open>GET\<close> without \<open>Authorization\<close> that was answered 200 without
  \<open>Set-Cookie\<close> and without \<open>private\<close>, \<open>no-store\<close> or \<open>no-cache\<close>; status and body are those of that
  exchange, its body arrived without error, and its lifetime has not ended. Here for requests handled one
  after the other.
\<close>
theorem cache_hits_sound:
  assumes "0 \<le> maxBytes" and "0 \<le> maxObject" and "maxBytes + maxObject < 2 ^ 63"
    and "served gzip bk (newResponseCache maxBytes maxObject ttl) s H"
    and "fst (cache_get t r (snd s)) = Some v"
  shows "sound_hit ttl H t r v"
proof -
  let ?c0 = "newResponseCache maxBytes maxObject ttl"
  have inv: "cache_inv (snd s)" and from_H: "\<forall>e\<in>set (entries (snd s)). \<exists>x\<in>H. cached_from ttl x e"
    using served_inv[OF assms(4) new_cache_inv[OF assms(1-3)]] by (simp_all add: newResponseCache_def)
  obtain c' where "cache_get t r (snd s) = (Some v, c')" using assms(5) by (metis prod.collapse)
  then show ?thesis by (rule cached_hit_sound[OF from_H inv])
qed

section \<open>Hits\<close>

lemma get_after_insert:
  assumes inv: "cache_inv c" and en: "enabled c" and ok: "entry_ok c e" and mx: "en_size e \<le> rc_maxBytes c"
    and ins: "insert_entry e c = Some c'"
    and r: "cacheKey r = en_key e" "er_method r = ''GET'' \<or> er_method r = ''HEAD''"
    and t: "t \<le> en_expiresAt e"
  shows "fst (cache_get t r c') = Some (clone e)"
proof -
  have c': "cache_inv c'" "same_config c c'" "entries c' = lru_put (rc_maxBytes c) e (entries c)"
    using insert_entry_lru[OF inv ok] ins by auto
  have "enabled c'" using en c'(2) by (simp add: enabled_def same_config_def)
  moreover have "fst (lru_get t (cacheKey r) (entries c')) = Some e"
    using mx t r(1) by (simp add: c'(3) lru_put_def lru_get_def)
  ultimately show ?thesis
    using cache_get_lru[OF c'(1) _ r(2)] by (cases "cache_get t r c'") auto
qed

text \<open>After a cacheable answer every request with the key of the outgoing request is a hit.\<close>

lemma hit_after_miss:
  assumes inv: "cache_inv c" and en: "enabled c" and miss: "fst (cache_get t1 r c) = None"
    and q: "q = director (bk_url bk) (bk_outHeader bk) r"
    and rt: "bk_roundTrip bk w q = (w', Inr a)" and ca: "isCacheableResponse q (answer_response q a)"
    and b: "bs_error (ba_body a) = None" "int (length (bs_data (ba_body a))) \<le> rc_maxObjectBytes c"
      "int (length (bs_data (ba_body a))) \<le> rc_maxBytes c"
    and r': "cacheKey r' = cacheKey q" "er_method r' = ''GET'' \<or> er_method r' = ''HEAD''"
    and t: "t \<le> t2 + cacheTTLFromResponse (answer_response q a) (rc_ttl c)"
  shows "\<exists>c' resp v c''. serveDefault gzip bk t1 t2 r (w, c) = Some ((w', c'), resp)
     \<and> cache_get t r' c' = (Some v, c'') \<and> en_status v = 200 \<and> en_body v = bs_data (ba_body a)"
proof -
  obtain c1 where g: "cache_get t1 r c = (None, c1)" using miss by (metis prod.collapse)
  have inv1: "cache_inv c1" and cfg: "same_config c c1" using cache_get_facts(1,2)[OF inv g] by simp_all
  have en1: "enabled c1" using en cfg by (simp add: enabled_def same_config_def)
  define e where "e = made_entry (rc_ttl c) t2 q (answer_response q a) (bs_data (ba_body a))"
  have ok: "entry_ok c1 e"
    using b(2) cfg by (simp add: e_def made_entry_def entry_ok_def same_config_def Let_def)
  obtain c' where ins: "insert_entry e c1 = Some c'" using insert_entry_lru[OF inv1 ok] by blast
  have ttl1: "rc_ttl c1 = rc_ttl c" and mo: "rc_maxObjectBytes c1 = rc_maxObjectBytes c"
    using cfg by (simp_all add: same_config_def)
  have "\<exists>resp'. cache_store t2 q (answer_response q a) c1 = Some (None, resp', c')"
    by (rule cache_store_stores[OF inv1 en1, where b = "ba_body a"])
       (use b ins in \<open>simp_all add: mo ttl1 e_def[symmetric]\<close>, simp add: answer_response_def)
  then have "\<exists>resp'. ModifyResponse gzip t2 (answer_response q a) c1 = Some (None, resp', c')"
    using en1 ca by (auto simp: ModifyResponse_def answer_response_def Let_def)
  then have sv: "\<exists>resp. serveDefault gzip bk t1 t2 r (w, c) = Some ((w', c'), resp)"
    using g rt by (auto simp: serveDefault_def proxyServe_def Let_def q[symmetric])
  have "t \<le> en_expiresAt e" "cacheKey r' = en_key e" "en_size e \<le> rc_maxBytes c1"
    using t r'(1) b(3) cfg
    by (simp_all add: e_def made_entry_fields same_config_def)
  then have "fst (cache_get t r' c') = Some (clone e)"
    using get_after_insert[OF inv1 en1 ok _ ins _ r'(2)] by simp
  moreover have "en_status (clone e) = 200" "en_body (clone e) = bs_data (ba_body a)"
    using ca by (simp_all add: clone_def e_def made_entry_def isCacheableResponse_def Let_def
        split: if_splits)
  ultimately show ?thesis using sv by (metis prod.collapse)
qed

lemma contains_self: "contains s s"
  by (auto simp: contains_iff intro: exI[of _ "[]"])

lemma sample_cacheable:
  assumes "er_method q = ''GET''" and "er_header q = []"
  shows "isCacheableResponse q (answer_response q (sample_answer b))"
    and "cacheTTLFromResponse (answer_response q (sample_answer b)) ttl = ttl"
proof -
  have cc: "toLower ''public'' = ''public''" "\<not> contains ''public'' ''private''"
    "\<not> contains ''public'' ''no-store''" "\<not> contains ''public'' ''no-cache''"
    "cacheDirectiveSeconds ''public'' ''s-maxage'' = 0" "cacheDirectiveSeconds ''public'' ''max-age'' = 0"
    by code_simp+
  have h: "hget (rp_header (answer_response q (sample_answer b))) ''Cache-Control'' = ''public''"
    by (simp add: answer_response_def sample_answer_def hget_def hvalues_def)
  show "isCacheableResponse q (answer_response q (sample_answer b))"
    using assms unfolding isCacheableResponse_def h Let_def cc
    by (simp only: cc contains_self) (simp add: answer_response_def sample_answer_def hget_def hvalues_def)
  show "cacheTTLFromResponse (answer_response q (sample_answer b)) ttl = ttl"
    unfolding cacheTTLFromResponse_def h cc by (simp add: cc)
qed

lemma sample_director:
  "director (bk_url (sample_backend b)) (bk_outHeader (sample_backend b)) (get_request ''/'') = get_request ''/''"
  by (simp add: director_def sample_backend_def get_request_def singleJoiningSlash_def hasPrefix_def
      hasSuffix_iff)

lemma small_cache_miss: "fst (cache_get t r small_cache) = None"
  by (simp add: cache_get_def small_cache_def newResponseCache_def)

theorem cache_hits_sound_witness:
  "\<exists>s H v. served (\<lambda>x. x) (sample_backend ''body'') small_cache s H
     \<and> fst (cache_get 7 (get_request ''/'') (snd s)) = Some v \<and> en_status v = 200
     \<and> (\<exists>now q a. (now, q, a) \<in> H \<and> en_body v = bs_data (ba_body a))"
proof -
  let ?bk = "sample_backend ''body''" and ?r = "get_request ''/''"
  have g: "er_method ?r = ''GET''" "er_header ?r = []" by (simp_all add: get_request_def)
  obtain c' resp v c'' where h: "serveDefault (\<lambda>x. x) ?bk 0 5 ?r ((), small_cache) = Some (((), c'), resp)"
    "cache_get 7 ?r c' = (Some v, c'')"
    using hit_after_miss[OF small_cache_inv small_cache_enabled small_cache_miss
        sample_director[of "''body''", symmetric], of "()" "()" "sample_answer ''body''" ?r 7 5 "\<lambda>x. x" 0]
      sample_cacheable[OF g, of "''body''"] g
    by (auto simp: sample_backend_def sample_answer_def small_cache_def newResponseCache_def)
  have sv: "served (\<lambda>x. x) ?bk small_cache ((), c') ({} \<union> exchanged ?bk 0 5 ?r ((), small_cache))"
    by (rule served_step[OF served_start h(1)])
  have v: "fst (cache_get 7 ?r (snd ((), c'))) = Some v" using h(2) by simp
  obtain now q a where "(now, q, a) \<in> {} \<union> exchanged ?bk 0 5 ?r ((), small_cache)"
    "en_status v = 200" "en_body v = bs_data (ba_body a)"
    using cache_hits_sound[OF _ _ _ sv[unfolded small_cache_def] v] by (auto simp: small_cache_def sound_hit_def)
  with sv v show ?thesis by blast
qed

section \<open>Keys\<close>

text \<open>
  Hosts and pages are kept apart: for requests whose host and request URI have no NUL byte (a request
  line and a host header cannot carry one) the cache key determines host, URI and \<open>Accept-Encoding\<close>.
\<close>
theorem cache_key_injective:
  assumes "CHR 0x00 \<notin> set (er_host r)" and "CHR 0x00 \<notin> set (er_host r')"
    and "CHR 0x00 \<notin> set (RequestURI r)" and "CHR 0x00 \<notin> set (RequestURI r')"
  shows "cacheKey r = cacheKey r' \<longleftrightarrow>
     er_host r = er_host r' \<and> RequestURI r = RequestURI r'
     \<and> hget (er_header r) ''Accept-Encoding'' = hget (er_header r') ''Accept-Encoding''"
  using assms by (simp add: cacheKey_def append_sep_eq_iff)

theorem cache_key_injective_witness:
  "cacheKey (get_request ''/a'') \<noteq> cacheKey (get_request ''/b'')"
  using cache_key_injective[of "get_request ''/a''" "get_request ''/b''"]
  by (simp add: get_request_def RequestURI_def)

text \<open>
  A backend URL with a path breaks this: entries are stored under the rewritten URI but looked up
  under the client's. Behind \<open>http://b/app\<close>, once \<open>/x\<close> has been proxied (to \<open>/app/x\<close>), a client that asks
  for \<open>/app/x\<close> gets the stored page, although proxying would ask the backend for \<open>/app/app/x\<close>.
\<close>
theorem backend_path_crosses_pages:
  assumes "cache_inv c" and "enabled c" and "fst (cache_get t1 r c) = None"
    and url: "bk_url bk = \<lparr>bu_path = ''/app'', bu_epath = ''/app'', bu_query = []\<rparr>"
    and r: "hasPrefix (er_epath r) ''/''" "er_query r = []"
      "hget (bk_outHeader bk (er_header r)) ''Accept-Encoding'' = hget (er_header r) ''Accept-Encoding''"
    and q: "q = director (bk_url bk) (bk_outHeader bk) r"
    and "bk_roundTrip bk w q = (w', Inr a)" and "isCacheableResponse q (answer_response q a)"
    and "bs_error (ba_body a) = None" and "int (length (bs_data (ba_body a))) \<le> rc_maxObjectBytes c"
    and "int (length (bs_data (ba_body a))) \<le> rc_maxBytes c"
    and r': "r' = r\<lparr>er_epath := ''/app'' @ er_epath r\<rparr>" "er_method r = ''GET''"
    and "t \<le> t2 + cacheTTLFromResponse (answer_response q a) (rc_ttl c)"
  shows "\<exists>c' resp v c''. serveDefault gzip bk t1 t2 r (w, c) = Some ((w', c'), resp)
     \<and> cache_get t r' c' = (Some v, c'') \<and> en_body v = bs_data (ba_body a)
     \<and> er_epath (director (bk_url bk) (bk_outHeader bk) r') = ''/app/app'' @ er_epath r"
proof -
  have j: "singleJoiningSlash ''/app'' p = ''/app'' @ p" if "hasPrefix p ''/''" for p
    using that by (simp add: singleJoiningSlash_def hasSuffix_def)
  have "RequestURI q = RequestURI r'" "er_host q = er_host r'"
    "hget (er_header q) ''Accept-Encoding'' = hget (er_header r') ''Accept-Encoding''"
    using r by (simp_all add: q url r'(1) RequestURI_def director_def j)
  then have key: "cacheKey r' = cacheKey q" by (simp add: cacheKey_def)
  have "hasPrefix (''/app'' @ er_epath r) ''/''" by (simp add: hasPrefix_def)
  then have "er_epath (director (bk_url bk) (bk_outHeader bk) r') = ''/app/app'' @ er_epath r"
    using j by (simp add: director_def url r'(1))
  then show ?thesis
    using hit_after_miss[OF assms(1-3) q assms(9-13) key _ assms(16), of gzip] r' by auto
qed

definition app_backend :: "unit backend" where
  "app_backend =
     (sample_backend ''page'')\<lparr>bk_url := \<lparr>bu_path = ''/app'', bu_epath = ''/app'', bu_query = []\<rparr>\<rparr>"

theorem backend_path_crosses_pages_witness:
  "\<exists>c' resp v c''. serveDefault (\<lambda>x. x) app_backend 0 0 (get_request ''/x'') ((), small_cache) = Some (((), c'), resp)
     \<and> cache_get 0 (get_request ''/x'' \<lparr>er_epath := ''/app/x''\<rparr>) c' = (Some v, c'') \<and> en_body v = ''page''"
proof -
  let ?r = "get_request ''/x''"
  let ?q = "director (bk_url app_backend) (bk_outHeader app_backend) ?r"
  have g: "er_method ?q = ''GET''" "er_header ?q = []"
    by (simp_all add: get_request_def director_def app_backend_def sample_backend_def)
  have "\<exists>c' resp v c''. serveDefault (\<lambda>x. x) app_backend 0 0 ?r ((), small_cache) = Some (((), c'), resp)
     \<and> cache_get 0 (?r\<lparr>er_epath := ''/app'' @ er_epath ?r\<rparr>) c' = (Some v, c'')
     \<and> en_body v = bs_data (ba_body (sample_answer ''page''))
     \<and> er_epath (director (bk_url app_backend) (bk_outHeader app_backend)
          (?r\<lparr>er_epath := ''/app'' @ er_epath ?r\<rparr>)) = ''/app/app'' @ er_epath ?r"
    by (rule backend_path_crosses_pages[where q = ?q, OF _ _ _ _ _ _ _ HOL.refl])
       (simp_all add: small_cache_inv small_cache_enabled small_cache_miss sample_cacheable[OF g],
        simp_all add: app_backend_def sample_backend_def get_request_def sample_answer_def
          small_cache_def newResponseCache_def hasPrefix_def)
  then show ?thesis by (simp add: sample_answer_def get_request_def) blast
qed

section \<open>Lifetimes\<close>

text \<open>The name of one directive of a \<open>Cache-Control\<close> line, if it has a value.\<close>

definition directive_key :: "string \<Rightarrow> string option" where
  "directive_key p =
     (case cut (trimSpace p) CHR ''='' of (k, _, ok) \<Rightarrow> if ok then Some (trimSpace k) else None)"

lemma directive_loop_skip:
  "\<forall>p\<in>set ps. directive_key p \<noteq> Some name \<Longrightarrow> directive_loop (ps @ qs) name = directive_loop qs name"
  by (induction ps) (auto simp: directive_key_def split: prod.splits if_splits)

lemma show_nat_ends:
  "hd (show_nat n) \<in> set (show_nat n)" "last (show_nat n) \<in> set (show_nat n)"
  by (simp_all add: hd_in_set last_in_set)

lemma show_nat_plain:
  assumes "c \<in> set (show_nat n)"
  shows "c \<noteq> CHR ''=''" "c \<noteq> CHR 0x22" "\<not> ascii_space c" "(of_char c :: nat) < 128"
  using digit_val_ascii[OF show_nat_digits[OF assms]] by (auto simp: ascii_space_def)

lemma directive_loop_hit:
  assumes nm: "ascii name" "name \<noteq> []" "\<not> ascii_space (hd name)" "\<not> ascii_space (last name)"
      "CHR ''='' \<notin> set name"
    and n: "0 < n" "n < 2 ^ 63"
  shows "directive_loop ((name @ ''='' @ show_nat n) # qs) name = int n"
proof -
  let ?p = "name @ ''='' @ show_nat n"
  have l: "last ?p = last (show_nat n)" "hd ?p = hd name" using nm(2) by simp_all
  have "ascii ?p" using nm(1) show_nat_plain(4) by auto
  moreover have "\<not> ascii_space (last (show_nat n))"
    using show_nat_plain(3)[OF show_nat_ends(2)] by blast
  ultimately have "no_edge_space ?p"
    using nm(3) by (subst no_edge_space_ascii) (simp_all add: nm(2))
  then have t: "trimSpace ?p = ?p" by (rule trimSpace_id)
  have tn: "trimSpace name = name" using nm(1-4) by (simp add: no_edge_space_ascii)
  have v: "trim (show_nat n) CHR 0x22 = show_nat n"
    using show_nat_plain(2)[OF show_nat_ends(1)] show_nat_plain(2)[OF show_nat_ends(2)]
    by (intro trim_id) auto
  have c: "cut ?p CHR ''='' = (name, show_nat n, True)" using cut_append[OF nm(5)] by simp
  show ?thesis
    using n tn v by (simp add: t[simplified] c[simplified] parseInt64_show_nat)
qed

text \<open>
  \<open>s-maxage\<close> decides how long an answer is kept: when the first \<open>s-maxage\<close> directive of the line is
  \<open>s-maxage=n\<close>, the lifetime is \<open>n\<close> seconds wherever it stands and whatever \<open>max-age\<close> says, up to the
  292 years a \<open>time.Duration\<close> can hold; one second more and the product wraps to a negative lifetime,
  so that the answer is never served from the cache.
\<close>
theorem shared_age_lifetime:
  assumes "toLower (hget (rp_header resp) ''Cache-Control'') =
      join '','' (ps @ [''s-maxage='' @ show_nat n] @ qs)"
    and "\<forall>p\<in>set (ps @ qs). CHR '','' \<notin> set p"
    and "\<forall>p\<in>set ps. directive_key p \<noteq> Some ''s-maxage''" and "0 < n"
  shows "(n \<le> 9223372036 \<longrightarrow> cacheTTLFromResponse resp fallback = int n * 1000000000)
       \<and> (n = 9223372037 \<longrightarrow> cacheTTLFromResponse resp fallback < 0)"
proof -
  have nm: "ascii ''s-maxage''" "\<not> ascii_space (hd ''s-maxage'')" "\<not> ascii_space (last ''s-maxage'')"
    by (simp_all add: ascii_space_def)
  have "CHR '','' \<notin> set (''s-maxage='' @ show_nat n)"
    using digit_val_ascii[OF show_nat_digits[of "CHR '',''" n]] by auto
  then have sp: "split_at CHR '','' (toLower (hget (rp_header resp) ''Cache-Control'')) =
      ps @ [''s-maxage='' @ show_nat n] @ qs"
    unfolding assms(1) using assms(2) by (intro split_at_join) auto
  have "cacheDirectiveSeconds (toLower (hget (rp_header resp) ''Cache-Control'')) ''s-maxage'' = int n"
    if "n < 2 ^ 63"
    unfolding cacheDirectiveSeconds_def sp directive_loop_skip[OF assms(3)]
    using directive_loop_hit[OF nm(1) _ nm(2,3) _ assms(4) that, of qs] by simp
  then have ttl: "n < 2 ^ 63 \<Longrightarrow> cacheTTLFromResponse resp fallback = wrap64 (int n * time_second)"
    using assms(4) by (simp add: cacheTTLFromResponse_def)
  show ?thesis
  proof (intro conjI impI)
    assume "n \<le> 9223372036"
    then show "cacheTTLFromResponse resp fallback = int n * 1000000000"
      using ttl by (simp add: time_second_def)
  next
    assume n: "n = 9223372037"
    have "wrap64 (9223372037 * 1000000000) < 0" by (simp add: wrap64_def)
    then show "cacheTTLFromResponse resp fallback < 0"
      using ttl by (simp add: n time_second_def)
  qed
qed

definition aged_response :: "nat \<Rightarrow> response" where
  "aged_response n =
     \<lparr>rp_status = 200, rp_header = [(''Cache-Control'', [''Public,Max-Age=5,s-maxage='' @ show_nat n])],
      rp_body = None, rp_contentLength = 0, rp_request = get_request ''/''\<rparr>"

lemma toLower_append: "toLower (a @ b) = toLower a @ toLower b"
  by (simp add: toLower_def)

lemma toLower_show_nat: "toLower (show_nat n) = show_nat n"
proof -
  have "lower_char c = c" if "c \<in> set (show_nat n)" for c
    using digit_val_ascii[OF show_nat_digits[OF that]] by (simp add: lower_char_def Let_def)
  then show ?thesis by (simp add: toLower_def map_idI)
qed

lemma aged_line:
  "toLower (hget (rp_header (aged_response n)) ''Cache-Control'') =
     join '','' ([''public'', ''max-age=5''] @ [''s-maxage='' @ show_nat n] @ [])"
proof -
  have "toLower ''Public,Max-Age=5,s-maxage='' = ''public,max-age=5,s-maxage=''" by code_simp
  then have "toLower (''Public,Max-Age=5,s-maxage='' @ show_nat n) = ''public,max-age=5,s-maxage='' @ show_nat n"
    by (simp only: toLower_append toLower_show_nat)
  then show ?thesis by (simp add: aged_response_def hget_def hvalues_def)
qed

theorem shared_age_lifetime_witness:
  "cacheTTLFromResponse (aged_response 30) 7 = 30 * 1000000000
   \<and> cacheTTLFromResponse (aged_response 9223372037) 7 < 0"
proof -
  have k: "\<forall>p\<in>set [''public'', ''max-age=5'']. directive_key p \<noteq> Some ''s-maxage''"
    by (simp add: directive_key_def no_edge_space_ascii ascii_space_def cut_def)
  have c: "\<forall>p\<in>set ([''public'', ''max-age=5''] @ []). CHR '','' \<notin> set p" by simp
  have "cacheTTLFromResponse (aged_response 30) 7 = int 30 * 1000000000"
    by (rule shared_age_lifetime[OF aged_line c k, THEN conjunct1, rule_format]) simp_all
  moreover have "cacheTTLFromResponse (aged_response 9223372037) 7 < 0"
    by (rule shared_age_lifetime[OF aged_line c k, THEN conjunct2, rule_format])
       (rule zero_less_numeral, rule HOL.refl)
  ultimately show ?thesis by simp
qed

section \<open>Bodies\<close>

text \<open>
  A cacheable answer whose body exceeds the object limit is not cached, and it is not delivered
  either: the client gets status 200 and the first \<open>maxObjectBytes + 1\<close> bytes as a complete body,
  with a matching \<open>Content-Length\<close>.
\<close>
theorem oversize_body_truncated:
  assumes "cache_inv c" and "enabled c" and "cache_get t1 r c = (None, c1)"
    and q: "q = director (bk_url bk) (bk_outHeader bk) r"
    and "bk_roundTrip bk w q = (w', Inr a)" and ca: "isCacheableResponse q (answer_response q a)"
    and "int (length (bs_data (ba_body a))) > rc_maxObjectBytes c"
    and ng: "\<not> contains (toLower (hget (er_header q) ''Accept-Encoding'')) ''gzip''"
  shows "\<exists>resp. serveDefault gzip bk t1 t2 r (w, c) = Some ((w', c1), resp)
     \<and> cr_status resp = 200
     \<and> cr_body resp = \<lparr>bs_data = take (nat (rc_maxObjectBytes c) + 1) (bs_data (ba_body a)), bs_error = None\<rparr>
     \<and> hget (cr_header resp) ''Content-Length'' = itoa (rc_maxObjectBytes c + 1)"
proof -
  have inv1: "cache_inv c1" and cfg: "same_config c c1"
    using cache_get_facts(1,2)[OF assms(1,3)] by simp_all
  have en1: "enabled c1" and mo: "rc_maxObjectBytes c1 = rc_maxObjectBytes c"
    using assms(2) cfg by (simp_all add: enabled_def same_config_def)
  have pos: "0 < rc_maxObjectBytes c" using assms(2) by (simp add: enabled_def)
  have lim: "wrap64 (rc_maxObjectBytes c + 1) = rc_maxObjectBytes c + 1"
    using object_limit[OF assms(1,2)] .
  let ?d = "take (nat (rc_maxObjectBytes c) + 1) (bs_data (ba_body a))"
  have len: "int (length ?d) = rc_maxObjectBytes c + 1" using assms(7) pos by simp
  have rd: "readLimited (ba_body a) (rc_maxObjectBytes c + 1) = (?d, None)"
    using assms(7) pos by (simp add: readLimited_def nat_add_distrib)
  define resp' where "resp' = (answer_response q a)
      \<lparr>rp_body := Some \<lparr>bs_data = ?d, bs_error = None\<rparr>, rp_contentLength := int (length ?d),
       rp_header := hset (ba_header a) ''Content-Length'' (itoa (int (length ?d)))\<rparr>"
  have st: "cache_store t2 q (answer_response q a) c1 = Some (None, resp', c1)"
    using en1 len unfolding cache_store_def mo lim
    by (simp add: answer_response_def rd Let_def resp'_def del: length_take)
  let ?h = "hset (rp_header resp') ''X-Memecdn-Cache'' ''MISS''"
  have ng': "\<not> shouldGzip q x" for x using ng by (simp add: shouldGzip_def)
  have "ModifyResponse gzip t2 (answer_response q a) c1 = Some (None, resp'\<lparr>rp_header := ?h\<rparr>, c1)"
    using en1 ca st ng' by (simp add: ModifyResponse_def answer_response_def Let_def resp'_def)
  then have "serveDefault gzip bk t1 t2 r (w, c) = Some ((w', c1),
      \<lparr>cr_status = rp_status resp', cr_header = ?h, cr_body = \<lparr>bs_data = ?d, bs_error = None\<rparr>\<rparr>)"
    using assms(3,5) by (simp add: serveDefault_def proxyServe_def Let_def q[symmetric])
       (simp add: resp'_def)
  moreover have "rp_status resp' = 200"
    using ca by (simp add: resp'_def isCacheableResponse_def split: if_splits)
  moreover have "hget ?h ''Content-Length'' = itoa (rc_maxObjectBytes c + 1)"
    using len by (simp add: hget_hset resp'_def)
  ultimately show ?thesis by simp
qed

theorem oversize_body_truncated_witness:
  "\<exists>c' resp. serveDefault (\<lambda>x. x) (sample_backend ''twelve bytes'') 0 0 (get_request ''/'') ((), small_cache)
       = Some (((), c'), resp)
     \<and> cr_status resp = 200 \<and> bs_data (cr_body resp) = ''twelve byte''"
proof -
  let ?r = "get_request ''/''"
  have g: "er_method ?r = ''GET''" "er_header ?r = []" by (simp_all add: get_request_def)
  have "\<exists>resp. serveDefault (\<lambda>x. x) (sample_backend ''twelve bytes'') 0 0 ?r ((), small_cache)
      = Some (((), small_cache), resp) \<and> cr_status resp = 200
     \<and> cr_body resp = \<lparr>bs_data = take (nat (rc_maxObjectBytes small_cache) + 1)
           (bs_data (ba_body (sample_answer ''twelve bytes''))), bs_error = None\<rparr>
     \<and> hget (cr_header resp) ''Content-Length'' = itoa (rc_maxObjectBytes small_cache + 1)"
    by (rule oversize_body_truncated[where q = ?r])
       (simp_all add: small_cache_inv small_cache_enabled sample_director sample_cacheable[OF g] g,
        simp_all add: cache_get_def sample_backend_def sample_answer_def small_cache_def newResponseCache_def
          hget_def hvalues_def toLower_def hasPrefix_def)
  then show ?thesis by (auto simp: sample_answer_def small_cache_def newResponseCache_def)
qed

text \<open>
  The largest object limit empties every body: with \<open>2 ^ 63 - 1\<close> the bound of the reader, one more, wraps to a
  negative number, so \<open>store\<close> reads nothing and both the entry and the client's answer have an empty body.
\<close>

theorem largest_limit_empties_bodies:
  assumes "rc_maxObjectBytes c = 2 ^ 63 - 1" and "enabled c" and "rp_body resp = Some b"
    and "cache_store now r resp c = Some (err, resp', c')"
  shows "err = None \<and> rp_body resp' = Some \<lparr>bs_data = [], bs_error = None\<rparr>
     \<and> hget (rp_header resp') ''Content-Length'' = ''0''"
proof -
  have "readLimited b (wrap64 (rc_maxObjectBytes c + 1)) = ([], None)"
    by (simp add: assms(1) wrap64_def readLimited_def)
  moreover have "itoa 0 = ''0''" by code_simp
  ultimately show ?thesis using assms(2-4) by (auto simp: cache_store_def assms(1) Let_def hget_hset)
qed

theorem largest_limit_empties_bodies_witness:
  "\<exists>resp' c'. cache_store 0 (get_request ''/'')
       (answer_response (get_request ''/'') (sample_answer ''page'')) (newResponseCache 10 (2 ^ 63 - 1) 5) = Some (None, resp', c')
     \<and> rp_body resp' = Some \<lparr>bs_data = [], bs_error = None\<rparr>"
proof -
  let ?c = "newResponseCache 10 (2 ^ 63 - 1) 5" and ?resp = "answer_response (get_request ''/'') (sample_answer ''page'')"
  have rd: "readLimited b (wrap64 (2 ^ 63)) = ([], None)" for b by (simp add: wrap64_def readLimited_def)
  have ins: "\<exists>c'. insert_entry e ?c = Some c'" if "en_size e = 0" for e
    using that by (simp add: insert_entry_def newResponseCache_def pushFront_def wrap64_def evict.simps Let_def)
  have "cache_store 0 (get_request ''/'') ?resp ?c \<noteq> None"
    using rd ins by (simp add: cache_store_def answer_response_def enabled_def Let_def)
      (simp add: newResponseCache_def)
  then obtain err resp' c' where s: "cache_store 0 (get_request ''/'') ?resp ?c = Some (err, resp', c')"
    by auto
  show ?thesis
    using largest_limit_empties_bodies[OF _ _ _ s] s
    by (auto simp: newResponseCache_def enabled_def answer_response_def)
qed

text \<open>Only answers to \<open>GET\<close> are stored: an answer to any other method, \<open>HEAD\<close> included, leaves the cache as it is.\<close>

lemma only_get_cached:
  assumes "ModifyResponse gzip now resp c = Some (e, resp', c')" and "er_method (rp_request resp) \<noteq> ''GET''"
  shows "c' = c"
  using assms by (auto simp: ModifyResponse_def isCacheableResponse_def Let_def split: if_splits)

end
