(* ===== verification/CertSelect.thy ===== *)
theory CertSelect
  imports CacheTheorems
begin

text \<open>
  Certificates of the edge (\<open>cmd/edgeproxy/main.go\<close>): the configuration syntax, loading the chains
  and binding each to a remote signer, and the selection of a certificate by TLS server name. The
  host-name helpers are shared with the plugin routes.
\<close>

section \<open>Host names\<close>

definition cleanHost :: "string \<Rightarrow> string" where
  "cleanHost value =
     (let v = toLower (trimSpace value)
      in case cut v CHR '':'' of (host, _, ok) \<Rightarrow> if ok then host else v)"

definition certificateNameMatches :: "string \<Rightarrow> string \<Rightarrow> bool" where
  "certificateNameMatches pattern host =
     (if pattern = host then True
      else if hasPrefix pattern ''*.'' then
        (let suffix = drop 1 pattern in hasSuffix host suffix \<and> host \<noteq> drop 2 pattern)
      else False)"

text \<open>A set of patterns: the exact name first, then every wildcard.\<close>

definition hostSetMatches :: "string list \<Rightarrow> string \<Rightarrow> bool" where
  "hostSetMatches hosts host =
     (if host \<in> set hosts then True
      else list_ex (\<lambda>pattern. hasPrefix pattern ''*.'' \<and> hasSuffix host (drop 1 pattern)
                             \<and> host \<noteq> drop 2 pattern) hosts)"

section \<open>Configuration syntax\<close>

record certificateSpec =
  sp_KeyID :: string
  sp_Path :: string

definition multi_spec :: "string \<Rightarrow> certificateSpec option" where
  "multi_spec raw0 =
     (let raw = trimSpace raw0
      in if raw = [] then None
         else (let (keyID0, path0, ok) = cut raw CHR ''='';
                   (keyID, path) = (if \<not> ok then ([], keyID0) else (keyID0, path0))
               in Some \<lparr>sp_KeyID = trimSpace keyID, sp_Path = trimSpace path\<rparr>))"

definition certificateSpecs :: "string \<Rightarrow> string \<Rightarrow> certificateSpec list" where
  "certificateSpecs singlePath multiValue =
     (if trimSpace multiValue \<noteq> [] then List.map_filter multi_spec (split_at CHR '','' multiValue)
      else if trimSpace singlePath \<noteq> [] then [\<lparr>sp_KeyID = [], sp_Path = trimSpace singlePath\<rparr>]
      else [])"

definition splitListens :: "string \<Rightarrow> string list" where
  "splitListens value =
     (let listens = filter (\<lambda>p. p \<noteq> []) (map trimSpace (split_at CHR '','' value))
      in if listens = [] then ['':443''] else listens)"

section \<open>Certificates\<close>

text \<open>
  \<open>pem.Decode\<close> and \<open>x509.ParseCertificate\<close> are parameters: the first PEM block (type and bytes) with
  the rest of the input, and the DNS names and common name of a certificate.
\<close>

record leaf_names =
  lf_dns :: "string list"
  lf_cn :: string

record x509_env =
  xe_pemDecode :: "string \<Rightarrow> ((string \<times> string) \<times> string) option"
  xe_parse :: "string \<Rightarrow> leaf_names option"

record 'pub certificate =
  ct_chain :: "string list"
  ct_key :: "'pub RemoteSigner option"
  ct_leaf :: "leaf_names option"

partial_function (option) chain_blocks ::
  "(string \<Rightarrow> ((string \<times> string) \<times> string) option) \<Rightarrow> string \<Rightarrow> string list \<Rightarrow> string list option" where
  "chain_blocks pem remaining acc =
     (case pem remaining of
        None \<Rightarrow> Some acc
      | Some ((ty, bytes), rest) \<Rightarrow>
          chain_blocks pem rest (if ty = ''CERTIFICATE'' then acc @ [bytes] else acc))"

text \<open>The outer \<open>None\<close> is a loop that never ends, which a decoder that makes progress excludes.\<close>

definition loadCertificateChain :: "x509_env \<Rightarrow> fs \<Rightarrow> string \<Rightarrow> 'pub certificate result option" where
  "loadCertificateChain xe d path =
     (case readFile d path of
        Inl e \<Rightarrow> Some (Inl (os_error_text e))
      | Inr data \<Rightarrow>
          map_option (\<lambda>chain.
            if chain = [] then Inl ''certificate file contains no CERTIFICATE blocks''
            else Inr \<lparr>ct_chain = chain, ct_key = None, ct_leaf = None\<rparr>)
          (chain_blocks (xe_pemDecode xe) data []))"

fun load_specs ::
  "('w, 'pub) client_env \<Rightarrow> x509_env \<Rightarrow> fs \<Rightarrow> string \<Rightarrow> string \<Rightarrow> string \<Rightarrow> certificateSpec list \<Rightarrow> 'w
     \<Rightarrow> ('w \<times> 'pub certificate list result) option" where
  "load_specs cl xe d url token clientID [] w = Some (w, Inr [])"
| "load_specs cl xe d url token clientID (spec # specs) w =
     (if sp_Path spec = [] then Some (w, Inl ''empty certificate path'')
      else (case NewRemoteSignerForKey cl url token (sp_KeyID spec) w of
          (w', Inl e) \<Rightarrow>
            Some (w', Inl (if sp_KeyID spec \<noteq> []
              then ''connect keyless signer for key '' @ go_quote (sp_KeyID spec) @ '': '' @ e
              else ''connect keyless signer: '' @ e))
        | (w', Inr signer) \<Rightarrow>
            (let signer' = SetClientID clientID signer
             in case loadCertificateChain xe d (sp_Path spec) of
                  None \<Rightarrow> None
                | Some (Inl e) \<Rightarrow> Some (w', Inl (''parse certificate '' @ sp_Path spec @ '': '' @ e))
                | Some (Inr cert) \<Rightarrow>
                    (let cert' = cert\<lparr>ct_key := Some signer', ct_leaf := xe_parse xe (hd (ct_chain cert))\<rparr>
                     in map_option (\<lambda>(w'', r). (w'', case r of Inl e \<Rightarrow> Inl e | Inr cs \<Rightarrow> Inr (cert' # cs)))
                          (load_specs cl xe d url token clientID specs w')))))"

definition loadKeylessCertificates ::
  "('w, 'pub) client_env \<Rightarrow> x509_env \<Rightarrow> fs \<Rightarrow> certificateSpec list \<Rightarrow> string \<Rightarrow> string \<Rightarrow> string \<Rightarrow> 'w
     \<Rightarrow> ('w \<times> 'pub certificate list result) option" where
  "loadKeylessCertificates cl xe d specs keylessURL token clientID w =
     (if specs = [] then Some (w, Inl ''no certificate paths configured'')
      else load_specs cl xe d keylessURL token clientID specs w)"

section \<open>Selection\<close>

text \<open>
  The cleaned, non-empty names of the leaf, each once. Go collects them in a map and lists them in no
  fixed order; \<open>select_order\<close> below shows that the order is irrelevant.
\<close>

definition certificateNamePatterns :: "'pub certificate \<Rightarrow> string list" where
  "certificateNamePatterns cert =
     (case ct_leaf cert of
        None \<Rightarrow> []
      | Some leaf \<Rightarrow> remdups (filter (\<lambda>v. v \<noteq> []) (map cleanHost (lf_dns leaf @ [lf_cn leaf]))))"

fun select_named :: "('c \<times> string list) list \<Rightarrow> string \<Rightarrow> 'c option" where
  "select_named [] host = None"
| "select_named ((cert, patterns) # rest) host =
     (if list_ex (\<lambda>p. certificateNameMatches p host) patterns then Some cert
      else select_named rest host)"

definition buildCertificateSelector ::
  "'pub certificate list \<Rightarrow> string \<Rightarrow> 'pub certificate result" where
  "buildCertificateSelector certificates helloServerName =
     (let named = map (\<lambda>c. (c, certificateNamePatterns c)) certificates;
          serverName = cleanHost helloServerName
      in if serverName = [] then Inl ''missing TLS server name''
         else (case select_named named serverName of
                 Some cert \<Rightarrow> Inr cert
               | None \<Rightarrow> Inl (''unrecognized TLS server name '' @ go_quote serverName)))"

section \<open>Facts\<close>

text \<open>A wildcard stands for any prefix that ends before a dot, dots and nothing included.\<close>

lemma certificateNameMatches_iff:
  "certificateNameMatches pattern host \<longleftrightarrow>
     pattern = host \<or> (\<exists>base label. pattern = ''*.'' @ base \<and> host = label @ ''.'' @ base)"
proof (cases "hasPrefix pattern ''*.''")
  case True
  then obtain base where p: "pattern = ''*.'' @ base" by (auto simp: hasPrefix_iff)
  have "hasSuffix host (''.'' @ base) \<longleftrightarrow> (\<exists>label. host = label @ ''.'' @ base)"
    by (simp add: hasSuffix_iff)
  moreover have "host \<noteq> base" if "host = label @ ''.'' @ base" for label
    using that by (metis append_self_conv2 append.assoc append_is_Nil_conv list.distinct(1))
  ultimately show ?thesis by (auto simp: certificateNameMatches_def p hasPrefix_def)
next
  case False
  then show ?thesis by (auto simp: certificateNameMatches_def hasPrefix_iff)
qed

lemma hostSetMatches_iff: "hostSetMatches hosts host \<longleftrightarrow> (\<exists>p\<in>set hosts. certificateNameMatches p host)"
  unfolding hostSetMatches_def certificateNameMatches_def list_ex_iff Let_def by auto

lemma select_named_find:
  "select_named (map (\<lambda>c. (c, pats c)) cs) host =
     find (\<lambda>c. \<exists>p\<in>set (pats c). certificateNameMatches p host) cs"
  by (induction cs) (auto simp: list_ex_iff)

text \<open>The order in which the patterns of a certificate are tried does not matter.\<close>

lemma select_order:
  "list_all2 (\<lambda>(c, ps) (c', ps'). c = c' \<and> set ps = set ps') xs ys \<Longrightarrow>
   select_named xs host = select_named ys host"
  by (induction rule: list_all2_induct) (auto simp: list_ex_iff)

lemma chain_blocks_terminates:
  assumes "\<And>s b rest. pem s = Some (b, rest) \<Longrightarrow> length rest < length s"
  shows "\<exists>chain. chain_blocks pem s acc = Some (acc @ chain)"
proof (induction "length s" arbitrary: s acc rule: less_induct)
  case less
  show ?case
  proof (cases "pem s")
    case None
    then show ?thesis by (subst chain_blocks.simps) simp
  next
    case (Some x)
    obtain ty bytes rest where x: "x = ((ty, bytes), rest)" by (metis surj_pair)
    have "length rest < length s" using assms Some x by blast
    then obtain chain where "chain_blocks pem rest (if ty = ''CERTIFICATE'' then acc @ [bytes] else acc) =
        Some ((if ty = ''CERTIFICATE'' then acc @ [bytes] else acc) @ chain)"
      using less by blast
    then show ?thesis using Some x by (subst chain_blocks.simps) auto
  qed
qed

section \<open>Properties\<close>

text \<open>A leaf covers a host name if one of its non-empty names, cleaned, matches it.\<close>

definition covers :: "'pub certificate \<Rightarrow> string \<Rightarrow> bool" where
  "covers cert host \<longleftrightarrow>
     (\<exists>leaf n. ct_leaf cert = Some leaf \<and> n \<in> set (lf_dns leaf @ [lf_cn leaf]) \<and> cleanHost n \<noteq> []
        \<and> (cleanHost n = host
           \<or> (\<exists>base label. cleanHost n = ''*.'' @ base \<and> host = label @ ''.'' @ base)))"

lemma covers_patterns:
  "(\<exists>p\<in>set (certificateNamePatterns cert). certificateNameMatches p host) \<longleftrightarrow> covers cert host"
proof (cases "ct_leaf cert")
  case None
  then show ?thesis by (simp add: certificateNamePatterns_def covers_def)
next
  case (Some leaf)
  then have "set (certificateNamePatterns cert) =
      {v. v \<noteq> [] \<and> v \<in> cleanHost ` set (lf_dns leaf @ [lf_cn leaf])}"
    by (auto simp: certificateNamePatterns_def)
  then show ?thesis unfolding covers_def certificateNameMatches_iff by (simp add: Some) blast
qed

lemma selector_find:
  "buildCertificateSelector certs name =
     (if cleanHost name = [] then Inl ''missing TLS server name''
      else (case find (\<lambda>c. covers c (cleanHost name)) certs of
              Some c \<Rightarrow> Inr c
            | None \<Rightarrow> Inl (''unrecognized TLS server name '' @ go_quote (cleanHost name))))"
  by (simp add: buildCertificateSelector_def Let_def select_named_find covers_patterns)

lemma selected_covers:
  "buildCertificateSelector certs name = Inr cert \<Longrightarrow> cert \<in> set certs \<and> covers cert (cleanHost name)"
  by (auto simp: selector_find dest: find_SomeD split: if_splits option.splits)

text \<open>
  C23. Certificate selection is sound and complete: the selector answers a certificate exactly if it is
  the first of the configured ones that covers the requested name, exactly or by a wildcard; a
  handshake without a name, or with one that no certificate covers, is refused with an error.
\<close>
theorem selector_first_covering:
  shows "(buildCertificateSelector certs name = Inr cert \<longleftrightarrow>
      cleanHost name \<noteq> [] \<and> (\<exists>i<length certs. certs ! i = cert \<and> covers cert (cleanHost name)
         \<and> (\<forall>j<i. \<not> covers (certs ! j) (cleanHost name))))
    \<and> ((\<exists>e. buildCertificateSelector certs name = Inl e) \<longleftrightarrow>
      cleanHost name = [] \<or> (\<forall>c\<in>set certs. \<not> covers c (cleanHost name)))"
proof (cases "cleanHost name = []")
  case True
  then show ?thesis by (simp add: buildCertificateSelector_def)
next
  case False
  have eq: "buildCertificateSelector certs name =
      (case find (\<lambda>c. covers c (cleanHost name)) certs of
         Some c \<Rightarrow> Inr c
       | None \<Rightarrow> Inl (''unrecognized TLS server name '' @ go_quote (cleanHost name)))"
    using False by (simp add: selector_find)
  show ?thesis
  proof (cases "find (\<lambda>c. covers c (cleanHost name)) certs")
    case None
    then have "\<forall>c\<in>set certs. \<not> covers c (cleanHost name)" by (simp add: find_None_iff)
    then show ?thesis unfolding eq None using False by (auto dest: nth_mem)
  next
    case (Some c)
    then have "c \<in> set certs \<and> covers c (cleanHost name)" by (rule find_SomeD)
    moreover have "find (\<lambda>c. covers c (cleanHost name)) certs = Some cert \<longleftrightarrow>
        (\<exists>i<length certs. covers (certs ! i) (cleanHost name) \<and> cert = certs ! i
          \<and> (\<forall>j<i. \<not> covers (certs ! j) (cleanHost name)))"
      by (rule find_Some_iff)
    ultimately show ?thesis using Some False unfolding eq by auto
  qed
qed

definition named_certificate :: "string \<Rightarrow> unit certificate" where
  "named_certificate n =
     \<lparr>ct_chain = [n], ct_key = None, ct_leaf = Some \<lparr>lf_dns = [n], lf_cn = []\<rparr>\<rparr>"

theorem selector_first_covering_witness:
  "buildCertificateSelector [named_certificate ''*.b'', named_certificate ''x.b''] ''x.b''
     = Inr (named_certificate ''*.b'')
   \<and> (\<exists>e. buildCertificateSelector [named_certificate ''*.b''] ''b'' = Inl e)"
proof -
  have c: "cleanHost ''*.b'' = ''*.b''" "cleanHost ''x.b'' = ''x.b''" "cleanHost ''b'' = ''b''"
    "cleanHost [] = []"
    by (simp_all add: cleanHost_def no_edge_space_ascii ascii_space_def cut_def toLower_def lower_char_def
        no_edge_space_def space_seqs_def hasPrefix_def)
  have "covers (named_certificate ''*.b'') ''x.b''" "\<not> covers (named_certificate ''*.b'') ''b''"
    by (auto simp: covers_def named_certificate_def c Cons_eq_append_conv)
  then show ?thesis
    using selector_first_covering[of "[named_certificate ''*.b'', named_certificate ''x.b'']" "''x.b''"
        "named_certificate ''*.b''"] selector_first_covering[of "[named_certificate ''*.b'']" "''b''"]
    by (simp add: c) (metis nth_Cons_0 not_less0 zero_less_Suc)
qed

text \<open>
  A wildcard certificate is offered for names it does not cover: in TLS \<open>*.b\<close> stands for one label,
  but the selector also answers it for any number of further labels in front.
\<close>
theorem wildcard_spans_labels:
  assumes "cleanHost n = ''*.'' @ base" and "cleanHost name = a @ ''.'' @ b @ ''.'' @ base"
  shows "buildCertificateSelector (named_certificate n # certs) name = Inr (named_certificate n)"
proof -
  have "covers (named_certificate n) (cleanHost name)"
    unfolding covers_def assms(2)
    by (intro exI[of _ "\<lparr>lf_dns = [n], lf_cn = []\<rparr>"] exI[of _ n])
       (auto simp: named_certificate_def assms(1) intro: exI[of _ "a @ ''.'' @ b"])
  then show ?thesis
    using assms(2) by (simp add: buildCertificateSelector_def Let_def select_named_find[of certificateNamePatterns
        "named_certificate n # certs", simplified] covers_patterns list_ex_iff)
qed

theorem wildcard_spans_labels_witness:
  "buildCertificateSelector [named_certificate ''*.b''] ''x.y.b'' = Inr (named_certificate ''*.b'')"
proof -
  have c: "cleanHost ''*.b'' = ''*.'' @ ''b''" "cleanHost ''x.y.b'' = ''x'' @ ''.'' @ ''y'' @ ''.'' @ ''b''"
    by (simp_all add: cleanHost_def no_edge_space_ascii ascii_space_def cut_def toLower_def lower_char_def)
  show ?thesis by (rule wildcard_spans_labels[OF c])
qed

text \<open>Texts made of clean parts: no comma, no equals sign, no space at the ends.\<close>

definition clean_part :: "string \<Rightarrow> bool" where
  "clean_part s \<longleftrightarrow> s \<noteq> [] \<and> ascii s \<and> \<not> ascii_space (hd s) \<and> \<not> ascii_space (last s)
     \<and> CHR '','' \<notin> set s \<and> CHR ''='' \<notin> set s"

lemma clean_part_trim: "clean_part s \<Longrightarrow> trimSpace s = s"
  by (simp add: clean_part_def no_edge_space_ascii)

definition spec_text :: "certificateSpec \<Rightarrow> string" where
  "spec_text s = (if sp_KeyID s = [] then sp_Path s else sp_KeyID s @ ''='' @ sp_Path s)"

lemma multi_spec_text:
  assumes "clean_part (sp_Path s)" and "sp_KeyID s = [] \<or> clean_part (sp_KeyID s)"
  shows "multi_spec (spec_text s) = Some s"
proof (cases "sp_KeyID s = []")
  case True
  then show ?thesis
    using assms(1) clean_part_trim[OF assms(1)] by (cases s) (simp add: multi_spec_def spec_text_def clean_part_def Let_def)
next
  case False
  then have k: "clean_part (sp_KeyID s)" using assms(2) by simp
  let ?t = "sp_KeyID s @ CHR ''='' # sp_Path s"
  have "last ?t = last (sp_Path s)" "hd ?t = hd (sp_KeyID s)" "?t \<noteq> []"
    using assms(1) k by (simp_all add: clean_part_def)
  moreover have "ascii ?t" using assms(1) k by (auto simp: clean_part_def)
  ultimately have "no_edge_space ?t"
    using assms(1) k by (subst no_edge_space_ascii) (simp_all add: clean_part_def)
  moreover have "cut ?t CHR ''='' = (sp_KeyID s, sp_Path s, True)"
    using k by (intro cut_append) (simp add: clean_part_def)
  ultimately show ?thesis
    using False clean_part_trim[OF k] clean_part_trim[OF assms(1)]
    by (cases s) (simp add: multi_spec_def spec_text_def Let_def)
qed

text \<open>
  The \<open>EDGE_CERTS\<close> syntax round trips: a list of certificate entries, each a path with or without a
  key id, written as comma-separated \<open>key_id=path\<close> items, is read back as it was, in order, and the
  single-certificate setting is then ignored.
\<close>
theorem certificate_specs_roundtrip:
  assumes "specs \<noteq> []"
    and "\<forall>s\<in>set specs. clean_part (sp_Path s) \<and> (sp_KeyID s = [] \<or> clean_part (sp_KeyID s))"
  shows "certificateSpecs single (join '','' (map spec_text specs)) = specs"
proof -
  have "CHR '','' \<notin> set (spec_text s)" if "s \<in> set specs" for s
    using assms(2) that by (auto simp: spec_text_def clean_part_def)
  then have sp: "split_at CHR '','' (join '','' (map spec_text specs)) = map spec_text specs"
    using assms(1) by (intro split_at_join) auto
  have mf: "List.map_filter multi_spec (map spec_text specs) = specs"
    using assms(2) multi_spec_text by (induction specs) (auto simp: List.map_filter_simps)
  show ?thesis
  proof (cases "trimSpace (join '','' (map spec_text specs)) = []")
    case False
    then show ?thesis by (simp add: certificateSpecs_def sp mf)
  next
    case True
    obtain s ss where s: "specs = s # ss" using assms(1) by (cases specs) auto
    let ?j = "join '','' (map spec_text specs)"
    have c: "clean_part (sp_Path s)" "sp_KeyID s = [] \<or> clean_part (sp_KeyID s)"
      using assms(2) s by auto
    have "set (spec_text s) \<subseteq> set ?j" by (cases ss) (auto simp: s)
    moreover have "hd (spec_text s) \<in> set (spec_text s)" "\<not> ascii_space (hd (spec_text s))"
      using c by (auto simp: spec_text_def clean_part_def)
    moreover have "ascii (spec_text s)" using c by (auto simp: spec_text_def clean_part_def)
    ultimately show ?thesis using True trimSpace_neq_Nil[of "hd (spec_text s)" ?j] by blast
  qed
qed

theorem certificate_specs_roundtrip_witness:
  "certificateSpecs ''ignored.pem''
     (join '','' (map spec_text [\<lparr>sp_KeyID = [], sp_Path = ''a.pem''\<rparr>, \<lparr>sp_KeyID = ''k'', sp_Path = ''b.pem''\<rparr>]))
   = [\<lparr>sp_KeyID = [], sp_Path = ''a.pem''\<rparr>, \<lparr>sp_KeyID = ''k'', sp_Path = ''b.pem''\<rparr>]"
  by (rule certificate_specs_roundtrip) (simp_all add: clean_part_def ascii_space_def)

text \<open>
  What a loaded certificate has: the chain of the entry's file, which is the contents of its CERTIFICATE blocks, the
  leaf parsed from the first of them, and a remote signer for its key.
\<close>

definition chain_of_file :: "x509_env \<Rightarrow> fs \<Rightarrow> string \<Rightarrow> string list \<Rightarrow> bool" where
  "chain_of_file xe d path chain \<longleftrightarrow>
     chain \<noteq> [] \<and> (\<exists>data. readFile d path = Inr data \<and> chain_blocks (xe_pemDecode xe) data [] = Some chain)"

definition signed_remotely ::
  "('w, 'pub) client_env \<Rightarrow> x509_env \<Rightarrow> fs \<Rightarrow> string \<Rightarrow> string \<Rightarrow> string \<Rightarrow> certificateSpec \<Rightarrow> 'pub certificate \<Rightarrow> bool" where
  "signed_remotely cl xe d url token clientID spec cert \<longleftrightarrow>
     sp_Path spec \<noteq> [] \<and> chain_of_file xe d (sp_Path spec) (ct_chain cert) \<and> ct_leaf cert = xe_parse xe (hd (ct_chain cert))
     \<and> (\<exists>s u. ct_key cert = Some s \<and> rsn_keyID s = sp_KeyID spec \<and> rsn_token s = token
          \<and> rsn_clientID s = clientID \<and> rsn_publicKey s \<noteq> None
          \<and> cl_parseURL cl url = Inr u \<and> rsn_baseURL s = stringsTrimRightSlash (u_string u))"

lemma NewRemoteSignerForKey_fields:
  "NewRemoteSignerForKey cl url token kid w = (w1, Inr s) \<Longrightarrow>
     rsn_keyID s = kid \<and> rsn_token s = token \<and> rsn_publicKey s \<noteq> None
     \<and> (\<exists>u. cl_parseURL cl url = Inr u \<and> rsn_baseURL s = stringsTrimRightSlash (u_string u))"
  by (auto simp: NewRemoteSignerForKey_def Let_def split: sum.splits prod.splits if_splits)

lemma loadCertificateChain_ok:
  "loadCertificateChain xe d p = Some (Inr (c :: 'b certificate)) \<Longrightarrow> chain_of_file xe d p (ct_chain c)"
  by (auto simp: loadCertificateChain_def chain_of_file_def split: sum.splits option.splits if_splits)

lemma load_specs_signed:
  assumes "load_specs cl xe d url token clientID specs w = Some (w', Inr (certs :: 'b certificate list))"
  shows "list_all2 (signed_remotely cl xe d url token clientID) specs certs"
  using assms
proof (induction specs arbitrary: w certs)
  case Nil
  then show ?case by simp
next
  case (Cons spec specs)
  have p: "sp_Path spec \<noteq> []" using Cons.prems by (auto split: if_splits)
  obtain w1 s where s: "NewRemoteSignerForKey cl url token (sp_KeyID spec) w = (w1, Inr s)"
    using Cons.prems p by (auto split: prod.splits sum.splits)
  obtain c where c: "loadCertificateChain xe d (sp_Path spec) = Some (Inr (c :: 'b certificate))"
    using Cons.prems p s by (auto simp: Let_def split: option.splits sum.splits)
  let ?cert = "c\<lparr>ct_key := Some (SetClientID clientID s), ct_leaf := xe_parse xe (hd (ct_chain c))\<rparr>"
  have eq: "map_option (\<lambda>(w'', r). (w'', case r of Inl e \<Rightarrow> Inl e | Inr cs \<Rightarrow> Inr (?cert # cs)))
      (load_specs cl xe d url token clientID specs w1) = Some (w', Inr certs)"
    using Cons.prems p s c by (simp add: Let_def)
  obtain x where x: "load_specs cl xe d url token clientID specs w1 = Some (w', x)"
    and "(case x of Inl e \<Rightarrow> Inl e | Inr cs \<Rightarrow> Inr (?cert # cs)) = Inr certs"
    using eq by auto
  then obtain certs' where r: "load_specs cl xe d url token clientID specs w1 = Some (w', Inr certs')"
    and certs: "certs = ?cert # certs'"
    by (cases x) auto
  have "signed_remotely cl xe d url token clientID spec ?cert"
    using NewRemoteSignerForKey_fields[OF s] loadCertificateChain_ok[OF c] p
    by (auto simp: signed_remotely_def SetClientID_def)
  then show ?case using Cons.IH[OF r] unfolding certs by simp
qed

lemma loadKeylessCertificates_signed:
  assumes "loadKeylessCertificates cl xe d specs url token clientID w = Some (w', Inr (certs :: 'b certificate list))"
  shows "specs \<noteq> [] \<and> list_all2 (signed_remotely cl xe d url token clientID) specs certs"
  using assms load_specs_signed by (auto simp: loadKeylessCertificates_def split: if_splits)

text \<open>
  Every certificate the edge loads can only be used through the signer: on success there is one
  certificate per configured entry, in order, each with the non-empty chain of the entry's file and a
  key that is a remote signer at the configured URL for the entry's key id, with the configured token and
  client id.
\<close>
theorem loaded_certificates_signed_remotely:
  assumes "loadKeylessCertificates cl xe d specs url token clientID w = Some (w', Inr certs)"
  shows "specs \<noteq> [] \<and> list_all2 (\<lambda>spec cert.
      sp_Path spec \<noteq> [] \<and> chain_of_file xe d (sp_Path spec) (ct_chain cert) \<and> ct_leaf cert = xe_parse xe (hd (ct_chain cert))
      \<and> (\<exists>s u. ct_key cert = Some s \<and> rsn_keyID s = sp_KeyID spec \<and> rsn_token s = token
           \<and> rsn_clientID s = clientID \<and> rsn_publicKey s \<noteq> None
           \<and> cl_parseURL cl url = Inr u \<and> rsn_baseURL s = stringsTrimRightSlash (u_string u))) specs certs"
  using loadKeylessCertificates_signed[OF assms] unfolding signed_remotely_def[abs_def] .

definition demo_x509 :: x509_env where
  "demo_x509 =
     \<lparr>xe_pemDecode = (\<lambda>s. if s = [] then None else Some ((''CERTIFICATE'', s), [])),
      xe_parse = (\<lambda>s. Some \<lparr>lf_dns = [s], lf_cn = []\<rparr>)\<rparr>"

definition key_client :: "(unit, string) client_env" where
  "key_client =
     \<lparr>cl_do = (\<lambda>w _. (w, Inr \<lparr>rs_status = 200, rs_header = [], rs_body = []\<rparr>)),
      cl_parseURL = (\<lambda>u. Inr \<lparr>u_scheme = ''https'', u_host = ''s'', u_string = u\<rparr>),
      cl_decodeSignature = Inr, cl_decodeDER = Inr, cl_parsePKIX = Inr\<rparr>"

theorem loaded_certificates_signed_remotely_witness:
  "\<exists>cert s. loadKeylessCertificates key_client demo_x509 (clean_fs [''c.pem'' \<mapsto> ''h''])
       [\<lparr>sp_KeyID = ''k'', sp_Path = ''c.pem''\<rparr>] ''https://s'' ''tok'' ''edge'' () = Some ((), Inr [cert])
     \<and> ct_key cert = Some s \<and> rsn_keyID s = ''k'' \<and> rsn_clientID s = ''edge''"
proof -
  have b: "chain_blocks (xe_pemDecode demo_x509) ''h'' [] = Some [''h'']"
    by (subst chain_blocks.simps, subst chain_blocks.simps) (simp add: demo_x509_def)
  have dec: "stdDecode [] = Some []" by code_simp
  obtain cert where l: "loadKeylessCertificates key_client demo_x509 (clean_fs [''c.pem'' \<mapsto> ''h''])
       [\<lparr>sp_KeyID = ''k'', sp_Path = ''c.pem''\<rparr>] ''https://s'' ''tok'' ''edge'' () = Some ((), Inr [cert])"
    using b dec by (simp add: loadKeylessCertificates_def NewRemoteSignerForKey_def key_client_def
        fetchPublicKey_def DecodePublicKey_def loadCertificateChain_def readFile_def clean_fs_def)
  from loaded_certificates_signed_remotely[OF l] l show ?thesis by auto
qed

end
