(* ===== verification/PluginRoutes.thy ===== *)
theory PluginRoutes
  imports CertSelect
begin

text \<open>
  Plugin routes of the edge (\<open>cmd/edgeproxy/main.go\<close>): validation of the route configuration,
  matching, the request rewriting of a route, the WebSocket tunnel, and the complete handler of \<open>/\<close>.
\<close>

section \<open>Configuration\<close>

record parsed_url =
  pu_scheme :: string
  pu_host :: string
  pu_backend :: backend_url

record pluginRouteSpec =
  ps_Name :: string
  ps_Hosts :: "string list"
  ps_ExactPaths :: "string list"
  ps_PathPrefixes :: "string list"
  ps_Backend :: string
  ps_HostHeader :: string
  ps_ForwardHost :: string
  ps_Protocol :: string
  ps_OutboundProxy :: string

text \<open>How a route reaches its backend: directly or through a SOCKS proxy; over HTTP/1 or cleartext HTTP/2.\<close>

datatype dialer = DirectDial | ProxyDial parsed_url

datatype transport = H1 dialer | H2C dialer

record pluginRoute =
  pr_name :: string
  pr_protocol :: string
  pr_backend :: parsed_url
  pr_hostHeader :: string
  pr_forwardHost :: string
  pr_outboundProxy :: string
  pr_hosts :: "string list"
  pr_exactPaths :: "string list"
  pr_pathPrefixes :: "string list"
  pr_transport :: transport

text \<open>\<open>url.Parse\<close>, \<open>socksproxy.FromURL\<close> (which may refuse a scheme) and the JSON decoder are parameters.\<close>

record route_env =
  re_parseURL :: "string \<Rightarrow> parsed_url result"
  re_fromURL :: "parsed_url \<Rightarrow> unit result"
  re_decode :: "string \<Rightarrow> pluginRouteSpec list result"

definition makeHostSet :: "string list \<Rightarrow> string list" where
  "makeHostSet values =
     remdups (filter (\<lambda>v. v \<noteq> []) (map (\<lambda>v. toLower (trimSpace v)) values))"

definition cleanPathList :: "string list \<Rightarrow> string list" where
  "cleanPathList values = filter (\<lambda>v. v \<noteq> []) (map trimSpace values)"

definition makePathSet :: "string list \<Rightarrow> string list" where
  "makePathSet values = remdups (cleanPathList values)"

definition pluginDialContext :: "route_env \<Rightarrow> string \<Rightarrow> dialer result" where
  "pluginDialContext env outboundProxy =
     (if trimSpace outboundProxy = [] then Inr DirectDial
      else (case re_parseURL env outboundProxy of
              Inl e \<Rightarrow> Inl e
            | Inr u \<Rightarrow>
                (let u' = (if pu_scheme u = ''socks5h'' then u\<lparr>pu_scheme := ''socks5''\<rparr> else u)
                 in case re_fromURL env u' of Inl e \<Rightarrow> Inl e | Inr _ \<Rightarrow> Inr (ProxyDial u'))))"

definition newPluginRoute :: "route_env \<Rightarrow> pluginRouteSpec \<Rightarrow> string \<Rightarrow> pluginRoute result" where
  "newPluginRoute env spec defaultOutboundProxy =
     (if ps_Backend spec = [] then Inl ''plugin route backend is required''
      else (case re_parseURL env (ps_Backend spec) of
          Inl e \<Rightarrow> Inl e
        | Inr backend \<Rightarrow>
      if pu_scheme backend = [] \<or> pu_host backend = []
      then Inl ''plugin route backend must include scheme and host''
      else
       (let protocol0 = toLower (trimSpace (ps_Protocol spec));
            protocol = (if protocol0 = [] then ''http'' else protocol0);
            proxyBackend = (if protocol = ''h2c'' then backend\<lparr>pu_scheme := ''http''\<rparr> else backend);
            outbound0 = trimSpace (ps_OutboundProxy spec);
            outboundProxy = (if outbound0 = [] then trimSpace defaultOutboundProxy else outbound0)
        in case pluginDialContext env outboundProxy of
             Inl e \<Rightarrow> Inl e
           | Inr dial \<Rightarrow>
        (case (if protocol \<in> {''http'', ''http1'', ''ws'', ''websocket''} then Some (H1 dial)
               else if protocol \<in> {''h2c'', ''grpc-h2c''} then Some (H2C dial)
               else None) of
             None \<Rightarrow> Inl (''unsupported plugin route protocol: '' @ ps_Protocol spec)
           | Some tr \<Rightarrow>
        (let route = \<lparr>pr_name = ps_Name spec, pr_protocol = protocol, pr_backend = proxyBackend,
                      pr_hostHeader = trimSpace (ps_HostHeader spec),
                      pr_forwardHost = trimSpace (ps_ForwardHost spec),
                      pr_outboundProxy = outboundProxy, pr_hosts = makeHostSet (ps_Hosts spec),
                      pr_exactPaths = makePathSet (ps_ExactPaths spec),
                      pr_pathPrefixes = cleanPathList (ps_PathPrefixes spec), pr_transport = tr\<rparr>
         in if pr_exactPaths route = [] \<and> pr_pathPrefixes route = []
            then Inl ''plugin route requires exact_paths or path_prefixes''
            else Inr route)))))"

definition loadPluginRoutes :: "route_env \<Rightarrow> fs \<Rightarrow> string \<Rightarrow> string \<Rightarrow> pluginRoute list result" where
  "loadPluginRoutes env d path defaultOutboundProxy =
     (if trimSpace path = [] then Inr []
      else (case readFile d path of
              Inl e \<Rightarrow> Inl (os_error_text e)
            | Inr data \<Rightarrow>
                (case re_decode env data of
                   Inl e \<Rightarrow> Inl e
                 | Inr specs \<Rightarrow> mapM (\<lambda>spec. newPluginRoute env spec defaultOutboundProxy) specs)))"

section \<open>Matching\<close>

definition matches :: "pluginRoute \<Rightarrow> edge_request \<Rightarrow> bool" where
  "matches r req =
     (if pr_hosts r \<noteq> [] \<and> \<not> hostSetMatches (pr_hosts r) (cleanHost (er_host req)) then False
      else if er_path req \<in> set (pr_exactPaths r) then True
      else list_ex (\<lambda>prefix. hasPrefix (er_path req) prefix) (pr_pathPrefixes r))"

fun match_route :: "pluginRoute list \<Rightarrow> edge_request \<Rightarrow> pluginRoute option" where
  "match_route [] req = None"
| "match_route (route # routes) req = (if matches route req then Some route else match_route routes req)"

section \<open>Proxying\<close>

text \<open>The director of a route; the reverse proxy's own header processing comes after it.\<close>

definition pluginDirector :: "pluginRoute \<Rightarrow> edge_request \<Rightarrow> edge_request" where
  "pluginDirector route req =
     (let originalHost = cleanHost (er_host req);
          r1 = director (pu_backend (pr_backend route)) (\<lambda>h. h) req
      in if pr_hostHeader route \<noteq> [] \<or> pr_forwardHost route \<noteq> []
         then (let r2 = (if pr_hostHeader route \<noteq> []
                         then r1\<lparr>er_host := pr_hostHeader route,
                                 er_header := hset (er_header r1) ''Host'' (pr_hostHeader route)\<rparr>
                         else r1)
               in if pr_forwardHost route \<noteq> [] \<and> originalHost \<noteq> []
                  then r2\<lparr>er_header := hset (er_header r2) (pr_forwardHost route) originalHost\<rparr>
                  else r2)
         else r1)"

definition isWebSocketProtocol :: "string \<Rightarrow> bool" where
  "isWebSocketProtocol protocol \<longleftrightarrow> protocol = ''ws'' \<or> protocol = ''websocket''"

definition headerHasToken :: "string \<Rightarrow> string \<Rightarrow> bool" where
  "headerHasToken value token =
     list_ex (\<lambda>part. equalFold (trimSpace part) token) (split_at CHR '','' value)"

definition isWebSocketUpgrade :: "edge_request \<Rightarrow> bool" where
  "isWebSocketUpgrade r \<longleftrightarrow>
     equalFold (hget (er_header r) ''Upgrade'') ''websocket''
     \<and> headerHasToken (hget (er_header r) ''Connection'') ''upgrade''"

text \<open>\<open>net.SplitHostPort\<close>: host and port, or an error.\<close>

definition last_index :: "char \<Rightarrow> string \<Rightarrow> nat option" where
  "last_index c s =
     (if c \<in> set s then Some (length s - 1 - length (takeWhile (\<lambda>x. x \<noteq> c) (rev s))) else None)"

definition splitHostPort :: "string \<Rightarrow> (string \<times> string) option" where
  "splitHostPort s =
     (case last_index CHR '':'' s of
        None \<Rightarrow> None
      | Some i \<Rightarrow>
          if s \<noteq> [] \<and> hd s = CHR ''['' then
            (if CHR '']'' \<notin> set s then None
             else (let e = length (takeWhile (\<lambda>x. x \<noteq> CHR '']'') s)
                   in if e + 1 \<noteq> i then None
                      else if CHR ''['' \<in> set (drop 1 s) \<or> CHR '']'' \<in> set (drop (e + 1) s) then None
                      else Some (take (e - 1) (drop 1 s), drop (i + 1) s)))
          else if CHR '':'' \<in> set (take i s) then None
          else if CHR ''['' \<in> set s \<or> CHR '']'' \<in> set s then None
          else Some (take i s, drop (i + 1) s))"

definition clientIP :: "string \<Rightarrow> string" where
  "clientIP remoteAddr = (case splitHostPort remoteAddr of None \<Rightarrow> remoteAddr | Some (host, _) \<Rightarrow> host)"

definition copyHeader :: "header \<Rightarrow> header \<Rightarrow> header" where
  "copyHeader dst src = fold (\<lambda>(k, vv) h. fold (\<lambda>v h. hadd h k v) vv h) src dst"

section \<open>The WebSocket tunnel\<close>

text \<open>
  One direction of a tunnel: what its source has sent, how much of that was read before the copying started
  and is not passed on, what has arrived and is not yet read, what was read and is still to be written, what has been
  written to the destination, and how many more bytes the destination takes before a write to it blocks; whether the source has ended its stream or was reset, whether the destination refuses writes, and whether
  \<open>tunnelOneWay\<close> has returned (and has closed the destination's stream with \<open>closeWrite\<close>).
\<close>

record flow =
  fl_sent :: string
  fl_skipped :: string
  fl_pending :: string
  fl_held :: string
  fl_out :: string
  fl_room :: nat
  fl_ended :: bool
  fl_reset :: bool
  fl_broken :: bool
  fl_done :: bool

text \<open>A tunnel: from the client to the backend, from the backend to the client, and whether both are closed.\<close>

record relay =
  rl_up :: flow
  rl_down :: flow
  rl_closed :: bool

text \<open>
  A tunnel as \<open>tunnelConns\<close> gets it: \<open>n\<close> of the bytes in the client's buffer have been copied to the backend;
  the bytes that came with the backend's answer stay in the reader the answer was parsed from. What the two
  destinations take without blocking is granted by their steps, the room of their buffers at the start included.
\<close>

definition start_relay :: "string \<Rightarrow> nat \<Rightarrow> string \<Rightarrow> relay" where
  "start_relay buffered n early =
     \<lparr>rl_up = \<lparr>fl_sent = buffered, fl_skipped = [], fl_pending = [], fl_held = [], fl_out = take n buffered,
              fl_room = 0, fl_ended = False, fl_reset = False, fl_broken = n < length buffered, fl_done = False\<rparr>,
      rl_down = \<lparr>fl_sent = early, fl_skipped = early, fl_pending = [], fl_held = [], fl_out = [],
              fl_room = 0, fl_ended = False, fl_reset = False, fl_broken = False, fl_done = False\<rparr>,
      rl_closed = False\<rparr>"

text \<open>
  What the tunnel meets: whether the connection can be taken over, dialling, writing the request, reading the
  answer (with the bytes the buffered reader has taken beyond it), the bytes in the buffer of the taken-over
  client connection and how many of them reach the backend, and sending the answer on. \<open>NoTunnel\<close> falls back to
  the reverse proxy.
\<close>

record 'conn ws_env =
  ws_hijacker :: bool
  ws_dial :: "dialer \<Rightarrow> string \<Rightarrow> 'conn result"
  ws_write :: "'conn \<Rightarrow> edge_request \<Rightarrow> error option"
  ws_read :: "'conn \<Rightarrow> (client_response \<times> string) result"
  ws_hijack :: "string result"
  ws_flush :: "'conn \<Rightarrow> string \<Rightarrow> nat"
  ws_answer :: "error option"

datatype tunnel_outcome = NoTunnel | Reply client_response | Dropped | Tunnelled relay

definition httpError :: "int \<Rightarrow> string \<Rightarrow> client_response" where
  "httpError status msg =
     \<lparr>cr_status = status,
      cr_header = hset (hset [] ''Content-Type'' ''text/plain; charset=utf-8'') ''X-Content-Type-Options'' ''nosniff'',
      cr_body = \<lparr>bs_data = msg @ [newline], bs_error = None\<rparr>\<rparr>"

definition tunnel_request :: "pluginRoute \<Rightarrow> edge_request \<Rightarrow> edge_request" where
  "tunnel_request route req =
     (let prior = hget (er_header req) ''X-Forwarded-For'';
          ip = clientIP (er_remote req);
          h1 = hset (er_header req) ''X-Forwarded-For'' (if prior \<noteq> [] then prior @ '', '' @ ip else ip)
      in req\<lparr>er_host := pu_host (pr_backend route),
             er_header := hset h1 ''X-Forwarded-Proto'' ''https''\<rparr>)"

definition serveWebSocketTunnel ::
  "route_env \<Rightarrow> 'conn ws_env \<Rightarrow> pluginRoute \<Rightarrow> edge_request \<Rightarrow> tunnel_outcome" where
  "serveWebSocketTunnel env ws route req =
     (if \<not> ws_hijacker ws then NoTunnel
      else (case pluginDialContext env (pr_outboundProxy route) of
          Inl _ \<Rightarrow> Reply (httpError 502 ''websocket backend proxy invalid'')
        | Inr dial \<Rightarrow>
      (case ws_dial ws dial (pu_host (pr_backend route)) of
          Inl _ \<Rightarrow> Reply (httpError 502 ''websocket backend unavailable'')
        | Inr conn \<Rightarrow>
      (case ws_write ws conn (tunnel_request route req) of
          Some _ \<Rightarrow> Reply (httpError 502 ''websocket backend write failed'')
        | None \<Rightarrow>
      (case ws_read ws conn of
          Inl _ \<Rightarrow> Reply (httpError 502 ''websocket backend upgrade failed'')
        | Inr (resp, early) \<Rightarrow>
          if cr_status resp \<noteq> 101
          then Reply \<lparr>cr_status = cr_status resp, cr_header = copyHeader [] (cr_header resp), cr_body = cr_body resp\<rparr>
          else (case ws_hijack ws of
              Inl _ \<Rightarrow> Dropped
            | Inr buffered \<Rightarrow>
                if ws_answer ws \<noteq> None then Dropped
                else Tunnelled (start_relay buffered (ws_flush ws conn buffered) early)))))))"

text \<open>\<open>pluginRoute.ServeHTTP\<close>; \<open>proxied\<close> is the reverse proxy over the route's transport.\<close>

definition routeServeHTTP ::
  "route_env \<Rightarrow> 'conn ws_env \<Rightarrow> (transport \<Rightarrow> parsed_url \<Rightarrow> edge_request \<Rightarrow> client_response)
     \<Rightarrow> pluginRoute \<Rightarrow> edge_request \<Rightarrow> tunnel_outcome" where
  "routeServeHTTP env ws proxied route req =
     (let proxy = Reply (proxied (pr_transport route) (pr_backend route) (pluginDirector route req))
      in if isWebSocketProtocol (pr_protocol route) \<and> isWebSocketUpgrade req
         then (case serveWebSocketTunnel env ws route req of NoTunnel \<Rightarrow> proxy | out \<Rightarrow> out)
         else proxy)"

text \<open>The complete handler of \<open>/\<close>: plugin routes first, then cache and backend.\<close>

definition edgeHandler ::
  "route_env \<Rightarrow> 'conn ws_env \<Rightarrow> (transport \<Rightarrow> parsed_url \<Rightarrow> edge_request \<Rightarrow> client_response)
     \<Rightarrow> pluginRoute list \<Rightarrow> (string \<Rightarrow> string) \<Rightarrow> 'w backend \<Rightarrow> int \<Rightarrow> int \<Rightarrow> edge_request
     \<Rightarrow> 'w \<times> responseCache \<Rightarrow> (('w \<times> responseCache) \<times> tunnel_outcome) option" where
  "edgeHandler env ws proxied routes gzip bk t1 t2 r s =
     (case match_route routes r of
        Some route \<Rightarrow> Some (s, routeServeHTTP env ws proxied route r)
      | None \<Rightarrow> map_option (\<lambda>(s', resp). (s', Reply resp)) (serveDefault gzip bk t1 t2 r s))"

end
