(* ===== verification/PluginProps.thy ===== *)
theory PluginProps
  imports PluginRoutes
begin

text \<open>
  Properties of the plugin routes: which requests a configured route takes, how it rewrites them,
  when a connection is handed to a WebSocket backend, and what the complete handler keeps.
\<close>

section \<open>Facts\<close>

lemma cleanHost_no_colon: "CHR '':'' \<notin> set (cleanHost v)"
  by (auto simp: cleanHost_def cut_def Let_def dest: set_takeWhileD)

lemma colon_never_matches: "CHR '':'' \<in> set p \<Longrightarrow> \<not> certificateNameMatches p (cleanHost h)"
  using cleanHost_no_colon[of h] by (auto simp: certificateNameMatches_iff)

lemma match_route_find: "match_route routes r = find (\<lambda>route. matches route r) routes"
  by (induction routes) auto

lemma matches_iff:
  "matches route r \<longleftrightarrow>
     (pr_hosts route = [] \<or> (\<exists>p\<in>set (pr_hosts route). certificateNameMatches p (cleanHost (er_host r))))
     \<and> (er_path r \<in> set (pr_exactPaths route)
        \<or> (\<exists>p\<in>set (pr_pathPrefixes route). hasPrefix (er_path r) p))"
  by (auto simp: matches_def hostSetMatches_iff list_ex_iff)

lemma set_makeHostSet: "set (makeHostSet vs) = {v. v \<noteq> [] \<and> (\<exists>h\<in>set vs. v = toLower (trimSpace h))}"
  by (auto simp: makeHostSet_def)

lemma set_cleanPathList: "set (cleanPathList vs) = {v. v \<noteq> [] \<and> (\<exists>p\<in>set vs. v = trimSpace p)}"
  by (auto simp: cleanPathList_def)

lemma set_makePathSet: "set (makePathSet vs) = set (cleanPathList vs)"
  by (simp add: makePathSet_def)

text \<open>What the validation of a route establishes.\<close>

lemma newPluginRoute_ok:
  assumes "newPluginRoute env spec dflt = Inr route"
  shows "pr_hosts route = makeHostSet (ps_Hosts spec)" "pr_exactPaths route = makePathSet (ps_ExactPaths spec)"
    "pr_pathPrefixes route = cleanPathList (ps_PathPrefixes spec)"
    "pr_hostHeader route = trimSpace (ps_HostHeader spec)" "pr_forwardHost route = trimSpace (ps_ForwardHost spec)"
    "pr_exactPaths route \<noteq> [] \<or> pr_pathPrefixes route \<noteq> []"
    "\<exists>u. re_parseURL env (ps_Backend spec) = Inr u \<and> pu_scheme u \<noteq> [] \<and> pu_host u \<noteq> []
        \<and> pu_host (pr_backend route) = pu_host u \<and> pu_backend (pr_backend route) = pu_backend u"
    "pr_protocol route \<in> {''http'', ''http1'', ''ws'', ''websocket'', ''h2c'', ''grpc-h2c''}"
  using assms
  by (auto simp: newPluginRoute_def Let_def split: if_splits sum.splits option.splits)

section \<open>Which requests a route takes\<close>

definition demo_routes_env :: route_env where
  "demo_routes_env =
     \<lparr>re_parseURL = (\<lambda>s. Inr \<lparr>pu_scheme = ''http'', pu_host = s,
        pu_backend = \<lparr>bu_path = [], bu_epath = [], bu_query = []\<rparr>\<rparr>),
      re_fromURL = (\<lambda>_. Inr ()), re_decode = (\<lambda>_. Inr [])\<rparr>"

definition demo_spec :: "string list \<Rightarrow> string list \<Rightarrow> pluginRouteSpec" where
  "demo_spec hosts prefixes =
     \<lparr>ps_Name = ''p'', ps_Hosts = hosts, ps_ExactPaths = [], ps_PathPrefixes = prefixes,
      ps_Backend = ''b:1'', ps_HostHeader = ''inner'', ps_ForwardHost = ''X-Forwarded-Host'',
      ps_Protocol = ''ws'', ps_OutboundProxy = []\<rparr>"

lemma toLower_id: "\<forall>c\<in>set s. lower_char c = c \<Longrightarrow> toLower s = s"
  by (simp add: toLower_def map_idI)

lemma demo_protocol: "trimSpace ''ws'' = ''ws''" "toLower ''ws'' = ''ws''"
  by (simp_all add: no_edge_space_ascii ascii_space_def toLower_def lower_char_def)

lemma demo_route:
  "trimSpace ''inner'' = ''inner''" "trimSpace ''X-Forwarded-Host'' = ''X-Forwarded-Host''"
  "trimSpace ''/api'' = ''/api''"
  by (simp_all add: no_edge_space_ascii ascii_space_def)

lemma demo_newPluginRoute:
  assumes "cleanPathList prefixes \<noteq> []"
  shows "newPluginRoute demo_routes_env (demo_spec hosts prefixes) [] =
     Inr \<lparr>pr_name = ''p'', pr_protocol = ''ws'',
        pr_backend = \<lparr>pu_scheme = ''http'', pu_host = ''b:1'', pu_backend = \<lparr>bu_path = [], bu_epath = [], bu_query = []\<rparr>\<rparr>,
        pr_hostHeader = ''inner'', pr_forwardHost = ''X-Forwarded-Host'', pr_outboundProxy = [],
        pr_hosts = makeHostSet hosts, pr_exactPaths = [], pr_pathPrefixes = cleanPathList prefixes,
        pr_transport = H1 DirectDial\<rparr>"
  using assms
  by (simp add: newPluginRoute_def demo_routes_env_def demo_spec_def demo_protocol demo_route
      pluginDialContext_def makePathSet_def cleanPathList_def Let_def)

text \<open>
  C22. A plugin route takes no more than its configuration says, and the first fitting route wins: for
  routes built from validated entries, the handler's choice is the first route one of whose non-blank
  hosts (if it has any) is the request's host or a wildcard for it, and whose configuration has a
  non-blank path equal to, or a non-blank prefix of, the request's path; blank entries never turn a
  route into one for all paths.
\<close>
theorem plugin_route_sound:
  assumes "list_all2 (\<lambda>spec route. newPluginRoute env spec dflt = Inr route) specs routes"
  shows "match_route routes r = Some route \<longleftrightarrow>
     (\<exists>i<length specs. routes ! i = route
        \<and> (let spec_matches = (\<lambda>spec :: pluginRouteSpec.
             ((\<forall>h\<in>set (ps_Hosts spec). trimSpace h = [])
              \<or> (\<exists>h\<in>set (ps_Hosts spec). trimSpace h \<noteq> []
                   \<and> certificateNameMatches (toLower (trimSpace h)) (cleanHost (er_host r))))
             \<and> ((\<exists>p\<in>set (ps_ExactPaths spec). trimSpace p \<noteq> [] \<and> er_path r = trimSpace p)
              \<or> (\<exists>p\<in>set (ps_PathPrefixes spec). trimSpace p \<noteq> [] \<and> (\<exists>t. er_path r = trimSpace p @ t))))
           in spec_matches (specs ! i) \<and> (\<forall>j<i. \<not> spec_matches (specs ! j))))"
proof -
  define sm where "sm = (\<lambda>spec :: pluginRouteSpec.
      ((\<forall>h\<in>set (ps_Hosts spec). trimSpace h = [])
       \<or> (\<exists>h\<in>set (ps_Hosts spec). trimSpace h \<noteq> []
            \<and> certificateNameMatches (toLower (trimSpace h)) (cleanHost (er_host r))))
      \<and> ((\<exists>p\<in>set (ps_ExactPaths spec). trimSpace p \<noteq> [] \<and> er_path r = trimSpace p)
       \<or> (\<exists>p\<in>set (ps_PathPrefixes spec). trimSpace p \<noteq> [] \<and> (\<exists>t. er_path r = trimSpace p @ t))))"
  have len: "length specs = length routes" using assms by (rule list_all2_lengthD)
  have sm: "matches (routes ! i) r \<longleftrightarrow> sm (specs ! i)" if "i < length specs" for i
  proof -
    have n: "newPluginRoute env (specs ! i) dflt = Inr (routes ! i)"
      using assms that by (simp add: list_all2_conv_all_nth)
    have "pr_hosts (routes ! i) = [] \<longleftrightarrow> (\<forall>h\<in>set (ps_Hosts (specs ! i)). trimSpace h = [])"
      unfolding newPluginRoute_ok(1)[OF n] makeHostSet_def
      by (auto simp: filter_empty_conv toLower_def)
    then show ?thesis
      unfolding matches_iff sm_def newPluginRoute_ok(1-3)[OF n] set_makeHostSet set_makePathSet set_cleanPathList
      by (auto simp: hasPrefix_iff toLower_def newPluginRoute_ok(1)[OF n])
  qed
  have "match_route routes r = Some route \<longleftrightarrow>
      (\<exists>i<length routes. matches (routes ! i) r \<and> route = routes ! i \<and> (\<forall>j<i. \<not> matches (routes ! j) r))"
    unfolding match_route_find by (rule find_Some_iff)
  also have "\<dots> \<longleftrightarrow> (\<exists>i<length specs. routes ! i = route \<and> sm (specs ! i) \<and> (\<forall>j<i. \<not> sm (specs ! j)))"
    using sm len by (metis order.strict_trans)
  finally show ?thesis unfolding Let_def sm_def .
qed

theorem plugin_route_sound_witness:
  "\<exists>route. newPluginRoute demo_routes_env (demo_spec [] [''/api'']) [] = Inr route
     \<and> match_route [route] (get_request ''/api/x'') = Some route
     \<and> match_route [route] (get_request ''/'') = None"
proof -
  have "cleanPathList [''/api''] \<noteq> []" by (simp add: cleanPathList_def demo_route)
  then obtain route where n: "newPluginRoute demo_routes_env (demo_spec [] [''/api'']) [] = Inr route"
    using demo_newPluginRoute by blast
  then have l: "list_all2 (\<lambda>spec route. newPluginRoute demo_routes_env spec [] = Inr route)
      [demo_spec [] [''/api'']] [route]" by simp
  have "match_route [route] (get_request ''/api/x'') = Some route"
    unfolding plugin_route_sound[OF l]
    by (simp add: demo_spec_def demo_route get_request_def)
  moreover have "match_route [route] (get_request ''/'') \<noteq> Some x" for x
    unfolding plugin_route_sound[OF l]
    by (simp add: demo_spec_def demo_route get_request_def)
  ultimately show ?thesis using n by blast
qed

text \<open>
  A route whose hosts are written with a port is dead: the request's host is compared without its
  port, so when every non-blank host entry contains a colon the route never matches, although the
  configuration was accepted.
\<close>
theorem plugin_host_with_port_dead:
  assumes "newPluginRoute env spec dflt = Inr route"
    and "h \<in> set (ps_Hosts spec)" and "trimSpace h \<noteq> []"
    and "\<forall>h\<in>set (ps_Hosts spec). trimSpace h \<noteq> [] \<longrightarrow> CHR '':'' \<in> set (trimSpace h)"
  shows "\<not> matches route r"
proof -
  have "lower_char CHR '':'' = CHR '':''" by (simp add: lower_char_def)
  then have low: "CHR '':'' \<in> set s \<Longrightarrow> CHR '':'' \<in> set (toLower s)" for s
    by (force simp: toLower_def)
  have "pr_hosts route \<noteq> []"
    using assms(2,3) by (auto simp: newPluginRoute_ok(1)[OF assms(1)] makeHostSet_def filter_empty_conv toLower_def)
  moreover have "\<not> certificateNameMatches p (cleanHost (er_host r))" if "p \<in> set (pr_hosts route)" for p
    using that assms(4) low colon_never_matches
    by (auto simp: newPluginRoute_ok(1)[OF assms(1)] set_makeHostSet toLower_def)
  ultimately show ?thesis by (auto simp: matches_iff)
qed

theorem plugin_host_with_port_dead_witness:
  "\<exists>route. newPluginRoute demo_routes_env (demo_spec [''h:443''] [''/'']) [] = Inr route
     \<and> \<not> matches route (get_request ''/'')"
proof -
  have t: "trimSpace ''h:443'' = ''h:443''" "trimSpace ''/'' = ''/''"
    by (simp_all add: no_edge_space_ascii ascii_space_def)
  then obtain route where n: "newPluginRoute demo_routes_env (demo_spec [''h:443''] [''/'']) [] = Inr route"
    using demo_newPluginRoute[of "[''/'']"] by (auto simp: cleanPathList_def)
  from plugin_host_with_port_dead[OF n, of "''h:443''"] n show ?thesis by (auto simp: demo_spec_def t)
qed

section \<open>The WebSocket tunnel\<close>

text \<open>
  A connection is handed to a backend only for a real upgrade: if serving a request ends in a tunnel,
  the route is a WebSocket route, the client asked to upgrade to \<open>websocket\<close> in both headers, and the
  backend, dialled the way the route is configured and sent the client's request with its address
  appended to \<open>X-Forwarded-For\<close>, answered 101. Every other answer of the backend is relayed, and every
  failure before it is a 502.
\<close>
theorem tunnel_only_after_upgrade:
  assumes "routeServeHTTP env ws proxied route req = Tunnelled relay"
  shows "pr_protocol route \<in> {''ws'', ''websocket''}
    \<and> equalFold (hget (er_header req) ''Upgrade'') ''websocket''
    \<and> (\<exists>part\<in>set (split_at CHR '','' (hget (er_header req) ''Connection'')). equalFold (trimSpace part) ''upgrade'')
    \<and> (\<exists>dial conn resp early. pluginDialContext env (pr_outboundProxy route) = Inr dial
        \<and> ws_dial ws dial (pu_host (pr_backend route)) = Inr conn
        \<and> ws_write ws conn (tunnel_request route req) = None \<and> ws_read ws conn = Inr (resp, early)
        \<and> cr_status resp = 101)
    \<and> (\<exists>prior. hget (er_header (tunnel_request route req)) ''X-Forwarded-For''
              = prior @ clientIP (er_remote req)
            \<and> (prior = [] \<or> prior = hget (er_header req) ''X-Forwarded-For'' @ '', ''))"
proof -
  have u: "isWebSocketProtocol (pr_protocol route)" "isWebSocketUpgrade req"
    and t: "serveWebSocketTunnel env ws route req = Tunnelled relay"
    using assms by (auto simp: routeServeHTTP_def Let_def split: if_splits tunnel_outcome.splits)
  have tail: "\<exists>dial conn resp early. pluginDialContext env (pr_outboundProxy route) = Inr dial
        \<and> ws_dial ws dial (pu_host (pr_backend route)) = Inr conn
        \<and> ws_write ws conn (tunnel_request route req) = None \<and> ws_read ws conn = Inr (resp, early)
        \<and> cr_status resp = 101"
    using t by (auto simp: serveWebSocketTunnel_def split: if_splits sum.splits option.splits)
  have "canonicalKey ''X-Forwarded-For'' \<noteq> canonicalKey ''X-Forwarded-Proto''" by code_simp
  then have "\<exists>prior. hget (er_header (tunnel_request route req)) ''X-Forwarded-For''
              = prior @ clientIP (er_remote req)
            \<and> (prior = [] \<or> prior = hget (er_header req) ''X-Forwarded-For'' @ '', '')"
    by (auto simp: tunnel_request_def Let_def hget_hset)
  with u tail show ?thesis
    by (auto simp: isWebSocketProtocol_def isWebSocketUpgrade_def headerHasToken_def list_ex_iff)
qed

definition upgrading_request :: edge_request where
  "upgrading_request = (get_request ''/api'')\<lparr>er_host := ''public'',
     er_header := [(''Upgrade'', [''websocket'']), (''Connection'', [''upgrade''])]\<rparr>"

definition switching_env :: "unit ws_env" where
  "switching_env =
     \<lparr>ws_hijacker = True, ws_dial = (\<lambda>_ _. Inr ()), ws_write = (\<lambda>_ _. None),
      ws_read = (\<lambda>_. Inr (\<lparr>cr_status = 101, cr_header = [], cr_body = \<lparr>bs_data = [], bs_error = None\<rparr>\<rparr>, ''hi'')),
      ws_hijack = Inr ''q'', ws_flush = (\<lambda>_. length), ws_answer = None\<rparr>"

lemma upgrading: "isWebSocketUpgrade upgrading_request"
proof -
  have "trimSpace ''upgrade'' = ''upgrade''" by (simp add: no_edge_space_ascii ascii_space_def)
  then show ?thesis
    by (simp add: isWebSocketUpgrade_def upgrading_request_def hget_def hvalues_def headerHasToken_def equalFold_def)
qed

theorem tunnel_only_after_upgrade_witness:
  "\<exists>route. newPluginRoute demo_routes_env (demo_spec [] [''/api'']) [] = Inr route
     \<and> routeServeHTTP demo_routes_env switching_env (\<lambda>_ _ _. bad_gateway) route upgrading_request
         = Tunnelled (start_relay ''q'' 1 ''hi'')
     \<and> pr_protocol route \<in> {''ws'', ''websocket''}"
proof -
  have "cleanPathList [''/api''] \<noteq> []" by (simp add: cleanPathList_def demo_route)
  note n = demo_newPluginRoute[OF this, of "[]"]
  let ?route = "projr (newPluginRoute demo_routes_env (demo_spec [] [''/api'']) [])"
  have t: "routeServeHTTP demo_routes_env switching_env (\<lambda>_ _ _. bad_gateway) ?route upgrading_request
      = Tunnelled (start_relay ''q'' 1 ''hi'')"
    using upgrading
    by (simp add: n routeServeHTTP_def isWebSocketProtocol_def serveWebSocketTunnel_def switching_env_def
        pluginDialContext_def)
  from tunnel_only_after_upgrade[OF t] t n show ?thesis by (metis sum.sel(2))
qed

text \<open>
  The tunnel drops the route's host settings: a proxied request of a route with \<open>host_header\<close> and
  \<open>forward_host_header\<close> carries the configured host and the client's original host, a tunnelled one
  carries the backend's address as its host and leaves the forwarding header as the client sent it.
\<close>
theorem tunnel_ignores_host_settings:
  assumes "pr_hostHeader route \<noteq> []" and "pr_forwardHost route \<noteq> []" and "cleanHost (er_host req) \<noteq> []"
    and "canonicalKey (pr_forwardHost route) \<notin> {''Host'', ''X-Forwarded-For'', ''X-Forwarded-Proto''}"
  shows "er_host (pluginDirector route req) = pr_hostHeader route
     \<and> hget (er_header (pluginDirector route req)) (pr_forwardHost route) = cleanHost (er_host req)
     \<and> er_host (tunnel_request route req) = pu_host (pr_backend route)
     \<and> hget (er_header (tunnel_request route req)) (pr_forwardHost route)
         = hget (er_header req) (pr_forwardHost route)"
proof -
  have "canonicalKey ''X-Forwarded-For'' = ''X-Forwarded-For''" "canonicalKey ''X-Forwarded-Proto'' = ''X-Forwarded-Proto''"
    by code_simp+
  then show ?thesis
    using assms by (simp add: pluginDirector_def tunnel_request_def Let_def hget_hset)
qed

theorem tunnel_ignores_host_settings_witness:
  "\<exists>route. newPluginRoute demo_routes_env (demo_spec [] [''/api'']) [] = Inr route
     \<and> er_host (pluginDirector route upgrading_request) = ''inner''
     \<and> er_host (tunnel_request route upgrading_request) = ''b:1''"
proof -
  have "cleanPathList [''/api''] \<noteq> []" by (simp add: cleanPathList_def demo_route)
  note n = demo_newPluginRoute[OF this, of "[]"]
  let ?route = "projr (newPluginRoute demo_routes_env (demo_spec [] [''/api'']) [])"
  have c: "cleanHost ''public'' = ''public''"
    by (simp add: cleanHost_def no_edge_space_ascii ascii_space_def cut_def toLower_def lower_char_def)
  have k: "canonicalKey ''X-Forwarded-Host'' = ''X-Forwarded-Host''" by code_simp
  have "er_host (pluginDirector ?route upgrading_request) = pr_hostHeader ?route
     \<and> er_host (tunnel_request ?route upgrading_request) = pu_host (pr_backend ?route)"
    using tunnel_ignores_host_settings[of ?route upgrading_request]
    by (simp add: n upgrading_request_def c k)
  then show ?thesis by (simp add: n)
qed

section \<open>The complete handler\<close>

text \<open>
  The edge's handler always answers and keeps the cache sound: for a cache in its invariant every
  request gets an answer, the cache stays in its invariant with its configuration, and a request that
  a plugin route takes neither reads nor changes the cache or the default backend.
\<close>
theorem edge_handler_keeps_cache:
  assumes "cache_inv c"
  shows "\<exists>s' out. edgeHandler env ws proxied routes gzip bk t1 t2 r (w, c) = Some (s', out)
     \<and> cache_inv (snd s') \<and> same_config c (snd s')
     \<and> ((\<exists>route\<in>set routes. matches route r) \<longrightarrow> s' = (w, c))"
proof (cases "match_route routes r")
  case (Some route)
  then show ?thesis using assms by (simp add: edgeHandler_def)
next
  case None
  then have no: "\<not> (\<exists>route\<in>set routes. matches route r)" by (simp add: match_route_find find_None_iff)
  obtain res c1 where g: "cache_get t1 r c = (res, c1)" by (metis surj_pair)
  note c1 = cache_get_facts(1,2)[OF assms g]
  obtain s' resp where s: "serveDefault gzip bk t1 t2 r (w, c) = Some (s', resp)"
    and alt: "snd s' = c1 \<or> (\<exists>e. entry_ok c e \<and> insert_entry e c1 = Some (snd s'))"
    using serveDefault_store[OF assms, of gzip bk t1 t2 r w] g by (metis snd_conv)
  from alt have "cache_inv (snd s') \<and> same_config c (snd s')"
  proof
    assume "snd s' = c1" with c1 show ?thesis by simp
  next
    assume "\<exists>e. entry_ok c e \<and> insert_entry e c1 = Some (snd s')"
    then obtain e where "entry_ok c e" "insert_entry e c1 = Some (snd s')" by blast
    then show ?thesis using rc.insert_returns[of c1 c e] c1 by auto
  qed
  then show ?thesis using None s no by (auto simp: edgeHandler_def)
qed

theorem edge_handler_keeps_cache_witness:
  "\<exists>s' out. edgeHandler demo_routes_env switching_env (\<lambda>_ _ _. bad_gateway) [] (\<lambda>x. x) (sample_backend ''b'')
      0 0 (get_request ''/'') ((), small_cache) = Some (s', out) \<and> cache_inv (snd s')"
  using edge_handler_keeps_cache[OF small_cache_inv, of demo_routes_env switching_env "\<lambda>_ _ _. bad_gateway" "[]"
      "\<lambda>x. x" "sample_backend ''b''" 0 0 "get_request ''/''" "()"] by blast

end
