(* ===== verification/Enroll.thy ===== *)
theory Enroll
  imports PluginProps
begin

text \<open>
  Start-up of the two services: the edge's configuration, its enrolment with the console and the
  persisted token (\<open>cmd/edgeproxy/main.go\<close>), and the signing service's configuration and listener
  (\<open>cmd/keylessd/main.go\<close>).
\<close>

section \<open>Enrolment\<close>

record installResponse =
  ir_KeylessToken :: string
  ir_EdgeConfig :: "(string, string) gomap"

text \<open>
  The console as the edge sees it, the request constructor's URL check, the JSON decoder, whether the
  context is cancelled, whether the directory of a path can be made, \<open>time.ParseDuration\<close>, whether a
  text has a PEM certificate, and the check of a certificate and key pair.
\<close>

record 'w enroll_env =
  ev_do :: "'w \<Rightarrow> out_request \<Rightarrow> 'w \<times> http_response result"
  ev_badURL :: "string \<Rightarrow> error option"
  ev_decode :: "string \<Rightarrow> installResponse result"
  ev_done :: "'w \<Rightarrow> error option"
  ev_mkdir :: "string \<Rightarrow> error option"
  ev_duration :: "string \<Rightarrow> int option"
  ev_hasPEM :: "string \<Rightarrow> bool"
  ev_keyPair :: "string \<Rightarrow> string \<Rightarrow> error option"

datatype fetch_error = InstallPending | FetchError error

definition registerRequest_json :: "string \<Rightarrow> string \<Rightarrow> string \<Rightarrow> string" where
  "registerRequest_json rid label installToken =
     json_object ([(''id'', json_string rid)] @ omit_empty ''label'' label
                  @ omit_empty ''install_token'' installToken)"

text \<open>The 48 bytes come from the random source.\<close>

definition randomToken :: "string \<Rightarrow> string" where
  "randomToken raw = rawURLEncode raw"

definition fetchInstallToken ::
  "'w enroll_env \<Rightarrow> string \<Rightarrow> string \<Rightarrow> 'w \<Rightarrow> 'w \<times> (fetch_error + installResponse)" where
  "fetchInstallToken env consoleURL installToken w =
     (let u = consoleURL @ ''/api/install/'' @ installToken @ ''?format=json''
      in case ev_badURL env u of
           Some e \<Rightarrow> (w, Inl (FetchError e))
         | None \<Rightarrow>
        (case ev_do env w \<lparr>or_method = ''GET'', or_url = u, or_header = hset [] ''Accept'' ''application/json'',
                or_body = []\<rparr> of
           (w', Inl e) \<Rightarrow> (w', Inl (FetchError e))
         | (w', Inr resp) \<Rightarrow>
             if rs_status resp = 404 then (w', Inl InstallPending)
             else if rs_status resp \<noteq> 200
             then (w', Inl (FetchError (''install token fetch failed: '' @ statusText (rs_status resp))))
             else (case ReadJSON (ev_decode env) (64 * 1024) (rs_body resp) of
                     Inl e \<Rightarrow> (w', Inl (FetchError e))
                   | Inr install \<Rightarrow>
                       if ir_KeylessToken install = []
                       then (w', Inl (FetchError ''install response missing keyless token''))
                       else (w', Inr install))))"

text \<open>One tick of the polling loop after another; \<open>None\<close> is a loop that never ends.\<close>

partial_function (option) poll_install ::
  "'w enroll_env \<Rightarrow> string \<Rightarrow> string \<Rightarrow> 'w \<Rightarrow> ('w \<times> installResponse result) option" where
  "poll_install env consoleURL installToken w =
     (case ev_done env w of
        Some e \<Rightarrow> Some (w, Inl e)
      | None \<Rightarrow>
          (case fetchInstallToken env consoleURL installToken w of
             (w', Inr install) \<Rightarrow> Some (w', Inr install)
           | (w', Inl (FetchError e)) \<Rightarrow> Some (w', Inl e)
           | (w', Inl InstallPending) \<Rightarrow> poll_install env consoleURL installToken w'))"

definition enrollEdge ::
  "'w enroll_env \<Rightarrow> string \<Rightarrow> string \<Rightarrow> string \<Rightarrow> string \<Rightarrow> string \<Rightarrow> 'w
     \<Rightarrow> ('w \<times> (string \<times> string \<times> (string, string) gomap) result) option" where
  "enrollEdge env raw consoleURL0 rid label0 installToken0 w =
     (let consoleURL = trimRight consoleURL0 CHR ''/'';
          installToken = (if installToken0 = [] then randomToken raw else installToken0);
          label = (if label0 = [] then rid else label0);
          u = consoleURL @ ''/api/register''
      in case ev_badURL env u of
           Some e \<Rightarrow> Some (w, Inl e)
         | None \<Rightarrow>
        (case ev_do env w \<lparr>or_method = ''POST'', or_url = u,
                or_header = hset [] ''Content-Type'' ''application/json'',
                or_body = registerRequest_json rid label installToken\<rparr> of
           (w', Inl e) \<Rightarrow> Some (w', Inl e)
         | (w', Inr resp) \<Rightarrow>
             if rs_status resp \<noteq> 202 \<and> rs_status resp \<noteq> 409
             then Some (w', Inl (''edge registration failed: '' @ statusText (rs_status resp)))
             else map_option (\<lambda>(w'', r). (w'', case r of
                      Inl e \<Rightarrow> Inl e
                    | Inr install \<Rightarrow> Inr (ir_KeylessToken install, installToken, ir_EdgeConfig install)))
                  (poll_install env consoleURL installToken w')))"

definition reportInstallVerified ::
  "'w enroll_env \<Rightarrow> string \<Rightarrow> string \<Rightarrow> 'w \<Rightarrow> 'w \<times> error option" where
  "reportInstallVerified env consoleURL0 installToken w =
     (let u = trimRight consoleURL0 CHR ''/'' @ ''/api/install/'' @ installToken @ ''/verified''
      in case ev_badURL env u of
           Some e \<Rightarrow> (w, Some e)
         | None \<Rightarrow>
        (case ev_do env w \<lparr>or_method = ''POST'', or_url = u, or_header = [], or_body = []\<rparr> of
           (w', Inl e) \<Rightarrow> (w', Some e)
         | (w', Inr resp) \<Rightarrow>
             (w', if rs_status resp \<noteq> 200
                  then Some (''install verification report failed: '' @ statusText (rs_status resp)) else None)))"

definition readTokenFile :: "fs \<Rightarrow> string \<Rightarrow> string result" where
  "readTokenFile d path =
     (case readFile d path of
        Inl NotExist \<Rightarrow> Inr []
      | Inl (OtherError e) \<Rightarrow> Inl e
      | Inr data \<Rightarrow> Inr (trimSpace data))"

definition writeTokenFile :: "'w enroll_env \<Rightarrow> fs \<Rightarrow> string \<Rightarrow> string \<Rightarrow> fs result" where
  "writeTokenFile env d path token =
     (case ev_mkdir env path of Some e \<Rightarrow> Inl e | None \<Rightarrow> writeFile d path (token @ [newline]))"

section \<open>Configuration of the edge\<close>

definition applyEnv :: "(string \<Rightarrow> string) \<Rightarrow> string \<Rightarrow> string \<Rightarrow> string" where
  "applyEnv env name target = (if env name \<noteq> [] then env name else target)"

definition applyRemoteDefault :: "string \<Rightarrow> string \<Rightarrow> (string, string) gomap \<Rightarrow> string" where
  "applyRemoteDefault name target config =
     (if target \<noteq> [] then target
      else (let value = trimSpace (case mget config name of None \<Rightarrow> [] | Some v \<Rightarrow> v)
            in if value \<noteq> [] then value else target))"

record edge_config =
  ed_listen :: string
  ed_backend :: string
  ed_cert :: string
  ed_certs :: string
  ed_keylessURL :: string
  ed_token :: string
  ed_clientID :: string
  ed_ca :: string
  ed_clientCert :: string
  ed_clientKey :: string
  ed_tokenFile :: string
  ed_registerURL :: string
  ed_registerID :: string
  ed_registerLabel :: string
  ed_registerToken :: string
  ed_registerPoll :: string
  ed_cacheTTL :: string
  ed_cacheMaxBytes :: string
  ed_cacheMaxObjectBytes :: string
  ed_pluginRoutes :: string
  ed_pluginOutboundProxy :: string

text \<open>Each setting is its flag, unless the environment has a non-empty value for it.\<close>

definition edge_settings :: "(string \<Rightarrow> string) \<Rightarrow> edge_config \<Rightarrow> edge_config" where
  "edge_settings env f =
     \<lparr>ed_listen = applyEnv env ''EDGE_LISTEN'' (ed_listen f),
      ed_backend = applyEnv env ''EDGE_BACKEND'' (ed_backend f),
      ed_cert = applyEnv env ''EDGE_CERT'' (ed_cert f),
      ed_certs = applyEnv env ''EDGE_CERTS'' (ed_certs f),
      ed_keylessURL = applyEnv env ''KEYLESS_URL'' (ed_keylessURL f),
      ed_token = applyEnv env ''KEYLESS_TOKEN'' (ed_token f),
      ed_clientID = applyEnv env ''KEYLESS_CLIENT_ID'' (ed_clientID f),
      ed_ca = applyEnv env ''KEYLESS_CA'' (ed_ca f),
      ed_clientCert = applyEnv env ''KEYLESS_CLIENT_CERT'' (ed_clientCert f),
      ed_clientKey = applyEnv env ''KEYLESS_CLIENT_KEY'' (ed_clientKey f),
      ed_tokenFile = applyEnv env ''KEYLESS_TOKEN_FILE'' (ed_tokenFile f),
      ed_registerURL = applyEnv env ''EDGE_REGISTER_URL'' (ed_registerURL f),
      ed_registerID = applyEnv env ''EDGE_REGISTER_ID'' (ed_registerID f),
      ed_registerLabel = applyEnv env ''EDGE_REGISTER_LABEL'' (ed_registerLabel f),
      ed_registerToken = applyEnv env ''EDGE_REGISTER_TOKEN'' (ed_registerToken f),
      ed_registerPoll = applyEnv env ''EDGE_REGISTER_POLL'' (ed_registerPoll f),
      ed_cacheTTL = applyEnv env ''EDGE_CACHE_TTL'' (ed_cacheTTL f),
      ed_cacheMaxBytes = applyEnv env ''EDGE_CACHE_MAX_BYTES'' (ed_cacheMaxBytes f),
      ed_cacheMaxObjectBytes = applyEnv env ''EDGE_CACHE_MAX_OBJECT_BYTES'' (ed_cacheMaxObjectBytes f),
      ed_pluginRoutes = applyEnv env ''EDGE_PLUGIN_ROUTES'' (ed_pluginRoutes f),
      ed_pluginOutboundProxy = applyEnv env ''EDGE_PLUGIN_OUTBOUND_PROXY'' (ed_pluginOutboundProxy f)\<rparr>"

text \<open>
  From the settings to a token and a signer URL: the token file, then enrolment, then the URL the
  console supplies. The result is the final settings and the install token to report, or the text of
  the fatal error.
\<close>

definition edge_enrolled ::
  "'w enroll_env \<Rightarrow> string \<Rightarrow> edge_config \<Rightarrow> fs \<Rightarrow> 'w
     \<Rightarrow> ('w \<times> (fs \<times> edge_config \<times> string \<times> (string, string) gomap) result) option" where
  "edge_enrolled env raw c d w =
     (case (if ed_token c = [] \<and> ed_tokenFile c \<noteq> [] then readTokenFile d (ed_tokenFile c) else Inr (ed_token c)) of
        Inl e \<Rightarrow> Some (w, Inl (''read token file: '' @ e))
      | Inr token \<Rightarrow>
          if token = [] \<and> ed_registerURL c \<noteq> [] \<and> ed_registerID c \<noteq> [] then
            (case mustParseDuration (ev_duration env) (ed_registerPoll c) of
               None \<Rightarrow> Some (w, Inl (''parse duration '' @ go_quote (ed_registerPoll c)))
             | Some _ \<Rightarrow>
            (case enrollEdge env raw (ed_registerURL c) (ed_registerID c) (ed_registerLabel c) (ed_registerToken c) w of
               None \<Rightarrow> None
             | Some (w', Inl e) \<Rightarrow> Some (w', Inl (''edge enrollment failed: '' @ e))
             | Some (w', Inr (enrolledToken, installToken, config)) \<Rightarrow>
                 (case (if ed_tokenFile c \<noteq> [] then writeTokenFile env d (ed_tokenFile c) enrolledToken else Inr d) of
                    Inl e \<Rightarrow> Some (w', Inl (''write token file: '' @ e))
                  | Inr d' \<Rightarrow> Some (w', Inr (d', c\<lparr>ed_token := enrolledToken\<rparr>, installToken, config)))))
          else Some (w, Inr (d, c\<lparr>ed_token := token\<rparr>, [], [])))"

text \<open>
  The TLS settings of the connection to the signer: the root certificates (the system's if absent) and the
  client certificate with its key.
\<close>

record tls_client =
  tl_roots :: "string option"
  tl_cert :: "(string \<times> string) option"

definition client_roots :: "'w enroll_env \<Rightarrow> fs \<Rightarrow> string \<Rightarrow> string option result" where
  "client_roots env d caPath =
     (if caPath = [] then Inr None
      else (case readFile d caPath of
              Inl e \<Rightarrow> Inl (os_error_text e)
            | Inr pem \<Rightarrow> if ev_hasPEM env pem then Inr (Some pem) else Inl ''CA file has no PEM certificates''))"

definition client_pair :: "'w enroll_env \<Rightarrow> fs \<Rightarrow> string \<Rightarrow> string \<Rightarrow> (string \<times> string) option result" where
  "client_pair env d certPath keyPath =
     (if certPath = [] \<and> keyPath = [] then Inr None
      else (case readFile d certPath of
          Inl e \<Rightarrow> Inl (os_error_text e)
        | Inr cert \<Rightarrow>
      (case readFile d keyPath of
          Inl e \<Rightarrow> Inl (os_error_text e)
        | Inr key \<Rightarrow> (case ev_keyPair env cert key of Some e \<Rightarrow> Inl e | None \<Rightarrow> Inr (Some (cert, key))))))"

definition keylessTransport ::
  "'w enroll_env \<Rightarrow> fs \<Rightarrow> string \<Rightarrow> string \<Rightarrow> string \<Rightarrow> tls_client result" where
  "keylessTransport env d caPath certPath keyPath =
     (case client_roots env d caPath of
        Inl e \<Rightarrow> Inl e
      | Inr roots \<Rightarrow>
          (case client_pair env d certPath keyPath of
             Inl e \<Rightarrow> Inl e
           | Inr pair \<Rightarrow> Inr \<lparr>tl_roots = roots, tl_cert = pair\<rparr>))"

text \<open>
  The start-up up to a configured client for the signer: the files, the final settings, the install token
  to report (the report's own error is only logged) and the TLS settings.
\<close>

definition edge_startup ::
  "'w enroll_env \<Rightarrow> string \<Rightarrow> edge_config \<Rightarrow> fs \<Rightarrow> 'w
     \<Rightarrow> ('w \<times> (fs \<times> edge_config \<times> string \<times> tls_client) result) option" where
  "edge_startup env raw c d w =
     (case edge_enrolled env raw c d w of
        None \<Rightarrow> None
      | Some (w', Inl e) \<Rightarrow> Some (w', Inl e)
      | Some (w', Inr (d', c1, installToken, config)) \<Rightarrow>
          (let c2 = c1\<lparr>ed_keylessURL := applyRemoteDefault ''KEYLESS_URL'' (ed_keylessURL c1) config\<rparr>
           in if ed_cert c2 = [] \<and> ed_certs c2 = [] \<or> ed_keylessURL c2 = []
              then Some (w', Inl ''-cert or -certs and -keyless-url are required'')
              else (case keylessTransport env d' (ed_ca c2) (ed_clientCert c2) (ed_clientKey c2) of
                 Inl e \<Rightarrow> Some (w', Inl e)
               | Inr tls \<Rightarrow>
                   if installToken \<noteq> []
                   then Some (fst (reportInstallVerified env (ed_registerURL c2) installToken w'),
                              Inr (d', c2, installToken, tls))
                   else Some (w', Inr (d', c2, installToken, tls)))))"

section \<open>Start-up of the signing service\<close>

record signer_config =
  sg_listen :: string
  sg_key :: string
  sg_tlsCert :: string
  sg_tlsKey :: string
  sg_clientCA :: string
  sg_token :: string
  sg_clients :: string
  sg_revoked :: string
  sg_audit :: string

definition signer_settings :: "(string \<Rightarrow> string) \<Rightarrow> signer_config \<Rightarrow> signer_config" where
  "signer_settings env f =
     \<lparr>sg_listen = applyEnv env ''KEYLESS_LISTEN'' (sg_listen f),
      sg_key = applyEnv env ''KEYLESS_PRIVATE_KEY'' (sg_key f),
      sg_tlsCert = applyEnv env ''KEYLESS_TLS_CERT'' (sg_tlsCert f),
      sg_tlsKey = applyEnv env ''KEYLESS_TLS_KEY'' (sg_tlsKey f),
      sg_clientCA = applyEnv env ''KEYLESS_CLIENT_CA'' (sg_clientCA f),
      sg_token = applyEnv env ''KEYLESS_TOKEN'' (sg_token f),
      sg_clients = applyEnv env ''KEYLESS_CLIENTS'' (sg_clients f),
      sg_revoked = applyEnv env ''KEYLESS_REVOKED'' (sg_revoked f),
      sg_audit = applyEnv env ''KEYLESS_AUDIT'' (sg_audit f)\<rparr>"

text \<open>How the service listens; the CA of client certificates, if they are required.\<close>

datatype listener = PlainHTTP | ListenTLS string string "string option"

text \<open>\<open>hasPEM\<close> says whether a file's text contains a PEM certificate.\<close>

definition signer_listener :: "(string \<Rightarrow> bool) \<Rightarrow> fs \<Rightarrow> signer_config \<Rightarrow> listener result" where
  "signer_listener hasPEM d c =
     (if sg_tlsCert c = [] \<or> sg_tlsKey c = [] then Inr PlainHTTP
      else if sg_clientCA c \<noteq> [] then
        (case readFile d (sg_clientCA c) of
           Inl e \<Rightarrow> Inl (''read client CA: '' @ os_error_text e)
         | Inr pem \<Rightarrow> if \<not> hasPEM pem then Inl ''client CA has no PEM certificates''
                     else Inr (ListenTLS (sg_tlsCert c) (sg_tlsKey c) (Some pem)))
      else Inr (ListenTLS (sg_tlsCert c) (sg_tlsKey c) None))"

definition signer_startup ::
  "'k pem_env \<Rightarrow> (string \<Rightarrow> ClientConfig list result) \<Rightarrow> (string \<Rightarrow> bool) \<Rightarrow> fs \<Rightarrow> signer_config
     \<Rightarrow> (('k SignServer \<times> authManager) \<times> listener) result" where
  "signer_startup pe decode hasPEM d c =
     (if sg_key c = [] then Inl ''-key is required''
      else (case LoadPrivateKey pe d (sg_key c) of
          Inl e \<Rightarrow> Inl (''load private key: '' @ e)
        | Inr key \<Rightarrow>
      (case NewSignServerWithOptions pe decode d key
              \<lparr>opt_Token = sg_token c, opt_ClientsPath = sg_clients c, opt_RevokedPath = sg_revoked c,
               opt_AuditPath = sg_audit c\<rparr> of
          Inl e \<Rightarrow> Inl (''load signer auth config: '' @ e)
        | Inr srv \<Rightarrow>
      (case signer_listener hasPEM d c of Inl e \<Rightarrow> Inl e | Inr l \<Rightarrow> Inr (srv, l)))))"

end
