(* ===== verification/EnrollProps.thy ===== *)
theory EnrollProps
  imports Enroll
begin

text \<open>
  Properties of start-up: enrolment ends with the console's approval, what a restart finds in the
  token file, and which listener the signing service opens.
\<close>

section \<open>Enrolment\<close>

lemma fetch_token_nonempty:
  "fetchInstallToken env url tok w = (w', Inr install) \<Longrightarrow> ir_KeylessToken install \<noteq> []"
  by (auto simp: fetchInstallToken_def Let_def split: option.splits prod.splits sum.splits if_splits)

lemma poll_until:
  assumes "\<And>w. ev_done env w = None"
    and "\<forall>i<k. snd (fetchInstallToken env url tok (((\<lambda>w. fst (fetchInstallToken env url tok w)) ^^ i) w)) = Inl InstallPending"
    and "snd (fetchInstallToken env url tok (((\<lambda>w. fst (fetchInstallToken env url tok w)) ^^ k) w)) = Inr install"
  shows "poll_install env url tok w = Some (((\<lambda>w. fst (fetchInstallToken env url tok w)) ^^ Suc k) w, Inr install)"
  using assms(2,3)
proof (induction k arbitrary: w)
  case 0
  then show ?case
    using assms(1) by (subst poll_install.simps) (cases "fetchInstallToken env url tok w"; simp)
next
  case (Suc k)
  let ?next = "\<lambda>w. fst (fetchInstallToken env url tok w)"
  have "snd (fetchInstallToken env url tok w) = Inl InstallPending"
    using Suc.prems(1)[rule_format, of 0] by simp
  then have f: "fetchInstallToken env url tok w = (?next w, Inl InstallPending)"
    by (metis prod.collapse)
  have "poll_install env url tok (?next w) = Some ((?next ^^ Suc k) (?next w), Inr install)"
  proof (rule Suc.IH)
    show "\<forall>i<k. snd (fetchInstallToken env url tok ((?next ^^ i) (?next w))) = Inl InstallPending"
      using Suc.prems(1) by (metis Suc_less_eq funpow_Suc_right o_apply)
    show "snd (fetchInstallToken env url tok ((?next ^^ k) (?next w))) = Inr install"
      using Suc.prems(2) by (metis funpow_Suc_right o_apply)
  qed
  moreover have "poll_install env url tok w = poll_install env url tok (?next w)"
    by (subst poll_install.simps, subst f) (simp add: assms(1))
  moreover have "(?next ^^ Suc k) (?next w) = (?next ^^ Suc (Suc k)) w"
    by (simp only: funpow_Suc_right[of "Suc k"] o_apply)
  ultimately show ?case by metis
qed

text \<open>
  Enrolment completes with the approval: if the console accepts the registration (or says it is
  already there), answers \<open>404\<close> for the first \<open>k\<close> polls and then an install response, \<open>enrollEdge\<close>
  returns after exactly \<open>k + 1\<close> polls, with that response's non-empty token and configuration and the
  install token that was registered.
\<close>
theorem enrolment_completes:
  fixes tok url :: string and env :: "'w enroll_env"
  defines "poll \<equiv> (\<lambda>w. fst (fetchInstallToken env url tok w))"
  assumes tok: "tok = (if installToken = [] then randomToken raw else installToken)"
    and url: "url = trimRight consoleURL CHR ''/''"
    and ok: "\<And>w. ev_done env w = None" "\<And>u. ev_badURL env u = None"
    and reg: "ev_do env w \<lparr>or_method = ''POST'', or_url = url @ ''/api/register'',
        or_header = [(''Content-Type'', [''application/json''])],
        or_body = registerRequest_json rid (if label = [] then rid else label) tok\<rparr> = (w0, Inr resp)"
      "rs_status resp = 202 \<or> rs_status resp = 409"
    and pend: "\<forall>i<k. snd (fetchInstallToken env url tok ((poll ^^ i) w0)) = Inl InstallPending"
    and inst: "snd (fetchInstallToken env url tok ((poll ^^ k) w0)) = Inr install"
  shows "enrollEdge env raw consoleURL rid label installToken w =
      Some ((poll ^^ (k + 1)) w0, Inr (ir_KeylessToken install, tok, ir_EdgeConfig install))
    \<and> ir_KeylessToken install \<noteq> []"
proof -
  have h: "hset [] ''Content-Type'' ''application/json'' = [(''Content-Type'', [''application/json''])]"
    by (simp add: hset_def)
  have "poll_install env url tok w0 = Some ((poll ^^ Suc k) w0, Inr install)"
    unfolding poll_def by (rule poll_until) (use ok(1) pend inst in \<open>auto simp: poll_def\<close>)
  then have "enrollEdge env raw consoleURL rid label installToken w =
      Some ((poll ^^ (k + 1)) w0, Inr (ir_KeylessToken install, tok, ir_EdgeConfig install))"
    using reg ok(2) unfolding enrollEdge_def Let_def tok[symmetric] url[symmetric] h by auto
  moreover have "ir_KeylessToken install \<noteq> []"
    using inst fetch_token_nonempty[of env url tok "(poll ^^ k) w0" _ install]
    by (cases "fetchInstallToken env url tok ((poll ^^ k) w0)") simp
  ultimately show ?thesis by blast
qed

text \<open>A console that approves at the third poll; its state is the number of requests it has seen.\<close>

definition slow_console :: "nat enroll_env" where
  "slow_console =
     \<lparr>ev_do = (\<lambda>n q. (n + 1, Inr \<lparr>rs_status = (if or_method q = ''POST'' then 202 else if n < 3 then 404 else 200),
                                  rs_header = [], rs_body = []\<rparr>)),
      ev_badURL = (\<lambda>_. None),
      ev_decode = (\<lambda>_. Inr \<lparr>ir_KeylessToken = ''T'', ir_EdgeConfig = [(''KEYLESS_URL'', ''https://s'')]\<rparr>),
      ev_done = (\<lambda>_. None), ev_mkdir = (\<lambda>_. None), ev_duration = (\<lambda>_. Some 10000000000),
      ev_hasPEM = (\<lambda>_. True), ev_keyPair = (\<lambda>_ _. None)\<rparr>"

definition slow_install :: installResponse where
  "slow_install = \<lparr>ir_KeylessToken = ''T'', ir_EdgeConfig = [(''KEYLESS_URL'', ''https://s'')]\<rparr>"

lemma slow_fetch:
  "fetchInstallToken slow_console url tok n = (n + 1, if n < 3 then Inl InstallPending else Inr slow_install)"
  by (simp add: fetchInstallToken_def slow_console_def slow_install_def ReadJSON_def)

lemma slow_env: "ev_done slow_console w = None" "ev_badURL slow_console u = None"
  by (simp_all add: slow_console_def)

lemma slow_polls: "((\<lambda>w. fst (fetchInstallToken slow_console url tok w)) ^^ i) n = n + i"
  by (induction i) (simp_all add: slow_fetch)

lemma slow_enrolment_any:
  assumes "tok \<noteq> []"
  shows "enrollEdge slow_console raw url rid label tok 0 = Some (4, Inr (''T'', tok, [(''KEYLESS_URL'', ''https://s'')]))"
proof -
  let ?u = "trimRight url CHR ''/''"
  have p: "poll_install slow_console ?u tok 1 =
      Some (((\<lambda>w. fst (fetchInstallToken slow_console ?u tok w)) ^^ Suc 2) 1, Inr slow_install)"
    by (rule poll_until) (simp_all only: slow_polls slow_env slow_fetch, simp_all)
  show ?thesis
    using p assms unfolding slow_polls
    by (simp add: enrollEdge_def Let_def slow_install_def) (simp add: slow_console_def)
qed

lemma slow_enrolment:
  "enrollEdge slow_console raw ''http://c'' ''e'' [] ''tok'' 0 = Some (4, Inr (''T'', ''tok'', [(''KEYLESS_URL'', ''https://s'')]))"
  by (rule slow_enrolment_any) simp

theorem enrolment_completes_witness:
  "enrollEdge slow_console raw ''http://c'' ''e'' [] ''tok'' 0 =
     Some (4, Inr (''T'', ''tok'', [(''KEYLESS_URL'', ''https://s'')]))"
proof -
  have t: "trimRight ''http://c'' CHR ''/'' = ''http://c''" by (simp add: trimRight_def)
  have "enrollEdge slow_console raw ''http://c'' ''e'' [] ''tok'' 0 =
      Some (((\<lambda>w. fst (fetchInstallToken slow_console ''http://c'' ''tok'' w)) ^^ (2 + 1)) 1,
            Inr (ir_KeylessToken slow_install, ''tok'', ir_EdgeConfig slow_install))
      \<and> ir_KeylessToken slow_install \<noteq> []"
    by (rule enrolment_completes[where resp = "\<lparr>rs_status = 202, rs_header = [], rs_body = []\<rparr>"])
       (simp_all add: slow_polls slow_fetch slow_env t, simp add: slow_console_def)
  then show ?thesis by (simp only: slow_polls) (simp add: slow_install_def)
qed

section \<open>Restart\<close>

lemma read_written_token:
  assumes "writeTokenFile env d path token = Inr d'" and "fs_read_error d path = None"
    and "ascii token" and "no_edge_space token"
  shows "readTokenFile d' path = Inr token"
  using assms trimSpace_newline[OF assms(3,4)]
  by (auto simp: writeTokenFile_def writeFile_def readTokenFile_def readFile_def split: option.splits)

text \<open>An enrolling start-up: what it returned and what it left on disk.\<close>

lemma startup_enrolled:
  assumes "edge_startup env raw c d w = Some (w', Inr (d', c', it, tls))" and "it \<noteq> []"
  obtains w1 config tok where
    "enrollEdge env raw (ed_registerURL c) (ed_registerID c) (ed_registerLabel c) (ed_registerToken c) w
       = Some (w1, Inr (tok, it, config))"
    "ed_tokenFile c \<noteq> [] \<Longrightarrow> writeTokenFile env d (ed_tokenFile c) tok = Inr d'"
    "c' = c\<lparr>ed_token := tok, ed_keylessURL := applyRemoteDefault ''KEYLESS_URL'' (ed_keylessURL c) config\<rparr>"
    "\<not> (ed_cert c = [] \<and> ed_certs c = [])"
    "keylessTransport env d' (ed_ca c) (ed_clientCert c) (ed_clientKey c) = Inr tls"
proof -
  obtain w1 c1 config where e: "edge_enrolled env raw c d w = Some (w1, Inr (d', c1, it, config))"
    and c': "c' = c1\<lparr>ed_keylessURL := applyRemoteDefault ''KEYLESS_URL'' (ed_keylessURL c1) config\<rparr>"
    and cert: "\<not> (ed_cert c' = [] \<and> ed_certs c' = [])"
    and tr: "keylessTransport env d' (ed_ca c') (ed_clientCert c') (ed_clientKey c') = Inr tls"
    using assms(1) by (auto simp: edge_startup_def Let_def split: option.splits sum.splits if_splits)
  from e assms(2) obtain tok where
    t: "enrollEdge env raw (ed_registerURL c) (ed_registerID c) (ed_registerLabel c) (ed_registerToken c) w
       = Some (w1, Inr (tok, it, config))"
      "(if ed_tokenFile c \<noteq> [] then writeTokenFile env d (ed_tokenFile c) tok else Inr d) = Inr d'"
      "c1 = c\<lparr>ed_token := tok\<rparr>"
    unfolding edge_enrolled_def
    by (auto split: option.splits sum.splits if_splits prod.splits)
  have "c' = c\<lparr>ed_token := tok, ed_keylessURL := applyRemoteDefault ''KEYLESS_URL'' (ed_keylessURL c) config\<rparr>"
    by (simp add: c' t(3))
  moreover have "\<not> (ed_cert c = [] \<and> ed_certs c = [])"
    "keylessTransport env d' (ed_ca c) (ed_clientCert c) (ed_clientKey c) = Inr tls"
    using cert tr by (simp_all add: c' t(3))
  ultimately show thesis using that t(1,2) by (auto split: if_splits)
qed

text \<open>
  C33. What a restart of an enrolled edge does: with a token file that can be read back and a token of plain
  ASCII text without outer spaces, the next start-up uses the persisted token and does not contact the
  console; it succeeds with the same token when the signer's URL is configured locally, but when the URL
  came from the console at enrolment it is lost and the start-up ends in a fatal error.
\<close>
theorem restart_after_enrolment:
  assumes "edge_startup env raw c d w = Some (w', Inr (d', c', it, tls))" and "it \<noteq> []"
    and "ed_token c = []" and "ed_tokenFile c \<noteq> []" and "fs_read_error d (ed_tokenFile c) = None"
    and "ascii (ed_token c')" and "no_edge_space (ed_token c')" and "ed_token c' \<noteq> []"
  shows "edge_startup env raw' c d' w2 =
     (if ed_keylessURL c \<noteq> [] then Some (w2, Inr (d', c\<lparr>ed_token := ed_token c'\<rparr>, [], tls))
      else Some (w2, Inl ''-cert or -certs and -keyless-url are required''))"
proof -
  obtain w1 config tok where
    t: "ed_tokenFile c \<noteq> [] \<Longrightarrow> writeTokenFile env d (ed_tokenFile c) tok = Inr d'"
      "c' = c\<lparr>ed_token := tok, ed_keylessURL := applyRemoteDefault ''KEYLESS_URL'' (ed_keylessURL c) config\<rparr>"
      "\<not> (ed_cert c = [] \<and> ed_certs c = [])"
      "keylessTransport env d' (ed_ca c) (ed_clientCert c) (ed_clientKey c) = Inr tls"
    using startup_enrolled[OF assms(1,2)] by metis
  have tok: "ed_token c' = tok" by (simp add: t(2))
  have "readTokenFile d' (ed_tokenFile c) = Inr tok"
    using read_written_token[OF t(1) assms(5)] assms(4,6,7) tok by simp
  then have "edge_enrolled env raw' c d' w2 = Some (w2, Inr (d', c\<lparr>ed_token := tok\<rparr>, [], []))"
    using assms(3,4,8) tok by (simp add: edge_enrolled_def)
  then show ?thesis using t(3,4) tok
    by (auto simp: edge_startup_def Let_def applyRemoteDefault_def)
qed

definition demo_edge_config :: edge_config where
  "demo_edge_config =
     \<lparr>ed_listen = [], ed_backend = [], ed_cert = ''c.pem'', ed_certs = [], ed_keylessURL = [], ed_token = [],
      ed_clientID = [], ed_ca = [], ed_clientCert = [], ed_clientKey = [], ed_tokenFile = ''tok'', ed_registerURL = ''http://c'', ed_registerID = ''e'',
      ed_registerLabel = [], ed_registerToken = ''tok'', ed_registerPoll = [], ed_cacheTTL = [],
      ed_cacheMaxBytes = [], ed_cacheMaxObjectBytes = [], ed_pluginRoutes = [], ed_pluginOutboundProxy = []\<rparr>"

theorem restart_after_enrolment_witness:
  "\<exists>w d c tls. edge_startup slow_console [] demo_edge_config (clean_fs (\<lambda>_. None)) 0 = Some (w, Inr (d, c, ''tok'', tls))
     \<and> ed_keylessURL c = ''https://s''
     \<and> edge_startup slow_console [] demo_edge_config d 0
         = Some (0, Inl ''-cert or -certs and -keyless-url are required'')"
proof -
  have ks: "no_edge_space ''https://s''" "no_edge_space ''T''" by (simp_all add: no_edge_space_ascii ascii_space_def)
  define d where "d = (clean_fs (\<lambda>_. None))\<lparr>fs_files := [''tok'' \<mapsto> ''T'' @ [newline]]\<rparr>"
  have "writeTokenFile slow_console (clean_fs (\<lambda>_. None)) ''tok'' ''T'' = Inr d"
    by (simp add: writeTokenFile_def slow_console_def writeFile_def clean_fs_def d_def)
  then have "edge_enrolled slow_console [] demo_edge_config (clean_fs (\<lambda>_. None)) 0
      = Some (4, Inr (d, demo_edge_config\<lparr>ed_token := ''T''\<rparr>, ''tok'', [(''KEYLESS_URL'', ''https://s'')]))"
    by (simp add: edge_enrolled_def demo_edge_config_def readTokenFile_def readFile_def clean_fs_def slow_enrolment
        mustParseDuration_def)
  then obtain w where s: "edge_startup slow_console [] demo_edge_config (clean_fs (\<lambda>_. None)) 0
      = Some (w, Inr (d, demo_edge_config\<lparr>ed_token := ''T'', ed_keylessURL := ''https://s''\<rparr>, ''tok'', \<lparr>tl_roots = None, tl_cert = None\<rparr>))"
    by (simp add: edge_startup_def keylessTransport_def client_roots_def client_pair_def applyRemoteDefault_def ks demo_edge_config_def)
  have "edge_startup slow_console [] demo_edge_config d 0
      = (if ed_keylessURL demo_edge_config \<noteq> [] then Some (0, Inr (d, demo_edge_config\<lparr>ed_token := ''T''\<rparr>, [], \<lparr>tl_roots = None, tl_cert = None\<rparr>))
         else Some (0, Inl ''-cert or -certs and -keyless-url are required''))"
    using restart_after_enrolment[OF s, of "[]" 0] ks
    by (simp add: demo_edge_config_def clean_fs_def)
  then show ?thesis using s by (auto simp: demo_edge_config_def)
qed

section \<open>The signer's listener\<close>

text \<open>
  Client certificates are required exactly when both TLS files and a client CA are configured: a start-up
  that succeeds listens with TLS and the CA file's certificates in that case; with a client CA but
  without both TLS files the CA is silently ignored and the API is served in plain HTTP.
\<close>
theorem signer_requires_client_certificates:
  assumes "signer_startup pe decode hasPEM d c = Inr (srv, l)" and "sg_clientCA c \<noteq> []"
  shows "(if sg_tlsCert c \<noteq> [] \<and> sg_tlsKey c \<noteq> []
          then \<exists>pem. readFile d (sg_clientCA c) = Inr pem \<and> hasPEM pem
                   \<and> l = ListenTLS (sg_tlsCert c) (sg_tlsKey c) (Some pem)
          else l = PlainHTTP)
       \<and> LoadPrivateKey pe d (sg_key c) = Inr (sv_key (fst srv))"
proof -
  obtain key where k: "LoadPrivateKey pe d (sg_key c) = Inr key"
    and n: "NewSignServerWithOptions pe decode d key
              \<lparr>opt_Token = sg_token c, opt_ClientsPath = sg_clients c, opt_RevokedPath = sg_revoked c,
               opt_AuditPath = sg_audit c\<rparr> = Inr srv"
    and l: "signer_listener hasPEM d c = Inr l"
    using assms(1) by (auto simp: signer_startup_def split: sum.splits if_splits)
  have "sv_key (fst srv) = key"
    using n by (auto simp: NewSignServerWithOptions_def split: sum.splits)
  then show ?thesis using k l assms(2)
    by (auto simp: signer_listener_def split: sum.splits if_splits)
qed

theorem signer_requires_client_certificates_witness:
  "\<exists>srv. signer_startup demo_pem (\<lambda>_. Inr []) (\<lambda>_. True) demo_key_files
      \<lparr>sg_listen = [], sg_key = ''k.pem'', sg_tlsCert = [], sg_tlsKey = [], sg_clientCA = ''ca'', sg_token = [],
       sg_clients = [], sg_revoked = [], sg_audit = []\<rparr> = Inr (srv, PlainHTTP) \<and> sv_key (fst srv) = ''SECRET''"
    (is "\<exists>srv. signer_startup ?pe ?de ?hp ?d ?c = _ \<and> _")
proof -
  obtain srv l where s: "signer_startup ?pe ?de ?hp ?d ?c = Inr (srv, l)"
    by (simp add: signer_startup_def LoadPrivateKey_def demo_pem_def readFile_def demo_key_files_def clean_fs_def
        NewSignServerWithOptions_def newAuthManager_def loadClientKeys_def signer_listener_def)
  from signer_requires_client_certificates[OF s] s show ?thesis
    by (simp add: LoadPrivateKey_def demo_pem_def readFile_def demo_key_files_def clean_fs_def)
qed

end
