(* ===== verification/EdgeMain.thy ===== *)
theory EdgeMain
  imports EnrollProps
begin

text \<open>
  The edge as a whole (\<open>main\<close> of \<open>cmd/edgeproxy/main.go\<close>): from the settings to the certificates, the backend,
  the routes and the cache it serves with, and the handler in front of them.
\<close>

section \<open>Start-up\<close>

record 'pub edge =
  em_certificates :: "'pub certificate list"
  em_backend :: parsed_url
  em_routes :: "pluginRoute list"
  em_cache :: responseCache
  em_listens :: "string list"

text \<open>\<open>newResponseCache\<close> with its arguments, parsed from the left; \<open>None\<close> is a fatal error.\<close>

definition edge_cache :: "(string \<Rightarrow> int option) \<Rightarrow> edge_config \<Rightarrow> responseCache result" where
  "edge_cache parseDuration c =
     (case mustParseBytes (ed_cacheMaxBytes c) of
        None \<Rightarrow> Inl (''parse byte size '' @ go_quote (ed_cacheMaxBytes c))
      | Some maxBytes \<Rightarrow>
     (case mustParseBytes (ed_cacheMaxObjectBytes c) of
        None \<Rightarrow> Inl (''parse byte size '' @ go_quote (ed_cacheMaxObjectBytes c))
      | Some maxObjectBytes \<Rightarrow>
     (case mustParseDuration parseDuration (ed_cacheTTL c) of
        None \<Rightarrow> Inl (''parse duration '' @ go_quote (ed_cacheTTL c))
      | Some ttl \<Rightarrow> Inr (newResponseCache maxBytes maxObjectBytes ttl))))"

text \<open>The client for the signer depends on the TLS settings of the start-up.\<close>

definition edge_main ::
  "'w enroll_env \<Rightarrow> (tls_client \<Rightarrow> ('w, 'pub) client_env) \<Rightarrow> x509_env \<Rightarrow> route_env \<Rightarrow> string \<Rightarrow> edge_config \<Rightarrow> fs \<Rightarrow> 'w
     \<Rightarrow> ('w \<times> ('pub edge \<times> fs \<times> edge_config \<times> tls_client) result) option" where
  "edge_main env mk xe renv raw c d w =
     (case edge_startup env raw c d w of
        None \<Rightarrow> None
      | Some (w1, Inl e) \<Rightarrow> Some (w1, Inl e)
      | Some (w1, Inr (d1, c1, installToken, tls)) \<Rightarrow>
     (case loadKeylessCertificates (mk tls) xe d1 (certificateSpecs (ed_cert c1) (ed_certs c1))
             (ed_keylessURL c1) (ed_token c1) (ed_clientID c1) w1 of
        None \<Rightarrow> None
      | Some (w2, Inl e) \<Rightarrow> Some (w2, Inl (''load certificates: '' @ e))
      | Some (w2, Inr certificates) \<Rightarrow> Some (w2,
     (case re_parseURL renv (ed_backend c1) of
        Inl e \<Rightarrow> Inl (''parse backend URL: '' @ e)
      | Inr backend \<Rightarrow>
     (case loadPluginRoutes renv d1 (ed_pluginRoutes c1) (ed_pluginOutboundProxy c1) of
        Inl e \<Rightarrow> Inl (''load plugin routes: '' @ e)
      | Inr routes \<Rightarrow>
     (case edge_cache (ev_duration env) c1 of
        Inl e \<Rightarrow> Inl e
      | Inr cache \<Rightarrow>
          Inr (\<lparr>em_certificates = certificates, em_backend = backend, em_routes = routes, em_cache = cache,
                em_listens = splitListens (ed_listen c1)\<rparr>, d1, c1, tls)))))))"

section \<open>Serving\<close>

definition healthz :: client_response where
  "healthz =
     \<lparr>cr_status = 200, cr_header = hset [] ''Content-Type'' ''text/plain; charset=utf-8'',
      cr_body = \<lparr>bs_data = ''ok'' @ [newline], bs_error = None\<rparr>\<rparr>"

text \<open>The mux: \<open>GET /healthz\<close>, and \<open>/\<close> for the rest. The path is one the mux has accepted.\<close>

definition edgeMux ::
  "route_env \<Rightarrow> 'conn ws_env \<Rightarrow> (transport \<Rightarrow> parsed_url \<Rightarrow> edge_request \<Rightarrow> client_response)
     \<Rightarrow> pluginRoute list \<Rightarrow> (string \<Rightarrow> string) \<Rightarrow> 'w backend \<Rightarrow> int \<Rightarrow> int \<Rightarrow> edge_request
     \<Rightarrow> 'w \<times> responseCache \<Rightarrow> (('w \<times> responseCache) \<times> tunnel_outcome) option" where
  "edgeMux env ws proxied routes gzip bk t1 t2 r s =
     (if (er_method r = ''GET'' \<or> er_method r = ''HEAD'') \<and> er_path r = ''/healthz'' then Some (s, Reply healthz)
      else edgeHandler env ws proxied routes gzip bk t1 t2 r s)"

text \<open>Requests served one after another, each with the two times its handling reads.\<close>

fun edge_run ::
  "route_env \<Rightarrow> 'conn ws_env \<Rightarrow> (transport \<Rightarrow> parsed_url \<Rightarrow> edge_request \<Rightarrow> client_response)
     \<Rightarrow> pluginRoute list \<Rightarrow> (string \<Rightarrow> string) \<Rightarrow> 'w backend \<Rightarrow> (int \<times> int \<times> edge_request) list
     \<Rightarrow> 'w \<times> responseCache \<Rightarrow> (('w \<times> responseCache) \<times> tunnel_outcome list) option" where
  "edge_run env ws proxied routes gzip bk [] s = Some (s, [])"
| "edge_run env ws proxied routes gzip bk ((t1, t2, r) # rs) s =
     (case edgeMux env ws proxied routes gzip bk t1 t2 r s of
        None \<Rightarrow> None
      | Some (s', out) \<Rightarrow>
          map_option (\<lambda>(s'', outs). (s'', out # outs)) (edge_run env ws proxied routes gzip bk rs s'))"

section \<open>What a start-up guarantees\<close>

lemma edge_main_ok:
  assumes "edge_main env mk xe renv raw c d w = Some (w', Inr (e, d1, c1, tls))"
  obtains w1 it where
    "edge_startup env raw c d w = Some (w1, Inr (d1, c1, it, tls))"
    "loadKeylessCertificates (mk tls) xe d1 (certificateSpecs (ed_cert c1) (ed_certs c1))
        (ed_keylessURL c1) (ed_token c1) (ed_clientID c1) w1 = Some (w', Inr (em_certificates e))"
    "re_parseURL renv (ed_backend c1) = Inr (em_backend e)"
    "loadPluginRoutes renv d1 (ed_pluginRoutes c1) (ed_pluginOutboundProxy c1) = Inr (em_routes e)"
    "edge_cache (ev_duration env) c1 = Inr (em_cache e)"
  using assms
  by (auto simp: edge_main_def split: option.splits sum.splits prod.splits)

lemma edge_cache_limits:
  assumes "edge_cache parseDuration c = Inr cache"
  shows "0 \<le> rc_maxBytes cache" "0 \<le> rc_maxObjectBytes cache"
    "mustParseBytes (ed_cacheMaxBytes c) = Some (rc_maxBytes cache)"
    "mustParseBytes (ed_cacheMaxObjectBytes c) = Some (rc_maxObjectBytes cache)"
  using assms
  by (auto simp: edge_cache_def newResponseCache_def dest: mustParseBytes_range split: option.splits)

lemma edge_cache_inv:
  assumes "edge_cache parseDuration c = Inr cache" and "rc_maxBytes cache + rc_maxObjectBytes cache < 2 ^ 63"
  shows "cache_inv cache"
proof -
  obtain mb mo ttl where "cache = newResponseCache mb mo ttl" "mustParseBytes (ed_cacheMaxBytes c) = Some mb"
    "mustParseBytes (ed_cacheMaxObjectBytes c) = Some mo"
    using assms(1) by (auto simp: edge_cache_def split: option.splits)
  then show ?thesis using new_cache_inv[of mb mo ttl] edge_cache_limits[OF assms(1)] assms(2)
    by (simp add: newResponseCache_def)
qed


lemma edgeMux_answers:
  assumes "cache_inv (snd s)"
  shows "\<exists>s' out. edgeMux env ws proxied routes gzip bk t1 t2 r s = Some (s', out)
     \<and> cache_inv (snd s') \<and> same_config (snd s) (snd s')"
proof (cases "(er_method r = ''GET'' \<or> er_method r = ''HEAD'') \<and> er_path r = ''/healthz''")
  case True
  then show ?thesis using assms by (simp add: edgeMux_def)
next
  case False
  then show ?thesis
    using edge_handler_keeps_cache[OF assms, of env ws proxied routes gzip bk t1 t2 r "fst s"]
    by (simp only: edgeMux_def if_False prod.collapse) blast
qed

lemma edge_run_answers:
  assumes "cache_inv (snd s)"
  shows "\<exists>s' outs. edge_run env ws proxied routes gzip bk rs s = Some (s', outs) \<and> length outs = length rs
     \<and> cache_inv (snd s') \<and> same_config (snd s) (snd s')"
  using assms
proof (induction rs arbitrary: s)
  case Nil
  then show ?case by simp
next
  case (Cons x rs)
  obtain t1 t2 r where x: "x = (t1, t2, r)" by (metis prod_cases3)
  obtain s1 out where m: "edgeMux env ws proxied routes gzip bk t1 t2 r s = Some (s1, out)"
    and inv: "cache_inv (snd s1)" "same_config (snd s) (snd s1)"
    using edgeMux_answers[OF Cons.prems] by metis
  show ?case
    using Cons.IH[OF inv(1)] m inv(2) by (auto simp: x intro: same_config_trans)
qed

subsection \<open>A sample edge\<close>

text \<open>An edge with a token of its own and one certificate, for the host \<open>h\<close>, whose key is the signer's default key.\<close>

definition lone_env :: "'w enroll_env" where
  "lone_env =
     \<lparr>ev_do = (\<lambda>w _. (w, Inl ''unused'')), ev_badURL = (\<lambda>_. None), ev_decode = (\<lambda>_. Inl ''unused''),
      ev_done = (\<lambda>_. None), ev_mkdir = (\<lambda>_. None), ev_duration = (\<lambda>_. Some 600000000000),
      ev_hasPEM = (\<lambda>_. True), ev_keyPair = (\<lambda>_ _. None)\<rparr>"

definition lone_config :: edge_config where
  "lone_config =
     demo_edge_config\<lparr>ed_token := ''x'', ed_keylessURL := ''http://s'', ed_cacheTTL := ''10m'',
       ed_cacheMaxBytes := ''100'', ed_cacheMaxObjectBytes := ''10''\<rparr>"

definition lone_signer :: "string RemoteSigner" where
  "lone_signer =
     \<lparr>rsn_baseURL = ''http://s'', rsn_token = ''x'', rsn_keyID = [], rsn_publicKey = Some [], rsn_clientID = []\<rparr>"

definition lone_edge :: "string edge" where
  "lone_edge =
     \<lparr>em_certificates = [\<lparr>ct_chain = [''h''], ct_key = Some lone_signer, ct_leaf = Some \<lparr>lf_dns = [''h''], lf_cn = []\<rparr>\<rparr>],
      em_backend = \<lparr>pu_scheme = ''http'', pu_host = [], pu_backend = \<lparr>bu_path = [], bu_epath = [], bu_query = []\<rparr>\<rparr>,
      em_routes = [], em_cache = newResponseCache 100 10 600000000000, em_listens = ['':443'']\<rparr>"

abbreviation lone_files :: fs where
  "lone_files \<equiv> clean_fs [''c.pem'' \<mapsto> ''h'']"

abbreviation system_tls :: tls_client where
  "system_tls \<equiv> \<lparr>tl_roots = None, tl_cert = None\<rparr>"

lemma lone_trim: "trimSpace ''c.pem'' = ''c.pem''" "trimSpace [] = []"
  by (simp_all add: no_edge_space_ascii ascii_space_def)

lemma lone_specs: "certificateSpecs ''c.pem'' [] = [\<lparr>sp_KeyID = [], sp_Path = ''c.pem''\<rparr>]"
  by (simp add: certificateSpecs_def lone_trim)

lemma lone_base: "stringsTrimRightSlash ''http://s'' = ''http://s''"
  by (simp add: stringsTrimRightSlash_eq trimRight_def)

lemma lone_start:
  "edge_main lone_env (\<lambda>_. key_client) demo_x509 demo_routes_env [] lone_config lone_files ()
     = Some ((), Inr (lone_edge, lone_files, lone_config, system_tls))"
proof -
  have st: "edge_startup lone_env [] lone_config lone_files () = Some ((), Inr (lone_files, lone_config, [], system_tls))"
    by (simp add: edge_startup_def edge_enrolled_def lone_config_def demo_edge_config_def applyRemoteDefault_def
        keylessTransport_def client_roots_def client_pair_def)
  have b: "chain_blocks (xe_pemDecode demo_x509) ''h'' [] = Some [''h'']"
    by (subst chain_blocks.simps, subst chain_blocks.simps) (simp add: demo_x509_def)
  have dec: "stdDecode [] = Some []" by code_simp
  have ld: "loadKeylessCertificates key_client demo_x509 lone_files [\<lparr>sp_KeyID = [], sp_Path = ''c.pem''\<rparr>]
      ''http://s'' ''x'' [] () = Some ((), Inr (em_certificates lone_edge))"
    using b dec by (simp add: loadKeylessCertificates_def NewRemoteSignerForKey_def key_client_def
        fetchPublicKey_def DecodePublicKey_def loadCertificateChain_def readFile_def clean_fs_def lone_base
        lone_edge_def lone_signer_def SetClientID_def demo_x509_def)
  have n: "parseInt64 ''100'' = Some 100" "parseInt64 ''10'' = Some 10" by code_simp+
  have sl: "splitListens [] = ['':443'']" by code_simp
  show ?thesis
    using ld by (simp add: edge_main_def st) (simp add: lone_config_def demo_edge_config_def lone_specs
        loadPluginRoutes_def lone_trim edge_cache_def mustParseBytes_def mustParseDuration_def n lone_env_def sl
        demo_routes_env_def lone_edge_def)
qed

text \<open>
  A started edge serves: if its start-up succeeds and the two byte limits of its settings do not add up to
  \<open>2 ^ 63\<close>, every sequence of requests is answered, one answer each, and the bodies cached afterwards fit the
  configured limit, whatever backends and plugin backends answer.
\<close>

theorem started_edge_serves:
  assumes "edge_main env mk xe renv raw c d w = Some (w', Inr (e, d1, c1, tls))"
    and "mustParseBytes (ed_cacheMaxBytes c1) = Some maxBytes"
    and "mustParseBytes (ed_cacheMaxObjectBytes c1) = Some maxObject" and "maxBytes + maxObject < 2 ^ 63"
  shows "\<exists>s' outs. edge_run renv ws proxied (em_routes e) gzip bk rs (v, em_cache e) = Some (s', outs)
     \<and> length outs = length rs
     \<and> (\<Sum>x\<leftarrow>entries (snd s'). int (length (en_body x))) \<le> maxBytes"
proof -
  obtain w1 it where ec: "edge_cache (ev_duration env) c1 = Inr (em_cache e)"
    by (rule edge_main_ok[OF assms(1)])
  note lim = edge_cache_limits[OF ec]
  have mb: "rc_maxBytes (em_cache e) = maxBytes" "rc_maxObjectBytes (em_cache e) = maxObject"
    using lim(3,4) assms(2,3) by simp_all
  obtain s' outs where r: "edge_run renv ws proxied (em_routes e) gzip bk rs (v, em_cache e) = Some (s', outs)"
    "length outs = length rs" and inv: "cache_inv (snd s')" "same_config (em_cache e) (snd s')"
    using edge_run_answers[of "(v, em_cache e)" renv ws proxied "em_routes e" gzip bk rs]
      edge_cache_inv[OF ec] mb assms(4) by auto
  have "(\<Sum>x\<leftarrow>entries (snd s'). int (length (en_body x))) = rc_bytes (snd s')"
    using cached_bodies[OF inv(1)] .
  moreover have "rc_bytes (snd s') \<le> maxBytes"
    using inv mb by (simp add: cache_inv_def same_config_def)
  ultimately show ?thesis using r by auto
qed

theorem started_edge_serves_witness:
  "\<exists>s' outs. edge_run demo_routes_env switching_env (\<lambda>_ _ _. bad_gateway) (em_routes lone_edge) (\<lambda>x. x)
        (sample_backend ''body'') [(0, 0, get_request ''/''), (1, 1, get_request ''/healthz'')] ((), em_cache lone_edge)
      = Some (s', outs) \<and> length outs = 2"
proof -
  have n: "mustParseBytes (ed_cacheMaxBytes lone_config) = Some 100"
    "mustParseBytes (ed_cacheMaxObjectBytes lone_config) = Some 10" by code_simp+
  show ?thesis
    using started_edge_serves[OF lone_start n, of switching_env "\<lambda>_ _ _. bad_gateway" "\<lambda>x. x"
        "sample_backend ''body''" "[(0, 0, get_request ''/''), (1, 1, get_request ''/healthz'')]" "()"]
    by auto
qed

section \<open>A handshake\<close>

text \<open>
  C10. Keyless TLS works end to end: take an edge that started over a connection to the signing server, and a moment
  at which that server knows the edge's token, permits its client to sign and has a key for it under each key id of
  the edge's configuration, whatever it has served since. The certificate the edge selects for the server name of a
  handshake covers that name, presents the chain made of the CERTIFICATE blocks of one of the configured files, with
  the names of the first of them, and its key asks that same connection for signatures: what it returns for a digest
  is what the server's key for the key id of that file returns for it, an error of that key, or, where the protocol
  or the server does not accept the digest and its hash, an error with status 400. The request fits 64 KiB, and JSON
  decoding of the two bodies is a hypothesis.
\<close>

theorem handshake_signed_by_signer:
  assumes main: "edge_main env mk xe renv raw c d w = Some (w', Inr (e, d1, c1, tls))"
    and sel: "buildCertificateSelector (em_certificates e) name = Inr cert"
    and base: "cl_parseURL (mk tls) (ed_keylessURL c1) = Inr u0" "base = stringsTrimRightSlash (u_string u0)"
    and cl: "cl_do (mk tls) = connect_live ce srv base remote" "cl_parseURL (mk tls) (base @ ''/v1/sign'') = Inr u"
    and au: "authenticate (fst (snd v)) (ed_token c1) = (cid, True, reason)"
    and al: "fst (fst (allowed cid ''sign'' (snd v)))"
    and key: "\<And>spec. spec \<in> set (certificateSpecs (ed_cert c1) (ed_certs c1)) \<Longrightarrow>
        keyForRequest srv cid [(''X-Keyless-Key-Id'', [sp_KeyID spec])] = Some (key spec)"
    and req: "length (json_SignRequest (RequestFromSignerInput digest opts)) \<le> 65536"
      "ce_decodeSign ce (json_SignRequest (RequestFromSignerInput digest opts))
         = Inr (RequestFromSignerInput digest opts)"
    and ans: "\<And>spec sig. spec \<in> set (certificateSpecs (ed_cert c1) (ed_certs c1)) \<Longrightarrow>
        ce_sign ce (key spec) (tk_rand (fst v 0)) digest (wire_opts opts) = Inr sig \<Longrightarrow>
        cl_decodeSignature (mk tls) (body_json (SignatureBody (stdEncode sig)) @ [newline]) = Inr (stdEncode sig)"
  shows "\<exists>spec s. spec \<in> set (certificateSpecs (ed_cert c1) (ed_certs c1))
     \<and> covers cert (cleanHost name) \<and> chain_of_file xe d1 (sp_Path spec) (ct_chain cert)
     \<and> ct_leaf cert = xe_parse xe (hd (ct_chain cert)) \<and> ct_key cert = Some s
     \<and> remote_result ce (key spec) (fst v 0) digest opts (snd (remoteSign (mk tls) s digest opts v))"
proof -
  obtain w1 it where ld: "loadKeylessCertificates (mk tls) xe d1 (certificateSpecs (ed_cert c1) (ed_certs c1))
        (ed_keylessURL c1) (ed_token c1) (ed_clientID c1) w1 = Some (w', Inr (em_certificates e))"
    by (rule edge_main_ok[OF main])
  have cert: "cert \<in> set (em_certificates e)" "covers cert (cleanHost name)"
    using selected_covers[OF sel] by simp_all
  then obtain spec where spec: "spec \<in> set (certificateSpecs (ed_cert c1) (ed_certs c1))"
    "signed_remotely (mk tls) xe d1 (ed_keylessURL c1) (ed_token c1) (ed_clientID c1) spec cert"
    using loadKeylessCertificates_signed[OF ld]
    by (metis list_all2_conv_all_nth in_set_conv_nth)
  then obtain s where s: "ct_key cert = Some s" "rsn_keyID s = sp_KeyID spec" "rsn_token s = ed_token c1"
      "rsn_baseURL s = base" "chain_of_file xe d1 (sp_Path spec) (ct_chain cert)"
      "ct_leaf cert = xe_parse xe (hd (ct_chain cert))"
    using base by (auto simp: signed_remotely_def)
  have "remote_result ce (key spec) (fst v 0) digest opts (snd (remoteSign (mk tls) s digest opts v))"
    by (rule remote_sign_correct[of "mk tls" v ce srv "fst v 0" s remote "snd v" u cid reason "key spec"])
       (use cl au al key[OF spec(1)] req ans[OF spec(1)] s in auto)
  with spec(1) cert(2) s show ?thesis by blast
qed

text \<open>The sample edge over a connection to the sample server.\<close>

definition live_client :: "((nat \<Rightarrow> tick) \<times> auth_world, string) client_env" where
  "live_client =
     \<lparr>cl_do = connect_live demo_wire_env demo_server ''http://s'' ''h'',
      cl_parseURL = (\<lambda>u. Inr \<lparr>u_scheme = ''http'', u_host = ''s'', u_string = u\<rparr>),
      cl_decodeSignature = (\<lambda>_. Inr (stdEncode (''K'' @ [CHR 0x01]))), cl_decodeDER = (\<lambda>_. Inr []), cl_parsePKIX = Inr\<rparr>"

lemma live_fields [simp]:
  "cl_parseURL live_client u = Inr \<lparr>u_scheme = ''http'', u_host = ''s'', u_string = u\<rparr>"
  "cl_decodeDER live_client b = Inr []" "cl_parsePKIX live_client = Inr"
  "cl_decodeSignature live_client b = Inr (stdEncode (''K'' @ [CHR 0x01]))"
  "cl_do live_client = connect_live demo_wire_env demo_server ''http://s'' ''h''"
  by (simp_all add: live_client_def)

abbreviation live_world :: "(nat \<Rightarrow> tick) \<times> auth_world" where
  "live_world \<equiv> (\<lambda>n. demo_tick (int n), edge_mgr [edge_cfg ''a'' ''x'' False], clean_fs (\<lambda>_. None))"

lemma live_world_facts:
  "authenticate (fst (snd live_world)) ''x'' = (''a'', True, [])" "fst (fst (allowed ''a'' ''sign'' (snd live_world)))"
  "keyForRequest demo_server ''a'' [(''X-Keyless-Key-Id'', [[]])] = Some ''K''"
  by (simp_all add: edge_mgr_def edge_cfg_def fresh_state_def authenticate_def allowed_def
      keyForRequest_def demo_server_def hget_def hvalues_def HeaderKeyID_def lone_trim)

lemma live_fetch:
  "\<exists>v' resp. cl_do live_client live_world \<lparr>or_method = ''GET'', or_url = ''http://s/v1/public-key'',
      or_header = keyless_headers (lone_signer\<lparr>rsn_publicKey := None\<rparr>) [], or_body = []\<rparr> = (v', Inr resp) \<and> rs_status resp = 200"
proof -
  define h where "h = keyless_headers (lone_signer\<lparr>rsn_publicKey := None\<rparr>) []"
  have e: "hget [] k = []" for k by (simp add: hget_def hvalues_def)
  have t: "hget h HeaderToken = ''x''" unfolding h_def keyless_headers_token[OF e] by (simp add: lone_signer_def)
  have "hget h HeaderKeyID = []" unfolding h_def keyless_headers_keyID[OF e] by (simp add: lone_signer_def)
  then have k: "keyForRequest demo_server ''a'' h = Some ''K''"
    by (simp add: keyForRequest_def demo_server_def lone_trim)
  let ?r = "\<lparr>rq_method = ''GET'', rq_path = ''/v1/public-key'', rq_header = h, rq_remote = ''h'', rq_body = []\<rparr>"
  have "rs_status (snd (requireAuth (publicKey demo_wire_env demo_server) (demo_tick 0) ?r (snd live_world))) = 200"
    using live_world_facts(1) t k
    by (simp add: find_client_denied_handled publicKey_def demo_wire_env_def demo_env_def Let_def WriteJSON_def EncodePublicKey_def)
  then obtain w1 resp where "requireAuth (publicKey demo_wire_env demo_server) (demo_tick 0) ?r (snd live_world) = (w1, resp)"
    "rs_status resp = 200" by (metis prod.collapse)
  then show ?thesis unfolding h_def[symmetric]
    by (simp add: connect_live_def connect_def Routes_def trimPrefix_def hasPrefix_def)
qed

lemma live_start:
  "\<exists>w'. edge_main lone_env (\<lambda>_. live_client) demo_x509 demo_routes_env [] lone_config lone_files live_world
     = Some (w', Inr (lone_edge, lone_files, lone_config, system_tls))"
proof -
  have st: "edge_startup lone_env [] lone_config lone_files w = Some (w, Inr (lone_files, lone_config, [], system_tls))"
    for w :: "(nat \<Rightarrow> tick) \<times> auth_world"
    by (simp add: edge_startup_def edge_enrolled_def lone_config_def demo_edge_config_def applyRemoteDefault_def
        keylessTransport_def client_roots_def client_pair_def)
  have b: "chain_blocks (xe_pemDecode demo_x509) ''h'' [] = Some [''h'']"
    by (subst chain_blocks.simps, subst chain_blocks.simps) (simp add: demo_x509_def)
  have dec: "stdDecode [] = Some []" by code_simp
  obtain v' resp where f: "cl_do live_client live_world \<lparr>or_method = ''GET'', or_url = ''http://s/v1/public-key'',
      or_header = keyless_headers (lone_signer\<lparr>rsn_publicKey := None\<rparr>) [], or_body = []\<rparr> = (v', Inr resp)"
    "rs_status resp = 200" using live_fetch by blast
  then have ft: "fetchPublicKey live_client (lone_signer\<lparr>rsn_publicKey := None\<rparr>) live_world = (v', Inr [])"
    by (simp add: fetchPublicKey_def lone_signer_def DecodePublicKey_def dec)
  have nw: "NewRemoteSignerForKey live_client ''http://s'' ''x'' [] live_world = (v', Inr lone_signer)"
    using ft by (simp add: NewRemoteSignerForKey_def lone_base lone_signer_def Let_def)
  have ld: "loadKeylessCertificates live_client demo_x509 lone_files [\<lparr>sp_KeyID = [], sp_Path = ''c.pem''\<rparr>]
      ''http://s'' ''x'' [] live_world = Some (v', Inr (em_certificates lone_edge))"
    using b nw by (simp add: loadKeylessCertificates_def loadCertificateChain_def readFile_def clean_fs_def
        lone_edge_def lone_signer_def SetClientID_def demo_x509_def)
  have n: "parseInt64 ''100'' = Some 100" "parseInt64 ''10'' = Some 10" by code_simp+
  have sl: "splitListens [] = ['':443'']" by code_simp
  show ?thesis
    using ld by (simp add: edge_main_def st) (simp add: lone_config_def demo_edge_config_def lone_specs
        loadPluginRoutes_def lone_trim edge_cache_def mustParseBytes_def mustParseDuration_def n lone_env_def sl
        demo_routes_env_def lone_edge_def, cases v', simp)
qed

lemma lone_selects: "buildCertificateSelector (em_certificates lone_edge) ''h'' = Inr (hd (em_certificates lone_edge))"
proof -
  have h: "cleanHost ''h'' = ''h''"
    by (simp add: cleanHost_def no_edge_space_ascii ascii_space_def cut_def toLower_def lower_char_def)
  have "covers (hd (em_certificates lone_edge)) ''h''"
    unfolding covers_def by (rule exI[of _ "\<lparr>lf_dns = [''h''], lf_cn = []\<rparr>"], rule exI[of _ "''h''"])
      (simp add: h lone_edge_def)
  then show ?thesis by (simp add: selector_find h lone_edge_def)
qed

theorem handshake_signed_by_signer_witness:
  "\<exists>w'. edge_main lone_env (\<lambda>_. live_client) demo_x509 demo_routes_env [] lone_config lone_files live_world
        = Some (w', Inr (lone_edge, lone_files, lone_config, system_tls))
     \<and> (\<exists>s. ct_key (hd (em_certificates lone_edge)) = Some s
          \<and> chain_of_file demo_x509 lone_files ''c.pem'' (ct_chain (hd (em_certificates lone_edge)))
          \<and> snd (remoteSign live_client s [CHR 0x01] (OtherOpts 0) live_world) = Inr (''K'' @ [CHR 0x01]))"
proof -
  let ?cert = "hd (em_certificates lone_edge)"
  obtain w' where st: "edge_main lone_env (\<lambda>_. live_client) demo_x509 demo_routes_env [] lone_config lone_files live_world
        = Some (w', Inr (lone_edge, lone_files, lone_config, system_tls))" using live_start by blast
  have specs: "certificateSpecs (ed_cert lone_config) (ed_certs lone_config) = [\<lparr>sp_KeyID = [], sp_Path = ''c.pem''\<rparr>]"
    by (simp add: lone_config_def demo_edge_config_def lone_specs)
  have req: "RequestFromSignerInput [CHR 0x01] (OtherOpts 0) = RequestFromSignerInput [CHR 0x01] (HashOpts 0)"
    by (simp add: RequestFromSignerInput_def)
  have au: "authenticate (fst (snd live_world)) (ed_token lone_config) = (''a'', True, [])"
    using live_world_facts(1) by (simp add: lone_config_def)
  have "\<exists>spec s. spec \<in> set (certificateSpecs (ed_cert lone_config) (ed_certs lone_config))
     \<and> covers ?cert (cleanHost ''h'') \<and> chain_of_file demo_x509 lone_files (sp_Path spec) (ct_chain ?cert)
     \<and> ct_leaf ?cert = xe_parse demo_x509 (hd (ct_chain ?cert)) \<and> ct_key ?cert = Some s
     \<and> remote_result demo_wire_env ''K'' (fst live_world 0) [CHR 0x01] (OtherOpts 0)
          (snd (remoteSign live_client s [CHR 0x01] (OtherOpts 0) live_world))"
  proof (rule handshake_signed_by_signer[OF st lone_selects _ _ _ _ au live_world_facts(2), where base = "''http://s''"
          and srv = demo_server and remote = "''h''" and key = "\<lambda>_. ''K''"])
    show "cl_parseURL live_client (ed_keylessURL lone_config) = Inr \<lparr>u_scheme = ''http'', u_host = ''s'', u_string = ''http://s''\<rparr>"
      by (simp add: lone_config_def)
    show "keyForRequest demo_server ''a'' [(''X-Keyless-Key-Id'', [sp_KeyID spec])] = Some ''K''"
      if "spec \<in> set (certificateSpecs (ed_cert lone_config) (ed_certs lone_config))" for spec
      using that by (simp add: specs live_world_facts(3))
    show "cl_do live_client = connect_live demo_wire_env demo_server ''http://s'' ''h''" by simp
  qed (simp_all add: lone_base demo_wire_env_def demo_env_def demo_request_short req demo_tick_def)
  moreover have "honoured demo_wire_env [CHR 0x01] (OtherOpts 0)" by (simp add: honoured_def supported_hash_def)
  ultimately show ?thesis using st by (cases w') (auto simp: specs remote_result_def demo_wire_env_def demo_env_def demo_tick_def)
qed

end
