(* ===== verification/Console.thy ===== *)
theory Console
  imports EdgeMain
begin

text \<open>
  The signer console (\<open>cmd/signer-console/main.go\<close>): client, registration and revocation files,
  sessions, and every handler that reads or changes that state. The state of the console is its files;
  a handler takes the file system and returns it with the response.
\<close>

section \<open>Data\<close>

record edgeRegistration =
  rg_ID :: string
  rg_Label :: string
  rg_Status :: string
  rg_RemoteAddr :: string
  rg_RequestedAt :: string
  rg_ApprovedAt :: string
  rg_RejectedAt :: string
  rg_InstallToken :: string
  rg_InstallIssuedAt :: string
  rg_InstallUsedAt :: string
  rg_InstallVerifiedAt :: string
  rg_InstallStatus :: string
  rg_InstallError :: string

record registerRequest =
  rr_ID :: string
  rr_Label :: string
  rr_InstallToken :: string

record clientLimitsRequest =
  lr_Rate :: int
  lr_Signs :: int
  lr_Errors :: int
  lr_AutoRevoke :: bool

record accountMe =
  me_Email :: string
  me_DisplayName :: string
  me_Role :: string

record app =
  ap_accountAPI :: string
  ap_accountLogin :: string
  ap_publicURL :: string
  ap_clientID :: string
  ap_sessionKey :: string
  ap_clientsPath :: string
  ap_revokedPath :: string
  ap_auditPath :: string
  ap_registerPath :: string
  ap_edgeKeylessURL :: string

text \<open>
  JSON decoders and encoders (the encoders with the final newline), directory creation, HMAC-SHA256, the
  account system and the setting of query parameters in a URL are parameters.
\<close>

record console_env =
  cn_decodeClients :: "string \<Rightarrow> ClientConfig list result"
  cn_encodeClients :: "ClientConfig list \<Rightarrow> string"
  cn_decodeRegs :: "string \<Rightarrow> edgeRegistration list result"
  cn_encodeRegs :: "edgeRegistration list \<Rightarrow> string"
  cn_decodeRegister :: "string \<Rightarrow> registerRequest result"
  cn_decodeLimits :: "string \<Rightarrow> clientLimitsRequest result"
  cn_decodeSession :: "string \<Rightarrow> (string, string) gomap result"
  cn_encodeSession :: "(string, string) gomap \<Rightarrow> string"
  cn_decodeMe :: "string \<Rightarrow> accountMe result"
  cn_account :: "out_request \<Rightarrow> http_response result"
  cn_badURL :: "string \<Rightarrow> error option"
  cn_mkdir :: "string \<Rightarrow> error option"
  cn_hmac :: "string \<Rightarrow> string \<Rightarrow> string"
  cn_withQuery :: "string \<Rightarrow> (string \<times> string) list \<Rightarrow> string result"

record console_request =
  cq_method :: string
  cq_path :: string
  cq_query :: "string \<Rightarrow> string"
  cq_header :: header
  cq_cookie :: "string \<Rightarrow> string option"
  cq_remote :: string
  cq_body :: string

text \<open>
  Bodies by content: JSON objects by what they say, plain texts, HTML pages by name, files embedded into the
  program by name, and the install script by the two values put into its fixed text (\<open>install_script\<close>).
\<close>

datatype console_body =
    JErr string
  | JOk
  | JStatus string
  | JApproved string
  | JInstall string string "(string, string) gomap"
  | JSummary "ClientConfig list" "string list" "string list" "edgeRegistration list"
  | InstallScript string string
  | PlainText string
  | Page string "(string \<times> string) list"
  | Embedded string
  | NoBody

record console_response =
  co_status :: nat
  co_header :: header
  co_body :: console_body

definition console_json :: "nat \<Rightarrow> console_body \<Rightarrow> console_response" where
  "console_json status b =
     \<lparr>co_status = status, co_header = hset [] ''Content-Type'' ''application/json'', co_body = b\<rparr>"

definition writeError :: "error \<Rightarrow> console_response" where
  "writeError e = console_json 500 (JErr e)"

definition console_error :: "nat \<Rightarrow> string \<Rightarrow> console_response" where
  "console_error status msg =
     \<lparr>co_status = status, co_header = hset [] ''Content-Type'' ''text/plain; charset=utf-8'',
      co_body = PlainText (msg @ [newline])\<rparr>"

definition notFound :: console_response where
  "notFound = console_error 404 ''404 page not found''"

definition redirect :: "string \<Rightarrow> console_response" where
  "redirect location =
     \<lparr>co_status = 302, co_header = hset [] ''Location'' location, co_body = NoBody\<rparr>"

section \<open>Files\<close>

definition readClientFile :: "console_env \<Rightarrow> fs \<Rightarrow> string \<Rightarrow> ClientConfig list result" where
  "readClientFile env d path =
     (case readFile d path of
        Inl e \<Rightarrow> Inl (os_error_text e)
      | Inr data \<Rightarrow> cn_decodeClients env data)"

definition writeClientFile :: "console_env \<Rightarrow> fs \<Rightarrow> string \<Rightarrow> ClientConfig list \<Rightarrow> fs result" where
  "writeClientFile env d path clients =
     (case cn_mkdir env path of
        Some e \<Rightarrow> Inl e
      | None \<Rightarrow> writeFile d path (cn_encodeClients env clients))"

definition readRegistrations :: "console_env \<Rightarrow> fs \<Rightarrow> string \<Rightarrow> edgeRegistration list result" where
  "readRegistrations env d path =
     (case readFile d path of
        Inl NotExist \<Rightarrow> Inr []
      | Inl (OtherError e) \<Rightarrow> Inl e
      | Inr data \<Rightarrow> cn_decodeRegs env data)"

definition writeRegistrations :: "console_env \<Rightarrow> fs \<Rightarrow> string \<Rightarrow> edgeRegistration list \<Rightarrow> fs result" where
  "writeRegistrations env d path regs =
     (case cn_mkdir env path of
        Some e \<Rightarrow> Inl e
      | None \<Rightarrow> writeFile d path (cn_encodeRegs env regs))"

definition readRevoked :: "fs \<Rightarrow> string \<Rightarrow> string list result" where
  "readRevoked d path =
     (case readFile d path of
        Inl NotExist \<Rightarrow> Inr []
      | Inl (OtherError e) \<Rightarrow> Inl e
      | Inr text \<Rightarrow>
          (let (ls, ok) = scan_lines text
           in if ok then Inr (revoked_ids ls) else Inl ''bufio.Scanner: token too long''))"

definition appendRevoked :: "console_env \<Rightarrow> fs \<Rightarrow> string \<Rightarrow> string \<Rightarrow> fs result" where
  "appendRevoked env d path cid =
     (case readRevoked d path of
        Inl e \<Rightarrow> Inl e
      | Inr current \<Rightarrow>
          if cid \<in> set current then Inr d
          else (case cn_mkdir env path of
                  Some e \<Rightarrow> Inl e
                | None \<Rightarrow> appendFile d path (cid @ [newline])))"

definition removeRevoked :: "fs \<Rightarrow> string \<Rightarrow> string \<Rightarrow> fs result" where
  "removeRevoked d path cid =
     (case readRevoked d path of
        Inl e \<Rightarrow> Inl e
      | Inr current \<Rightarrow>
          writeFile d path (join [newline] (filter (\<lambda>item. item \<noteq> cid) current) @ [newline]))"

text \<open>The loop keeps a window of at most \<open>limit\<close> lines.\<close>

fun tail_loop :: "nat \<Rightarrow> string list \<Rightarrow> string list \<Rightarrow> string list" where
  "tail_loop limit [] acc = acc"
| "tail_loop limit (l # ls) acc =
     (let acc' = acc @ [l]
      in tail_loop limit ls (if length acc' > limit then tl acc' else acc'))"

text \<open>The error, if any, comes with the lines read so far.\<close>

definition tailLines :: "fs \<Rightarrow> string \<Rightarrow> nat \<Rightarrow> string list \<times> os_error option" where
  "tailLines d path limit =
     (case readFile d path of
        Inl e \<Rightarrow> ([], Some e)
      | Inr data \<Rightarrow>
          (let (ls, ok) = scan_lines data
           in (tail_loop limit ls [], if ok then None else Some (OtherError ''bufio.Scanner: token too long''))))"

section \<open>Validation and paths\<close>

definition id_char :: "char \<Rightarrow> bool" where
  "id_char c \<longleftrightarrow>
     (let n = (of_char c :: nat)
      in 97 \<le> n \<and> n \<le> 122 \<or> 65 \<le> n \<and> n \<le> 90 \<or> 48 \<le> n \<and> n \<le> 57)
     \<or> c = CHR ''-'' \<or> c = CHR ''_''"

definition validClientID :: "string \<Rightarrow> bool" where
  "validClientID s \<longleftrightarrow>
     3 \<le> length s \<and> length s \<le> 64 \<and> list_all (\<lambda>c. id_char c \<or> c = CHR ''.'') s"

definition validInstallToken :: "string \<Rightarrow> bool" where
  "validInstallToken s \<longleftrightarrow> 32 \<le> length s \<and> length s \<le> 128 \<and> list_all id_char s"

definition clientAddress :: "console_request \<Rightarrow> string" where
  "clientAddress r =
     (let cf = trimSpace (hget (cq_header r) ''CF-Connecting-IP'');
          xr = trimSpace (hget (cq_header r) ''X-Real-IP'')
      in if cf \<noteq> [] then cf else if xr \<noteq> [] then xr else cq_remote r)"

definition parse_action :: "string \<Rightarrow> string \<Rightarrow> (string \<times> string) option" where
  "parse_action kind path =
     (case split_at CHR ''/'' (trim path CHR ''/'') of
        [p0, p1, p2, p3] \<Rightarrow> if p0 \<noteq> ''api'' \<or> p1 \<noteq> kind then None else Some (p2, p3)
      | _ \<Rightarrow> None)"

definition parseClientAction :: "string \<Rightarrow> (string \<times> string) option" where
  "parseClientAction path = parse_action ''clients'' path"

definition parseRegistrationAction :: "string \<Rightarrow> (string \<times> string) option" where
  "parseRegistrationAction path = parse_action ''registrations'' path"

definition wantsJSON :: "console_request \<Rightarrow> bool" where
  "wantsJSON r \<longleftrightarrow>
     cq_query r ''format'' = ''json'' \<or> contains (hget (cq_header r) ''Accept'') ''application/json''"

definition edgeConfig :: "app \<Rightarrow> (string, string) gomap" where
  "edgeConfig a = (if ap_edgeKeylessURL a \<noteq> [] then [(''KEYLESS_URL'', ap_edgeKeylessURL a)] else [])"

text \<open>A single quote ends the quoted text, stands in double quotes, and the text goes on.\<close>

definition shellQuote :: "string \<Rightarrow> string" where
  "shellQuote v =
     [CHR 0x27] @ concat (map (\<lambda>c. if c = CHR 0x27 then [CHR 0x27, CHR 0x22, CHR 0x27, CHR 0x22, CHR 0x27]
                                  else [c]) v) @ [CHR 0x27]"

definition randomString :: "string \<Rightarrow> string" where
  "randomString raw = rawURLEncode raw"

section \<open>Sessions\<close>

definition signValue :: "console_env \<Rightarrow> app \<Rightarrow> string \<Rightarrow> string" where
  "signValue env a value = value @ ''.'' @ hexEncode (cn_hmac env (ap_sessionKey a) value)"

definition verifiedPayload :: "console_env \<Rightarrow> app \<Rightarrow> string \<Rightarrow> string \<times> bool" where
  "verifiedPayload env a signed =
     (case cut signed CHR ''.'' of (value, sig, ok) \<Rightarrow>
        if \<not> ok then ([], False)
        else (case hexDecode sig of
                None \<Rightarrow> ([], False)
              | Some got \<Rightarrow> (value, got = cn_hmac env (ap_sessionKey a) value)))"

definition verifySignedValue :: "console_env \<Rightarrow> app \<Rightarrow> string \<Rightarrow> string \<Rightarrow> bool" where
  "verifySignedValue env a signed expected =
     (case verifiedPayload env a signed of (value, ok) \<Rightarrow> ok \<and> value = expected)"

definition fetchMe :: "console_env \<Rightarrow> app \<Rightarrow> string \<Rightarrow> accountMe result" where
  "fetchMe env a accountSession =
     (let u = ap_accountAPI a @ ''/me''
      in case cn_badURL env u of
           Some e \<Rightarrow> Inl e
         | None \<Rightarrow>
        (case cn_account env \<lparr>or_method = ''GET'', or_url = u,
                or_header = hset [] ''Authorization'' (''Bearer '' @ accountSession), or_body = []\<rparr> of
           Inl e \<Rightarrow> Inl e
         | Inr resp \<Rightarrow>
             if rs_status resp \<noteq> 200
             then Inl (''account-system /me returned '' @ statusText (rs_status resp))
             else ReadJSON (cn_decodeMe env) (64 * 1024) (rs_body resp)))"

definition session_value :: "(string, string) gomap \<Rightarrow> string \<Rightarrow> string" where
  "session_value s k = (case mget s k of None \<Rightarrow> [] | Some v \<Rightarrow> v)"

definition currentUser :: "console_env \<Rightarrow> app \<Rightarrow> console_request \<Rightarrow> accountMe option" where
  "currentUser env a r =
     (case cq_cookie r ''ssl_signer_session'' of
        None \<Rightarrow> None
      | Some cookie \<Rightarrow>
     (case verifiedPayload env a cookie of (value, ok) \<Rightarrow>
        if \<not> ok then None
        else (case rawURLDecode value of
                None \<Rightarrow> None
              | Some payload \<Rightarrow>
             (case cn_decodeSession env payload of
                Inl _ \<Rightarrow> None
              | Inr session \<Rightarrow>
             (case fetchMe env a (session_value session ''account_session'') of
                Inl _ \<Rightarrow> None
              | Inr user \<Rightarrow> if me_Role user \<noteq> ''system_admin'' then None else Some user)))))"

text \<open>Cookies as the \<open>Set-Cookie\<close> lines they become: name, value and lifetime in seconds.\<close>

definition cookie_line :: "string \<Rightarrow> string \<Rightarrow> int \<Rightarrow> string" where
  "cookie_line name value maxAge =
     name @ ''='' @ value @ ''; Path=/; Max-Age='' @ (if maxAge < 0 then ''0'' else itoa maxAge)
     @ ''; HttpOnly; Secure; SameSite=Lax''"

definition setCookie :: "string \<Rightarrow> string \<Rightarrow> int \<Rightarrow> console_response \<Rightarrow> console_response" where
  "setCookie name value seconds resp =
     resp\<lparr>co_header := hadd (co_header resp) ''Set-Cookie'' (cookie_line name value seconds)\<rparr>"

definition clearCookie :: "string \<Rightarrow> console_response \<Rightarrow> console_response" where
  "clearCookie name resp =
     resp\<lparr>co_header := hadd (co_header resp) ''Set-Cookie'' (cookie_line name [] (- 1))\<rparr>"

definition authStart :: "console_env \<Rightarrow> app \<Rightarrow> string \<Rightarrow> console_response" where
  "authStart env a raw =
     (let state = randomString raw
      in setCookie ''ssl_signer_state'' (signValue env a state) (10 * 60)
           (case cn_withQuery env (ap_accountLogin a)
                   [(''client_id'', ap_clientID a), (''redirect_uri'', ap_publicURL a @ ''/auth/account/callback''),
                    (''scope'', ''accounts:read identities:resolve''), (''state'', state), (''prompt'', ''consent'')] of
              Inl _ \<Rightarrow> console_error 500 ''bad account login URL''
            | Inr u \<Rightarrow> redirect u))"

definition callback :: "console_env \<Rightarrow> app \<Rightarrow> console_request \<Rightarrow> console_response" where
  "callback env a r =
     (case cq_cookie r ''ssl_signer_state'' of
        None \<Rightarrow> console_error 400 ''invalid state''
      | Some state \<Rightarrow>
          if \<not> verifySignedValue env a state (cq_query r ''state'') then console_error 400 ''invalid state''
          else if cq_query r ''account_session'' = [] then console_error 400 ''missing account session''
          else (case fetchMe env a (cq_query r ''account_session'') of
                  Inl _ \<Rightarrow> console_error 401 ''account verification failed''
                | Inr user \<Rightarrow>
                    if me_Role user \<noteq> ''system_admin'' then console_error 403 ''system_admin required''
                    else (let payload = cn_encodeSession env
                                [(''account_session'', cq_query r ''account_session''),
                                 (''email'', me_Email user), (''role'', me_Role user)]
                          in clearCookie ''ssl_signer_state''
                               (setCookie ''ssl_signer_session'' (signValue env a (rawURLEncode payload))
                                  (8 * 3600) (redirect ''/'')))))"

definition logout :: console_response where
  "logout = clearCookie ''ssl_signer_session'' (redirect ''/login'')"

definition index_page :: "console_env \<Rightarrow> app \<Rightarrow> console_request \<Rightarrow> console_response" where
  "index_page env a r =
     (if currentUser env a r \<noteq> None then redirect ''/console''
      else \<lparr>co_status = 200, co_header = hset [] ''Content-Type'' ''text/html; charset=utf-8'',
            co_body = Page ''landing'' []\<rparr>)"

definition login_page :: "console_env \<Rightarrow> app \<Rightarrow> console_request \<Rightarrow> console_response" where
  "login_page env a r =
     (if currentUser env a r \<noteq> None then redirect ''/console''
      else \<lparr>co_status = 200, co_header = hset [] ''Content-Type'' ''text/html; charset=utf-8'',
            co_body = Page ''login'' []\<rparr>)"

definition console_page :: "console_env \<Rightarrow> app \<Rightarrow> console_request \<Rightarrow> console_response" where
  "console_page env a r =
     (case currentUser env a r of
        None \<Rightarrow> redirect ''/login''
      | Some user \<Rightarrow>
          \<lparr>co_status = 200, co_header = hset [] ''Content-Type'' ''text/html; charset=utf-8'',
           co_body = Page ''console'' [(''Email'', me_Email user), (''Name'', me_DisplayName user)]\<rparr>)"

section \<open>Static content\<close>

definition icon :: console_response where
  "icon = \<lparr>co_status = 200,
     co_header = hset (hset [] ''Content-Type'' ''image/png'') ''Cache-Control'' ''public, max-age=86400'',
     co_body = Embedded ''black-bear-wrench.png''\<rparr>"

definition plain_page :: "string list \<Rightarrow> console_response" where
  "plain_page ls = \<lparr>co_status = 200, co_header = hset [] ''Content-Type'' ''text/plain; charset=utf-8'',
     co_body = PlainText (concat (map (\<lambda>l. l @ [newline]) ls))\<rparr>"

definition llms :: console_response where
  "llms = plain_page
     [''# SSL Signer Console'',
      [],
      ''SSL Signer Console is the administrator interface for memecdn keyless TLS signing.'',
      [],
      ''Canonical URL: https://ssl-signer.js.gripe'',
      ''Repository: https://github.com/jsw-teams/memecdn'',
      [],
      ''Purpose:'',
      ''- Review pending low-trust edge VPS registration requests.'',
      ''- Approve a pending edge and generate a one-time install command.'',
      ''- Revoke or restore edge signing clients.'',
      ''- Review signer audit logs and automatic abuse revocation state.'',
      [],
      ''Access policy:'',
      ''- Human access requires account-system login at https://account.js.gripe.'',
      ''- Only users with role system_admin may access the console.'',
      ''- Edge VPS nodes must not receive the certificate private key.'',
      [],
      ''Automation:'',
      ''- New edge nodes submit POST /api/register with a proposed id and label.'',
      ''- Registration stays pending until approved by a system administrator.'',
      ''- Approval returns a one-time install command instead of displaying the real signer token.'',
      ''- Signing API traffic uses https://gateway.js.gripe/api/v1/ssl-signer.'']"

definition robots :: console_response where
  "robots = plain_page
     [''# ssl-signer.js.gripe is a private service console, not a useful crawl target.'',
      ''# Claude is not welcome here because this site owner does not welcome'',
      ''# unethical AI crawlers that freely scrape sites while arbitrarily'',
      ''# banning user accounts.'',
      ''User-agent: *'',
      ''Disallow: /'',
      ''Allow: /llms.txt'']"

end
