(* ===== verification/ConsoleHandlers.thy ===== *)
theory ConsoleHandlers
  imports Console
begin

text \<open>
  The handlers of the signer console that read and change its files (\<open>cmd/signer-console/main.go\<close>),
  the administrator check and the routing table. \<open>now\<close> is the formatted time a handler reads and
  \<open>raw\<close> the random bytes it draws.
\<close>

section \<open>Overview for the administrator\<close>

definition summary :: "console_env \<Rightarrow> app \<Rightarrow> fs \<Rightarrow> console_response" where
  "summary env a d =
     (case readClientFile env d (ap_clientsPath a) of
        Inl e \<Rightarrow> writeError e
      | Inr clients \<Rightarrow>
     (case readRevoked d (ap_revokedPath a) of
        Inl e \<Rightarrow> writeError e
      | Inr revoked \<Rightarrow>
     (case tailLines d (ap_auditPath a) 200 of
        (_, Some (OtherError e)) \<Rightarrow> writeError e
      | (auditLines, _) \<Rightarrow>
     (case readRegistrations env d (ap_registerPath a) of
        Inl e \<Rightarrow> writeError e
      | Inr regs \<Rightarrow> console_json 200 (JSummary clients revoked auditLines regs)))))"

section \<open>Registration by an edge\<close>

definition pending_registration :: "app \<Rightarrow> console_request \<Rightarrow> string \<Rightarrow> registerRequest \<Rightarrow> edgeRegistration" where
  "pending_registration a r now req =
     \<lparr>rg_ID = rr_ID req, rg_Label = rr_Label req, rg_Status = ''pending'', rg_RemoteAddr = clientAddress r,
      rg_RequestedAt = now, rg_ApprovedAt = [], rg_RejectedAt = [], rg_InstallToken = rr_InstallToken req,
      rg_InstallIssuedAt = now, rg_InstallUsedAt = [], rg_InstallVerifiedAt = [], rg_InstallStatus = [],
      rg_InstallError = []\<rparr>"

text \<open>The first pending registration of the id is refreshed; otherwise a new one is appended.\<close>

fun refresh_pending ::
  "console_request \<Rightarrow> string \<Rightarrow> registerRequest \<Rightarrow> edgeRegistration list \<Rightarrow> edgeRegistration list option" where
  "refresh_pending r now req [] = None"
| "refresh_pending r now req (g # gs) =
     (if rg_ID g = rr_ID req \<and> rg_Status g = ''pending''
      then Some (g\<lparr>rg_Label := rr_Label req, rg_RemoteAddr := clientAddress r, rg_RequestedAt := now,
                   rg_InstallToken := rr_InstallToken req, rg_InstallIssuedAt := now\<rparr> # gs)
      else map_option (\<lambda>gs'. g # gs') (refresh_pending r now req gs))"

definition store_registrations ::
  "console_env \<Rightarrow> app \<Rightarrow> fs \<Rightarrow> edgeRegistration list \<Rightarrow> console_response \<Rightarrow> fs \<times> console_response" where
  "store_registrations env a d regs resp =
     (case writeRegistrations env d (ap_registerPath a) regs of
        Inl e \<Rightarrow> (d, writeError e)
      | Inr d' \<Rightarrow> (d', resp))"

definition registerEdge ::
  "console_env \<Rightarrow> app \<Rightarrow> string \<Rightarrow> string \<Rightarrow> console_request \<Rightarrow> fs \<Rightarrow> fs \<times> console_response" where
  "registerEdge env a now raw r d =
     (case cn_decodeRegister env (take (16 * 1024) (cq_body r)) of
        Inl _ \<Rightarrow> (d, console_json 400 (JErr ''invalid JSON''))
      | Inr req0 \<Rightarrow>
     (let cid = trimSpace (rr_ID req0); label = trimSpace (rr_Label req0);
          token0 = trimSpace (rr_InstallToken req0)
      in if \<not> validClientID cid then (d, console_json 400 (JErr ''invalid id''))
         else (let token = (if token0 = [] then randomString raw else token0);
                   req = \<lparr>rr_ID = cid, rr_Label = label, rr_InstallToken = token\<rparr>
      in if \<not> validInstallToken token then (d, console_json 400 (JErr ''invalid install token''))
         else (case readClientFile env d (ap_clientsPath a) of
            Inl e \<Rightarrow> (d, writeError e)
          | Inr clients \<Rightarrow>
              if cid \<in> cc_id ` set clients then (d, console_json 409 (JErr ''client already exists''))
              else (case readRegistrations env d (ap_registerPath a) of
                 Inl e \<Rightarrow> (d, writeError e)
               | Inr regs \<Rightarrow>
                   store_registrations env a d
                     (case refresh_pending r now req regs of
                        Some regs' \<Rightarrow> regs' | None \<Rightarrow> regs @ [pending_registration a r now req])
                     (console_json 202 (JStatus ''pending'')))))))"

section \<open>Actions on clients\<close>

definition limits_ok :: "clientLimitsRequest \<Rightarrow> bool" where
  "limits_ok req \<longleftrightarrow>
     0 \<le> lr_Rate req \<and> lr_Rate req \<le> 1000000 \<and> 0 \<le> lr_Signs req \<and> lr_Signs req \<le> 1000000
     \<and> 0 \<le> lr_Errors req \<and> lr_Errors req \<le> 1000000"

text \<open>
  The loop over the clients: every entry with the id is changed. The request body is a stream, so a
  second entry with the id finds it consumed (\<open>bodies\<close> lists what each decoding sees).
\<close>

fun client_loop ::
  "console_env \<Rightarrow> string \<Rightarrow> string \<Rightarrow> string list \<Rightarrow> ClientConfig list \<Rightarrow> (console_response + ClientConfig list \<times> bool)" where
  "client_loop env cid action bodies [] = Inr ([], False)"
| "client_loop env cid action bodies (c # cs) =
     (if cc_id c \<noteq> cid
      then map_sum (\<lambda>e. e) (\<lambda>(cs', found). (c # cs', found)) (client_loop env cid action bodies cs)
      else (case (if action = ''disable'' then Inr (c\<lparr>cc_disabled := True\<rparr>, bodies)
                  else if action = ''enable'' then Inr (c\<lparr>cc_disabled := False\<rparr>, bodies)
                  else if action = ''limits'' then
                    (case cn_decodeLimits env (take (16 * 1024) (case bodies of [] \<Rightarrow> [] | b # _ \<Rightarrow> b)) of
                       Inl _ \<Rightarrow> Inl (console_json 400 (JErr ''invalid JSON''))
                     | Inr req \<Rightarrow>
                         if \<not> limits_ok req
                         then Inl (console_json 400 (JErr ''limits must be between 0 and 1000000''))
                         else Inr (c\<lparr>cc_rate := lr_Rate req, cc_auto_signs := lr_Signs req,
                                     cc_auto_errors := lr_Errors req, cc_auto_revoke := lr_AutoRevoke req\<rparr>,
                                   drop 1 bodies))
                  else Inr (c, bodies)) of
              Inl e \<Rightarrow> Inl e
            | Inr (c', bodies') \<Rightarrow>
                map_sum (\<lambda>e. e) (\<lambda>(cs', _). (c' # cs', True)) (client_loop env cid action bodies' cs)))"

definition clientAction ::
  "console_env \<Rightarrow> app \<Rightarrow> console_request \<Rightarrow> fs \<Rightarrow> fs \<times> console_response" where
  "clientAction env a r d =
     (case parseClientAction (cq_path r) of
        None \<Rightarrow> (d, console_json 404 (JErr ''not found''))
      | Some (cid, action) \<Rightarrow>
     (case readClientFile env d (ap_clientsPath a) of
        Inl e \<Rightarrow> (d, writeError e)
      | Inr clients \<Rightarrow>
     (case client_loop env cid action [cq_body r] clients of
        Inl resp \<Rightarrow> (d, resp)
      | Inr (clients', found) \<Rightarrow>
          if \<not> found \<and> action \<in> {''disable'', ''enable'', ''limits''}
          then (d, console_json 404 (JErr ''client not found''))
          else (case (if action \<in> {''disable'', ''enable'', ''limits''}
                      then Some (writeClientFile env d (ap_clientsPath a) clients')
                      else if action = ''revoke'' then Some (appendRevoked env d (ap_revokedPath a) cid)
                      else if action = ''unrevoke'' then Some (removeRevoked d (ap_revokedPath a) cid)
                      else None) of
                  None \<Rightarrow> (d, console_json 404 (JErr ''not found''))
                | Some (Inl e) \<Rightarrow> (d, writeError e)
                | Some (Inr d') \<Rightarrow> (d', console_json 200 JOk)))))"

section \<open>Actions on registrations\<close>

definition find_index :: "('a \<Rightarrow> bool) \<Rightarrow> 'a list \<Rightarrow> nat option" where
  "find_index P xs = (let i = length (takeWhile (\<lambda>x. \<not> P x) xs) in if i < length xs then Some i else None)"

definition new_client :: "string \<Rightarrow> string \<Rightarrow> ClientConfig" where
  "new_client cid token =
     \<lparr>cc_id = cid, cc_token = token, cc_private_key = [], cc_private_keys = [], cc_disabled = False,
      cc_rate = 20000, cc_auto_signs = 0, cc_auto_errors = 0, cc_auto_revoke = False\<rparr>"

definition approved :: "string \<Rightarrow> string \<Rightarrow> edgeRegistration \<Rightarrow> edgeRegistration" where
  "approved now freshToken g =
     (let g1 = g\<lparr>rg_Status := ''approved'', rg_ApprovedAt := now\<rparr>;
          g2 = (if rg_InstallToken g1 = []
                then g1\<lparr>rg_InstallToken := freshToken, rg_InstallIssuedAt := now\<rparr> else g1)
      in g2\<lparr>rg_InstallUsedAt := [], rg_InstallStatus := ''approved'', rg_InstallError := []\<rparr>)"

text \<open>Approval draws random bytes twice: for the signer token and, if needed, for the install token.\<close>

definition registrationAction ::
  "console_env \<Rightarrow> app \<Rightarrow> string \<Rightarrow> string \<Rightarrow> string \<Rightarrow> console_request \<Rightarrow> fs \<Rightarrow> fs \<times> console_response" where
  "registrationAction env a now raw1 raw2 r d =
     (case parseRegistrationAction (cq_path r) of
        None \<Rightarrow> (d, console_json 404 (JErr ''not found''))
      | Some (cid, action) \<Rightarrow>
     (case readRegistrations env d (ap_registerPath a) of
        Inl e \<Rightarrow> (d, writeError e)
      | Inr regs \<Rightarrow>
     (case readClientFile env d (ap_clientsPath a) of
        Inl e \<Rightarrow> (d, writeError e)
      | Inr clients \<Rightarrow>
     (case find_index (\<lambda>g. rg_ID g = cid) regs of
        None \<Rightarrow> (d, console_json 404 (JErr ''registration not found''))
      | Some i \<Rightarrow>
          if action = ''approve'' then
            (if cid \<in> cc_id ` set clients then (d, console_json 409 (JErr ''client already exists''))
             else (let clients' = clients @ [new_client cid (randomString raw1)];
                       g = approved now (randomString raw2) (regs ! i)
                   in case writeClientFile env d (ap_clientsPath a) clients' of
                        Inl e \<Rightarrow> (d, writeError e)
                      | Inr d' \<Rightarrow>
                          store_registrations env a d' (regs[i := g])
                            (console_json 200 (JApproved (ap_publicURL a @ ''/api/install/'' @ rg_InstallToken g)))))
          else if action = ''reject'' then
            store_registrations env a d (regs[i := (regs ! i)\<lparr>rg_Status := ''rejected'', rg_RejectedAt := now\<rparr>])
              (console_json 200 JOk)
          else (d, console_json 404 (JErr ''not found''))))))"

section \<open>Delivery of the signer token\<close>

definition install_candidate :: "string \<Rightarrow> edgeRegistration \<Rightarrow> bool" where
  "install_candidate token g \<longleftrightarrow> rg_InstallToken g = token \<and> rg_Status g = ''approved''"

definition client_token :: "string \<Rightarrow> ClientConfig list \<Rightarrow> string" where
  "client_token cid clients =
     (case find (\<lambda>c. cc_id c = cid) clients of None \<Rightarrow> [] | Some c \<Rightarrow> cc_token c)"

definition installEdge ::
  "console_env \<Rightarrow> app \<Rightarrow> string \<Rightarrow> console_request \<Rightarrow> fs \<Rightarrow> fs \<times> console_response" where
  "installEdge env a now r d =
     (let token = trimPrefix (cq_path r) ''/api/install/''
      in if token = [] \<or> contains token ''/'' then (d, notFound)
      else (case readRegistrations env d (ap_registerPath a) of
        Inl _ \<Rightarrow> (d, console_error 500 ''registration file unavailable'')
      | Inr regs \<Rightarrow>
     (case readClientFile env d (ap_clientsPath a) of
        Inl _ \<Rightarrow> (d, console_error 500 ''client file unavailable'')
      | Inr clients \<Rightarrow>
     (case find_index (install_candidate token) regs of
        None \<Rightarrow> (d, notFound)
      | Some i \<Rightarrow>
         (let reg = regs ! i; keylessToken = client_token (rg_ID reg) clients
          in if rg_InstallUsedAt reg \<noteq> [] then (d, console_error 410 ''install token already used'')
             else if keylessToken = [] then (d, console_error 404 ''client not found'')
             else if wantsJSON r then
               (case writeRegistrations env d (ap_registerPath a) (regs[i := reg\<lparr>rg_InstallStatus := ''delivered''\<rparr>]) of
                  Inl _ \<Rightarrow> (d, console_error 500 ''registration file unavailable'')
                | Inr d' \<Rightarrow> (d', console_json 200 (JInstall (rg_ID reg) keylessToken (edgeConfig a))))
             else
               (case writeRegistrations env d (ap_registerPath a)
                       (regs[i := reg\<lparr>rg_InstallUsedAt := now, rg_InstallStatus := ''delivered''\<rparr>]) of
                  Inl _ \<Rightarrow> (d, console_error 500 ''registration file unavailable'')
                | Inr d' \<Rightarrow>
                    (d', \<lparr>co_status = 200,
                          co_header = hset (hset [] ''Content-Type'' ''text/x-shellscript; charset=utf-8'')
                                        ''Cache-Control'' ''no-store'',
                          co_body = InstallScript (shellQuote keylessToken) (rg_ID reg)\<rparr>)))))))"

text \<open>
  The install script around the quoted token and the id. It is written with \<open>~\<close> for the single quote.
\<close>

definition script_lines :: "string list \<Rightarrow> string" where
  "script_lines ls = map (\<lambda>c. if c = CHR ''~'' then CHR 0x27 else c) (concat (map (\<lambda>l. l @ [newline]) ls))"

definition dquoted :: "string \<Rightarrow> string" where
  "dquoted s = [CHR 0x22] @ s @ [CHR 0x22]"

definition script_head :: string where
  "script_head =
     script_lines
       [''#!/bin/sh'', ''set -eu'', [],
        ''ENV_FILE='' @ dquoted ''${EDGE_ENV_FILE:-/etc/myzerossl/edgeproxy.env}'',
        ''ENV_DIR='' @ dquoted (''$(dirname '' @ dquoted ''$ENV_FILE'' @ '')''),
        ''install -d -m 0750 '' @ dquoted ''$ENV_DIR'', [],
        ''tmp='' @ dquoted ''$(mktemp)'',
        ''if [ -f '' @ dquoted ''$ENV_FILE'' @ '' ]; then'',
        ''  awk -F= ~$1 != '' @ dquoted ''KEYLESS_TOKEN'' @ '' { print }~ '' @ dquoted ''$ENV_FILE'' @ '' > '' @ dquoted ''$tmp'',
        ''  chmod --reference='' @ dquoted ''$ENV_FILE'' @ '' '' @ dquoted ''$tmp'' @ '' 2>/dev/null || chmod 0640 ''
          @ dquoted ''$tmp'',
        ''  chown --reference='' @ dquoted ''$ENV_FILE'' @ '' '' @ dquoted ''$tmp'' @ '' 2>/dev/null || true'',
        ''else'', ''  chmod 0640 '' @ dquoted ''$tmp'', ''fi'']
     @ ''printf '' @ [CHR 0x27] @ ''KEYLESS_TOKEN=%s'' @ [CHR 0x5C] @ ''n'' @ [CHR 0x27] @ '' ''"

definition script_tail :: string where
  "script_tail =
     script_lines
       ['' >> '' @ dquoted ''$tmp'', ''mv '' @ dquoted ''$tmp'' @ '' '' @ dquoted ''$ENV_FILE'', [],
        ''if command -v systemctl >/dev/null 2>&1; then'', ''  systemctl restart edgeproxy'', ''fi'']
     @ ''echo ''"

definition install_script :: "string \<Rightarrow> string \<Rightarrow> string" where
  "install_script quotedToken cid =
     script_head @ quotedToken @ script_tail @ dquoted (''memecdn edge token installed for '' @ cid) @ [newline]"

definition verifyInstall ::
  "console_env \<Rightarrow> app \<Rightarrow> string \<Rightarrow> console_request \<Rightarrow> fs \<Rightarrow> fs \<times> console_response" where
  "verifyInstall env a now r d =
     (if \<not> hasSuffix (cq_path r) ''/verified'' then (d, notFound)
      else (let token = trimSuffix (trimPrefix (cq_path r) ''/api/install/'') ''/verified''
            in if token = [] \<or> contains token ''/'' then (d, notFound)
      else (case readRegistrations env d (ap_registerPath a) of
        Inl e \<Rightarrow> (d, writeError e)
      | Inr regs \<Rightarrow>
     (case find_index (install_candidate token) regs of
        None \<Rightarrow> (d, notFound)
      | Some i \<Rightarrow>
          store_registrations env a d
            (regs[i := (regs ! i)\<lparr>rg_InstallUsedAt := now, rg_InstallVerifiedAt := now,
                                  rg_InstallStatus := ''verified'', rg_InstallError := []\<rparr>])
            (console_json 200 JOk)))))"

section \<open>Routing\<close>

definition console_requireAdmin ::
  "console_env \<Rightarrow> app \<Rightarrow> (console_request \<Rightarrow> fs \<Rightarrow> fs \<times> console_response)
     \<Rightarrow> console_request \<Rightarrow> fs \<Rightarrow> fs \<times> console_response" where
  "console_requireAdmin env a next r d =
     (if currentUser env a r = None then (d, console_json 401 (JErr ''unauthorized'')) else next r d)"

text \<open>The policy is written here with \<open>~\<close> for the single quote.\<close>

definition contentPolicy :: string where
  "contentPolicy =
     map (\<lambda>c. if c = CHR ''~'' then CHR 0x27 else c)
       (''default-src ~self~; img-src ~self~; style-src ~self~ ~unsafe-inline~; ''
        @ ''script-src ~self~ ~unsafe-inline~; base-uri ~none~; frame-ancestors ~none~'')"

definition securityHeaders :: "console_response \<Rightarrow> console_response" where
  "securityHeaders resp =
     (let base = hset (hset (hset (hset [] ''Cache-Control'' ''no-store'') ''X-Content-Type-Options'' ''nosniff'')
                   ''Referrer-Policy'' ''same-origin'') ''Content-Security-Policy'' contentPolicy
      in resp\<lparr>co_header := fold (\<lambda>(k, vs) h. mput k vs h) (co_header resp) base\<rparr>)"

text \<open>
  The routes. \<open>None\<close>: a request no pattern takes, or \<open>/api/install\<close>, which the mux redirects. The path is one the mux has accepted: it redirects paths with
  empty or dot segments by itself.
\<close>

definition consoleHandler ::
  "console_env \<Rightarrow> app \<Rightarrow> string \<Rightarrow> string \<Rightarrow> string \<Rightarrow> console_request \<Rightarrow> fs \<Rightarrow> (fs \<times> console_response) option" where
  "consoleHandler env a now raw1 raw2 r d =
     map_option (\<lambda>(d', resp). (d', securityHeaders resp))
       (if cq_method r = ''POST'' then
          (if cq_path r = ''/logout'' then Some (d, logout)
           else if cq_path r = ''/api/register'' then Some (registerEdge env a now raw1 r d)
           else if hasPrefix (cq_path r) ''/api/install/'' then Some (verifyInstall env a now r d)
           else if hasPrefix (cq_path r) ''/api/clients/''
           then Some (console_requireAdmin env a (clientAction env a) r d)
           else if hasPrefix (cq_path r) ''/api/registrations/''
           then Some (console_requireAdmin env a (registrationAction env a now raw1 raw2) r d)
           else None)
        else if cq_method r = ''GET'' \<or> cq_method r = ''HEAD'' then
          (if cq_path r = ''/auth/account/callback'' then Some (d, callback env a r)
           else if hasPrefix (cq_path r) ''/api/install/'' then Some (installEdge env a now r d)
           else if cq_path r = ''/api/summary''
           then Some (console_requireAdmin env a (\<lambda>_ d. (d, summary env a d)) r d)
           else if cq_path r = ''/console'' then Some (d, console_page env a r)
           else if cq_path r = ''/login'' then Some (d, login_page env a r)
           else if cq_path r = ''/auth/start'' then Some (d, authStart env a raw1)
           else if cq_path r = ''/favicon.png'' \<or> cq_path r = ''/og.png'' then Some (d, icon)
           else if cq_path r = ''/llms.txt'' then Some (d, llms)
           else if cq_path r = ''/robots.txt'' then Some (d, robots)
           else if cq_path r = ''/api/install'' then None
           else Some (d, index_page env a r))
        else None)"

end
