(* ===== verification/SampleCodec.thy ===== *)
theory SampleCodec
  imports ConsoleHandlers
begin

text \<open>
  A concrete serialisation of the console's two files, with its round trips: the fields of a record as
  hexadecimal words, each followed by a comma. The development leaves the JSON library as a parameter;
  this instance shows that what is asked of it can hold.
\<close>

section \<open>Lists of strings\<close>

definition enc_strings :: "string list \<Rightarrow> string" where
  "enc_strings xs = concat (map (\<lambda>s. hexEncode s @ '','') xs)"

definition dec_strings :: "string \<Rightarrow> string list option" where
  "dec_strings s =
     (let ws = map hexDecode (butlast (split_at CHR '','' s))
      in if None \<in> set ws then None else Some (map the ws))"

lemma hexEncode_no_comma: "CHR '','' \<notin> set (hexEncode s)"
proof -
  have "CHR '','' \<noteq> hex_digits ! n" if "n < 16" for n
  proof -
    have "\<forall>k\<in>set [0..<16]. CHR '','' \<noteq> hex_digits ! k" by code_simp
    then show ?thesis using that by simp
  qed
  then show ?thesis by (induction s) (auto simp: div_less_iff_less_mult)
qed

lemma split_enc_strings: "split_at CHR '','' (enc_strings xs) = map hexEncode xs @ [[]]"
  using hexEncode_no_comma by (induction xs) (auto simp: enc_strings_def split_at_append)

interpretation strs: codec enc_strings dec_strings
proof
  fix xs
  have "map hexDecode (map hexEncode xs) = map Some xs" by (simp add: hexc.dec_enc)
  then show "dec_strings (enc_strings xs) = Some xs"
    by (auto simp: dec_strings_def split_enc_strings Let_def comp_def hexc.dec_enc)
qed

text \<open>Lists over an element codec.\<close>

definition dec_list :: "(string \<Rightarrow> 'a option) \<Rightarrow> string \<Rightarrow> 'a list option" where
  "dec_list dec s =
     (case dec_strings s of
        None \<Rightarrow> None
      | Some ws \<Rightarrow> if None \<in> set (map dec ws) then None else Some (map (the \<circ> dec) ws))"

lemma dec_list_enc:
  assumes "\<And>x. dec (enc x) = Some x"
  shows "dec_list dec (enc_strings (map enc xs)) = Some xs"
  using assms by (auto simp: dec_list_def strs.dec_enc comp_def)

section \<open>Numbers and flags\<close>

definition enc_int :: "int \<Rightarrow> string" where
  "enc_int i = (if i < 0 then ''-'' else ''+'') @ show_nat (nat \<bar>i\<bar>)"

definition dec_int :: "string \<Rightarrow> int" where
  "dec_int s =
     (let n = (case parse_nat (tl s) of None \<Rightarrow> 0 | Some n \<Rightarrow> int n) in if hd s = CHR ''-'' then - n else n)"

lemma dec_int_enc [simp]: "dec_int (enc_int i) = i"
  by (simp add: dec_int_def enc_int_def parse_nat_def parse_digits_show_nat)

definition enc_bool :: "bool \<Rightarrow> string" where "enc_bool b = (if b then ''t'' else [])"

lemma enc_bool_iff [simp]: "enc_bool b \<noteq> [] \<longleftrightarrow> b"
  by (simp add: enc_bool_def)

section \<open>Clients and registrations\<close>

definition enc_client :: "ClientConfig \<Rightarrow> string" where
  "enc_client c =
     enc_strings [cc_id c, cc_token c, cc_private_key c,
       enc_strings (map (\<lambda>(k, v). enc_strings [k, v]) (cc_private_keys c)),
       enc_bool (cc_disabled c), enc_int (cc_rate c), enc_int (cc_auto_signs c), enc_int (cc_auto_errors c),
       enc_bool (cc_auto_revoke c)]"

definition dec_pair :: "string \<Rightarrow> (string \<times> string) option" where
  "dec_pair s = (case dec_strings s of Some [k, v] \<Rightarrow> Some (k, v) | _ \<Rightarrow> None)"

definition dec_client :: "string \<Rightarrow> ClientConfig option" where
  "dec_client s =
     (case dec_strings s of
        Some [i, t, p, ps, dis, r, sg, er, rv] \<Rightarrow>
          map_option (\<lambda>keys. \<lparr>cc_id = i, cc_token = t, cc_private_key = p, cc_private_keys = keys,
             cc_disabled = (dis \<noteq> []), cc_rate = dec_int r, cc_auto_signs = dec_int sg,
             cc_auto_errors = dec_int er, cc_auto_revoke = (rv \<noteq> [])\<rparr>) (dec_list dec_pair ps)
      | _ \<Rightarrow> None)"

interpretation clientc: codec enc_client dec_client
proof
  fix c :: ClientConfig
  have "dec_pair ((\<lambda>(k, v). enc_strings [k, v]) kv) = Some kv" for kv
    by (cases kv) (simp add: dec_pair_def strs.dec_enc)
  then have "dec_list dec_pair (enc_strings (map (\<lambda>(k, v). enc_strings [k, v]) (cc_private_keys c)))
      = Some (cc_private_keys c)"
    by (rule dec_list_enc)
  then show "dec_client (enc_client c) = Some c"
    by (simp add: dec_client_def enc_client_def strs.dec_enc)
qed

definition enc_reg :: "edgeRegistration \<Rightarrow> string" where
  "enc_reg g =
     enc_strings [rg_ID g, rg_Label g, rg_Status g, rg_RemoteAddr g, rg_RequestedAt g, rg_ApprovedAt g,
       rg_RejectedAt g, rg_InstallToken g, rg_InstallIssuedAt g, rg_InstallUsedAt g, rg_InstallVerifiedAt g,
       rg_InstallStatus g, rg_InstallError g]"

definition dec_reg :: "string \<Rightarrow> edgeRegistration option" where
  "dec_reg s =
     (case dec_strings s of
        Some [i, l, st, ra, rq, ap, rj, it, ii, iu, iv, is, ie] \<Rightarrow>
          Some \<lparr>rg_ID = i, rg_Label = l, rg_Status = st, rg_RemoteAddr = ra, rg_RequestedAt = rq,
                rg_ApprovedAt = ap, rg_RejectedAt = rj, rg_InstallToken = it, rg_InstallIssuedAt = ii,
                rg_InstallUsedAt = iu, rg_InstallVerifiedAt = iv, rg_InstallStatus = is, rg_InstallError = ie\<rparr>
      | _ \<Rightarrow> None)"

interpretation regc: codec enc_reg dec_reg
  by unfold_locales (simp add: dec_reg_def enc_reg_def strs.dec_enc)

definition dec_result :: "(string \<Rightarrow> 'a option) \<Rightarrow> string \<Rightarrow> 'a result" where
  "dec_result dec s = (case dec s of None \<Rightarrow> Inl ''invalid file'' | Some x \<Rightarrow> Inr x)"

section \<open>A sample console\<close>

definition sample_env :: console_env where
  "sample_env =
     \<lparr>cn_decodeClients = dec_result (dec_list dec_client), cn_encodeClients = (\<lambda>cs. enc_strings (map enc_client cs)),
      cn_decodeRegs = dec_result (dec_list dec_reg), cn_encodeRegs = (\<lambda>gs. enc_strings (map enc_reg gs)),
      cn_decodeRegister = (\<lambda>s. Inr \<lparr>rr_ID = ''edge'', rr_Label = ''edge'', rr_InstallToken = s\<rparr>),
      cn_decodeLimits = (\<lambda>_. Inr \<lparr>lr_Rate = 1, lr_Signs = 1, lr_Errors = 1, lr_AutoRevoke = True\<rparr>),
      cn_decodeSession = (\<lambda>s. Inr [(''account_session'', s)]), cn_encodeSession = (\<lambda>_. ''s''),
      cn_decodeMe = (\<lambda>_. Inr \<lparr>me_Email = ''e'', me_DisplayName = ''n'', me_Role = ''system_admin''\<rparr>),
      cn_account = (\<lambda>_. Inr \<lparr>rs_status = 200, rs_header = [], rs_body = []\<rparr>),
      cn_badURL = (\<lambda>_. None), cn_mkdir = (\<lambda>_. None), cn_hmac = (\<lambda>k v. k @ v), cn_withQuery = (\<lambda>u _. Inr u)\<rparr>"

definition sample_app :: app where
  "sample_app =
     \<lparr>ap_accountAPI = ''api'', ap_accountLogin = ''login'', ap_publicURL = ''https://console'',
      ap_clientID = ''cid'', ap_sessionKey = ''key'', ap_clientsPath = ''clients'', ap_revokedPath = ''revoked'',
      ap_auditPath = ''audit'', ap_registerPath = ''regs'', ap_edgeKeylessURL = ''https://s''\<rparr>"

lemma sample_codec:
  "cn_decodeClients sample_env (cn_encodeClients sample_env cs) = Inr cs"
  "cn_decodeRegs sample_env (cn_encodeRegs sample_env gs) = Inr gs"
  by (simp_all add: sample_env_def dec_result_def dec_list_enc clientc.dec_enc regc.dec_enc)

text \<open>The files of a console that knows the given clients and registrations.\<close>

definition sample_files :: "ClientConfig list \<Rightarrow> edgeRegistration list \<Rightarrow> fs" where
  "sample_files cs gs =
     clean_fs [''clients'' \<mapsto> cn_encodeClients sample_env cs, ''regs'' \<mapsto> cn_encodeRegs sample_env gs]"

end
