(* ===== verification/ConsoleState.thy ===== *)
theory ConsoleState
  imports SampleCodec
begin

text \<open>
  What the console's handlers do to its files: the three files as values, the effect of each handler on
  them, and the invariant and the growth of the client list over every sequence of requests.
\<close>

lemma co_status_simps [simp]:
  "co_status (console_json n b) = n" "co_status (writeError e) = 500" "co_status (console_error n m) = n"
  "co_status notFound = 404" "co_body (console_json n b) = b"
  by (simp_all add: console_json_def writeError_def console_error_def notFound_def)

section \<open>The files as values\<close>

abbreviation clients_of :: "console_env \<Rightarrow> app \<Rightarrow> fs \<Rightarrow> ClientConfig list result" where
  "clients_of env a d \<equiv> readClientFile env d (ap_clientsPath a)"

abbreviation regs_of :: "console_env \<Rightarrow> app \<Rightarrow> fs \<Rightarrow> edgeRegistration list result" where
  "regs_of env a d \<equiv> readRegistrations env d (ap_registerPath a)"

abbreviation revoked_of :: "app \<Rightarrow> fs \<Rightarrow> string list result" where
  "revoked_of a d \<equiv> readRevoked d (ap_revokedPath a)"

text \<open>
  What the proofs ask of the setting: three different files and a JSON library that reads what it wrote. The latter
  idealises \<open>encoding/json\<close> in two points that do not matter to ids and tokens, which are checked ASCII text or drawn
  by the program: it replaces bytes that are not UTF-8, and it writes the keys of a map in their order.
\<close>

definition console_ok :: "console_env \<Rightarrow> app \<Rightarrow> bool" where
  "console_ok env a \<longleftrightarrow>
     ap_clientsPath a \<noteq> ap_registerPath a \<and> ap_clientsPath a \<noteq> ap_revokedPath a
     \<and> ap_registerPath a \<noteq> ap_revokedPath a
     \<and> (\<forall>cs. cn_decodeClients env (cn_encodeClients env cs) = Inr cs)
     \<and> (\<forall>gs. cn_decodeRegs env (cn_encodeRegs env gs) = Inr gs)"

lemma sample_ok: "console_ok sample_env sample_app"
  by (simp add: console_ok_def sample_codec sample_app_def)

lemma readFile_writeFile:
  "writeFile d q s = Inr d' \<Longrightarrow>
   readFile d' p = (if p = q \<and> fs_read_error d p = None then Inr s else readFile d p)"
  by (cases "p = q") (auto simp: writeFile_def readFile_def split: option.splits if_splits)

lemma readFile_Inr: "readFile d p = Inr s \<Longrightarrow> fs_read_error d p = None"
  by (simp add: readFile_def split: option.splits)

lemma readFile_NotExist: "readFile d p = Inl NotExist \<Longrightarrow> fs_read_error d p = None"
  by (simp add: readFile_def split: option.splits)

lemma read_error_clients: "readClientFile env d p = Inr cs \<Longrightarrow> fs_read_error d p = None"
  by (auto simp: readClientFile_def dest: readFile_Inr split: sum.splits)

lemma read_error_regs: "readRegistrations env d p = Inr gs \<Longrightarrow> fs_read_error d p = None"
  by (auto simp: readRegistrations_def dest: readFile_Inr readFile_NotExist split: sum.splits os_error.splits)

lemma read_error_revoked: "readRevoked d p = Inr rs \<Longrightarrow> fs_read_error d p = None"
  by (auto simp: readRevoked_def dest: readFile_Inr readFile_NotExist split: sum.splits os_error.splits)

lemma other_files:
  assumes "writeFile d q s = Inr d'" and "p \<noteq> q"
  shows "readClientFile env d' p = readClientFile env d p"
    and "readRegistrations env d' p = readRegistrations env d p" and "readRevoked d' p = readRevoked d p"
  using assms by (simp_all add: readClientFile_def readRegistrations_def readRevoked_def readFile_writeFile)

lemma write_clients_effect:
  assumes "console_ok env a" and "writeClientFile env d (ap_clientsPath a) cs = Inr d'"
    and "clients_of env a d = Inr cs0"
  shows "clients_of env a d' = Inr cs" "regs_of env a d' = regs_of env a d" "revoked_of a d' = revoked_of a d"
proof -
  have w: "writeFile d (ap_clientsPath a) (cn_encodeClients env cs) = Inr d'"
    using assms(2) by (auto simp: writeClientFile_def split: option.splits)
  show "clients_of env a d' = Inr cs"
    using assms(1) read_error_clients[OF assms(3)]
    by (simp add: readClientFile_def readFile_writeFile[OF w] console_ok_def)
  show "regs_of env a d' = regs_of env a d" "revoked_of a d' = revoked_of a d"
    using other_files[OF w] assms(1) by (auto simp: console_ok_def)
qed

lemma write_regs_effect:
  assumes "console_ok env a" and "writeRegistrations env d (ap_registerPath a) gs = Inr d'"
    and "regs_of env a d = Inr gs0"
  shows "regs_of env a d' = Inr gs" "clients_of env a d' = clients_of env a d" "revoked_of a d' = revoked_of a d"
proof -
  have w: "writeFile d (ap_registerPath a) (cn_encodeRegs env gs) = Inr d'"
    using assms(2) by (auto simp: writeRegistrations_def split: option.splits)
  show "regs_of env a d' = Inr gs"
    using assms(1) read_error_regs[OF assms(3)]
    by (simp add: readRegistrations_def readFile_writeFile[OF w] console_ok_def)
  show "clients_of env a d' = clients_of env a d" "revoked_of a d' = revoked_of a d"
    using other_files[OF w] assms(1) by (auto simp: console_ok_def)
qed

lemma store_regs_effect:
  assumes "console_ok env a" and "store_registrations env a d gs resp = (d', r)" and "regs_of env a d = Inr gs0"
  shows "d' = d \<and> co_status r = 500
       \<or> regs_of env a d' = Inr gs \<and> clients_of env a d' = clients_of env a d \<and> revoked_of a d' = revoked_of a d
         \<and> r = resp"
  using assms write_regs_effect[OF assms(1) _ assms(3), of gs]
  by (auto simp: store_registrations_def split: sum.splits)

lemma revoked_write_effect:
  assumes "console_ok env a"
    and "appendRevoked env d (ap_revokedPath a) cid = Inr d' \<or> removeRevoked d (ap_revokedPath a) cid = Inr d'"
  shows "clients_of env a d' = clients_of env a d" "regs_of env a d' = regs_of env a d"
proof -
  have "d' = d \<or> (\<exists>s. writeFile d (ap_revokedPath a) s = Inr d')"
    using assms(2) by (auto simp: appendRevoked_def removeRevoked_def appendFile_def
        split: sum.splits if_splits option.splits)
  then show "clients_of env a d' = clients_of env a d" "regs_of env a d' = regs_of env a d"
    using assms(1) other_files(1,2)[of d "ap_revokedPath a"] by (auto simp: console_ok_def)
qed

section \<open>Effects of the handlers\<close>

text \<open>Registering changes the registrations only, and only when the id is valid, free and well-tokened.\<close>

lemma registerEdge_effect:
  assumes ok: "console_ok env a" and h: "registerEdge env a now raw r d = (d', resp)"
  shows "d' = d \<and> co_status resp \<noteq> 202
    \<or> (\<exists>cs gs req. clients_of env a d = Inr cs \<and> regs_of env a d = Inr gs
        \<and> validClientID (rr_ID req) \<and> validInstallToken (rr_InstallToken req) \<and> rr_ID req \<notin> cc_id ` set cs
        \<and> (\<exists>req0. cn_decodeRegister env (take (16 * 1024) (cq_body r)) = Inr req0 \<and> rr_ID req = trimSpace (rr_ID req0)
             \<and> rr_InstallToken req = (if trimSpace (rr_InstallToken req0) = [] then randomString raw
                                      else trimSpace (rr_InstallToken req0)))
        \<and> regs_of env a d' = Inr (case refresh_pending r now req gs of
              Some gs' \<Rightarrow> gs' | None \<Rightarrow> gs @ [pending_registration a r now req])
        \<and> clients_of env a d' = Inr cs \<and> revoked_of a d' = revoked_of a d
        \<and> co_status resp = 202)"
proof (cases "cn_decodeRegister env (take (16 * 1024) (cq_body r))")
  case (Inl e)
  then show ?thesis using h by (auto simp: registerEdge_def)
next
  case (Inr req0)
  define req where "req = \<lparr>rr_ID = trimSpace (rr_ID req0), rr_Label = trimSpace (rr_Label req0),
      rr_InstallToken = (if trimSpace (rr_InstallToken req0) = [] then randomString raw
                         else trimSpace (rr_InstallToken req0))\<rparr>"
  have ids: "trimSpace (rr_ID req0) = rr_ID req"
    "(if trimSpace (rr_InstallToken req0) = [] then randomString raw else trimSpace (rr_InstallToken req0))
       = rr_InstallToken req"
    "\<lparr>rr_ID = rr_ID req, rr_Label = trimSpace (rr_Label req0), rr_InstallToken = rr_InstallToken req\<rparr> = req"
    by (simp_all add: req_def)
  show ?thesis
  proof (cases "validClientID (rr_ID req) \<and> validInstallToken (rr_InstallToken req)")
    case False
    then show ?thesis using h Inr
      by (auto simp: registerEdge_def Let_def req_def split: if_splits)
  next
    case True
    show ?thesis
    proof (cases "\<exists>cs gs. clients_of env a d = Inr cs \<and> rr_ID req \<notin> cc_id ` set cs \<and> regs_of env a d = Inr gs")
      case False
      then show ?thesis using h Inr True
        by (auto simp: registerEdge_def Let_def req_def split: sum.splits if_splits)
    next
      case c: True
      then obtain cs gs where cs: "clients_of env a d = Inr cs" "rr_ID req \<notin> cc_id ` set cs"
        and gs: "regs_of env a d = Inr gs" by blast
      have "store_registrations env a d (case refresh_pending r now req gs of
              Some gs' \<Rightarrow> gs' | None \<Rightarrow> gs @ [pending_registration a r now req])
            (console_json 202 (JStatus ''pending'')) = (d', resp)"
        using h True cs gs unfolding registerEdge_def Inr sum.case Let_def ids by simp
      note eff = store_regs_effect[OF ok this gs]
      have src: "\<exists>req0. cn_decodeRegister env (take (16 * 1024) (cq_body r)) = Inr req0
          \<and> rr_ID req = trimSpace (rr_ID req0)
          \<and> rr_InstallToken req = (if trimSpace (rr_InstallToken req0) = [] then randomString raw
                                   else trimSpace (rr_InstallToken req0))"
        using Inr by (intro exI[of _ req0]) (simp add: ids)
      show ?thesis
      proof (cases "d' = d \<and> co_status resp = 500")
        case F: True
        then show ?thesis by simp
      next
        case F: False
        show ?thesis
          using eff F True cs gs src by (intro disjI2 exI[of _ cs] exI[of _ gs] exI[of _ req]) auto
      qed
    qed
  qed
qed

text \<open>Approval appends one client with a fresh token; rejection touches the registrations only.\<close>

lemma find_index_Some:
  assumes "find_index P xs = Some i"
  shows "i < length xs" "P (xs ! i)" "j < i \<Longrightarrow> \<not> P (xs ! j)"
proof -
  have i: "i = length (takeWhile (\<lambda>x. \<not> P x) xs)" "i < length xs"
    using assms by (auto simp: find_index_def Let_def split: if_splits)
  then show "i < length xs" "P (xs ! i)" using nth_length_takeWhile[of "\<lambda>x. \<not> P x" xs] by auto
  assume j: "j < i"
  then have "takeWhile (\<lambda>x. \<not> P x) xs ! j = xs ! j" using i(1) by (simp add: takeWhile_nth)
  then show "\<not> P (xs ! j)" using j i(1) nth_mem[of j "takeWhile (\<lambda>x. \<not> P x) xs"] set_takeWhileD by metis
qed

lemma find_index_None: "find_index P xs = None \<longleftrightarrow> (\<forall>x\<in>set xs. \<not> P x)"
proof -
  have "length (takeWhile (\<lambda>x. \<not> P x) xs) < length xs \<longleftrightarrow> (\<exists>x\<in>set xs. P x)"
    by (induction xs) auto
  then show ?thesis by (auto simp: find_index_def Let_def)
qed

lemma registrationAction_effect:
  assumes ok: "console_ok env a" and h: "registrationAction env a now raw1 raw2 r d = (d', resp)"
  shows "d' = d \<and> co_status resp \<noteq> 200
    \<or> (\<exists>cid cs gs i. clients_of env a d = Inr cs \<and> regs_of env a d = Inr gs \<and> revoked_of a d' = revoked_of a d
        \<and> find_index (\<lambda>g. rg_ID g = cid) gs = Some i
        \<and> (parseRegistrationAction (cq_path r) = Some (cid, ''approve'') \<and> cid \<notin> cc_id ` set cs
             \<and> clients_of env a d' = Inr (cs @ [new_client cid (randomString raw1)])
             \<and> (regs_of env a d' = Inr (gs[i := approved now (randomString raw2) (gs ! i)])
                  \<and> resp = console_json 200 (JApproved (ap_publicURL a @ ''/api/install/''
                             @ rg_InstallToken (approved now (randomString raw2) (gs ! i))))
                \<or> regs_of env a d' = Inr gs \<and> co_status resp = 500)
           \<or> parseRegistrationAction (cq_path r) = Some (cid, ''reject'') \<and> clients_of env a d' = Inr cs
             \<and> regs_of env a d' = Inr (gs[i := (gs ! i)\<lparr>rg_Status := ''rejected'', rg_RejectedAt := now\<rparr>])))"
proof (cases "d' = d \<and> co_status resp \<noteq> 200")
  case False
  then obtain cid action gs cs i where p: "parseRegistrationAction (cq_path r) = Some (cid, action)"
    and gs: "regs_of env a d = Inr gs" and cs: "clients_of env a d = Inr cs"
    and i: "find_index (\<lambda>g. rg_ID g = cid) gs = Some i"
    using h by (auto simp: registrationAction_def split: option.splits sum.splits)
  show ?thesis
  proof (cases "action = ''approve''")
    case True
    let ?g = "approved now (randomString raw2) (gs ! i)"
    have free: "cid \<notin> cc_id ` set cs"
      using h p gs cs i True False by (auto simp: registrationAction_def split: if_splits)
    then obtain d1 where w: "writeClientFile env d (ap_clientsPath a) (cs @ [new_client cid (randomString raw1)]) = Inr d1"
      and st: "store_registrations env a d1 (gs[i := ?g])
        (console_json 200 (JApproved (ap_publicURL a @ ''/api/install/'' @ rg_InstallToken ?g))) = (d', resp)"
      using h p gs cs i True False by (auto simp: registrationAction_def Let_def split: sum.splits)
    note e1 = write_clients_effect[OF ok w cs]
    from store_regs_effect[OF ok st] e1 gs show ?thesis using p cs i free True by auto
  next
    case na: False
    then have rj: "action = ''reject''"
      using h p gs cs i False by (auto simp: registrationAction_def split: if_splits)
    then have "store_registrations env a d (gs[i := (gs ! i)\<lparr>rg_Status := ''rejected'', rg_RejectedAt := now\<rparr>])
        (console_json 200 JOk) = (d', resp)"
      using h p gs cs i by (simp add: registrationAction_def)
    from store_regs_effect[OF ok this gs] False show ?thesis using p cs gs i rj by auto
  qed
qed simp

text \<open>Delivery and verification touch one approved registration.\<close>

lemma installEdge_effect:
  assumes ok: "console_ok env a" and h: "installEdge env a now r d = (d', resp)"
  shows "d' = d \<and> co_status resp \<noteq> 200
    \<or> (\<exists>cs gs i token. token = trimPrefix (cq_path r) ''/api/install/''
        \<and> clients_of env a d = Inr cs \<and> regs_of env a d = Inr gs
        \<and> find_index (install_candidate token) gs = Some i \<and> rg_InstallUsedAt (gs ! i) = []
        \<and> client_token (rg_ID (gs ! i)) cs \<noteq> []
        \<and> clients_of env a d' = Inr cs \<and> revoked_of a d' = revoked_of a d \<and> co_status resp = 200
        \<and> (if wantsJSON r
           then regs_of env a d' = Inr (gs[i := (gs ! i)\<lparr>rg_InstallStatus := ''delivered''\<rparr>])
             \<and> co_body resp = JInstall (rg_ID (gs ! i)) (client_token (rg_ID (gs ! i)) cs) (edgeConfig a)
           else regs_of env a d' = Inr (gs[i := (gs ! i)\<lparr>rg_InstallUsedAt := now, rg_InstallStatus := ''delivered''\<rparr>])
             \<and> co_body resp = InstallScript (shellQuote (client_token (rg_ID (gs ! i)) cs)) (rg_ID (gs ! i))))"
proof (cases "co_status resp = 200")
  case False
  then show ?thesis using h
    by (auto simp: installEdge_def Let_def split: if_splits sum.splits option.splits)
next
  case True
  let ?t = "trimPrefix (cq_path r) ''/api/install/''"
  obtain gs cs i where gs: "regs_of env a d = Inr gs" and cs: "clients_of env a d = Inr cs"
    and i: "find_index (install_candidate ?t) gs = Some i"
    and u: "rg_InstallUsedAt (gs ! i) = []" "client_token (rg_ID (gs ! i)) cs \<noteq> []"
    and nb: "\<not> (?t = [] \<or> contains ?t ''/'')"
    using h True by (auto simp: installEdge_def Let_def split: if_splits sum.splits option.splits)
  show ?thesis
  proof (cases "wantsJSON r")
    case j: True
    then have "writeRegistrations env d (ap_registerPath a) (gs[i := (gs ! i)\<lparr>rg_InstallStatus := ''delivered''\<rparr>]) = Inr d'"
      and "resp = console_json 200 (JInstall (rg_ID (gs ! i)) (client_token (rg_ID (gs ! i)) cs) (edgeConfig a))"
      using h gs cs i u nb True by (auto simp: installEdge_def Let_def split: sum.splits if_splits)
    then show ?thesis using write_regs_effect[OF ok _ gs] gs cs i u j by auto
  next
    case j: False
    then have "writeRegistrations env d (ap_registerPath a)
        (gs[i := (gs ! i)\<lparr>rg_InstallUsedAt := now, rg_InstallStatus := ''delivered''\<rparr>]) = Inr d'"
      and "co_body resp = InstallScript (shellQuote (client_token (rg_ID (gs ! i)) cs)) (rg_ID (gs ! i))"
      using h gs cs i u nb True by (auto simp: installEdge_def Let_def split: sum.splits if_splits)
    then show ?thesis using write_regs_effect[OF ok _ gs] gs cs i u j True by auto
  qed
qed

lemma verifyInstall_effect:
  assumes ok: "console_ok env a" and h: "verifyInstall env a now r d = (d', resp)"
  shows "d' = d \<and> co_status resp \<noteq> 200
    \<or> (\<exists>gs i token. token = trimSuffix (trimPrefix (cq_path r) ''/api/install/'') ''/verified''
        \<and> regs_of env a d = Inr gs \<and> find_index (install_candidate token) gs = Some i
        \<and> regs_of env a d' = Inr (gs[i := (gs ! i)\<lparr>rg_InstallUsedAt := now, rg_InstallVerifiedAt := now,
              rg_InstallStatus := ''verified'', rg_InstallError := []\<rparr>])
        \<and> clients_of env a d' = clients_of env a d \<and> revoked_of a d' = revoked_of a d)"
proof (cases "d' = d \<and> co_status resp \<noteq> 200")
  case False
  let ?t = "trimSuffix (trimPrefix (cq_path r) ''/api/install/'') ''/verified''"
  obtain gs i where gs: "regs_of env a d = Inr gs" and i: "find_index (install_candidate ?t) gs = Some i"
    and st: "store_registrations env a d (gs[i := (gs ! i)\<lparr>rg_InstallUsedAt := now, rg_InstallVerifiedAt := now,
              rg_InstallStatus := ''verified'', rg_InstallError := []\<rparr>]) (console_json 200 JOk) = (d', resp)"
    using h False by (auto simp: verifyInstall_def Let_def split: if_splits sum.splits option.splits)
  from store_regs_effect[OF ok st gs] False show ?thesis using gs i by auto
qed simp

text \<open>Actions on clients keep ids and tokens; only \<open>limits\<close>, \<open>disable\<close> and \<open>enable\<close> write the client file.\<close>

lemma client_loop_keeps:
  "client_loop env cid action bodies cs = Inr (cs', found) \<Longrightarrow>
     map (\<lambda>c. (cc_id c, cc_token c)) cs' = map (\<lambda>c. (cc_id c, cc_token c)) cs
     \<and> (found \<longleftrightarrow> cid \<in> cc_id ` set cs)"
proof (induction env cid action bodies cs arbitrary: cs' found rule: client_loop.induct)
  case (2 env cid action bodies c cs)
  show ?case
  proof (cases "cc_id c = cid")
    case False
    then obtain cs1 f where "client_loop env cid action bodies cs = Inr (cs1, f)" "cs' = c # cs1" "found = f"
      using "2.prems" by (cases "client_loop env cid action bodies cs") auto
    then show ?thesis using "2.IH"(1)[OF False] False by auto
  next
    case True
    define x where "x = (if action = ''disable'' then Inr (c\<lparr>cc_disabled := True\<rparr>, bodies)
                  else if action = ''enable'' then Inr (c\<lparr>cc_disabled := False\<rparr>, bodies)
                  else if action = ''limits'' then
                    (case cn_decodeLimits env (take (16 * 1024) (case bodies of [] \<Rightarrow> [] | b # _ \<Rightarrow> b)) of
                       Inl _ \<Rightarrow> Inl (console_json 400 (JErr ''invalid JSON''))
                     | Inr req \<Rightarrow>
                         if \<not> limits_ok req
                         then Inl (console_json 400 (JErr ''limits must be between 0 and 1000000''))
                         else Inr (c\<lparr>cc_rate := lr_Rate req, cc_auto_signs := lr_Signs req,
                                     cc_auto_errors := lr_Errors req, cc_auto_revoke := lr_AutoRevoke req\<rparr>,
                                   drop 1 bodies))
                  else Inr (c, bodies))"
    have res: "(case x of Inl e \<Rightarrow> Inl e
        | Inr (c', bodies') \<Rightarrow> map_sum (\<lambda>e. e) (\<lambda>(cs', _). (c' # cs', True)) (client_loop env cid action bodies' cs))
        = Inr (cs', found)"
      using "2.prems" True unfolding client_loop.simps x_def[symmetric] by simp
    then obtain c' b' where x: "x = Inr (c', b')" by (cases x) auto
    have same: "cc_id c' = cc_id c" "cc_token c' = cc_token c"
      using x unfolding x_def by (auto split: if_splits sum.splits)
    obtain cs1 f where r: "client_loop env cid action b' cs = Inr (cs1, f)" "cs' = c' # cs1" "found"
      using res x by (cases "client_loop env cid action b' cs") auto
    have "map (\<lambda>c. (cc_id c, cc_token c)) cs1 = map (\<lambda>c. (cc_id c, cc_token c)) cs"
      using "2.IH"(2)[of "(c', b')" c' b' cs1 f] True x r(1) unfolding x_def by auto
    then show ?thesis using r same True by auto
  qed
qed auto

lemma clientAction_effect:
  assumes ok: "console_ok env a" and h: "clientAction env a r d = (d', resp)"
  shows "regs_of env a d' = regs_of env a d
    \<and> (d' = d
      \<or> (\<exists>cid action cs cs'. parseClientAction (cq_path r) = Some (cid, action) \<and> clients_of env a d = Inr cs
           \<and> clients_of env a d' = Inr cs'
           \<and> map (\<lambda>c. (cc_id c, cc_token c)) cs' = map (\<lambda>c. (cc_id c, cc_token c)) cs
           \<and> (action \<in> {''disable'', ''enable'', ''limits''} \<and> revoked_of a d' = revoked_of a d
             \<or> action = ''revoke'' \<and> appendRevoked env d (ap_revokedPath a) cid = Inr d'
             \<or> action = ''unrevoke'' \<and> removeRevoked d (ap_revokedPath a) cid = Inr d')))"
proof (cases "d' = d")
  case False
  then obtain cid action cs cs' found where p: "parseClientAction (cq_path r) = Some (cid, action)"
    and cs: "clients_of env a d = Inr cs" and lp: "client_loop env cid action [cq_body r] cs = Inr (cs', found)"
    using h by (auto simp: clientAction_def split: option.splits sum.splits)
  note keep = client_loop_keeps[OF lp]
  consider (store) "action \<in> {''disable'', ''enable'', ''limits''}" "writeClientFile env d (ap_clientsPath a) cs' = Inr d'"
    | (revoke) "action = ''revoke''" "appendRevoked env d (ap_revokedPath a) cid = Inr d'"
    | (unrevoke) "action = ''unrevoke''" "removeRevoked d (ap_revokedPath a) cid = Inr d'"
    using h p cs lp False
    by (auto simp: clientAction_def split: if_splits sum.splits)
  then show ?thesis
  proof cases
    case store
    then show ?thesis using write_clients_effect[OF ok store(2) cs] p cs keep by auto
  next
    case revoke
    then show ?thesis using revoked_write_effect[OF ok, of d cid d'] p cs by auto
  next
    case unrevoke
    then show ?thesis using revoked_write_effect[OF ok, of d cid d'] p cs by auto
  qed
qed simp

end
