(* ===== verification/ConsoleProps.thy ===== *)
theory ConsoleProps
  imports ConsoleState
begin

text \<open>
  The signer console over sequences of requests: the invariant of its files, who can add a client, what
  becomes of an install token, and what a registration can do to another's.
\<close>

section \<open>Runs\<close>

text \<open>One request: the formatted time, the random bytes drawn, and the request itself.\<close>

type_synonym console_event = "string \<times> string \<times> string \<times> console_request"

fun console_step :: "console_env \<Rightarrow> app \<Rightarrow> console_event \<Rightarrow> fs \<Rightarrow> fs" where
  "console_step env a (now, raw1, raw2, r) d =
     (case consoleHandler env a now raw1 raw2 r d of None \<Rightarrow> d | Some (d', _) \<Rightarrow> d')"

lemma consoleHandler_cases:
  assumes "consoleHandler env a now raw1 raw2 r d = Some (d', resp)"
  obtains "d' = d"
    | resp0 where "registerEdge env a now raw1 r d = (d', resp0)"
    | resp0 where "verifyInstall env a now r d = (d', resp0)"
    | resp0 where "installEdge env a now r d = (d', resp0)"
    | resp0 where "currentUser env a r \<noteq> None" "clientAction env a r d = (d', resp0)"
    | resp0 where "currentUser env a r \<noteq> None" "cq_method r = ''POST''"
        "registrationAction env a now raw1 raw2 r d = (d', resp0)"
  using assms by (auto simp: consoleHandler_def console_requireAdmin_def split: if_splits)

lemma console_step_cases:
  obtains "console_step env a (now, raw1, raw2, r) d = d"
    | resp0 where "registerEdge env a now raw1 r d = (console_step env a (now, raw1, raw2, r) d, resp0)"
    | resp0 where "verifyInstall env a now r d = (console_step env a (now, raw1, raw2, r) d, resp0)"
    | resp0 where "installEdge env a now r d = (console_step env a (now, raw1, raw2, r) d, resp0)"
    | resp0 where "currentUser env a r \<noteq> None"
        "clientAction env a r d = (console_step env a (now, raw1, raw2, r) d, resp0)"
    | resp0 where "currentUser env a r \<noteq> None" "cq_method r = ''POST''"
        "registrationAction env a now raw1 raw2 r d = (console_step env a (now, raw1, raw2, r) d, resp0)"
proof (cases "consoleHandler env a now raw1 raw2 r d")
  case None
  then show ?thesis using that by simp
next
  case (Some p)
  then obtain d' resp where h: "consoleHandler env a now raw1 raw2 r d = Some (d', resp)" by (cases p) auto
  then have "console_step env a (now, raw1, raw2, r) d = d'" by simp
  with h show ?thesis using that by (elim consoleHandler_cases) auto
qed

section \<open>The invariant of the files\<close>

definition reg_ok :: "edgeRegistration \<Rightarrow> bool" where
  "reg_ok g \<longleftrightarrow> validClientID (rg_ID g) \<and> validInstallToken (rg_InstallToken g)
     \<and> rg_Status g \<in> {''pending'', ''approved'', ''rejected''}"

definition pending_ids :: "edgeRegistration list \<Rightarrow> string list" where
  "pending_ids gs = map rg_ID (filter (\<lambda>g. rg_Status g = ''pending'') gs)"

definition regs_ok :: "edgeRegistration list \<Rightarrow> bool" where
  "regs_ok gs \<longleftrightarrow> (\<forall>g\<in>set gs. reg_ok g) \<and> distinct (pending_ids gs)"

definition clients_ok :: "ClientConfig list \<Rightarrow> bool" where
  "clients_ok cs \<longleftrightarrow> distinct (map cc_id cs) \<and> (\<forall>c\<in>set cs. validClientID (cc_id c))"

definition console_inv :: "console_env \<Rightarrow> app \<Rightarrow> fs \<Rightarrow> bool" where
  "console_inv env a d \<longleftrightarrow> console_ok env a
     \<and> (\<exists>cs gs. clients_of env a d = Inr cs \<and> regs_of env a d = Inr gs \<and> clients_ok cs \<and> regs_ok gs)"

lemma pending_ids_simps [simp]:
  "pending_ids [] = []"
  "pending_ids (g # gs) = (if rg_Status g = ''pending'' then rg_ID g # pending_ids gs else pending_ids gs)"
  "pending_ids (gs @ hs) = pending_ids gs @ pending_ids hs"
  by (simp_all add: pending_ids_def)

lemma set_pending_ids: "set (pending_ids gs) = {rg_ID g | g. g \<in> set gs \<and> rg_Status g = ''pending''}"
  by (auto simp: pending_ids_def)

lemma pending_ids_update:
  assumes "i < length gs" and "rg_ID g = rg_ID (gs ! i)" and "rg_Status g = rg_Status (gs ! i)"
  shows "pending_ids (gs[i := g]) = pending_ids gs"
  using assms by (induction gs arbitrary: i) (auto split: nat.splits)

lemma pending_ids_settle:
  assumes "rg_Status g \<noteq> ''pending''"
  shows "set (pending_ids (gs[i := g])) \<subseteq> set (pending_ids gs)
     \<and> (distinct (pending_ids gs) \<longrightarrow> distinct (pending_ids (gs[i := g])))"
  using assms by (induction gs arbitrary: i) (auto split: nat.splits)

lemma set_update_subsetD: "x \<in> set (xs[i := y]) \<Longrightarrow> x = y \<or> x \<in> set xs"
  using set_update_subset_insert[of xs i y] by auto

text \<open>An update of one registration that keeps its id and status, or that settles it.\<close>

lemma regs_ok_update:
  assumes "regs_ok gs" and "i < length gs" and "reg_ok g"
    and "rg_ID g = rg_ID (gs ! i) \<and> rg_Status g = rg_Status (gs ! i) \<or> rg_Status g \<noteq> ''pending''"
  shows "regs_ok (gs[i := g])"
  using assms pending_ids_update[of i gs g] pending_ids_settle[of g gs i]
  by (auto simp: regs_ok_def dest!: set_update_subsetD)

lemma regs_ok_nth: "regs_ok gs \<Longrightarrow> i < length gs \<Longrightarrow> reg_ok (gs ! i)"
  by (simp add: regs_ok_def)

lemma refresh_pending_Some:
  assumes "refresh_pending r now req gs = Some gs'"
  obtains i g where "i < length gs" "gs' = gs[i := g]" "rg_ID (gs ! i) = rr_ID req" "rg_Status (gs ! i) = ''pending''"
    "g = (gs ! i)\<lparr>rg_Label := rr_Label req, rg_RemoteAddr := clientAddress r, rg_RequestedAt := now,
                 rg_InstallToken := rr_InstallToken req, rg_InstallIssuedAt := now\<rparr>"
    "\<forall>j<i. \<not> (rg_ID (gs ! j) = rr_ID req \<and> rg_Status (gs ! j) = ''pending'')"
  using assms
proof (induction gs arbitrary: gs' thesis)
  case (Cons x gs)
  show ?case
  proof (cases "rg_ID x = rr_ID req \<and> rg_Status x = ''pending''")
    case True
    then show ?thesis using Cons.prems by (intro Cons.prems(1)[of 0]) auto
  next
    case False
    then obtain hs where hs: "refresh_pending r now req gs = Some hs" "gs' = x # hs"
      using Cons.prems(2) by auto
    from Cons.IH[OF _ hs(1)] obtain i g where
      i: "i < length gs" "hs = gs[i := g]" "rg_ID (gs ! i) = rr_ID req" "rg_Status (gs ! i) = ''pending''"
      "g = (gs ! i)\<lparr>rg_Label := rr_Label req, rg_RemoteAddr := clientAddress r, rg_RequestedAt := now,
                 rg_InstallToken := rr_InstallToken req, rg_InstallIssuedAt := now\<rparr>"
      "\<forall>j<i. \<not> (rg_ID (gs ! j) = rr_ID req \<and> rg_Status (gs ! j) = ''pending'')" by blast
    show ?thesis
      using i hs(2) False by (intro Cons.prems(1)[of "Suc i" g]) (auto simp: less_Suc_eq_0_disj)
  qed
qed simp

lemma refresh_pending_None:
  "refresh_pending r now req gs = None \<longleftrightarrow> rr_ID req \<notin> set (pending_ids gs)"
  by (induction gs) auto

lemma regs_ok_register:
  assumes "regs_ok gs" and "validClientID (rr_ID req)" and "validInstallToken (rr_InstallToken req)"
  shows "regs_ok (case refresh_pending r now req gs of
           Some gs' \<Rightarrow> gs' | None \<Rightarrow> gs @ [pending_registration a r now req])"
proof (cases "refresh_pending r now req gs")
  case None
  then have "rr_ID req \<notin> set (pending_ids gs)" by (simp add: refresh_pending_None)
  then have "regs_ok (gs @ [pending_registration a r now req])" using assms
    by (auto simp: regs_ok_def reg_ok_def pending_registration_def)
  then show ?thesis using None by (simp only: option.case)
next
  case (Some gs')
  then obtain i g where i: "i < length gs" "gs' = gs[i := g]" "rg_ID (gs ! i) = rr_ID req"
      "rg_Status (gs ! i) = ''pending''"
    and g: "g = (gs ! i)\<lparr>rg_Label := rr_Label req, rg_RemoteAddr := clientAddress r, rg_RequestedAt := now,
                 rg_InstallToken := rr_InstallToken req, rg_InstallIssuedAt := now\<rparr>"
    by (rule refresh_pending_Some)
  have "regs_ok (gs[i := g])"
    using assms i regs_ok_nth[OF assms(1) i(1)] by (intro regs_ok_update) (auto simp: g reg_ok_def)
  then show ?thesis using Some i(2) by simp
qed

lemma approved_simps [simp]:
  "rg_ID (approved now t g) = rg_ID g" "rg_Status (approved now t g) = ''approved''"
  "rg_InstallToken (approved now t g) = (if rg_InstallToken g = [] then t else rg_InstallToken g)"
  "rg_InstallUsedAt (approved now t g) = []"
  by (simp_all add: approved_def Let_def)

lemma validInstallToken_nonempty: "validInstallToken t \<Longrightarrow> t \<noteq> []"
  by (auto simp: validInstallToken_def)

lemma reg_ok_approved: "reg_ok g \<Longrightarrow> reg_ok (approved now t g)"
  by (auto simp: reg_ok_def dest: validInstallToken_nonempty)

lemma client_ids_of_keys:
  assumes "map (\<lambda>c. (cc_id c, cc_token c)) cs' = map (\<lambda>c. (cc_id c, cc_token c)) cs"
  shows "map cc_id cs' = map cc_id cs"
proof -
  have "map fst (map (\<lambda>c. (cc_id c, cc_token c)) cs') = map fst (map (\<lambda>c. (cc_id c, cc_token c)) cs)"
    using assms by simp
  then show ?thesis by (simp add: comp_def)
qed

lemma clients_ok_ids: "map cc_id cs' = map cc_id cs \<Longrightarrow> clients_ok cs' = clients_ok cs"
proof -
  assume m: "map cc_id cs' = map cc_id cs"
  have "set (map cc_id cs') = set (map cc_id cs)" by (simp only: m)
  then have "(\<forall>c\<in>set cs'. validClientID (cc_id c)) = (\<forall>c\<in>set cs. validClientID (cc_id c))"
    by (metis (no_types, lifting) image_iff list.set_map)
  then show ?thesis using m by (simp add: clients_ok_def)
qed

lemma console_invI:
  "console_ok env a \<Longrightarrow> clients_of env a d = Inr cs \<Longrightarrow> regs_of env a d = Inr gs \<Longrightarrow>
   clients_ok cs \<Longrightarrow> regs_ok gs \<Longrightarrow> console_inv env a d"
  by (auto simp: console_inv_def)

lemma console_invE:
  assumes "console_inv env a d"
  obtains cs gs where "console_ok env a" "clients_of env a d = Inr cs" "regs_of env a d = Inr gs"
    "clients_ok cs" "regs_ok gs"
  using assms by (auto simp: console_inv_def)

text \<open>Each handler keeps the invariant.\<close>

lemma registerEdge_inv [preserves]:
  assumes inv: "console_inv env a d" and h: "registerEdge env a now raw r d = (d', resp)"
  shows "console_inv env a d'"
proof -
  obtain cs gs where b: "console_ok env a" "clients_of env a d = Inr cs" "regs_of env a d = Inr gs"
    "clients_ok cs" "regs_ok gs" using inv by (rule console_invE)
  from registerEdge_effect[OF b(1) h] show ?thesis
  proof
    assume "d' = d \<and> co_status resp \<noteq> 202"
    then show ?thesis using inv by simp
  next
    assume "\<exists>cs gs req. clients_of env a d = Inr cs \<and> regs_of env a d = Inr gs
        \<and> validClientID (rr_ID req) \<and> validInstallToken (rr_InstallToken req) \<and> rr_ID req \<notin> cc_id ` set cs
        \<and> (\<exists>req0. cn_decodeRegister env (take (16 * 1024) (cq_body r)) = Inr req0 \<and> rr_ID req = trimSpace (rr_ID req0)
             \<and> rr_InstallToken req = (if trimSpace (rr_InstallToken req0) = [] then randomString raw
                                      else trimSpace (rr_InstallToken req0)))
        \<and> regs_of env a d' = Inr (case refresh_pending r now req gs of
              Some gs' \<Rightarrow> gs' | None \<Rightarrow> gs @ [pending_registration a r now req])
        \<and> clients_of env a d' = Inr cs \<and> revoked_of a d' = revoked_of a d
        \<and> co_status resp = 202"
    then obtain req where req: "validClientID (rr_ID req)" "validInstallToken (rr_InstallToken req)"
      "regs_of env a d' = Inr (case refresh_pending r now req gs of
          Some gs' \<Rightarrow> gs' | None \<Rightarrow> gs @ [pending_registration a r now req])"
      "clients_of env a d' = Inr cs"
      using b(2,3) by auto
    show ?thesis using console_invI[OF b(1) req(4,3) b(4) regs_ok_register[OF b(5) req(1,2)]] .
  qed
qed

lemma registrationAction_inv [preserves]:
  assumes inv: "console_inv env a d" and h: "registrationAction env a now raw1 raw2 r d = (d', resp)"
  shows "console_inv env a d'"
proof -
  obtain cs gs where b: "console_ok env a" "clients_of env a d = Inr cs" "regs_of env a d = Inr gs"
    "clients_ok cs" "regs_ok gs" using inv by (rule console_invE)
  show ?thesis
  proof (cases "d' = d")
    case False
    then obtain cid i where i: "find_index (\<lambda>g. rg_ID g = cid) gs = Some i"
      and e: "(cid \<notin> cc_id ` set cs \<and> clients_of env a d' = Inr (cs @ [new_client cid (randomString raw1)])
               \<and> (regs_of env a d' = Inr (gs[i := approved now (randomString raw2) (gs ! i)])
                  \<or> regs_of env a d' = Inr gs))
            \<or> clients_of env a d' = Inr cs
               \<and> regs_of env a d' = Inr (gs[i := (gs ! i)\<lparr>rg_Status := ''rejected'', rg_RejectedAt := now\<rparr>])"
      using registrationAction_effect[OF b(1) h] b(2,3) by auto
    have v: "i < length gs" "rg_ID (gs ! i) = cid" using find_index_Some[OF i] by auto
    note g = regs_ok_nth[OF b(5) v(1)]
    have ok1: "regs_ok (gs[i := approved now (randomString raw2) (gs ! i)])"
      using g by (intro regs_ok_update[OF b(5) v(1)] reg_ok_approved) auto
    have ok2: "regs_ok (gs[i := (gs ! i)\<lparr>rg_Status := ''rejected'', rg_RejectedAt := now\<rparr>])"
      using g by (intro regs_ok_update[OF b(5) v(1)]) (auto simp: reg_ok_def)
    have ok3: "clients_ok (cs @ [new_client cid t])" if "cid \<notin> cc_id ` set cs" for t
      using b(4) that g v(2) by (auto simp: clients_ok_def new_client_def reg_ok_def)
    from e show ?thesis using b(1,4,5) ok1 ok2 ok3 by (auto intro: console_invI)
  qed (simp add: inv)
qed

lemma clientAction_inv [preserves]:
  assumes inv: "console_inv env a d" and h: "clientAction env a r d = (d', resp)"
  shows "console_inv env a d'"
proof -
  obtain cs gs where b: "console_ok env a" "clients_of env a d = Inr cs" "regs_of env a d = Inr gs"
    "clients_ok cs" "regs_ok gs" using inv by (rule console_invE)
  note e = clientAction_effect[OF b(1) h]
  show ?thesis
  proof (cases "d' = d")
    case False
    then obtain cs' where c: "clients_of env a d' = Inr cs'"
      and k: "map (\<lambda>c. (cc_id c, cc_token c)) cs' = map (\<lambda>c. (cc_id c, cc_token c)) cs"
      using e unfolding b(2) by (elim conjE disjE exE) (simp_all, blast?)
    have r: "regs_of env a d' = Inr gs" using conjunct1[OF e] b(3) by simp
    show ?thesis using console_invI[OF b(1) c r _ b(5)] b(4) clients_ok_ids[OF client_ids_of_keys[OF k]] by simp
  qed (simp add: inv)
qed

definition same_registration :: "edgeRegistration \<Rightarrow> edgeRegistration \<Rightarrow> bool" where
  "same_registration g g0 \<longleftrightarrow> rg_ID g = rg_ID g0 \<and> rg_Status g = rg_Status g0 \<and> rg_InstallToken g = rg_InstallToken g0"

lemma installEdge_update:
  assumes ok: "console_ok env a" and h: "installEdge env a now r d = (d', resp)" and n: "d' \<noteq> d"
    and gs: "regs_of env a d = Inr gs"
  shows "\<exists>t i g. find_index (install_candidate t) gs = Some i \<and> regs_of env a d' = Inr (gs[i := g])
    \<and> same_registration g (gs ! i) \<and> clients_of env a d' = clients_of env a d \<and> rg_InstallUsedAt (gs ! i) = []"
proof -
  obtain t cs i where i: "find_index (install_candidate t) gs = Some i" and c: "clients_of env a d' = clients_of env a d"
    and u: "rg_InstallUsedAt (gs ! i) = []"
    and r: "if wantsJSON r
           then regs_of env a d' = Inr (gs[i := (gs ! i)\<lparr>rg_InstallStatus := ''delivered''\<rparr>])
             \<and> co_body resp = JInstall (rg_ID (gs ! i)) (client_token (rg_ID (gs ! i)) cs) (edgeConfig a)
           else regs_of env a d' = Inr (gs[i := (gs ! i)\<lparr>rg_InstallUsedAt := now, rg_InstallStatus := ''delivered''\<rparr>])
             \<and> co_body resp = InstallScript (shellQuote (client_token (rg_ID (gs ! i)) cs)) (rg_ID (gs ! i))"
    using installEdge_effect[OF ok h] n unfolding gs by auto
  show ?thesis
  proof (cases "wantsJSON r")
    case True
    then show ?thesis using r i c u
      by (intro exI[of _ t] exI[of _ i] exI[of _ "(gs ! i)\<lparr>rg_InstallStatus := ''delivered''\<rparr>"])
         (simp add: same_registration_def)
  next
    case False
    then show ?thesis using r i c u
      by (intro exI[of _ t] exI[of _ i]
            exI[of _ "(gs ! i)\<lparr>rg_InstallUsedAt := now, rg_InstallStatus := ''delivered''\<rparr>"])
         (simp add: same_registration_def)
  qed
qed

lemma verifyInstall_update:
  assumes ok: "console_ok env a" and h: "verifyInstall env a now r d = (d', resp)" and n: "d' \<noteq> d"
    and gs: "regs_of env a d = Inr gs"
  shows "\<exists>t i g. find_index (install_candidate t) gs = Some i \<and> regs_of env a d' = Inr (gs[i := g])
    \<and> same_registration g (gs ! i) \<and> clients_of env a d' = clients_of env a d \<and> rg_InstallUsedAt g = now"
proof -
  obtain t i where i: "find_index (install_candidate t) gs = Some i" and c: "clients_of env a d' = clients_of env a d"
    and r: "regs_of env a d' = Inr (gs[i := (gs ! i)\<lparr>rg_InstallUsedAt := now, rg_InstallVerifiedAt := now,
              rg_InstallStatus := ''verified'', rg_InstallError := []\<rparr>])"
    using verifyInstall_effect[OF ok h] n unfolding gs by auto
  show ?thesis using r i c
    by (intro exI[of _ t] exI[of _ i] exI[of _ "(gs ! i)\<lparr>rg_InstallUsedAt := now, rg_InstallVerifiedAt := now,
              rg_InstallStatus := ''verified'', rg_InstallError := []\<rparr>"])
       (simp add: same_registration_def)
qed

lemma install_inv [preserves]:
  assumes inv: "console_inv env a d"
    and h: "installEdge env a now r d = (d', resp) \<or> verifyInstall env a now r d = (d', resp)"
  shows "console_inv env a d'"
proof -
  obtain cs gs where b: "console_ok env a" "clients_of env a d = Inr cs" "regs_of env a d = Inr gs"
    "clients_ok cs" "regs_ok gs" using inv by (rule console_invE)
  show ?thesis
  proof (cases "d' = d")
    case False
    obtain t i g where i: "find_index (install_candidate t) gs = Some i"
      and e: "regs_of env a d' = Inr (gs[i := g])" "clients_of env a d' = Inr cs"
      and g: "same_registration g (gs ! i)"
      using h installEdge_update[OF b(1) _ False b(3)] verifyInstall_update[OF b(1) _ False b(3)] b(2) by metis
    have v: "i < length gs" using find_index_Some[OF i] by auto
    have "regs_ok (gs[i := g])"
      using regs_ok_nth[OF b(5) v] g
      by (intro regs_ok_update[OF b(5) v]) (auto simp: reg_ok_def same_registration_def)
    then show ?thesis using e b by (auto intro: console_invI)
  qed (simp add: inv)
qed

interpretation console: invariant_system "console_step env a" "console_inv env a" for env a
proof
  fix d :: fs and e :: console_event
  assume inv: "console_inv env a d"
  obtain now raw1 raw2 r where e: "e = (now, raw1, raw2, r)" by (metis prod.exhaust)
  show "console_inv env a (console_step env a e d)"
    using inv unfolding e
    by (cases rule: console_step_cases[of env a now raw1 raw2 r d])
       (auto simp del: console_step.simps intro: preserves)
qed

end
