(* ===== verification/ConsoleSamples.thy ===== *)
theory ConsoleSamples
  imports ConsoleProps
begin

text \<open>
  Signed values and shell words of the console with their round trips, and a console with concrete files
  on which its handlers evaluate.
\<close>

section \<open>Signed values\<close>

lemma verifiedPayload_signValue:
  "CHR ''.'' \<notin> set v \<Longrightarrow> verifiedPayload env a (signValue env a v) = (v, True)"
  by (simp add: verifiedPayload_def signValue_def hexc.dec_enc)

lemma verifiedPayload_ok:
  assumes "verifiedPayload env a s = (v, True)"
  shows "\<exists>sig. s = v @ ''.'' @ sig \<and> CHR ''.'' \<notin> set v \<and> hexDecode sig = Some (cn_hmac env (ap_sessionKey a) v)"
proof (cases "CHR ''.'' \<in> set s")
  case True
  then obtain p q where s: "s = p @ CHR ''.'' # q" "CHR ''.'' \<notin> set p" by (meson split_list_first)
  then show ?thesis using assms by (auto simp: verifiedPayload_def split: option.splits)
qed (use assms in \<open>simp add: verifiedPayload_def\<close>)

lemma url_no_dot: "CHR ''.'' \<notin> set (rawURLEncode s)"
proof -
  have "CHR ''.'' \<notin> set url_alphabet" by code_simp
  then show ?thesis using rawURLEncode_safe[of s] by auto
qed

section \<open>Shell words\<close>

text \<open>
  How \<open>sh\<close> reads one word made of plain safe characters, single-quoted and double-quoted text (POSIX shell,
  quoting); double quotes around the characters it would expand are left out.
\<close>

datatype sh_mode = Unquoted | Single | Double

fun sh_word :: "sh_mode \<Rightarrow> string \<Rightarrow> string option" where
  "sh_word m [] = (if m = Unquoted then Some [] else None)"
| "sh_word Unquoted (c # cs) =
     (if c = CHR 0x27 then sh_word Single cs
      else if c = CHR 0x22 then sh_word Double cs
      else if id_char c then map_option ((#) c) (sh_word Unquoted cs) else None)"
| "sh_word Single (c # cs) = (if c = CHR 0x27 then sh_word Unquoted cs else map_option ((#) c) (sh_word Single cs))"
| "sh_word Double (c # cs) =
     (if c = CHR 0x22 then sh_word Unquoted cs
      else if c \<in> {CHR ''$'', CHR 0x60, CHR 0x5C} then None else map_option ((#) c) (sh_word Double cs))"

lemma sh_word_single:
  "sh_word Single (concat (map (\<lambda>c. if c = CHR 0x27 then [CHR 0x27, CHR 0x22, CHR 0x27, CHR 0x22, CHR 0x27]
                                   else [c]) v) @ rest) = map_option ((@) v) (sh_word Single rest)"
proof (induction v)
  case Nil
  then show ?case by (cases "sh_word Single rest") auto
next
  case (Cons c v)
  then show ?case by (cases "sh_word Single rest") auto
qed

interpretation shq: codec shellQuote "sh_word Unquoted"
  by unfold_locales (simp add: shellQuote_def sh_word_single)

section \<open>Evaluating the sample console\<close>

lemma sample_paths [simp]:
  "ap_clientsPath sample_app = ''clients''" "ap_registerPath sample_app = ''regs''"
  "ap_revokedPath sample_app = ''revoked''" "ap_publicURL sample_app = ''https://console''"
  "ap_edgeKeylessURL sample_app = ''https://s''"
  by (simp_all add: sample_app_def)

lemma sample_mkdir [simp]: "cn_mkdir sample_env p = None"
  by (simp add: sample_env_def)

lemma sample_reads [simp]:
  "readClientFile sample_env (sample_files cs gs) ''clients'' = Inr cs"
  "readRegistrations sample_env (sample_files cs gs) ''regs'' = Inr gs"
  by (simp_all add: readClientFile_def readRegistrations_def sample_files_def clean_fs_def readFile_def sample_codec)

lemma sample_writes [simp]:
  "writeClientFile sample_env (sample_files cs gs) ''clients'' cs' = Inr (sample_files cs' gs)"
  "writeRegistrations sample_env (sample_files cs gs) ''regs'' gs' = Inr (sample_files cs gs')"
  by (simp_all add: writeClientFile_def writeRegistrations_def writeFile_def sample_files_def clean_fs_def
      fun_upd_twist)

lemma sample_store [simp]:
  "store_registrations sample_env sample_app (sample_files cs gs) gs' resp = (sample_files cs gs', resp)"
  by (simp add: store_registrations_def)

definition sample_reg :: "string \<Rightarrow> string \<Rightarrow> string \<Rightarrow> edgeRegistration" where
  "sample_reg cid status token =
     \<lparr>rg_ID = cid, rg_Label = [], rg_Status = status, rg_RemoteAddr = [], rg_RequestedAt = [], rg_ApprovedAt = [],
      rg_RejectedAt = [], rg_InstallToken = token, rg_InstallIssuedAt = [], rg_InstallUsedAt = [],
      rg_InstallVerifiedAt = [], rg_InstallStatus = [], rg_InstallError = []\<rparr>"

lemma sample_reg_simps [simp]:
  "rg_ID (sample_reg c s t) = c" "rg_Status (sample_reg c s t) = s" "rg_InstallToken (sample_reg c s t) = t"
  "rg_InstallUsedAt (sample_reg c s t) = []" "rg_InstallStatus (sample_reg c s t) = []"
  by (simp_all add: sample_reg_def)

definition sample_cookie :: string where
  "sample_cookie = signValue sample_env sample_app (rawURLEncode ''s'')"

definition sample_request :: "string \<Rightarrow> string \<Rightarrow> string \<Rightarrow> string option \<Rightarrow> console_request" where
  "sample_request method path body cookie =
     \<lparr>cq_method = method, cq_path = path, cq_query = (\<lambda>k. if k = ''format'' then ''json'' else []), cq_header = [],
      cq_cookie = (\<lambda>_. cookie), cq_remote = ''peer'', cq_body = body\<rparr>"

lemma sample_request_simps [simp]:
  "cq_method (sample_request m p b c) = m" "cq_path (sample_request m p b c) = p"
  "cq_body (sample_request m p b c) = b" "cq_cookie (sample_request m p b c) n = c"
  "cq_remote (sample_request m p b c) = ''peer''" "wantsJSON (sample_request m p b c)"
  by (simp_all add: sample_request_def wantsJSON_def)

lemma sample_anonymous [simp]: "currentUser sample_env sample_app (sample_request m p b None) = None"
  by (simp add: currentUser_def)

lemma sample_admin [simp]:
  "currentUser sample_env sample_app (sample_request m p b (Some sample_cookie))
     = Some \<lparr>me_Email = ''e'', me_DisplayName = ''n'', me_Role = ''system_admin''\<rparr>"
proof -
  have "verifiedPayload sample_env sample_app sample_cookie = (rawURLEncode ''s'', True)"
    unfolding sample_cookie_def by (rule verifiedPayload_signValue) (rule url_no_dot)
  moreover have "fetchMe sample_env sample_app t = Inr \<lparr>me_Email = ''e'', me_DisplayName = ''n'', me_Role = ''system_admin''\<rparr>" for t
    by (simp add: fetchMe_def sample_env_def ReadJSON_def)
  ultimately show ?thesis by (simp add: currentUser_def urlc.dec_enc) (simp add: sample_env_def)
qed

lemma sample_register [simp]:
  "cn_decodeRegister sample_env s = Inr \<lparr>rr_ID = ''edge'', rr_Label = ''edge'', rr_InstallToken = s\<rparr>"
  by (simp add: sample_env_def)

definition install_name :: string where "install_name = replicate 32 (CHR ''i'')"
definition other_name :: string where "other_name = replicate 32 (CHR ''j'')"

lemma names [simp]:
  "validInstallToken install_name" "validInstallToken other_name" "validClientID ''edge''"
  "install_name \<noteq> []" "other_name \<noteq> []" "install_name \<noteq> other_name" "other_name \<noteq> install_name"
  "trimSpace install_name = install_name" "trimSpace other_name = other_name" "trimSpace ''edge'' = ''edge''"
  by code_simp+

lemma names_no_slash [simp]: "\<not> contains install_name ''/''" "\<not> contains other_name ''/''"
  by code_simp+

lemma hasPrefix_append [simp]: "hasPrefix (p @ s) p"
  by (simp add: hasPrefix_iff)

lemma sample_parse [simp]:
  "parseRegistrationAction ''/api/registrations/edge/approve'' = Some (''edge'', ''approve'')"
  "parseClientAction ''/api/clients/edge/revoke'' = Some (''edge'', ''revoke'')"
  by code_simp+

lemma find_index_simps [simp]:
  "find_index P [] = None"
  "find_index P (x # xs) = (if P x then Some 0 else map_option Suc (find_index P xs))"
  by (auto simp: find_index_def Let_def)

end
