(* ===== verification/ConsoleTheorems.thy ===== *)
theory ConsoleTheorems
  imports ConsoleSamples
begin

text \<open>
  The properties of the signer console: who can add a client, to whom a signer token is disclosed, when an
  install token is spent, and how registrations of one id interfere.
\<close>

section \<open>The files stay well formed\<close>

text \<open>
  C16. From well-formed files, after any sequence of requests, whatever they contain, the client and registration files are readable,
  client ids are distinct and valid, every registration has a valid id, install token and status, and no two
  pending registrations have the same id.
\<close>

theorem console_files_wellformed:
  assumes "console_inv env a d"
  shows "\<exists>cs gs. clients_of env a (fold (console_step env a) es d) = Inr cs
     \<and> regs_of env a (fold (console_step env a) es d) = Inr gs
     \<and> distinct (map cc_id cs) \<and> (\<forall>c\<in>set cs. validClientID (cc_id c))
     \<and> (\<forall>g\<in>set gs. reg_ok g) \<and> distinct (pending_ids gs)"
  using console.run_inv[OF assms, of es] by (rule console_invE) (auto simp: clients_ok_def regs_ok_def)

theorem console_files_wellformed_witness:
  "\<exists>cs gs. clients_of sample_env sample_app (fold (console_step sample_env sample_app)
       [(''t'', ''r1'', ''r2'', sample_request ''POST'' ''/api/register'' install_name None)] (sample_files [] [])) = Inr cs
     \<and> regs_of sample_env sample_app (fold (console_step sample_env sample_app)
       [(''t'', ''r1'', ''r2'', sample_request ''POST'' ''/api/register'' install_name None)] (sample_files [] [])) = Inr gs
     \<and> distinct (map cc_id cs) \<and> (\<forall>c\<in>set cs. validClientID (cc_id c))
     \<and> (\<forall>g\<in>set gs. reg_ok g) \<and> distinct (pending_ids gs)"
proof (rule console_files_wellformed)
  show "console_inv sample_env sample_app (sample_files [] [])"
    by (simp add: console_inv_def sample_ok clients_ok_def regs_ok_def)
qed

section \<open>Clients come from administrators\<close>

definition grants :: "console_env \<Rightarrow> app \<Rightarrow> fs \<Rightarrow> (string \<times> string) set" where
  "grants env a d =
     (if console_ok env a
      then (case clients_of env a d of Inl _ \<Rightarrow> {} | Inr cs \<Rightarrow> (\<lambda>c. (cc_id c, cc_token c)) ` set cs) else {})"

fun admin_approval :: "console_env \<Rightarrow> app \<Rightarrow> string \<Rightarrow> string \<Rightarrow> console_event \<Rightarrow> bool" where
  "admin_approval env a cid tok (now, raw1, raw2, r) \<longleftrightarrow>
     currentUser env a r \<noteq> None \<and> cq_method r = ''POST''
     \<and> parseRegistrationAction (cq_path r) = Some (cid, ''approve'') \<and> tok = randomString raw1"

lemma grants_eq: "console_ok env a \<Longrightarrow> clients_of env a d = Inr cs \<Longrightarrow>
    grants env a d = (\<lambda>c. (cc_id c, cc_token c)) ` set cs"
  by (simp add: grants_def)

lemma grants_cong: "clients_of env a d' = clients_of env a d \<Longrightarrow> grants env a d' = grants env a d"
  by (simp add: grants_def)

lemma registerEdge_grants: "console_ok env a \<Longrightarrow> registerEdge env a now raw r d = (d', resp) \<Longrightarrow>
    grants env a d' = grants env a d"
  by (rule grants_cong) (use registerEdge_effect in fastforce)

lemma installEdge_grants: "console_ok env a \<Longrightarrow> installEdge env a now r d = (d', resp) \<Longrightarrow>
    grants env a d' = grants env a d"
  by (rule grants_cong) (use installEdge_effect in fastforce)

lemma verifyInstall_grants: "console_ok env a \<Longrightarrow> verifyInstall env a now r d = (d', resp) \<Longrightarrow>
    grants env a d' = grants env a d"
  by (rule grants_cong) (use verifyInstall_effect in fastforce)

lemma clientAction_grants:
  assumes ok: "console_ok env a" and h: "clientAction env a r d = (d', resp)"
  shows "grants env a d' = grants env a d"
proof (cases "d' = d")
  case False
  then obtain cs cs' where c: "clients_of env a d = Inr cs" "clients_of env a d' = Inr cs'"
    and k: "map (\<lambda>c. (cc_id c, cc_token c)) cs' = map (\<lambda>c. (cc_id c, cc_token c)) cs"
    using clientAction_effect[OF ok h] by blast
  have "set (map (\<lambda>c. (cc_id c, cc_token c)) cs') = set (map (\<lambda>c. (cc_id c, cc_token c)) cs)" by (simp only: k)
  then show ?thesis by (simp add: grants_eq[OF ok c(1)] grants_eq[OF ok c(2)])
qed simp

lemma registrationAction_grants:
  assumes ok: "console_ok env a" and h: "registrationAction env a now raw1 raw2 r d = (d', resp)"
  shows "grants env a d' = grants env a d
    \<or> (\<exists>cid. parseRegistrationAction (cq_path r) = Some (cid, ''approve'')
         \<and> grants env a d' = insert (cid, randomString raw1) (grants env a d))"
proof (cases "d' = d")
  case False
  then obtain cid cs where cs: "clients_of env a d = Inr cs"
    and e: "parseRegistrationAction (cq_path r) = Some (cid, ''approve'')
              \<and> clients_of env a d' = Inr (cs @ [new_client cid (randomString raw1)])
            \<or> clients_of env a d' = Inr cs"
    using registrationAction_effect[OF ok h] by blast
  from e show ?thesis
  proof
    assume A: "parseRegistrationAction (cq_path r) = Some (cid, ''approve'')
              \<and> clients_of env a d' = Inr (cs @ [new_client cid (randomString raw1)])"
    then have "grants env a d' = insert (cid, randomString raw1) (grants env a d)"
      using grants_eq[OF ok cs] grants_eq[OF ok conjunct2[OF A]] by (simp add: new_client_def)
    with A show ?thesis by blast
  next
    assume "clients_of env a d' = Inr cs"
    then show ?thesis using cs by (intro disjI1 grants_cong) simp
  qed
qed simp

lemma grants_step:
  "grants env a (console_step env a e d) = grants env a d
   \<or> (\<exists>cid tok. admin_approval env a cid tok e
        \<and> grants env a (console_step env a e d) = insert (cid, tok) (grants env a d))"
proof (cases "console_ok env a")
  case ok: True
  obtain now raw1 raw2 r where e: "e = (now, raw1, raw2, r)" by (metis prod.exhaust)
  show ?thesis unfolding e
  proof (cases rule: console_step_cases[of env a now raw1 raw2 r d])
    case (6 resp0)
    from registrationAction_grants[OF ok 6(3)] 6(1,2) show
      "grants env a (console_step env a (now, raw1, raw2, r) d) = grants env a d
       \<or> (\<exists>cid tok. admin_approval env a cid tok (now, raw1, raw2, r)
        \<and> grants env a (console_step env a (now, raw1, raw2, r) d) = insert (cid, tok) (grants env a d))"
      by (auto simp del: console_step.simps)
  qed (simp_all del: console_step.simps add: registerEdge_grants[OF ok] verifyInstall_grants[OF ok]
        installEdge_grants[OF ok] clientAction_grants[OF ok])
qed (simp add: grants_def)

interpretation grant: monotone_system "console_step env a" "grants env a" for env a
  using grants_step by unfold_locales blast

lemma grants_run:
  "(cid, tok) \<in> grants env a (fold (console_step env a) es d) \<Longrightarrow>
   (cid, tok) \<in> grants env a d \<or> (\<exists>e\<in>set es. admin_approval env a cid tok e)"
proof (induction es arbitrary: d)
  case (Cons e es)
  then have "(cid, tok) \<in> grants env a (console_step env a e d) \<or> (\<exists>e\<in>set es. admin_approval env a cid tok e)"
    by simp
  then show ?case using grants_step[of env a e d] by auto
qed simp

text \<open>
  Only an administrator adds a client: every client id and token in the client file after any sequence
  of requests was there before, or an authenticated system_admin approved that id in the sequence and the
  token is the one drawn by that approval.
\<close>

theorem only_admin_adds_client:
  assumes "(cid, tok) \<in> grants env a (fold (console_step env a) es d)"
  shows "(cid, tok) \<in> grants env a d \<or> (\<exists>e\<in>set es. admin_approval env a cid tok e)"
  using grants_run[OF assms] .

lemma sample_approve_step:
  "console_step sample_env sample_app
     (now, raw1, raw2, sample_request ''POST'' ''/api/registrations/edge/approve'' [] (Some sample_cookie))
     (sample_files cs (sample_reg ''edge'' ''pending'' t # gs)) =
   (if ''edge'' \<in> cc_id ` set cs then sample_files cs (sample_reg ''edge'' ''pending'' t # gs)
    else sample_files (cs @ [new_client ''edge'' (randomString raw1)])
      (approved now (randomString raw2) (sample_reg ''edge'' ''pending'' t) # gs))"
  by (simp add: consoleHandler_def console_requireAdmin_def hasPrefix_def registrationAction_def sample_reg_def)

theorem only_admin_adds_client_witness:
  "admin_approval sample_env sample_app ''edge'' (randomString ''r1'')
     (''now'', ''r1'', ''r2'', sample_request ''POST'' ''/api/registrations/edge/approve'' [] (Some sample_cookie))
   \<and> grants sample_env sample_app (sample_files [] [sample_reg ''edge'' ''pending'' install_name]) = {}"
proof -
  let ?e = "(''now'', ''r1'', ''r2'',
    sample_request ''POST'' ''/api/registrations/edge/approve'' [] (Some sample_cookie))"
  let ?d = "sample_files [] [sample_reg ''edge'' ''pending'' install_name]"
  have "(''edge'', randomString ''r1'') \<in> grants sample_env sample_app (fold (console_step sample_env sample_app) [?e] ?d)"
    by (simp add: sample_approve_step grants_def sample_ok new_client_def del: console_step.simps)
  from only_admin_adds_client[OF this] have
    "(''edge'', randomString ''r1'') \<in> grants sample_env sample_app ?d
     \<or> admin_approval sample_env sample_app ''edge'' (randomString ''r1'') ?e" by auto
  moreover have "grants sample_env sample_app ?d = {}" by (simp add: grants_def sample_ok)
  ultimately show ?thesis by simp
qed

section \<open>To whom a signer token is disclosed\<close>

text \<open>
  A response that carries the token of a client: the configuration of an edge as JSON or as the install script, or
  the overview, which holds the entries of the client file with their tokens.
\<close>

definition discloses :: "console_response \<Rightarrow> string \<Rightarrow> string \<Rightarrow> bool" where
  "discloses resp cid tok \<longleftrightarrow>
     (case co_body resp of
        JInstall i t cfg \<Rightarrow> i = cid \<and> t = tok
      | InstallScript q i \<Rightarrow> i = cid \<and> q = shellQuote tok
      | JSummary cs revoked auditLines regs \<Rightarrow> (cid, tok) \<in> (\<lambda>c. (cc_id c, cc_token c)) ` set cs
      | _ \<Rightarrow> False)"

text \<open>The answers that carry a token at all.\<close>

definition delivers :: "console_response \<Rightarrow> bool" where
  "delivers resp \<longleftrightarrow> (case co_body resp of JInstall _ _ _ \<Rightarrow> True | InstallScript _ _ \<Rightarrow> True
     | JSummary _ _ _ _ \<Rightarrow> True | _ \<Rightarrow> False)"

lemma discloses_delivers: "discloses resp cid tok \<Longrightarrow> delivers resp"
  by (auto simp: discloses_def delivers_def split: console_body.splits)

lemma co_body_simps [simp]:
  "co_body (setCookie n v s resp) = co_body resp" "co_body (clearCookie n resp) = co_body resp"
  "co_body (redirect u) = NoBody" "co_body (writeError e) = JErr e" "co_body (console_error k m) = PlainText (m @ [newline])"
  "co_body (securityHeaders resp) = co_body resp"
  by (simp_all add: setCookie_def clearCookie_def redirect_def writeError_def console_error_def securityHeaders_def Let_def)

lemma discloses_simps [simp]: "discloses (securityHeaders resp) cid tok = discloses resp cid tok"
  by (simp add: discloses_def)

lemma delivers_simps [simp]:
  "delivers (securityHeaders resp) = delivers resp" "\<not> delivers (console_json n (JErr e))"
  "\<not> delivers (console_json n JOk)" "\<not> delivers (writeError e)" "\<not> delivers notFound" "\<not> delivers (console_error k e)"
  by (simp_all add: delivers_def notFound_def)

lemma other_handlers_deliver_nothing:
  "\<not> delivers (snd (registerEdge env a now raw r d))"
  "\<not> delivers (snd (verifyInstall env a now r d))"
  "\<not> delivers (snd (registrationAction env a now raw raw2 r d))"
  "\<not> delivers (callback env a r)"
  "\<not> delivers (console_page env a r)" "\<not> delivers (login_page env a r)"
  "\<not> delivers (index_page env a r)" "\<not> delivers (authStart env a raw)"
  "\<not> delivers logout"
  by (auto simp: delivers_def registerEdge_def verifyInstall_def registrationAction_def callback_def
      console_page_def login_page_def index_page_def authStart_def logout_def store_registrations_def Let_def
      notFound_def split: sum.splits option.splits if_splits prod.splits os_error.splits)

lemma map_sum_Inl [simp]: "map_sum (\<lambda>e. e) f x = Inl e \<longleftrightarrow> x = Inl e"
  by (cases x) auto

lemma discloses_JErr [simp]: "\<not> discloses (console_json n (JErr e)) cid tok" "\<not> discloses (console_json n JOk) cid tok"
  "\<not> discloses (writeError e) cid tok" "\<not> discloses notFound cid tok" "\<not> discloses (console_error k e) cid tok"
  by (simp_all add: discloses_def notFound_def)

lemma client_loop_body: "client_loop env cid action bodies cs = Inl resp \<Longrightarrow> \<not> delivers resp"
  by (induction cs arbitrary: bodies) (auto split: if_splits sum.splits)

lemma clientAction_delivers_nothing: "\<not> delivers (snd (clientAction env a r d))"
proof (cases "parseClientAction (cq_path r)")
  case None
  then show ?thesis by (simp add: clientAction_def)
next
  case (Some p)
  obtain cid action where p: "p = (cid, action)" by (cases p)
  define b where "b \<longleftrightarrow> action \<in> {''disable'', ''enable'', ''limits''}"
  define act where "act = (if action = ''revoke'' then Some (appendRevoked env d (ap_revokedPath a) cid)
    else if action = ''unrevoke'' then Some (removeRevoked d (ap_revokedPath a) cid) else None)"
  show ?thesis
    unfolding clientAction_def Some p option.case prod.case b_def[symmetric] act_def[symmetric]
    by (auto split: option.splits sum.splits if_splits dest: client_loop_body)
qed

lemma static_delivers_nothing: "\<not> delivers icon" "\<not> delivers llms" "\<not> delivers robots"
  by (simp_all add: delivers_def icon_def llms_def robots_def plain_page_def)

text \<open>A token leaves through the two install forms and through the overview an administrator asks for.\<close>

lemma consoleHandler_delivers:
  assumes h: "consoleHandler env a now raw1 raw2 r d = Some (d', resp)" and x: "delivers resp"
  obtains (install) resp0 where "installEdge env a now r d = (d', resp0)" "resp = securityHeaders resp0"
      "hasPrefix (cq_path r) ''/api/install/''" "cq_method r = ''GET'' \<or> cq_method r = ''HEAD''"
    | (overview) "cq_path r = ''/api/summary''" "cq_method r = ''GET'' \<or> cq_method r = ''HEAD''"
      "currentUser env a r \<noteq> None" "d' = d" "resp = securityHeaders (summary env a d)"
proof -
  have n: "registerEdge env a now raw1 r d = (d', resp0) \<Longrightarrow> \<not> delivers resp0"
    "verifyInstall env a now r d = (d', resp0) \<Longrightarrow> \<not> delivers resp0"
    "clientAction env a r d = (d', resp0) \<Longrightarrow> \<not> delivers resp0"
    "registrationAction env a now raw1 raw2 r d = (d', resp0) \<Longrightarrow> \<not> delivers resp0" for resp0
    using other_handlers_deliver_nothing(1-3) clientAction_delivers_nothing by (metis snd_conv)+
  show thesis
    using h x unfolding consoleHandler_def console_requireAdmin_def
    by (auto simp: other_handlers_deliver_nothing(4-) static_delivers_nothing split: if_splits dest: n
        intro: install overview)
qed

text \<open>An overview holds the entries of the client file.\<close>

lemma summary_body:
  assumes "delivers (summary env a d)"
  obtains cs revoked auditLines regs where "clients_of env a d = Inr cs" "regs_of env a d = Inr regs"
    "co_body (summary env a d) = JSummary cs revoked auditLines regs"
proof -
  show thesis
    using assms that unfolding summary_def
    by (auto split: sum.splits prod.splits option.splits os_error.splits)
qed

lemma summary_discloses:
  assumes ok: "console_ok env a" and x: "discloses (summary env a d) cid tok"
  shows "(cid, tok) \<in> grants env a d"
proof -
  obtain cs revoked auditLines regs where "clients_of env a d = Inr cs"
    "co_body (summary env a d) = JSummary cs revoked auditLines regs"
    by (rule summary_body[OF discloses_delivers[OF x]])
  then show ?thesis using x grants_eq[OF ok] by (simp add: discloses_def)
qed

lemma consoleHandler_discloses:
  assumes h: "consoleHandler env a now raw1 raw2 r d = Some (d', resp)" and x: "discloses resp cid tok"
  obtains (install) resp0 where "installEdge env a now r d = (d', resp0)" "discloses resp0 cid tok"
      "hasPrefix (cq_path r) ''/api/install/''"
    | (overview) "cq_path r = ''/api/summary''" "currentUser env a r \<noteq> None" "discloses (summary env a d) cid tok"
  by (rule consoleHandler_delivers[OF h discloses_delivers[OF x]]) (use x in \<open>auto intro: install overview\<close>)

lemma client_token_grants:
  assumes "console_ok env a" and "clients_of env a d = Inr cs" and "client_token cid cs = tok" and "tok \<noteq> []"
  shows "(cid, tok) \<in> grants env a d"
proof -
  obtain c where "find (\<lambda>c. cc_id c = cid) cs = Some c" "cc_token c = tok"
    using assms(3,4) by (auto simp: client_token_def split: option.splits)
  then show ?thesis using find_SomeD[of "\<lambda>c. cc_id c = cid" cs c] grants_eq[OF assms(1,2)] by force
qed

text \<open>What a delivery says about the registration it serves.\<close>

lemma installEdge_discloses:
  assumes ok: "console_ok env a" and h: "installEdge env a now r d = (d', resp)" and x: "discloses resp cid tok"
  shows "(cid, tok) \<in> grants env a d
    \<and> (\<exists>gs g. regs_of env a d = Inr gs \<and> g \<in> set gs \<and> rg_ID g = cid \<and> rg_Status g = ''approved''
         \<and> rg_InstallUsedAt g = [] \<and> rg_InstallToken g = trimPrefix (cq_path r) ''/api/install/'')"
proof -
  have "co_status resp = 200"
  proof (rule ccontr)
    assume "co_status resp \<noteq> 200"
    then show False using h x
      by (auto simp: installEdge_def Let_def split: if_splits sum.splits option.splits)
  qed
  with installEdge_effect[OF ok h] obtain cs gs i where
    cs: "clients_of env a d = Inr cs" and gs: "regs_of env a d = Inr gs"
    and i: "find_index (install_candidate (trimPrefix (cq_path r) ''/api/install/'')) gs = Some i"
    and u: "rg_InstallUsedAt (gs ! i) = []" "client_token (rg_ID (gs ! i)) cs \<noteq> []"
    and b: "co_body resp = JInstall (rg_ID (gs ! i)) (client_token (rg_ID (gs ! i)) cs) (edgeConfig a)
      \<or> co_body resp = InstallScript (shellQuote (client_token (rg_ID (gs ! i)) cs)) (rg_ID (gs ! i))"
    by (auto split: if_splits)
  have id: "rg_ID (gs ! i) = cid" "client_token (rg_ID (gs ! i)) cs = tok"
    using b x by (auto simp: discloses_def shq.enc_inject)
  note f = find_index_Some[OF i]
  show ?thesis
  proof
    show "(cid, tok) \<in> grants env a d" using client_token_grants[OF ok cs] id u(2) by metis
    show "\<exists>gs g. regs_of env a d = Inr gs \<and> g \<in> set gs \<and> rg_ID g = cid \<and> rg_Status g = ''approved''
         \<and> rg_InstallUsedAt g = [] \<and> rg_InstallToken g = trimPrefix (cq_path r) ''/api/install/''"
      using gs f(1,2) id(1) u(1) by (intro exI[of _ gs] exI[of _ "gs ! i"]) (auto simp: install_candidate_def)
  qed
qed

text \<open>
  C7. Who sees a client's signer token: a response of the console carries it only if the request names the install
  token of an approved, unused registration of that client, or asks for the overview (\<open>/api/summary\<close>) with an
  administrator's session; and the token is one the client file held before the requests of the run or one drawn when
  a system_admin approved that id during the run.
\<close>

theorem disclosed_token_was_approved:
  assumes "console_ok env a"
    and "consoleHandler env a now raw1 raw2 r (fold (console_step env a) es d) = Some (d', resp)"
    and "discloses resp cid tok"
  shows "((\<exists>gs g. regs_of env a (fold (console_step env a) es d) = Inr gs \<and> g \<in> set gs \<and> rg_ID g = cid
           \<and> rg_Status g = ''approved'' \<and> rg_InstallUsedAt g = [] \<and> cq_path r = ''/api/install/'' @ rg_InstallToken g)
         \<or> cq_path r = ''/api/summary'' \<and> currentUser env a r \<noteq> None)
    \<and> ((cid, tok) \<in> grants env a d \<or> (\<exists>e\<in>set es. admin_approval env a cid tok e))"
  using assms(2,3)
proof (cases rule: consoleHandler_discloses)
  case (install resp0)
  let ?d = "fold (console_step env a) es d"
  have p: "cq_path r = ''/api/install/'' @ trimPrefix (cq_path r) ''/api/install/''"
    using install(3) by (auto simp: hasPrefix_iff trimPrefix_def)
  note x = installEdge_discloses[OF assms(1) install(1,2)]
  have "(cid, tok) \<in> grants env a d \<or> (\<exists>e\<in>set es. admin_approval env a cid tok e)"
    by (rule grants_run[OF conjunct1[OF x]])
  moreover obtain gs g where "regs_of env a ?d = Inr gs" "g \<in> set gs" "rg_ID g = cid" "rg_Status g = ''approved''"
    "rg_InstallUsedAt g = []" "rg_InstallToken g = trimPrefix (cq_path r) ''/api/install/''"
    using conjunct2[OF x] by blast
  ultimately show ?thesis using p by (metis (no_types))
next
  case overview
  then show ?thesis using grants_run[OF summary_discloses[OF assms(1) overview(3)]] by blast
qed

text \<open>
  The overview really carries them: an administrator who asks for it gets the signer token of every client, unless one
  of the four files cannot be read.
\<close>

lemma overview_discloses_all:
  assumes "cq_path r = ''/api/summary''" and "cq_method r = ''GET''" and "currentUser env a r \<noteq> None"
    and "co_status (summary env a d) = 200" and "clients_of env a d = Inr cs" and "c \<in> set cs"
  shows "\<exists>resp. consoleHandler env a now raw1 raw2 r d = Some (d, resp) \<and> discloses resp (cc_id c) (cc_token c)"
proof -
  have "consoleHandler env a now raw1 raw2 r d = Some (d, securityHeaders (summary env a d))"
    using assms(1-3) by (auto simp: consoleHandler_def console_requireAdmin_def hasPrefix_def)
  moreover have "discloses (summary env a d) (cc_id c) (cc_token c)"
    using assms(4-6) unfolding summary_def discloses_def
    by (auto simp: writeError_def split: sum.splits prod.splits option.splits os_error.splits)
  ultimately show ?thesis by simp
qed

lemma consoleHandler_install:
  assumes "cq_method r = ''GET''" and "cq_path r = ''/api/install/'' @ t"
  shows "consoleHandler env a now raw1 raw2 r d
     = Some (map_prod id securityHeaders (installEdge env a now r d))"
proof -
  have "hasPrefix (cq_path r) ''/api/install/''" "cq_path r \<noteq> ''/auth/account/callback''"
    unfolding assms(2) by (rule hasPrefix_append) simp
  then show ?thesis using assms(1) by (cases "installEdge env a now r d") (simp add: consoleHandler_def)
qed

text \<open>What the sample console answers to the edge that asks with its install token.\<close>

lemma sample_install:
  assumes "find_index (install_candidate t) gs = Some i" and "rg_InstallUsedAt (gs ! i) = []"
    and "client_token (rg_ID (gs ! i)) cs = tok" and "tok \<noteq> []" and "t \<noteq> []" and "\<not> contains t ''/''"
  shows "installEdge sample_env sample_app now (sample_request ''GET'' (''/api/install/'' @ t) b c) (sample_files cs gs)
     = (sample_files cs (gs[i := (gs ! i)\<lparr>rg_InstallStatus := ''delivered''\<rparr>]),
        console_json 200 (JInstall (rg_ID (gs ! i)) tok (edgeConfig sample_app)))"
  using assms by (simp add: installEdge_def Let_def del: append_Cons)

lemma randomString_nonempty [simp]: "randomString (c # cs) \<noteq> []"
proof
  assume "randomString (c # cs) = []"
  then have "rawURLDecode (rawURLEncode (c # cs)) = rawURLDecode (rawURLEncode [])"
    by (simp add: randomString_def rawURLEncode_def)
  then show False by (simp only: urlc.dec_enc option.inject) simp
qed

theorem disclosed_token_was_approved_witness:
  "\<exists>d' resp. consoleHandler sample_env sample_app ''now'' [] []
        (sample_request ''GET'' (''/api/install/'' @ install_name) [] None)
        (fold (console_step sample_env sample_app)
          [(''now'', ''r1'', ''r2'', sample_request ''POST'' ''/api/registrations/edge/approve'' [] (Some sample_cookie))]
          (sample_files [] [sample_reg ''edge'' ''pending'' install_name])) = Some (d', resp)
     \<and> discloses resp ''edge'' (randomString ''r1'')
     \<and> admin_approval sample_env sample_app ''edge'' (randomString ''r1'')
         (''now'', ''r1'', ''r2'', sample_request ''POST'' ''/api/registrations/edge/approve'' [] (Some sample_cookie))"
proof -
  let ?e = "(''now'', ''r1'', ''r2'',
    sample_request ''POST'' ''/api/registrations/edge/approve'' [] (Some sample_cookie))"
  let ?d = "sample_files [] [sample_reg ''edge'' ''pending'' install_name]"
  let ?r = "sample_request ''GET'' (''/api/install/'' @ install_name) [] None"
  let ?g = "approved ''now'' (randomString ''r2'') (sample_reg ''edge'' ''pending'' install_name)"
  have run: "fold (console_step sample_env sample_app) [?e] ?d
      = sample_files [new_client ''edge'' (randomString ''r1'')] [?g]"
    by (simp add: sample_approve_step del: console_step.simps)
  have i: "find_index (install_candidate install_name) [?g] = Some 0"
    by (simp add: install_candidate_def)
  let ?d' = "sample_files [new_client ''edge'' (randomString ''r1'')] [?g\<lparr>rg_InstallStatus := ''delivered''\<rparr>]"
  let ?resp = "securityHeaders (console_json 200 (JInstall ''edge'' (randomString ''r1'') (edgeConfig sample_app)))"
  have "installEdge sample_env sample_app ''now'' ?r (sample_files [new_client ''edge'' (randomString ''r1'')] [?g])
    = (?d', console_json 200 (JInstall ''edge'' (randomString ''r1'') (edgeConfig sample_app)))"
    using sample_install[OF i, of "[new_client ''edge'' (randomString ''r1'')]" "randomString ''r1''" "''now''" "[]" None]
    by (simp add: client_token_def new_client_def sample_reg_def)
  then have h: "consoleHandler sample_env sample_app ''now'' [] [] ?r
      (fold (console_step sample_env sample_app) [?e] ?d) = Some (?d', ?resp)"
    unfolding run consoleHandler_install[OF sample_request_simps(1,2)] by (simp only: map_prod_simp id_apply)
  have x: "discloses ?resp ''edge'' (randomString ''r1'')" by (simp add: discloses_def)
  from disclosed_token_was_approved[OF sample_ok h x] have "admin_approval sample_env sample_app ''edge'' (randomString ''r1'') ?e"
    by (auto simp: grants_def sample_ok)
  with h x show ?thesis by blast
qed

end
