(* ===== verification/ConsoleTokens.thy ===== *)
theory ConsoleTokens
  imports ConsoleTheorems
begin

text \<open>
  The life of an install token on the console: delivery, verification, and the ways registrations with the
  same id meet.
\<close>

section \<open>Spent tokens\<close>

lemma find_index_cong:
  assumes "map P xs = map P ys"
  shows "find_index P xs = find_index P ys"
proof -
  have "length (takeWhile (\<lambda>x. \<not> P x) xs) = length (takeWhile Not (map P xs))" for xs
    by (induction xs) auto
  then show ?thesis using assms map_eq_imp_length_eq[OF assms] by (simp add: find_index_def Let_def)
qed

lemma find_index_append: "find_index P xs = Some i \<Longrightarrow> find_index P (xs @ ys) = Some i"
  by (induction xs arbitrary: i) (auto split: if_splits)

lemma map_update_same: "P y = P (xs ! i) \<Longrightarrow> map P (xs[i := y]) = map P xs"
  by (metis list_update_id map_update)

definition spent :: "console_env \<Rightarrow> app \<Rightarrow> string \<Rightarrow> fs \<Rightarrow> bool" where
  "spent env a t d \<longleftrightarrow> console_ok env a
     \<and> (\<exists>cs gs i. clients_of env a d = Inr cs \<and> regs_of env a d = Inr gs
          \<and> find_index (install_candidate t) gs = Some i \<and> rg_InstallUsedAt (gs ! i) \<noteq> [])"

text \<open>A change of one registration that leaves id, status and install token, and does not reset its use.\<close>

lemma spent_update:
  assumes "spent env a t d" and "regs_of env a d = Inr gs" and "j < length gs"
    and "regs_of env a d' = Inr (gs[j := g])" and "clients_of env a d' = clients_of env a d"
    and "install_candidate t g = install_candidate t (gs ! j)"
    and "rg_InstallUsedAt (gs ! j) \<noteq> [] \<Longrightarrow> install_candidate t (gs ! j) \<Longrightarrow> rg_InstallUsedAt g \<noteq> []"
  shows "spent env a t d'"
proof -
  obtain i where i: "find_index (install_candidate t) gs = Some i" "rg_InstallUsedAt (gs ! i) \<noteq> []"
    using assms(1,2) by (auto simp: spent_def)
  have "find_index (install_candidate t) (gs[j := g]) = Some i"
    using find_index_cong[OF map_update_same[of "install_candidate t" g gs j]] assms(6) i(1) by simp
  moreover have "rg_InstallUsedAt (gs[j := g] ! i) \<noteq> []"
    using i assms(3,7) find_index_Some(2)[OF i(1)] by (cases "i = j") auto
  ultimately show ?thesis using assms(1,4,5) unfolding spent_def by metis
qed

lemma same_candidate: "same_registration g g0 \<Longrightarrow> install_candidate t g = install_candidate t g0"
  by (simp add: same_registration_def install_candidate_def)

lemma spent_register:
  assumes s: "spent env a t d" and h: "registerEdge env a now raw r d = (d', resp)"
  shows "spent env a t d'"
proof (cases "co_status resp = 202")
  case False
  then show ?thesis using registerEdge_effect[OF _ h] s by (auto simp: spent_def)
next
  case True
  have ok: "console_ok env a" using s by (simp add: spent_def)
  obtain cs gs i where b: "clients_of env a d = Inr cs" "regs_of env a d = Inr gs"
    and i: "find_index (install_candidate t) gs = Some i" "rg_InstallUsedAt (gs ! i) \<noteq> []"
    using s by (auto simp: spent_def)
  obtain req where e: "regs_of env a d' = Inr (case refresh_pending r now req gs of
        Some gs' \<Rightarrow> gs' | None \<Rightarrow> gs @ [pending_registration a r now req])"
    and c: "clients_of env a d' = Inr cs"
    using registerEdge_effect[OF ok h] True b by auto
  show ?thesis
  proof (cases "refresh_pending r now req gs")
    case None
    then show ?thesis using e c ok find_index_append[OF i(1)] i(2) find_index_Some(1)[OF i(1)]
      by (auto simp: spent_def nth_append)
  next
    case (Some gs')
    then obtain j g where j: "j < length gs" "gs' = gs[j := g]" "rg_Status (gs ! j) = ''pending''"
      and g: "g = (gs ! j)\<lparr>rg_Label := rr_Label req, rg_RemoteAddr := clientAddress r, rg_RequestedAt := now,
                 rg_InstallToken := rr_InstallToken req, rg_InstallIssuedAt := now\<rparr>"
      by (rule refresh_pending_Some)
    show ?thesis
      using e c Some j b by (intro spent_update[OF s b(2) j(1)]) (auto simp: g install_candidate_def)
  qed
qed

lemma spent_step:
  assumes s: "spent env a t d" and u: "currentUser env a r = None" and n: "now \<noteq> []"
  shows "spent env a t (console_step env a (now, raw1, raw2, r) d)"
proof -
  let ?d = "console_step env a (now, raw1, raw2, r) d"
  have ok: "console_ok env a" using s by (simp add: spent_def)
  obtain gs where gs: "regs_of env a d = Inr gs" using s by (auto simp: spent_def)
  show ?thesis
  proof (cases "?d = d")
    case False
    show ?thesis
    proof (cases rule: console_step_cases[of env a now raw1 raw2 r d])
      case (3 resp0)
      obtain t' j g where x: "find_index (install_candidate t') gs = Some j" "regs_of env a ?d = Inr (gs[j := g])"
        "same_registration g (gs ! j)" "clients_of env a ?d = clients_of env a d" "rg_InstallUsedAt g = now"
        using verifyInstall_update[OF ok 3 False gs] by blast
      show ?thesis
        using n x(5) by (intro spent_update[OF s gs find_index_Some(1)[OF x(1)] x(2,4) same_candidate[OF x(3)]]) simp
    next
      case (4 resp0)
      obtain t' j g where x: "find_index (install_candidate t') gs = Some j" "regs_of env a ?d = Inr (gs[j := g])"
        "same_registration g (gs ! j)" "clients_of env a ?d = clients_of env a d" "rg_InstallUsedAt (gs ! j) = []"
        using installEdge_update[OF ok 4 False gs] by blast
      show ?thesis
        using x(5) by (intro spent_update[OF s gs find_index_Some(1)[OF x(1)] x(2,4) same_candidate[OF x(3)]]) simp
    qed (use spent_register[OF s] u s False in \<open>simp_all del: console_step.simps\<close>)
  qed (use s in \<open>simp del: console_step.simps\<close>)
qed

definition anonymous_event :: "console_env \<Rightarrow> app \<Rightarrow> console_event \<Rightarrow> bool" where
  "anonymous_event env a e \<longleftrightarrow> (case e of (now, raw1, raw2, r) \<Rightarrow> currentUser env a r = None \<and> now \<noteq> [])"

lemma spent_run:
  "spent env a t d \<Longrightarrow> \<forall>e\<in>set es. anonymous_event env a e \<Longrightarrow> spent env a t (fold (console_step env a) es d)"
proof (induction es arbitrary: d)
  case (Cons e es)
  then show ?case using spent_step by (cases e) (auto simp: anonymous_event_def simp del: console_step.simps)
qed simp

lemma spent_gone:
  assumes "spent env a t d" and "cq_path q = ''/api/install/'' @ t" and "t \<noteq> []" and "\<not> contains t ''/''"
  shows "installEdge env a now q d = (d, console_error 410 ''install token already used'')"
  using assms by (auto simp: spent_def installEdge_def Let_def simp del: append_Cons)

lemma spentI:
  assumes "console_ok env a" and "clients_of env a d' = Inr cs" and i: "find_index (install_candidate t) gs = Some i"
    and "regs_of env a d' = Inr (gs[i := g])" and s: "same_registration g (gs ! i)" and "rg_InstallUsedAt g \<noteq> []"
  shows "spent env a t d'"
proof -
  have "find_index (install_candidate t) (gs[i := g]) = Some i"
    using find_index_cong[OF map_update_same[of "install_candidate t", OF same_candidate[OF s]]] i by simp
  then show ?thesis using assms find_index_Some(1)[OF i] unfolding spent_def by (metis nth_list_update_eq)
qed

lemma verify_spends:
  assumes ok: "console_ok env a" and h: "verifyInstall env a now r d = (d', resp)" and st: "co_status resp = 200"
    and c: "clients_of env a d = Inr cs" and n: "now \<noteq> []"
    and t: "t = trimSuffix (trimPrefix (cq_path r) ''/api/install/'') ''/verified''"
  shows "spent env a t d' \<and> t \<noteq> [] \<and> \<not> contains t ''/''"
proof -
  have g: "t \<noteq> []" "\<not> contains t ''/''"
    using h st unfolding t verifyInstall_def Let_def by (auto split: if_splits)
  obtain gs i where gs: "find_index (install_candidate t) gs = Some i"
    and d': "regs_of env a d' = Inr (gs[i := (gs ! i)\<lparr>rg_InstallUsedAt := now, rg_InstallVerifiedAt := now,
              rg_InstallStatus := ''verified'', rg_InstallError := []\<rparr>])" "clients_of env a d' = clients_of env a d"
    using verifyInstall_effect[OF ok h] st t by auto
  have "spent env a t d'"
    by (rule spentI[OF ok d'(2)[unfolded c] gs d'(1)]) (simp_all add: same_registration_def n)
  with g show ?thesis by simp
qed

lemma script_spends:
  assumes ok: "console_ok env a" and h: "installEdge env a now r d = (d', resp)" and st: "co_status resp = 200"
    and w: "\<not> wantsJSON r" and n: "now \<noteq> []" and t: "t = trimPrefix (cq_path r) ''/api/install/''"
  shows "spent env a t d' \<and> t \<noteq> [] \<and> \<not> contains t ''/''"
proof -
  have g: "t \<noteq> []" "\<not> contains t ''/''"
    using h st unfolding t installEdge_def Let_def by (auto simp del: append_Cons split: if_splits)
  obtain cs gs i where gs: "find_index (install_candidate t) gs = Some i" and c: "clients_of env a d' = Inr cs"
    and d': "regs_of env a d' = Inr (gs[i := (gs ! i)\<lparr>rg_InstallUsedAt := now, rg_InstallStatus := ''delivered''\<rparr>])"
    using installEdge_effect[OF ok h] st t w by auto
  have "spent env a t d'"
    by (rule spentI[OF ok c gs d']) (simp_all add: same_registration_def n)
  with g show ?thesis by simp
qed

text \<open>
  An install token is spent by a successful verification report or by the delivery of the install script:
  after either, and after any further requests none of which carries an administrator session, asking for the
  token is answered 410 and changes nothing.
\<close>

theorem spent_token_stays_spent:
  assumes "console_ok env a" and "clients_of env a d = Inr cs" and "now \<noteq> []" and "co_status resp = 200"
    and "verifyInstall env a now r d = (d', resp) \<and> t = trimSuffix (trimPrefix (cq_path r) ''/api/install/'') ''/verified''
       \<or> installEdge env a now r d = (d', resp) \<and> \<not> wantsJSON r \<and> t = trimPrefix (cq_path r) ''/api/install/''"
    and "\<forall>e\<in>set es. anonymous_event env a e" and "cq_path q = ''/api/install/'' @ t"
  shows "installEdge env a now' q (fold (console_step env a) es d')
     = (fold (console_step env a) es d', console_error 410 ''install token already used'')"
proof -
  have "spent env a t d' \<and> t \<noteq> [] \<and> \<not> contains t ''/''"
    using verify_spends[OF assms(1) _ assms(4,2,3)] script_spends[OF assms(1) _ assms(4) _ assms(3)] assms(5) by blast
  then show ?thesis using spent_gone[OF spent_run[OF _ assms(6)] assms(7)] by blast
qed

lemma trimSuffix_append [simp]: "trimSuffix (s @ p) p = s"
  by (simp add: trimSuffix_def hasSuffix_iff)

definition used_reg :: edgeRegistration where
  "used_reg = (sample_reg ''edge'' ''approved'' install_name)\<lparr>rg_InstallUsedAt := ''t1'', rg_InstallVerifiedAt := ''t1'',
     rg_InstallStatus := ''verified'', rg_InstallError := []\<rparr>"

lemma sample_verify:
  "verifyInstall sample_env sample_app ''t1''
     (sample_request ''POST'' ((''/api/install/'' @ install_name) @ ''/verified'') [] None)
     (sample_files cs [sample_reg ''edge'' ''approved'' install_name])
   = (sample_files cs [used_reg], console_json 200 JOk)"
proof -
  have "hasSuffix ((''/api/install/'' @ install_name) @ ''/verified'') ''/verified''" by (simp only: hasSuffix_iff) blast
  moreover have "trimPrefix ((''/api/install/'' @ install_name) @ ''/verified'') ''/api/install/'' = install_name @ ''/verified''"
    unfolding append_assoc by (rule trimPrefix_append)
  moreover have "find_index (install_candidate install_name) [sample_reg ''edge'' ''approved'' install_name] = Some 0"
    by (simp add: install_candidate_def sample_reg_def)
  ultimately show ?thesis
    by (simp add: verifyInstall_def Let_def used_reg_def del: append_Cons append_assoc find_index_simps)
qed

theorem spent_token_stays_spent_witness:
  "snd (installEdge sample_env sample_app ''t3'' (sample_request ''GET'' (''/api/install/'' @ install_name) [] None)
      (fold (console_step sample_env sample_app)
         [(''t2'', ''r1'', ''r2'', sample_request ''POST'' ''/api/register'' other_name None)]
         (sample_files [new_client ''edge'' ''token''] [used_reg])))
   = console_error 410 ''install token already used''"
proof -
  let ?r = "sample_request ''POST'' ((''/api/install/'' @ install_name) @ ''/verified'') [] None"
  let ?d = "sample_files [new_client ''edge'' ''token''] [sample_reg ''edge'' ''approved'' install_name]"
  have t: "install_name = trimSuffix (trimPrefix (cq_path ?r) ''/api/install/'') ''/verified''"
    by (simp del: append_Cons append_assoc) (simp only: append_assoc trimPrefix_append trimSuffix_append)
  show ?thesis
    by (subst spent_token_stays_spent[OF sample_ok, of ?d _ "''t1''" "console_json 200 JOk" ?r _ install_name])
      (use t sample_verify in \<open>simp_all del: append_Cons append_assoc add: anonymous_event_def\<close>)
qed

section \<open>Repeated delivery\<close>

lemma write_errors: "writeFile d p s = Inr d' \<Longrightarrow> fs_write_error d' = fs_write_error d"
  by (auto simp: writeFile_def split: option.splits)

definition regs_writable :: "console_env \<Rightarrow> app \<Rightarrow> fs \<Rightarrow> bool" where
  "regs_writable env a d \<longleftrightarrow> cn_mkdir env (ap_registerPath a) = None \<and> fs_write_error d (ap_registerPath a) = None"

lemma writeRegistrations_iff:
  "(\<exists>d'. writeRegistrations env d (ap_registerPath a) gs = Inr d') \<longleftrightarrow> regs_writable env a d"
  by (auto simp: writeRegistrations_def regs_writable_def writeFile_def split: option.splits)

lemma writeRegistrations_keeps: "writeRegistrations env d (ap_registerPath a) gs = Inr d' \<Longrightarrow> regs_writable env a d'"
  by (auto simp: writeRegistrations_def regs_writable_def writeFile_def split: option.splits)

lemma store_registrations_writable:
  "store_registrations env a d gs resp = (d', r) \<Longrightarrow> r \<noteq> writeError e \<Longrightarrow> co_status r \<noteq> 500 \<Longrightarrow> regs_writable env a d'"
  by (auto simp: store_registrations_def dest: writeRegistrations_keeps split: sum.splits)

text \<open>A JSON delivery, when the registrations can be written.\<close>

lemma installEdge_json:
  assumes ok: "console_ok env a" and gs: "regs_of env a d = Inr gs" and cs: "clients_of env a d = Inr cs"
    and i: "find_index (install_candidate t) gs = Some i" and u: "rg_InstallUsedAt (gs ! i) = []"
    and k: "client_token (rg_ID (gs ! i)) cs \<noteq> []" and t: "t \<noteq> []" "\<not> contains t ''/''"
    and p: "trimPrefix (cq_path r) ''/api/install/'' = t" and w: "wantsJSON r" "regs_writable env a d"
  shows "\<exists>d'. installEdge env a now r d
      = (d', console_json 200 (JInstall (rg_ID (gs ! i)) (client_token (rg_ID (gs ! i)) cs) (edgeConfig a)))
    \<and> regs_of env a d' = Inr (gs[i := (gs ! i)\<lparr>rg_InstallStatus := ''delivered''\<rparr>])
    \<and> clients_of env a d' = Inr cs \<and> regs_writable env a d'"
proof -
  obtain d' where d': "writeRegistrations env d (ap_registerPath a) (gs[i := (gs ! i)\<lparr>rg_InstallStatus := ''delivered''\<rparr>])
      = Inr d'" using writeRegistrations_iff w(2) by blast
  note e = write_regs_effect[OF ok d' gs]
  have "installEdge env a now r d
      = (d', console_json 200 (JInstall (rg_ID (gs ! i)) (client_token (rg_ID (gs ! i)) cs) (edgeConfig a)))"
    using gs cs i u k t p w(1) d' by (simp add: installEdge_def Let_def)
  then show ?thesis using e cs writeRegistrations_keeps[OF d'] by auto
qed

text \<open>The files before a JSON delivery that is answered with \<open>resp\<close>.\<close>

definition deliverable :: "console_env \<Rightarrow> app \<Rightarrow> console_request \<Rightarrow> console_response \<Rightarrow> fs \<Rightarrow> bool" where
  "deliverable env a r resp d \<longleftrightarrow> (\<exists>gs cs i t. regs_of env a d = Inr gs \<and> clients_of env a d = Inr cs
      \<and> find_index (install_candidate t) gs = Some i \<and> rg_InstallUsedAt (gs ! i) = []
      \<and> client_token (rg_ID (gs ! i)) cs \<noteq> [] \<and> t \<noteq> [] \<and> \<not> contains t ''/''
      \<and> trimPrefix (cq_path r) ''/api/install/'' = t \<and> regs_writable env a d
      \<and> resp = console_json 200 (JInstall (rg_ID (gs ! i)) (client_token (rg_ID (gs ! i)) cs) (edgeConfig a)))"

lemma deliverable_step:
  assumes "console_ok env a" and "wantsJSON r" and "deliverable env a r resp d"
  shows "snd (installEdge env a now r d) = resp \<and> deliverable env a r resp (fst (installEdge env a now r d))"
proof -
  obtain gs cs i t where x: "regs_of env a d = Inr gs" "clients_of env a d = Inr cs"
    "find_index (install_candidate t) gs = Some i" "rg_InstallUsedAt (gs ! i) = []"
    "client_token (rg_ID (gs ! i)) cs \<noteq> []" "t \<noteq> []" "\<not> contains t ''/''"
    "trimPrefix (cq_path r) ''/api/install/'' = t" "regs_writable env a d"
    "resp = console_json 200 (JInstall (rg_ID (gs ! i)) (client_token (rg_ID (gs ! i)) cs) (edgeConfig a))"
    using assms(3) unfolding deliverable_def by (elim exE conjE) (rule that)
  obtain d1 where d1: "installEdge env a now r d = (d1, resp)"
    "regs_of env a d1 = Inr (gs[i := (gs ! i)\<lparr>rg_InstallStatus := ''delivered''\<rparr>])"
    "clients_of env a d1 = Inr cs" "regs_writable env a d1"
    using installEdge_json[OF assms(1) x(1-8) assms(2) x(9), of now] x(10) by blast
  have f: "find_index (install_candidate t) (gs[i := (gs ! i)\<lparr>rg_InstallStatus := ''delivered''\<rparr>]) = Some i"
    using find_index_cong[OF map_update_same[of "install_candidate t"]] x(3) by (simp add: install_candidate_def)
  have "deliverable env a r resp d1" unfolding deliverable_def
    using d1(2-4) f x find_index_Some(1)[OF x(3)]
    by (intro exI[of _ "gs[i := (gs ! i)\<lparr>rg_InstallStatus := ''delivered''\<rparr>]"] exI[of _ cs] exI[of _ i] exI[of _ t]) simp
  with d1(1) show ?thesis by simp
qed

lemma delivered_deliverable:
  assumes ok: "console_ok env a" and w: "wantsJSON r" and h: "installEdge env a now r d = (d', resp)"
    and st: "co_status resp = 200"
  shows "deliverable env a r resp d"
proof -
  obtain cs gs i where x: "clients_of env a d = Inr cs" "regs_of env a d = Inr gs"
    "find_index (install_candidate (trimPrefix (cq_path r) ''/api/install/'')) gs = Some i"
    "rg_InstallUsedAt (gs ! i) = []" "client_token (rg_ID (gs ! i)) cs \<noteq> []"
    using installEdge_effect[OF ok h] st by auto
  have g: "trimPrefix (cq_path r) ''/api/install/'' \<noteq> []" "\<not> contains (trimPrefix (cq_path r) ''/api/install/'') ''/''"
    using h st unfolding installEdge_def Let_def by (auto simp del: append_Cons split: if_splits)
  have "\<exists>d1. writeRegistrations env d (ap_registerPath a) (gs[i := (gs ! i)\<lparr>rg_InstallStatus := ''delivered''\<rparr>]) = Inr d1"
    using h st x w g unfolding installEdge_def Let_def by (auto split: sum.splits)
  then have wr: "regs_writable env a d" by (simp only: writeRegistrations_iff)
  obtain d1 where "installEdge env a now r d
    = (d1, console_json 200 (JInstall (rg_ID (gs ! i)) (client_token (rg_ID (gs ! i)) cs) (edgeConfig a)))"
    using installEdge_json[OF ok x(2,1,3,4,5) g HOL.refl w wr, of now] by blast
  with h show ?thesis unfolding deliverable_def using x g wr by auto
qed

text \<open>
  A JSON delivery does not use up the install token: once the console has answered it, the same request is
  answered with the same signer token any number of times, until a verification is reported.
\<close>

theorem json_delivery_repeatable:
  assumes ok: "console_ok env a" and w: "wantsJSON r" and h: "installEdge env a now r d = (d', resp)"
    and st: "co_status resp = 200"
  shows "snd (installEdge env a now r (((\<lambda>d. fst (installEdge env a now r d)) ^^ n) d)) = resp"
proof -
  note step = deliverable_step[OF ok w]
  have "deliverable env a r resp (((\<lambda>d. fst (installEdge env a now r d)) ^^ n) d)"
    by (induction n) (auto intro: delivered_deliverable[OF ok w h st] dest: step)
  then show ?thesis using step by blast
qed

theorem json_delivery_repeatable_witness:
  "snd (installEdge sample_env sample_app ''t'' (sample_request ''GET'' (''/api/install/'' @ install_name) [] None)
      (((\<lambda>d. fst (installEdge sample_env sample_app ''t''
          (sample_request ''GET'' (''/api/install/'' @ install_name) [] None) d)) ^^ 3)
       (sample_files [new_client ''edge'' ''token''] [sample_reg ''edge'' ''approved'' install_name])))
   = console_json 200 (JInstall ''edge'' ''token'' (edgeConfig sample_app))"
proof -
  have i: "find_index (install_candidate install_name) [sample_reg ''edge'' ''approved'' install_name] = Some 0"
    by (simp add: install_candidate_def sample_reg_def)
  have h: "installEdge sample_env sample_app ''t'' (sample_request ''GET'' (''/api/install/'' @ install_name) [] None)
      (sample_files [new_client ''edge'' ''token''] [sample_reg ''edge'' ''approved'' install_name])
    = (sample_files [new_client ''edge'' ''token''] [(sample_reg ''edge'' ''approved'' install_name)\<lparr>rg_InstallStatus := ''delivered''\<rparr>],
       console_json 200 (JInstall ''edge'' ''token'' (edgeConfig sample_app)))"
    using sample_install[OF i, of "[new_client ''edge'' ''token'']" "''token''" "''t''" "[]" None]
    by (simp add: client_token_def new_client_def sample_reg_def)
  show ?thesis by (rule json_delivery_repeatable[OF sample_ok _ h]) (simp_all del: append_Cons)
qed

section \<open>Registrations of the same id\<close>

lemma validInstallToken_no_slash:
  assumes "validInstallToken t"
  shows "\<not> contains t ''/''"
proof
  assume "contains t ''/''"
  then have "CHR ''/'' \<in> set t" by (auto simp: contains_iff)
  then have "id_char CHR ''/''" using assms by (auto simp: validInstallToken_def list_all_iff)
  moreover have "\<not> id_char CHR ''/''" by code_simp
  ultimately show False by simp
qed

lemma registerEdge_writable:
  assumes "registerEdge env a now raw r d = (d', resp)" and "co_status resp = 202"
  shows "regs_writable env a d'"
proof -
  obtain gs where "store_registrations env a d gs (console_json 202 (JStatus ''pending'')) = (d', resp)"
    using assms unfolding registerEdge_def Let_def
    by (auto split: sum.splits if_splits)
  then show ?thesis using assms(2) by (auto simp: store_registrations_def dest: writeRegistrations_keeps split: sum.splits)
qed

lemma writeClientFile_errors: "writeClientFile env d p cs = Inr d' \<Longrightarrow> fs_write_error d' = fs_write_error d"
  by (auto simp: writeClientFile_def dest: write_errors split: option.splits)

lemma store_errors: "store_registrations env a d gs resp = (d', r) \<Longrightarrow> fs_write_error d' = fs_write_error d"
  by (auto simp: store_registrations_def writeRegistrations_def dest: write_errors split: sum.splits option.splits)

lemma registrationAction_errors:
  assumes "registrationAction env a now raw1 raw2 r d = (d', resp)"
  shows "fs_write_error d' = fs_write_error d"
  using assms unfolding registrationAction_def Let_def
  by (auto split: option.splits sum.splits if_splits dest!: store_errors writeClientFile_errors)

text \<open>What an approval leaves: the client, and the first registration of the id approved with the token it held.\<close>

lemma approval_effect:
  assumes ok: "console_ok env a" and h: "registrationAction env a now raw1 raw2 r d = (d', resp)"
    and st: "co_status resp = 200" and p: "parseRegistrationAction (cq_path r) = Some (cid, ''approve'')"
    and cs: "clients_of env a d = Inr cs" and gs: "regs_of env a d = Inr gs"
  obtains i where "find_index (\<lambda>g. rg_ID g = cid) gs = Some i" "cid \<notin> cc_id ` set cs"
    "clients_of env a d' = Inr (cs @ [new_client cid (randomString raw1)])"
    "regs_of env a d' = Inr (gs[i := approved now (randomString raw2) (gs ! i)])"
  using registrationAction_effect[OF ok h] st p cs gs by auto

lemma client_token_new: "cid \<notin> cc_id ` set cs \<Longrightarrow> client_token cid (cs @ [new_client cid t]) = t"
  by (induction cs) (auto simp: client_token_def new_client_def)

text \<open>A request for an id whose first registration is pending replaces the install token there.\<close>

lemma register_refreshes:
  assumes ok: "console_ok env a" and cs: "clients_of env a d = Inr cs" and gs: "regs_of env a d = Inr gs"
    and i: "find_index (\<lambda>g. rg_ID g = cid) gs = Some i" and pend: "rg_Status (gs ! i) = ''pending''"
    and body: "cn_decodeRegister env (take (16 * 1024) (cq_body r)) = Inr req0" "trimSpace (rr_ID req0) = cid"
      "trimSpace (rr_InstallToken req0) = t" "t \<noteq> []"
    and h: "registerEdge env a now raw r d = (d', resp)" "co_status resp = 202"
  obtains g where "regs_of env a d' = Inr (gs[i := g])" "clients_of env a d' = Inr cs" "rg_ID g = cid"
    "rg_InstallToken g = t" "validInstallToken t" "validClientID cid"
proof -
  obtain req where req: "rr_ID req = cid" "rr_InstallToken req = t" "validInstallToken t" "validClientID cid"
    and e: "regs_of env a d' = Inr (case refresh_pending r now req gs of
        Some gs' \<Rightarrow> gs' | None \<Rightarrow> gs @ [pending_registration a r now req])" "clients_of env a d' = Inr cs"
    using registerEdge_effect[OF ok h(1)] h(2) cs gs body by auto
  note f = find_index_Some[OF i]
  have "cid \<in> set (pending_ids gs)" using f(1,2) pend by (auto simp: set_pending_ids)
  then obtain gs' where gs': "refresh_pending r now req gs = Some gs'"
    using refresh_pending_None[of r now req gs] req(1) by auto
  then obtain j g where j: "j < length gs" "gs' = gs[j := g]" "rg_ID (gs ! j) = cid"
    and g: "g = (gs ! j)\<lparr>rg_Label := rr_Label req, rg_RemoteAddr := clientAddress r, rg_RequestedAt := now,
                 rg_InstallToken := rr_InstallToken req, rg_InstallIssuedAt := now\<rparr>"
    and first: "\<forall>k<j. \<not> (rg_ID (gs ! k) = rr_ID req \<and> rg_Status (gs ! k) = ''pending'')"
    by (rule refresh_pending_Some) (use req(1) in auto)
  have "j = i"
  proof (rule ccontr)
    assume "j \<noteq> i"
    then consider "i < j" | "j < i" by linarith
    then show False using first f(2) f(3)[of j] pend j(3) req(1) by cases auto
  qed
  then show thesis using that[of g] e gs' j req g by simp
qed

text \<open>
  C28. Anyone can take over a pending registration: a second registration of the same id replaces the install
  token of the pending one, so after the administrator approves the id, whoever sent the last request collects
  the signer token with a token of their own choice.
\<close>

theorem pending_registration_takeover:
  assumes ok: "console_ok env a" and cs: "clients_of env a d = Inr cs" and gs: "regs_of env a d = Inr gs"
    and i: "find_index (\<lambda>g. rg_ID g = cid) gs = Some i" and pend: "rg_Status (gs ! i) = ''pending''"
    and fresh: "\<forall>g\<in>set gs. \<not> install_candidate t g"
    and body: "cn_decodeRegister env (take (16 * 1024) (cq_body r1)) = Inr req0" "trimSpace (rr_ID req0) = cid"
      "trimSpace (rr_InstallToken req0) = t" "t \<noteq> []"
    and h1: "registerEdge env a now1 raw r1 d = (d1, resp1)" "co_status resp1 = 202"
    and h2: "registrationAction env a now2 raw1 raw2 r2 d1 = (d2, resp2)" "co_status resp2 = 200"
      "parseRegistrationAction (cq_path r2) = Some (cid, ''approve'')" "randomString raw1 \<noteq> []"
    and q: "cq_path r3 = ''/api/install/'' @ t" "wantsJSON r3"
  shows "snd (installEdge env a now3 r3 d2) = console_json 200 (JInstall cid (randomString raw1) (edgeConfig a))"
proof -
  obtain g where g: "regs_of env a d1 = Inr (gs[i := g])" "clients_of env a d1 = Inr cs" "rg_ID g = cid"
    "rg_InstallToken g = t" "validInstallToken t"
    by (rule register_refreshes[OF ok cs gs i pend body h1])
  note f = find_index_Some[OF i]
  obtain k where k: "find_index (\<lambda>g. rg_ID g = cid) (gs[i := g]) = Some k" "cid \<notin> cc_id ` set cs"
    and e2: "clients_of env a d2 = Inr (cs @ [new_client cid (randomString raw1)])"
      "regs_of env a d2 = Inr ((gs[i := g])[k := approved now2 (randomString raw2) (gs[i := g] ! k)])"
    by (rule approval_effect[OF ok h2(1,2,3) g(2,1)])
  have "k = i"
    using k(1) i find_index_cong[OF map_update_same[of "\<lambda>g. rg_ID g = cid" g gs i]] f(2) g(3) by simp
  then have regs2: "regs_of env a d2 = Inr (gs[i := approved now2 (randomString raw2) g])" using e2(2) f(1) by simp
  define ga where "ga = approved now2 (randomString raw2) g"
  have ga: "rg_ID ga = cid" "rg_InstallUsedAt ga = []" "install_candidate t ga"
    using g(3,4) body(4) by (auto simp: ga_def install_candidate_def)
  have fi: "find_index (install_candidate t) (gs[i := ga]) = Some i"
  proof (cases "find_index (install_candidate t) (gs[i := ga])")
    case None
    then show ?thesis using ga(3) f(1) set_update_memI[OF f(1), of ga] by (simp add: find_index_None)
  next
    case (Some m)
    note x = find_index_Some[OF Some]
    have "m = i" using x(1,2) fresh by (cases "m = i") auto
    then show ?thesis using Some by simp
  qed
  have wr: "regs_writable env a d2"
    using registerEdge_writable[OF h1] registrationAction_errors[OF h2(1)] by (simp add: regs_writable_def)
  have pr: "trimPrefix (cq_path r3) ''/api/install/'' = t" unfolding q(1) by (rule trimPrefix_append)
  show ?thesis
    using installEdge_json[OF ok regs2[folded ga_def] e2(1) fi _ _ body(4) validInstallToken_no_slash[OF g(5)] pr q(2) wr,
        of now3] ga f(1) client_token_new[OF k(2)] h2(4) by auto
qed

lemma take_names [simp]: "take 16384 install_name = install_name" "take 16384 other_name = other_name"
  by (simp_all add: install_name_def other_name_def)

lemma sample_registerEdge:
  "t \<in> {install_name, other_name} \<Longrightarrow> ''edge'' \<notin> cc_id ` set cs \<Longrightarrow>
   registerEdge sample_env sample_app now raw (sample_request m p t c) (sample_files cs gs) =
     (sample_files cs (case refresh_pending (sample_request m p t c) now
            \<lparr>rr_ID = ''edge'', rr_Label = ''edge'', rr_InstallToken = t\<rparr> gs of
          Some gs' \<Rightarrow> gs'
        | None \<Rightarrow> gs @ [pending_registration sample_app (sample_request m p t c) now
                        \<lparr>rr_ID = ''edge'', rr_Label = ''edge'', rr_InstallToken = t\<rparr>]),
      console_json 202 (JStatus ''pending''))"
  by (auto simp: registerEdge_def Let_def split: option.split)

theorem pending_registration_takeover_witness:
  "\<exists>d1 d2. registerEdge sample_env sample_app ''t1'' [] (sample_request ''POST'' ''/api/register'' other_name None)
        (sample_files [] [sample_reg ''edge'' ''pending'' install_name]) = (d1, console_json 202 (JStatus ''pending''))
     \<and> fst (registrationAction sample_env sample_app ''t2'' ''r1'' ''r2''
         (sample_request ''POST'' ''/api/registrations/edge/approve'' [] (Some sample_cookie)) d1) = d2
     \<and> snd (installEdge sample_env sample_app ''t3'' (sample_request ''GET'' (''/api/install/'' @ other_name) [] None) d2)
         = console_json 200 (JInstall ''edge'' (randomString ''r1'') (edgeConfig sample_app))"
proof -
  let ?g = "sample_reg ''edge'' ''pending'' install_name"
  let ?r1 = "sample_request ''POST'' ''/api/register'' other_name None"
  let ?r2 = "sample_request ''POST'' ''/api/registrations/edge/approve'' [] (Some sample_cookie)"
  let ?g1 = "?g\<lparr>rg_Label := ''edge'', rg_RemoteAddr := clientAddress ?r1, rg_RequestedAt := ''t1'', rg_InstallToken := other_name,
              rg_InstallIssuedAt := ''t1''\<rparr>"
  let ?d1 = "sample_files [] [?g1]"
  let ?d2 = "sample_files [new_client ''edge'' (randomString ''r1'')] [approved ''t2'' (randomString ''r2'') ?g1]"
  have h1: "registerEdge sample_env sample_app ''t1'' [] ?r1 (sample_files [] [?g])
      = (?d1, console_json 202 (JStatus ''pending''))"
    by (subst sample_registerEdge) simp_all
  have h2: "registrationAction sample_env sample_app ''t2'' ''r1'' ''r2'' ?r2 ?d1
      = (?d2, console_json 200 (JApproved (''https://console'' @ ''/api/install/'' @ other_name)))"
    by (simp add: registrationAction_def)
  have "snd (installEdge sample_env sample_app ''t3'' (sample_request ''GET'' (''/api/install/'' @ other_name) [] None) ?d2)
         = console_json 200 (JInstall ''edge'' (randomString ''r1'') (edgeConfig sample_app))"
    by (rule pending_registration_takeover[OF sample_ok, of "sample_files [] [?g]" "[]" "[?g]" "''edge''" 0 other_name ?r1
          "\<lparr>rr_ID = ''edge'', rr_Label = ''edge'', rr_InstallToken = other_name\<rparr>" "''t1''" "[]" ?d1 "console_json 202 (JStatus ''pending'')" "''t2''" "''r1''" "''r2''" ?r2 ?d2, OF _ _ _ _ _ _ _ _ _ h1 _ h2])
       (simp_all add: install_candidate_def del: append_Cons)
  then show ?thesis using h1 h2 by auto
qed

text \<open>
  Approving a re-registered id after a rejection approves the old record: the console picks the first
  registration with the id whatever its status, so the edge that registered again is answered 404 for its
  install token although the administrator approved it.
\<close>

theorem approval_after_rejection_misses_edge:
  assumes ok: "console_ok env a" and cs: "clients_of env a d = Inr cs" and gs: "regs_of env a d = Inr gs"
    and i: "find_index (\<lambda>g. rg_ID g = cid) gs = Some i" and none: "cid \<notin> set (pending_ids gs)"
    and fresh: "\<forall>g\<in>set gs. rg_InstallToken g \<noteq> t" "rg_InstallToken (gs ! i) \<noteq> []"
    and body: "cn_decodeRegister env (take (16 * 1024) (cq_body r1)) = Inr req0" "trimSpace (rr_ID req0) = cid"
      "trimSpace (rr_InstallToken req0) = t" "t \<noteq> []"
    and h1: "registerEdge env a now1 raw r1 d = (d1, resp1)" "co_status resp1 = 202"
    and h2: "registrationAction env a now2 raw1 raw2 r2 d1 = (d2, resp2)" "co_status resp2 = 200"
      "parseRegistrationAction (cq_path r2) = Some (cid, ''approve'')"
    and q: "cq_path r3 = ''/api/install/'' @ t"
  shows "installEdge env a now3 r3 d2 = (d2, notFound)"
proof -
  obtain req where req: "rr_ID req = cid" "rr_InstallToken req = t" "validInstallToken t"
    and e1: "regs_of env a d1 = Inr (case refresh_pending r1 now1 req gs of
        Some gs' \<Rightarrow> gs' | None \<Rightarrow> gs @ [pending_registration a r1 now1 req])" "clients_of env a d1 = Inr cs"
    using registerEdge_effect[OF ok h1(1)] h1(2) cs gs body by auto
  let ?p = "pending_registration a r1 now1 req"
  have "refresh_pending r1 now1 req gs = None" using none req(1) by (simp add: refresh_pending_None)
  then have e1': "regs_of env a d1 = Inr (gs @ [?p])" using e1(1) by simp
  obtain k where k: "find_index (\<lambda>g. rg_ID g = cid) (gs @ [?p]) = Some k"
    and e2: "clients_of env a d2 = Inr (cs @ [new_client cid (randomString raw1)])"
      "regs_of env a d2 = Inr ((gs @ [?p])[k := approved now2 (randomString raw2) ((gs @ [?p]) ! k)])"
    by (rule approval_effect[OF ok h2(1,2,3) e1(2) e1'])
  have ki: "k = i" using k find_index_append[OF i, of "[?p]"] by simp
  have f: "i < length gs" using find_index_Some(1)[OF i] .
  have regs2: "regs_of env a d2 = Inr (gs[i := approved now2 (randomString raw2) (gs ! i)] @ [?p])"
    using e2(2) f by (simp add: ki list_update_append nth_append)
  have "find_index (install_candidate t) (gs[i := approved now2 (randomString raw2) (gs ! i)] @ [?p]) = None"
    using fresh f by (auto simp: find_index_None install_candidate_def pending_registration_def dest!: set_update_subsetD)
  then show ?thesis
    using regs2 e2(1) q body(4) validInstallToken_no_slash[OF req(3)]
    by (simp add: installEdge_def Let_def del: append_Cons)
qed

theorem approval_after_rejection_misses_edge_witness:
  "\<exists>d2. fst (registrationAction sample_env sample_app ''t2'' ''r1'' ''r2''
         (sample_request ''POST'' ''/api/registrations/edge/approve'' [] (Some sample_cookie))
         (fst (registerEdge sample_env sample_app ''t1'' [] (sample_request ''POST'' ''/api/register'' other_name None)
            (sample_files [] [sample_reg ''edge'' ''rejected'' install_name])))) = d2
     \<and> installEdge sample_env sample_app ''t3'' (sample_request ''GET'' (''/api/install/'' @ other_name) [] None) d2
         = (d2, notFound)"
proof -
  let ?g = "sample_reg ''edge'' ''rejected'' install_name"
  let ?r1 = "sample_request ''POST'' ''/api/register'' other_name None"
  let ?r2 = "sample_request ''POST'' ''/api/registrations/edge/approve'' [] (Some sample_cookie)"
  let ?p = "pending_registration sample_app ?r1 ''t1'' \<lparr>rr_ID = ''edge'', rr_Label = ''edge'', rr_InstallToken = other_name\<rparr>"
  let ?d1 = "sample_files [] [?g, ?p]"
  let ?d2 = "sample_files [new_client ''edge'' (randomString ''r1'')] [approved ''t2'' (randomString ''r2'') ?g, ?p]"
  have h1: "registerEdge sample_env sample_app ''t1'' [] ?r1 (sample_files [] [?g])
      = (?d1, console_json 202 (JStatus ''pending''))"
    by (subst sample_registerEdge) simp_all
  have h2: "registrationAction sample_env sample_app ''t2'' ''r1'' ''r2'' ?r2 ?d1
      = (?d2, console_json 200 (JApproved (''https://console'' @ ''/api/install/'' @ install_name)))"
    by (simp add: registrationAction_def)
  have "installEdge sample_env sample_app ''t3'' (sample_request ''GET'' (''/api/install/'' @ other_name) [] None) ?d2
         = (?d2, notFound)"
    by (rule approval_after_rejection_misses_edge[OF sample_ok, of "sample_files [] [?g]" "[]" "[?g]" "''edge''" 0 other_name ?r1
          "\<lparr>rr_ID = ''edge'', rr_Label = ''edge'', rr_InstallToken = other_name\<rparr>" "''t1''" "[]" ?d1 "console_json 202 (JStatus ''pending'')" "''t2''" "''r1''" "''r2''" ?r2 ?d2, OF _ _ _ _ _ _ _ _ _ _ h1 _ h2])
       (simp_all del: append_Cons)
  then show ?thesis using h1 h2 by auto
qed

end
