(* ===== verification/RevocationStore.thy ===== *)
theory RevocationStore
  imports ConsoleTokens
begin

text \<open>
  The revocation file as the signer and the console share it: a set of client ids with the laws of adding
  and removing one, and what the console's actions on it mean for a signer started from the files.
\<close>

section \<open>A store of revoked ids\<close>

locale revocation_store =
  fixes good :: "'s \<Rightarrow> bool" and fit :: "'i \<Rightarrow> bool" and members :: "'s \<Rightarrow> 'i set"
    and add :: "'i \<Rightarrow> 's \<Rightarrow> 's" and remove :: "'i \<Rightarrow> 's \<Rightarrow> 's"
  assumes add_good: "good s \<Longrightarrow> fit i \<Longrightarrow> good (add i s)"
    and members_add: "good s \<Longrightarrow> fit i \<Longrightarrow> members (add i s) = insert i (members s)"
    and remove_good: "good s \<Longrightarrow> good (remove i s)"
    and members_remove: "good s \<Longrightarrow> members (remove i s) = members s - {i}"
begin

lemma remove_add: "good s \<Longrightarrow> fit i \<Longrightarrow> members (remove i (add i s)) = members s - {i}"
  by (simp add: add_good members_add members_remove)

lemma add_all_good: "good s \<Longrightarrow> \<forall>i\<in>set is. fit i \<Longrightarrow> good (fold add is s)"
  by (induction "is" arbitrary: s) (simp_all add: add_good)

lemma members_add_all: "good s \<Longrightarrow> \<forall>i\<in>set is. fit i \<Longrightarrow> members (fold add is s) = members s \<union> set is"
  by (induction "is" arbitrary: s) (auto simp: add_good members_add)

end

section \<open>The file\<close>

definition revfile_ok :: "console_env \<Rightarrow> string \<Rightarrow> fs \<Rightarrow> bool" where
  "revfile_ok env p d \<longleftrightarrow> fs_read_error d p = None \<and> fs_write_error d p = None \<and> cn_mkdir env p = None
     \<and> ends_line (file_text d p) \<and> snd (scan_lines (file_text d p))"

definition revfile_ids :: "string \<Rightarrow> fs \<Rightarrow> string set" where
  "revfile_ids p d = set (revoked_ids (fst (scan_lines (file_text d p))))"

definition revfile_add :: "console_env \<Rightarrow> string \<Rightarrow> string \<Rightarrow> fs \<Rightarrow> fs" where
  "revfile_add env p cid d = (case appendRevoked env d p cid of Inl _ \<Rightarrow> d | Inr d' \<Rightarrow> d')"

definition revfile_remove :: "string \<Rightarrow> string \<Rightarrow> fs \<Rightarrow> fs" where
  "revfile_remove p cid d = (case removeRevoked d p cid of Inl _ \<Rightarrow> d | Inr d' \<Rightarrow> d')"

lemma readRevoked_text:
  assumes "fs_read_error d p = None"
  shows "readRevoked d p =
     (if snd (scan_lines (file_text d p)) then Inr (revoked_ids (fst (scan_lines (file_text d p))))
      else Inl ''bufio.Scanner: token too long'')"
proof (cases "fs_files d p")
  case None
  then show ?thesis using assms
    by (simp add: readRevoked_def readFile_def file_text_def scan_lines_def raw_lines_def
        revoked_ids_def List.map_filter_simps)
next
  case (Some t)
  then show ?thesis using assms
    by (cases "scan_lines t") (simp add: readRevoked_def readFile_def file_text_def)
qed

lemma file_text_writeFile: "writeFile d p s = Inr d' \<Longrightarrow> file_text d' q = (if q = p then s else file_text d q)"
  by (auto simp: writeFile_def file_text_def split: option.splits)

lemma writeFile_same_errors:
  "writeFile d p s = Inr d' \<Longrightarrow> fs_read_error d' = fs_read_error d \<and> fs_write_error d' = fs_write_error d"
  by (auto simp: writeFile_def split: option.splits)

lemma writeFile_ok: "fs_write_error d p = None \<Longrightarrow> \<exists>d'. writeFile d p s = Inr d'"
  by (simp add: writeFile_def)

subsection \<open>The ids of a file are plain\<close>

lemma hasPrefix_append_left: "hasPrefix a q \<Longrightarrow> hasPrefix (a @ b) q"
  by (auto simp: hasPrefix_iff)

lemma trimSpace_edges: "no_edge_space (trimSpace s)"
proof -
  let ?l = "trim_left_seqs space_seqs s"
  let ?r = "trim_left_seqs (map rev space_seqs) (rev ?l)"
  obtain p where p: "rev ?l = p @ ?r" using trim_left_seqs_suffix by blast
  then have l: "?l = rev ?r @ rev p" by (metis rev_append rev_rev_ident)
  have ne: "q \<noteq> []" if "q \<in> set space_seqs" for q using that by (auto simp: space_seqs_def)
  show ?thesis unfolding no_edge_space_def trimSpace_def
  proof (intro ballI conjI)
    fix q assume q: "q \<in> set space_seqs"
    have "\<not> hasPrefix ?l q" using trim_left_seqs_stop[OF q ne[OF q]] .
    then show "\<not> hasPrefix (rev ?r) q" using hasPrefix_append_left[of "rev ?r" q "rev p"] l by metis
    have "rev q \<in> set (map rev space_seqs)" "rev q \<noteq> []" using q ne[OF q] by auto
    then show "\<not> hasPrefix (rev (rev ?r)) (rev q)" using trim_left_seqs_stop by (metis rev_rev_ident)
  qed
qed

lemma length_trim_left: "length (trim_left_seqs qs s) \<le> length s"
  by (metis trim_left_seqs_suffix length_append le_add2)

lemma length_trimSpace: "length (trimSpace s) \<le> length s"
  using length_trim_left[of "map rev space_seqs" "rev (trim_left_seqs space_seqs s)"] length_trim_left[of space_seqs s]
  by (simp add: trimSpace_def)

lemma take_short_lines:
  "l \<in> set (fst (take_short ls)) \<Longrightarrow> \<exists>r\<in>set ls. l = drop_cr r \<and> length r < scan_limit"
  by (induction ls) (auto split: if_splits prod.splits simp: Let_def)

lemma set_drop_cr: "set (drop_cr l) \<subseteq> set l" "length (drop_cr l) \<le> length l"
  by (auto simp: drop_cr_def dest: in_set_butlastD)

lemma scan_lines_short:
  assumes "l \<in> set (fst (scan_lines s))"
  shows "length l < scan_limit" "newline \<notin> set l"
proof -
  obtain r where r: "r \<in> set (raw_lines s)" "l = drop_cr r" "length r < scan_limit"
    using take_short_lines assms unfolding scan_lines_def by blast
  show "length l < scan_limit" using r set_drop_cr(2)[of r] by simp
  show "newline \<notin> set l" using raw_lines_clean[OF r(1)] r(2) set_drop_cr(1)[of r] by auto
qed

lemma revoked_line_id:
  assumes "revoked_line l = Some i" and "length l < scan_limit" and "newline \<notin> set l"
  shows "plain_id i"
  using assms trimSpace_edges[of l] set_trimSpace[of l] length_trimSpace[of l]
  by (auto simp: revoked_line_def plain_id_def Let_def split: if_splits)

lemma revoked_ids_plain: "i \<in> set (revoked_ids (fst (scan_lines s))) \<Longrightarrow> plain_id i"
proof -
  assume "i \<in> set (revoked_ids (fst (scan_lines s)))"
  then obtain l where "l \<in> set (fst (scan_lines s))" "revoked_line l = Some i"
    by (auto simp: revoked_ids_def List.map_filter_def)
  then show ?thesis using revoked_line_id scan_lines_short by blast
qed

text \<open>The text written by \<open>removeRevoked\<close> reads back as the ids written.\<close>

lemma revoked_ids_all_plain: "\<forall>i\<in>set xs. plain_id i \<Longrightarrow> revoked_ids xs = xs"
  by (induction xs) (simp_all add: revoked_ids_def List.map_filter_simps revoked_line_plain)

lemma take_short_plain: "\<forall>i\<in>set xs. plain_id i \<Longrightarrow> take_short xs = (xs, True)"
  by (induction xs) (auto simp: plain_id_def drop_cr_plain)

lemma scan_joined:
  assumes "\<forall>i\<in>set xs. plain_id i"
  shows "snd (scan_lines (join [newline] xs @ [newline])) \<and> revoked_ids (fst (scan_lines (join [newline] xs @ [newline]))) = xs"
proof (cases "xs = []")
  case True
  then show ?thesis
    by (simp add: scan_lines_def raw_lines_def scan_limit_def drop_cr_def revoked_ids_def revoked_line_def
        List.map_filter_simps)
next
  case False
  have "\<forall>x\<in>set xs. newline \<notin> set x" using assms by (simp add: plain_id_def)
  then have "split_at newline (join [newline] xs @ [newline]) = xs @ [[]]"
    using False by (simp add: split_at_snoc split_at_join)
  then have "raw_lines (join [newline] xs @ [newline]) = xs" by (simp add: raw_lines_def)
  then show ?thesis using take_short_plain[OF assms] revoked_ids_all_plain[OF assms] by (simp add: scan_lines_def)
qed

subsection \<open>The console's operations keep the laws\<close>

lemma appendRevoked_effect:
  assumes ok: "revfile_ok env p d" and i: "plain_id cid"
  obtains d' where "appendRevoked env d p cid = Inr d'" "revfile_ok env p d'"
    "revfile_ids p d' = insert cid (revfile_ids p d)"
proof -
  have rd: "readRevoked d p = Inr (revoked_ids (fst (scan_lines (file_text d p))))"
    using readRevoked_text[of d p] ok by (simp add: revfile_ok_def)
  show thesis
  proof (cases "cid \<in> revfile_ids p d")
    case True
    then have "appendRevoked env d p cid = Inr d" by (simp add: appendRevoked_def rd revfile_ids_def)
    then show thesis using that ok True by (simp add: insert_absorb)
  next
    case False
    obtain d' where w: "writeFile d p (file_text d p @ cid @ [newline]) = Inr d'"
      using ok writeFile_ok[of d p "file_text d p @ cid @ [newline]"] by (auto simp: revfile_ok_def)
    have a: "appendRevoked env d p cid = Inr d'"
      using False w ok by (simp add: appendRevoked_def rd revfile_ids_def appendFile_def revfile_ok_def)
    have sc: "scan_lines (file_text d p @ cid @ [newline]) = (fst (scan_lines (file_text d p)) @ [cid], True)"
      using ok i by (intro scan_lines_append) (simp_all add: revfile_ok_def)
    show thesis
    proof (rule that[OF a])
      show "revfile_ok env p d'"
        using ok writeFile_same_errors[OF w] sc by (simp add: revfile_ok_def file_text_writeFile[OF w])
      show "revfile_ids p d' = insert cid (revfile_ids p d)"
        by (simp add: revfile_ids_def file_text_writeFile[OF w] sc revoked_ids_append revoked_ids_single[OF i])
    qed
  qed
qed

lemma removeRevoked_effect:
  assumes ok: "revfile_ok env p d"
  obtains d' where "removeRevoked d p cid = Inr d'" "revfile_ok env p d'"
    "revfile_ids p d' = revfile_ids p d - {cid}"
proof -
  let ?ids = "revoked_ids (fst (scan_lines (file_text d p)))"
  let ?next = "filter (\<lambda>item. item \<noteq> cid) ?ids"
  have rd: "readRevoked d p = Inr ?ids"
    using readRevoked_text[of d p] ok by (simp add: revfile_ok_def)
  obtain d' where w: "writeFile d p (join [newline] ?next @ [newline]) = Inr d'"
    using ok writeFile_ok[of d p "join [newline] ?next @ [newline]"] by (auto simp: revfile_ok_def)
  have "\<forall>i\<in>set ?next. plain_id i" using revoked_ids_plain by auto
  note sc = scan_joined[OF this]
  show thesis
  proof (rule that)
    show "removeRevoked d p cid = Inr d'" by (simp add: removeRevoked_def rd w)
    show "revfile_ok env p d'"
      using ok writeFile_same_errors[OF w] sc by (simp add: revfile_ok_def file_text_writeFile[OF w] ends_line_def)
    show "revfile_ids p d' = revfile_ids p d - {cid}"
      using sc by (auto simp: revfile_ids_def file_text_writeFile[OF w])
  qed
qed

lemma appendRevoked_eq:
  assumes "revfile_ok env p d" and "plain_id cid"
  shows "appendRevoked env d p cid = Inr (revfile_add env p cid d)"
proof -
  obtain d' where "appendRevoked env d p cid = Inr d'" by (rule appendRevoked_effect[OF assms])
  then show ?thesis by (simp add: revfile_add_def)
qed

interpretation revfile: revocation_store "revfile_ok env p" plain_id "revfile_ids p" "revfile_add env p" "revfile_remove p"
  for env p
proof
  fix d :: fs and cid :: string
  assume ok: "revfile_ok env p d"
  {
    assume i: "plain_id cid"
    obtain d' where "appendRevoked env d p cid = Inr d'" "revfile_ok env p d'"
      "revfile_ids p d' = insert cid (revfile_ids p d)" by (rule appendRevoked_effect[OF ok i])
    then show "revfile_ok env p (revfile_add env p cid d)"
      "revfile_ids p (revfile_add env p cid d) = insert cid (revfile_ids p d)" by (simp_all add: revfile_add_def)
  }
  obtain d' where "removeRevoked d p cid = Inr d'" "revfile_ok env p d'"
    "revfile_ids p d' = revfile_ids p d - {cid}" by (rule removeRevoked_effect[OF ok])
  then show "revfile_ok env p (revfile_remove p cid d)"
    "revfile_ids p (revfile_remove p cid d) = revfile_ids p d - {cid}" by (simp_all add: revfile_remove_def)
qed

section \<open>Revoking on the console\<close>

lemma client_loop_other:
  assumes "action \<noteq> ''disable''" and "action \<noteq> ''enable''" and "action \<noteq> ''limits''"
  shows "\<exists>found. client_loop env cid action bodies cs = Inr (cs, found)"
proof (induction cs)
  case (Cons c cs)
  then obtain found where "client_loop env cid action bodies cs = Inr (cs, found)" by blast
  then show ?case using assms by (cases "cc_id c = cid") auto
qed (simp add: exI[of _ False])

lemma clientAction_other:
  assumes "clients_of env a d = Inr cs" and "parseClientAction (cq_path r) = Some (cid, action)"
    and "action \<noteq> ''disable''" and "action \<noteq> ''enable''" and "action \<noteq> ''limits''"
  shows "clientAction env a r d =
     (case (if action = ''revoke'' then Some (appendRevoked env d (ap_revokedPath a) cid)
            else if action = ''unrevoke'' then Some (removeRevoked d (ap_revokedPath a) cid) else None) of
        None \<Rightarrow> (d, console_json 404 (JErr ''not found''))
      | Some (Inl e) \<Rightarrow> (d, writeError e)
      | Some (Inr d') \<Rightarrow> (d', console_json 200 JOk))"
proof -
  obtain found where l: "client_loop env cid action [cq_body r] cs = Inr (cs, found)"
    using client_loop_other[OF assms(3-5)] by blast
  have n: "action \<notin> {''disable'', ''enable'', ''limits''}" using assms(3-5) by blast
  show ?thesis unfolding clientAction_def assms(1,2) option.case prod.case sum.case l if_not_P[OF n] using n by simp
qed

lemma clientAction_revoke:
  assumes "clients_of env a d = Inr cs" and "revfile_ok env (ap_revokedPath a) d" and "plain_id cid"
    and "parseClientAction (cq_path r) = Some (cid, ''revoke'')"
  shows "clientAction env a r d = (revfile_add env (ap_revokedPath a) cid d, console_json 200 JOk)"
proof -
  obtain d' where "appendRevoked env d (ap_revokedPath a) cid = Inr d'"
    by (rule appendRevoked_effect[OF assms(2,3)])
  then show ?thesis using clientAction_other[OF assms(1,4)] by (simp add: revfile_add_def)
qed

lemma clientAction_unrevoke:
  assumes "clients_of env a d = Inr cs" and "revfile_ok env (ap_revokedPath a) d"
    and "parseClientAction (cq_path r) = Some (cid, ''unrevoke'')"
  shows "clientAction env a r d = (revfile_remove (ap_revokedPath a) cid d, console_json 200 JOk)"
proof -
  obtain d' where "removeRevoked d (ap_revokedPath a) cid = Inr d'"
    by (rule removeRevoked_effect[OF assms(2)])
  then show ?thesis using clientAction_other[OF assms(1,3)] by (simp add: revfile_remove_def)
qed

text \<open>A signer started from the files has exactly the ids of the revocation file on its list.\<close>

lemma newAuthManager_revoked:
  assumes m: "newAuthManager decode d opts = Inr m" and "opt_ClientsPath opts \<noteq> []" and p: "opt_RevokedPath opts = p" "p \<noteq> []"
    and ok: "revfile_ok env p d"
  shows "am_revoked m = revfile_ids p d \<and> am_clientsMode m"
proof -
  have e: "fs_read_error d p = None" using ok by (simp add: revfile_ok_def)
  obtain a1 where a1: "loadClients decode d (opt_ClientsPath opts)
      \<lparr>am_sharedToken = opt_Token opts, am_clientsMode = True, am_clients = [], am_revoked = {},
       am_revokedPath = opt_RevokedPath opts, am_auditPath = opt_AuditPath opts\<rparr> = Inr a1"
    and l: "loadRevoked d p a1 = Inr m"
    using m assms(2) p by (auto simp: newAuthManager_def split: sum.splits)
  have "am_revoked a1 = {} \<and> am_clientsMode a1"
    using a1 by (auto simp: loadClients_def split: sum.splits)
  then show ?thesis using l ok by (auto simp: loadRevoked_content[OF e] revfile_ids_def revfile_ok_def split: if_splits)
qed

text \<open>Start-up of a signer on the console's files.\<close>

definition file_opts :: "app \<Rightarrow> SignServerOptions" where
  "file_opts a =
     \<lparr>opt_Token = [], opt_ClientsPath = ap_clientsPath a, opt_RevokedPath = ap_revokedPath a, opt_AuditPath = ap_auditPath a\<rparr>"

definition file_manager :: "app \<Rightarrow> (string, clientState) gomap \<Rightarrow> fs \<Rightarrow> authManager" where
  "file_manager a m d =
     \<lparr>am_sharedToken = [], am_clientsMode = True, am_clients = m, am_revoked = revfile_ids (ap_revokedPath a) d,
      am_revokedPath = ap_revokedPath a, am_auditPath = ap_auditPath a\<rparr>"

lemma newAuthManager_files:
  assumes "clients_of env a d = Inr cs" and "add_clients cs [] = Inr m" and ok: "revfile_ok env (ap_revokedPath a) d"
    and "ap_clientsPath a \<noteq> []" and "ap_revokedPath a \<noteq> []"
  shows "newAuthManager (cn_decodeClients env) d (file_opts a) = Inr (file_manager a m d)"
proof -
  have e: "fs_read_error d (ap_revokedPath a) = None" using ok by (simp add: revfile_ok_def)
  have "\<exists>data. readFile d (ap_clientsPath a) = Inr data \<and> cn_decodeClients env data = Inr cs"
    using assms(1) by (auto simp: readClientFile_def split: sum.splits)
  then show ?thesis using assms(2,4,5) ok
    by (auto simp: newAuthManager_def loadClients_def file_opts_def file_manager_def loadRevoked_content[OF e]
        revfile_ids_def revfile_ok_def)
qed

lemma sample_revfile: "revfile_ok sample_env ''revoked'' (sample_files cs gs)"
  "revfile_ids ''revoked'' (sample_files cs gs) = {}"
  by (simp_all add: revfile_ok_def revfile_ids_def sample_files_def clean_fs_def file_text_def ends_line_def
      scan_lines_def raw_lines_def revoked_ids_def List.map_filter_simps)

lemma plain_edge: "plain_id ''edge''"
  by (simp add: plain_id_def no_edge_space_ascii ascii_space_def hasPrefix_def scan_limit_def)

definition revoke_request :: console_request where
  "revoke_request = sample_request ''POST'' ''/api/clients/edge/revoke'' [] (Some sample_cookie)"

text \<open>
  Revoking a client that is not on the list and lifting the revocation again leaves the set of revoked
  ids as it was; other ids are not touched by either action.
\<close>

theorem revoke_unrevoke_roundtrip:
  assumes "console_ok env a" and "clients_of env a d = Inr cs"
    and "revfile_ok env (ap_revokedPath a) d" and "plain_id cid" and "cid \<notin> revfile_ids (ap_revokedPath a) d"
    and "parseClientAction (cq_path r1) = Some (cid, ''revoke'')"
    and "parseClientAction (cq_path r2) = Some (cid, ''unrevoke'')"
  shows "revfile_ids (ap_revokedPath a) (fst (clientAction env a r2 (fst (clientAction env a r1 d))))
     = revfile_ids (ap_revokedPath a) d"
proof -
  let ?p = "ap_revokedPath a"
  have 1: "fst (clientAction env a r1 d) = revfile_add env ?p cid d"
    using clientAction_revoke[OF assms(2,3,4,6)] by simp
  have "clients_of env a (revfile_add env ?p cid d) = Inr cs"
    using revoked_write_effect(1)[OF assms(1)] appendRevoked_eq[OF assms(3,4)] assms(2) by metis
  then have 2: "fst (clientAction env a r2 (revfile_add env ?p cid d)) = revfile_remove ?p cid (revfile_add env ?p cid d)"
    using clientAction_unrevoke[OF _ revfile.add_good[OF assms(3,4)] assms(7)] by simp
  show ?thesis using revfile.remove_add[OF assms(3,4)] assms(5) by (simp add: 1 2)
qed

theorem revoke_unrevoke_roundtrip_witness:
  "revfile_ids ''revoked'' (fst (clientAction sample_env sample_app
       (sample_request ''POST'' ''/api/clients/edge/unrevoke'' [] (Some sample_cookie))
       (fst (clientAction sample_env sample_app revoke_request (sample_files [] []))))) = {}"
proof -
  have "parseClientAction ''/api/clients/edge/unrevoke'' = Some (''edge'', ''unrevoke'')" by code_simp
  then show ?thesis
    using revoke_unrevoke_roundtrip[OF sample_ok, of "sample_files [] []" "[]" "''edge''" revoke_request
        "sample_request ''POST'' ''/api/clients/edge/unrevoke'' [] (Some sample_cookie)"] plain_edge
    by (simp add: sample_revfile revoke_request_def)
qed

end
