(* ===== verification/Fleet.thy ===== *)
theory Fleet
  imports RevocationStore
begin

text \<open>
  The components together: a client approved on the console and the signer that reads the console's files,
  and an edge that enrols over the console.
\<close>

section \<open>The client file as the signer loads it\<close>

lemma add_clients_append:
  "add_clients (cs @ cs') m = (case add_clients cs m of Inl e \<Rightarrow> Inl e | Inr m' \<Rightarrow> add_clients cs' m')"
  by (induction cs arbitrary: m) (simp_all add: Let_def)

lemma add_clients_tokens:
  assumes "add_clients cs m = Inr m'" and "(c, st) \<in> set m'"
  shows "(c, st) \<in> set m \<or> cc_token (st_cfg st) \<in> cc_token ` set cs"
  using assms
proof (induction cs arbitrary: m)
  case (Cons x cs)
  let ?x = "x\<lparr>cc_id := trimSpace (cc_id x)\<rparr>"
  from Cons.prems(1) have r: "add_clients cs (mput (cc_id ?x) (fresh_state ?x) m) = Inr m'"
    by (auto simp: Let_def split: if_splits)
  from Cons.IH[OF r Cons.prems(2)] show ?case
    using set_mput_subset[of "cc_id ?x" "fresh_state ?x" m] by (auto simp: fresh_state_def)
qed simp

text \<open>The tokens a running signer knows never change.\<close>

definition known_tokens :: "auth_world \<Rightarrow> string set" where
  "known_tokens w = (\<lambda>(c, st). cc_token (st_cfg st)) ` set (am_clients (fst w))"

lemma known_tokens_step: "known_tokens (auth_step e w) \<subseteq> known_tokens w"
  using auth_step_clients[of e w]
proof (elim disjE exE conjE)
  fix cid st st'
  assume a: "mget (am_clients (fst w)) cid = Some st" "st_cfg st' = st_cfg st"
    "am_clients (fst (auth_step e w)) = mput cid st' (am_clients (fst w))"
  have "(cid, st) \<in> set (am_clients (fst w))" using a(1) by (rule map_of_SomeD)
  then show ?thesis using set_mput_subset[of cid st' "am_clients (fst w)"] a(2,3) by (force simp: known_tokens_def)
qed (simp add: known_tokens_def)

lemma known_tokens_run: "known_tokens (fold auth_step es w) \<subseteq> known_tokens w"
proof (induction es arbitrary: w)
  case (Cons e es)
  have "known_tokens (fold auth_step es (auth_step e w)) \<subseteq> known_tokens (auth_step e w)" by (rule Cons.IH)
  then show ?case using known_tokens_step[of e w] by simp
qed simp

lemma unknown_token_denied:
  assumes "am_clientsMode (fst w)" and "token \<notin> known_tokens w"
  shows "authenticate (fst (fold auth_step es w)) token = ([], False, ''bad token'')"
proof -
  let ?w = "fold auth_step es w"
  have "token \<notin> known_tokens ?w" using known_tokens_run assms(2) by blast
  then have "\<forall>(c, st)\<in>set (am_clients (fst ?w)). cc_token (st_cfg st) \<noteq> token" by (auto simp: known_tokens_def)
  then show ?thesis using find_client_None assms(1) auth_run_ids[of es w] by (simp add: authenticate_def)
qed

lemma valid_id_trim:
  assumes "validClientID i"
  shows "trimSpace i = i" "i \<noteq> []" "plain_id i"
proof -
  have c: "\<forall>c\<in>set i. (id_char c \<or> c = CHR ''.'')" and n: "3 \<le> length i" "length i \<le> 64"
    using assms by (auto simp: validClientID_def list_all_iff)
  have i: "(of_char c :: nat) < 128 \<and> \<not> ascii_space c \<and> c \<noteq> newline \<and> c \<noteq> CHR ''#''"
    if "id_char c \<or> c = CHR ''.''" for c
    using that by (auto simp: id_char_def ascii_space_def Let_def)
  show ne: "i \<noteq> []" using n by auto
  have "no_edge_space i" using c i ne by (subst no_edge_space_ascii) (auto simp: hd_in_set last_in_set)
  then show "trimSpace i = i" by (rule trimSpace_id)
  show "plain_id i" using \<open>no_edge_space i\<close> ne c i n
    by (cases i) (auto simp: plain_id_def scan_limit_def hasPrefix_def)
qed

text \<open>A signer loaded after a client was appended accepts its token when no other client has it.\<close>

lemma appended_client_accepted:
  assumes "clients_of env a d = Inr (cs @ [new_client cid tok])" and "add_clients cs [] = Inr ms"
    and "revfile_ok env (ap_revokedPath a) d" and "ap_clientsPath a \<noteq> []" and "ap_revokedPath a \<noteq> []"
    and v: "validClientID cid" and t: "tok \<noteq> []" "tok \<notin> cc_token ` set cs" and "cid \<notin> revfile_ids (ap_revokedPath a) d"
  shows "\<exists>m. newAuthManager (cn_decodeClients env) d (file_opts a) = Inr m \<and> authenticate m tok = (cid, True, [])"
proof -
  let ?st = "fresh_state (new_client cid tok)"
  let ?m = "mput cid ?st ms"
  have add: "add_clients (cs @ [new_client cid tok]) [] = Inr ?m"
    using assms(2) t(1) valid_id_trim[OF v] by (simp add: add_clients_append new_client_def)
  have mem: "(cid, ?st) \<in> set ?m" using map_of_SomeD[of ?m cid ?st] by simp
  have only: "c = cid \<and> st = ?st" if "(c, st) \<in> set ?m" "cc_token (st_cfg st) = tok" for c st
    using that add_clients_tokens[OF assms(2), of c st] set_mput_subset[of cid ?st ms] t(2) by auto
  have "find_client tok (revfile_ids (ap_revokedPath a) d) ?m = (cid, True, [])"
    using find_client_cases[of tok "revfile_ids (ap_revokedPath a) d" ?m]
  proof
    assume "find_client tok (revfile_ids (ap_revokedPath a) d) ?m = ([], False, ''bad token'')
      \<and> (\<forall>(c, st)\<in>set ?m. cc_token (st_cfg st) \<noteq> tok)"
    then show ?thesis using mem by (auto simp: fresh_state_def new_client_def)
  next
    assume "\<exists>c st. (c, st) \<in> set ?m \<and> cc_token (st_cfg st) = tok
      \<and> find_client tok (revfile_ids (ap_revokedPath a) d) ?m = client_verdict (revfile_ids (ap_revokedPath a) d) c st"
    then have "find_client tok (revfile_ids (ap_revokedPath a) d) ?m
        = client_verdict (revfile_ids (ap_revokedPath a) d) cid ?st" using only by metis
    then show ?thesis using assms(9) by (simp add: client_verdict_def fresh_state_def new_client_def)
  qed
  then show ?thesis
    using newAuthManager_files[OF assms(1) add assms(3-5)] by (simp add: authenticate_def file_manager_def)
qed

lemma sample_approval:
  "registrationAction sample_env sample_app now raw1 raw2
     (sample_request ''POST'' ''/api/registrations/edge/approve'' [] (Some sample_cookie))
     (sample_files [] [sample_reg ''edge'' ''pending'' install_name])
   = (sample_files [new_client ''edge'' (randomString raw1)]
        [approved now (randomString raw2) (sample_reg ''edge'' ''pending'' install_name)],
      console_json 200 (JApproved (''https://console'' @ ''/api/install/'' @ install_name)))"
  by (simp add: registrationAction_def)

lemma sample_inv: "console_inv sample_env sample_app (sample_files [] [sample_reg ''edge'' ''pending'' install_name])"
  by (simp add: console_inv_def sample_ok clients_ok_def regs_ok_def reg_ok_def)

end
