(* ===== verification/FleetEnroll.thy ===== *)
theory FleetEnroll
  imports Fleet
begin

text \<open>
  The edge's enrolment and the console as one system: the edge's requests reach the console's handlers, and
  between two of them the console handles whatever a schedule says.
\<close>

section \<open>The edge's transport is the console\<close>

text \<open>
  HTTP and the JSON texts on the wire are parameters: how a request of the edge arrives at the console's
  multiplexer, and how a response of a handler arrives at the edge.
\<close>

record http_link =
  hl_parse :: "out_request \<Rightarrow> console_request"
  hl_render :: "console_response \<Rightarrow> http_response"

type_synonym site = "fs \<times> console_event list list"

definition console_transport ::
  "console_env \<Rightarrow> app \<Rightarrow> http_link \<Rightarrow> string \<Rightarrow> string \<Rightarrow> site \<Rightarrow> out_request \<Rightarrow> site \<times> http_response result" where
  "console_transport env a l now raw w req =
     (let d = fold (console_step env a) (concat (take 1 (snd w))) (fst w); rest = drop 1 (snd w)
      in case consoleHandler env a now raw raw (hl_parse l req) d of
           None \<Rightarrow> ((d, rest), Inr \<lparr>rs_status = 404, rs_header = [], rs_body = []\<rparr>)
         | Some (d', resp) \<Rightarrow> ((d', rest), Inr (hl_render l resp)))"

definition edge_on_console ::
  "console_env \<Rightarrow> app \<Rightarrow> http_link \<Rightarrow> (string \<Rightarrow> installResponse result) \<Rightarrow> string \<Rightarrow> string \<Rightarrow> site enroll_env" where
  "edge_on_console env a l decode now raw =
     \<lparr>ev_do = console_transport env a l now raw, ev_badURL = (\<lambda>_. None), ev_decode = decode,
      ev_done = (\<lambda>_. None), ev_mkdir = (\<lambda>_. None), ev_duration = (\<lambda>_. Some 10000000000),
      ev_hasPEM = (\<lambda>_. True), ev_keyPair = (\<lambda>_ _. None)\<rparr>"

abbreviation register_call :: "string \<Rightarrow> string \<Rightarrow> string \<Rightarrow> string \<Rightarrow> out_request" where
  "register_call url rid label tok \<equiv>
     \<lparr>or_method = ''POST'', or_url = url @ ''/api/register'',
      or_header = hset [] ''Content-Type'' ''application/json'', or_body = registerRequest_json rid label tok\<rparr>"

abbreviation install_call :: "string \<Rightarrow> string \<Rightarrow> out_request" where
  "install_call url tok \<equiv>
     \<lparr>or_method = ''GET'', or_url = url @ ''/api/install/'' @ tok @ ''?format=json'',
      or_header = hset [] ''Accept'' ''application/json'', or_body = []\<rparr>"

text \<open>What the link does for the requests of one edge: the documented behaviour of HTTP and JSON.\<close>

definition link_ok ::
  "console_env \<Rightarrow> app \<Rightarrow> http_link \<Rightarrow> (string \<Rightarrow> installResponse result) \<Rightarrow> string \<Rightarrow> string \<Rightarrow> string \<Rightarrow> string \<Rightarrow> string \<Rightarrow> bool" where
  "link_ok env a l decode url rid label tok signerToken \<longleftrightarrow>
     cq_method (hl_parse l (register_call url rid label tok)) = ''POST''
     \<and> cq_path (hl_parse l (register_call url rid label tok)) = ''/api/register''
     \<and> cn_decodeRegister env (take (16 * 1024) (cq_body (hl_parse l (register_call url rid label tok))))
         = Inr \<lparr>rr_ID = rid, rr_Label = label, rr_InstallToken = tok\<rparr>
     \<and> cq_method (hl_parse l (install_call url tok)) = ''GET''
     \<and> cq_path (hl_parse l (install_call url tok)) = ''/api/install/'' @ tok
     \<and> wantsJSON (hl_parse l (install_call url tok))
     \<and> (\<forall>resp. rs_status (hl_render l resp) = co_status resp)
     \<and> (\<forall>resp. co_body resp = JInstall rid signerToken (edgeConfig a) \<longrightarrow>
          decode (take (64 * 1024) (rs_body (hl_render l resp)))
            = Inr \<lparr>ir_KeylessToken = signerToken, ir_EdgeConfig = edgeConfig a\<rparr>)"

section \<open>One request\<close>

lemma valid_token_trim: "validInstallToken t \<Longrightarrow> trimSpace t = t"
proof -
  assume v: "validInstallToken t"
  then have c: "\<forall>c\<in>set t. id_char c" and ne: "t \<noteq> []" by (auto simp: validInstallToken_def list_all_iff)
  have i: "(of_char c :: nat) < 128 \<and> \<not> ascii_space c" if "id_char c" for c
    using that by (auto simp: id_char_def ascii_space_def Let_def)
  have "no_edge_space t" using c i ne by (subst no_edge_space_ascii) (auto simp: hd_in_set last_in_set)
  then show ?thesis by (rule trimSpace_id)
qed

lemma register_new:
  assumes ok: "console_ok env a" and cs: "clients_of env a d = Inr cs" and gs: "regs_of env a d = Inr gs"
    and v: "validClientID rid" "validInstallToken tok" and f: "rid \<notin> cc_id ` set cs" "rid \<notin> rg_ID ` set gs"
    and wr: "regs_writable env a d"
    and body: "cn_decodeRegister env (take (16 * 1024) (cq_body r)) = Inr \<lparr>rr_ID = rid, rr_Label = label, rr_InstallToken = tok\<rparr>"
  obtains d' p where "registerEdge env a now raw r d = (d', console_json 202 (JStatus ''pending''))"
    "clients_of env a d' = Inr cs" "regs_of env a d' = Inr (gs @ [p])" "regs_writable env a d'"
    "fs_write_error d' = fs_write_error d" "rg_ID p = rid" "rg_Status p = ''pending''" "rg_InstallToken p = tok"
proof -
  let ?req = "\<lparr>rr_ID = rid, rr_Label = trimSpace label, rr_InstallToken = tok\<rparr>"
  let ?p = "pending_registration a r now ?req"
  have "rid \<notin> set (pending_ids gs)" using f(2) by (auto simp: set_pending_ids)
  then have rf: "refresh_pending r now ?req gs = None" by (simp add: refresh_pending_None)
  obtain d' where w: "writeRegistrations env d (ap_registerPath a) (gs @ [?p]) = Inr d'"
    using wr writeRegistrations_iff by blast
  have h: "registerEdge env a now raw r d = (d', console_json 202 (JStatus ''pending''))"
    using body w rf cs gs v f(1) valid_id_trim(1)[OF v(1)] valid_token_trim[OF v(2)] validInstallToken_nonempty[OF v(2)]
    by (simp add: registerEdge_def Let_def store_registrations_def)
  have e: "fs_write_error d' = fs_write_error d"
    using w by (auto simp: writeRegistrations_def dest: write_errors split: option.splits)
  show thesis
    by (rule that[OF h _ _ writeRegistrations_keeps[OF w] e, of ?p])
       (use write_regs_effect[OF ok w gs] cs in \<open>simp_all add: pending_registration_def\<close>)
qed

lemma approve_new:
  assumes ok: "console_ok env a" and cs: "clients_of env a d = Inr cs" and gs: "regs_of env a d = Inr (gs @ [p])"
    and p: "rg_ID p = rid" "rid \<notin> rg_ID ` set gs" "rid \<notin> cc_id ` set cs"
    and wr: "regs_writable env a d" "fs_write_error d (ap_clientsPath a) = None" "cn_mkdir env (ap_clientsPath a) = None"
    and r: "parseRegistrationAction (cq_path r) = Some (rid, ''approve'')"
  obtains d' resp where "registrationAction env a now raw1 raw2 r d = (d', resp)"
    "clients_of env a d' = Inr (cs @ [new_client rid (randomString raw1)])"
    "regs_of env a d' = Inr (gs @ [approved now (randomString raw2) p])" "regs_writable env a d'"
proof -
  let ?g = "approved now (randomString raw2) p"
  have i: "find_index (\<lambda>g. rg_ID g = rid) (gs @ [p]) = Some (length gs)"
    using p(1,2) by (induction gs) auto
  obtain d1 where w1: "writeClientFile env d (ap_clientsPath a) (cs @ [new_client rid (randomString raw1)]) = Inr d1"
    using wr(2,3) by (auto simp: writeClientFile_def writeFile_def)
  have wr1: "regs_writable env a d1" using wr(1) writeClientFile_errors[OF w1] by (simp add: regs_writable_def)
  then obtain d2 where w2: "writeRegistrations env d1 (ap_registerPath a) (gs @ [?g]) = Inr d2"
    using writeRegistrations_iff by blast
  note e1 = write_clients_effect[OF ok w1 cs]
  have g1: "regs_of env a d1 = Inr (gs @ [p])" using e1(2) gs by simp
  note e2 = write_regs_effect[OF ok w2 g1]
  have h: "registrationAction env a now raw1 raw2 r d
      = (d2, console_json 200 (JApproved (ap_publicURL a @ ''/api/install/'' @ rg_InstallToken ?g)))"
    using w1 w2 cs gs i p(3) r by (simp add: registrationAction_def Let_def store_registrations_def)
  show thesis
    by (rule that[OF h _ e2(1) writeRegistrations_keeps[OF w2]]) (use e2(2) e1(1) in simp)
qed

lemma co_status_headers [simp]: "co_status (securityHeaders resp) = co_status resp"
  by (simp add: securityHeaders_def Let_def)

lemma consoleHandler_register:
  "cq_method r = ''POST'' \<Longrightarrow> cq_path r = ''/api/register'' \<Longrightarrow>
   consoleHandler env a now raw1 raw2 r d = Some (map_prod id securityHeaders (registerEdge env a now raw1 r d))"
  by (cases "registerEdge env a now raw1 r d") (simp add: consoleHandler_def)

lemma console_step_approve:
  assumes "admin_approval env a rid tok (now, raw1, raw2, r)" and "hasPrefix (cq_path r) ''/api/registrations/''"
    and "registrationAction env a now raw1 raw2 r d = (d', resp)"
  shows "console_step env a (now, raw1, raw2, r) d = d'"
proof -
  obtain s where s: "cq_path r = ''/api/registrations/'' @ s" using assms(2) by (auto simp: hasPrefix_iff)
  then have n: "cq_path r \<noteq> ''/logout''" "cq_path r \<noteq> ''/api/register''" "\<not> hasPrefix (cq_path r) ''/api/install/''"
    "\<not> hasPrefix (cq_path r) ''/api/clients/''" by (simp_all add: hasPrefix_def)
  then show ?thesis using assms by (auto simp: consoleHandler_def console_requireAdmin_def)
qed

text \<open>The handlers of an enrolment write the client and the registration file only.\<close>

definition same_file :: "string \<Rightarrow> fs \<Rightarrow> fs \<Rightarrow> bool" where
  "same_file p d d' \<longleftrightarrow> fs_files d' p = fs_files d p \<and> fs_read_error d' p = fs_read_error d p
     \<and> fs_write_error d' p = fs_write_error d p"

lemma same_file_refl [simp]: "same_file p d d"
  by (simp add: same_file_def)

lemma same_file_trans: "same_file p d d' \<Longrightarrow> same_file p d' d'' \<Longrightarrow> same_file p d d''"
  by (simp add: same_file_def)

lemma same_file_write: "writeFile d q s = Inr d' \<Longrightarrow> p \<noteq> q \<Longrightarrow> same_file p d d'"
  by (auto simp: writeFile_def same_file_def split: option.splits)

lemma same_file_regs: "writeRegistrations env d q gs = Inr d' \<Longrightarrow> p \<noteq> q \<Longrightarrow> same_file p d d'"
  by (auto simp: writeRegistrations_def intro: same_file_write split: option.splits)

lemma same_file_clients: "writeClientFile env d q cs = Inr d' \<Longrightarrow> p \<noteq> q \<Longrightarrow> same_file p d d'"
  by (auto simp: writeClientFile_def intro: same_file_write split: option.splits)

lemma same_file_store:
  "store_registrations env a d gs resp = (d', r) \<Longrightarrow> p \<noteq> ap_registerPath a \<Longrightarrow> same_file p d d'"
  by (auto simp: store_registrations_def intro: same_file_regs split: sum.splits)

lemma same_file_register:
  assumes "registerEdge env a now raw r d = (d', resp)" and "p \<noteq> ap_registerPath a"
  shows "same_file p d d'"
  using assms(1) same_file_store[OF _ assms(2)]
  by (auto simp: registerEdge_def Let_def split: sum.splits if_splits)

lemma same_file_approve:
  assumes "registrationAction env a now raw1 raw2 r d = (d', resp)" and "p \<noteq> ap_registerPath a" "p \<noteq> ap_clientsPath a"
  shows "same_file p d d'"
  using assms(1) same_file_store[OF _ assms(2)] same_file_trans[OF same_file_clients[OF _ assms(3)]]
  by (fastforce simp: registrationAction_def Let_def split: sum.splits if_splits option.splits prod.splits)

lemma same_file_install:
  assumes "installEdge env a now r d = (d', resp)" and "p \<noteq> ap_registerPath a"
  shows "same_file p d d'"
  using assms(1) same_file_regs[OF _ assms(2)]
  by (auto simp: installEdge_def Let_def split: sum.splits if_splits option.splits)

lemma same_revfile:
  assumes "same_file p d d'"
  shows "revfile_ok env p d' = revfile_ok env p d" "revfile_ids p d' = revfile_ids p d"
  using assms by (simp_all add: same_file_def revfile_ok_def revfile_ids_def file_text_def)

section \<open>Polling\<close>

text \<open>A poll while the registration is pending, and the poll after the approval.\<close>

lemma poll_pending:
  assumes l: "link_ok env a l decode url rid label tok st" and t: "validInstallToken tok"
    and cs: "clients_of env a d = Inr cs" and gs: "regs_of env a d = Inr gs"
    and n: "find_index (install_candidate tok) gs = None"
  shows "fetchInstallToken (edge_on_console env a l decode now raw) url tok (d, [] # rest) = ((d, rest), Inl InstallPending)"
    and "fetchInstallToken (edge_on_console env a l decode now raw) url tok (d, []) = ((d, []), Inl InstallPending)"
proof -
  let ?r = "hl_parse l (install_call url tok)"
  have r: "cq_method ?r = ''GET''" "cq_path ?r = ''/api/install/'' @ tok" using l by (auto simp: link_ok_def)
  have "installEdge env a now ?r d = (d, notFound)"
    using cs gs n r(2) validInstallToken_nonempty[OF t] validInstallToken_no_slash[OF t]
    by (simp add: installEdge_def Let_def del: append_Cons)
  then have "consoleHandler env a now raw raw ?r d = Some (d, securityHeaders notFound)"
    using consoleHandler_install[OF r] by simp
  then show "fetchInstallToken (edge_on_console env a l decode now raw) url tok (d, [] # rest) = ((d, rest), Inl InstallPending)"
    "fetchInstallToken (edge_on_console env a l decode now raw) url tok (d, []) = ((d, []), Inl InstallPending)"
    using l by (simp_all add: fetchInstallToken_def edge_on_console_def console_transport_def Let_def link_ok_def)
qed

lemma poll_approved:
  assumes l: "link_ok env a l decode url rid label tok st" and t: "validInstallToken tok" and ok: "console_ok env a"
    and e: "console_step env a e d = d1" and cs: "clients_of env a d1 = Inr cs" and gs: "regs_of env a d1 = Inr gs"
    and i: "find_index (install_candidate tok) gs = Some i" "rg_InstallUsedAt (gs ! i) = []" "rg_ID (gs ! i) = rid"
    and k: "client_token rid cs = st" "st \<noteq> []" and wr: "regs_writable env a d1"
  shows "\<exists>d2. fetchInstallToken (edge_on_console env a l decode now raw) url tok (d, [e] # rest)
      = ((d2, rest), Inr \<lparr>ir_KeylessToken = st, ir_EdgeConfig = edgeConfig a\<rparr>) \<and> clients_of env a d2 = Inr cs
      \<and> (\<forall>p. p \<noteq> ap_registerPath a \<longrightarrow> same_file p d1 d2)"
proof -
  let ?r = "hl_parse l (install_call url tok)"
  have r: "cq_method ?r = ''GET''" "cq_path ?r = ''/api/install/'' @ tok" "wantsJSON ?r" using l by (auto simp: link_ok_def)
  have tp: "trimPrefix (cq_path ?r) ''/api/install/'' = tok" unfolding r(2) by (rule trimPrefix_append)
  have kn: "client_token (rg_ID (gs ! i)) cs \<noteq> []" using k i(3) by simp
  obtain d2 where d2: "installEdge env a now ?r d1 = (d2, console_json 200 (JInstall rid st (edgeConfig a)))"
    "clients_of env a d2 = Inr cs"
    using installEdge_json[OF ok gs cs i(1,2) kn validInstallToken_nonempty[OF t] validInstallToken_no_slash[OF t] tp r(3) wr, of now]
      i(3) k(1) by auto
  have "consoleHandler env a now raw raw ?r d1 = Some (d2, securityHeaders (console_json 200 (JInstall rid st (edgeConfig a))))"
    using consoleHandler_install[OF r(1,2)] d2(1) by simp
  then have "fetchInstallToken (edge_on_console env a l decode now raw) url tok (d, [e] # rest)
      = ((d2, rest), Inr \<lparr>ir_KeylessToken = st, ir_EdgeConfig = edgeConfig a\<rparr>)"
    using l e k(2)
    by (simp add: fetchInstallToken_def edge_on_console_def console_transport_def Let_def link_ok_def ReadJSON_def)
  with d2(2) same_file_install[OF d2(1)] show ?thesis by blast
qed

lemma poll_loop:
  assumes p: "\<And>rest. fetchInstallToken env url tok (d, [] # rest) = ((d, rest), Inl InstallPending)"
    and nd: "\<And>w. ev_done env w = None"
    and f: "fetchInstallToken env url tok (d, x # rest) = (w', Inr install)"
  shows "poll_install env url tok (d, replicate n [] @ x # rest) = Some (w', Inr install)"
proof (induction n)
  case 0
  show ?case by (subst poll_install.simps) (simp add: nd f)
next
  case (Suc n)
  then show ?case by (subst poll_install.simps) (simp add: nd p)
qed

lemma enrollEdge_registered:
  assumes "\<And>u. ev_badURL env u = None" and "tok \<noteq> []" and "url = trimRight consoleURL CHR ''/''"
    and "ev_do env w (register_call url rid (if label = [] then rid else label) tok) = (w0, Inr resp)"
    and "rs_status resp = 202" and "poll_install env url tok w0 = Some (w1, Inr install)"
  shows "enrollEdge env raw consoleURL rid label tok w = Some (w1, Inr (ir_KeylessToken install, tok, ir_EdgeConfig install))"
  using assms by (cases "label = []") (simp_all add: enrollEdge_def)

text \<open>What the registration request brings back over the link.\<close>

lemma register_over_link:
  assumes l: "link_ok env a l decode url rid label tok st"
    and h: "registerEdge env a now raw (hl_parse l (register_call url rid label tok)) d = (d1, resp)"
  shows "ev_do (edge_on_console env a l decode now raw) (d, [] # rest) (register_call url rid label tok)
      = ((d1, rest), Inr (hl_render l (securityHeaders resp)))"
    and "ev_do (edge_on_console env a l decode now raw) (d, []) (register_call url rid label tok)
      = ((d1, []), Inr (hl_render l (securityHeaders resp)))"
    and "rs_status (hl_render l (securityHeaders resp)) = co_status resp"
proof -
  have r: "cq_method (hl_parse l (register_call url rid label tok)) = ''POST''"
    "cq_path (hl_parse l (register_call url rid label tok)) = ''/api/register''" using l by (auto simp: link_ok_def)
  have c: "consoleHandler env a now raw raw (hl_parse l (register_call url rid label tok)) d = Some (d1, securityHeaders resp)"
    using consoleHandler_register[OF r] h by simp
  then show "ev_do (edge_on_console env a l decode now raw) (d, [] # rest) (register_call url rid label tok)
      = ((d1, rest), Inr (hl_render l (securityHeaders resp)))"
    "ev_do (edge_on_console env a l decode now raw) (d, []) (register_call url rid label tok)
      = ((d1, []), Inr (hl_render l (securityHeaders resp)))"
    by (simp_all add: edge_on_console_def console_transport_def Let_def)
  show "rs_status (hl_render l (securityHeaders resp)) = co_status resp" using l by (simp add: link_ok_def)
qed

text \<open>Polling from a pending registration through its approval.\<close>

lemma polls_until_approved:
  assumes l: "link_ok env a l decode url rid label tok st" and ok: "console_ok env a"
    and d: "clients_of env a d = Inr cs" "regs_of env a d = Inr (gs @ [p])" "regs_writable env a d"
      "fs_write_error d (ap_clientsPath a) = None" "cn_mkdir env (ap_clientsPath a) = None"
    and p: "rg_ID p = rid" "rg_Status p = ''pending''" "rg_InstallToken p = tok" and v: "validInstallToken tok"
    and fresh: "rid \<notin> cc_id ` set cs" "rid \<notin> rg_ID ` set gs" "tok \<notin> rg_InstallToken ` set gs"
    and ap: "admin_approval env a rid st (now1, raw1, raw2, r1)" "hasPrefix (cq_path r1) ''/api/registrations/''" "st \<noteq> []"
  obtains d' where "poll_install (edge_on_console env a l decode now raw) url tok
        (d, replicate n [] @ [(now1, raw1, raw2, r1)] # rest)
      = Some ((d', rest), Inr \<lparr>ir_KeylessToken = st, ir_EdgeConfig = edgeConfig a\<rparr>)"
    "clients_of env a d' = Inr (cs @ [new_client rid st])"
    "\<forall>q. q \<noteq> ap_registerPath a \<longrightarrow> q \<noteq> ap_clientsPath a \<longrightarrow> same_file q d d'"
proof -
  let ?env = "edge_on_console env a l decode now raw" and ?e = "(now1, raw1, raw2, r1)"
  have st: "st = randomString raw1" "parseRegistrationAction (cq_path r1) = Some (rid, ''approve'')" using ap(1) by auto
  obtain d2 resp where app: "registrationAction env a now1 raw1 raw2 r1 d = (d2, resp)"
    and d2: "clients_of env a d2 = Inr (cs @ [new_client rid st])"
      "regs_of env a d2 = Inr (gs @ [approved now1 (randomString raw2) p])" "regs_writable env a d2"
    using approve_new[OF ok d(1,2) p(1) fresh(2,1) d(3-5) st(2), of now1 raw1 raw2] st(1) by metis
  have step: "console_step env a ?e d = d2" by (rule console_step_approve[OF ap(1,2) app])
  have none: "find_index (install_candidate tok) (gs @ [p]) = None"
    using fresh(3) p(2) by (auto simp: find_index_None install_candidate_def)
  have some: "find_index (install_candidate tok) (gs @ [approved now1 (randomString raw2) p]) = Some (length gs)"
    using fresh(3) p(3) validInstallToken_nonempty[OF v] by (induction gs) (auto simp: install_candidate_def)
  obtain d3 where f: "fetchInstallToken ?env url tok (d, [?e] # rest)
      = ((d3, rest), Inr \<lparr>ir_KeylessToken = st, ir_EdgeConfig = edgeConfig a\<rparr>)"
    and d3: "clients_of env a d3 = Inr (cs @ [new_client rid st])" "\<forall>q. q \<noteq> ap_registerPath a \<longrightarrow> same_file q d2 d3"
    using poll_approved[OF l v ok step d2(1,2) some _ _ client_token_new[OF fresh(1)] ap(3) d2(3), of now raw rest]
      p(1) by auto
  have "poll_install ?env url tok (d, replicate n [] @ [?e] # rest)
      = Some ((d3, rest), Inr \<lparr>ir_KeylessToken = st, ir_EdgeConfig = edgeConfig a\<rparr>)"
    by (rule poll_loop[OF poll_pending(1)[OF l v d(1,2) none] _ f]) (simp add: edge_on_console_def)
  then show thesis using that d3 same_file_approve[OF app] same_file_trans by blast
qed

section \<open>An enrolment\<close>

text \<open>
  An edge with an unused valid id and install token that registers, polls, is approved at some poll and gets the
  signer token; what it leaves on the console.
\<close>

lemma enrolment_run:
  assumes inv: "console_inv env a d" and cs: "clients_of env a d = Inr cs" and gs: "regs_of env a d = Inr gs"
    and v: "validClientID rid" "validInstallToken tok"
    and fresh: "rid \<notin> cc_id ` set cs" "rid \<notin> rg_ID ` set gs" "tok \<notin> rg_InstallToken ` set gs"
    and wr: "regs_writable env a d" "fs_write_error d (ap_clientsPath a) = None" "cn_mkdir env (ap_clientsPath a) = None"
    and ap: "admin_approval env a rid st (now1, raw1, raw2, r1)" "hasPrefix (cq_path r1) ''/api/registrations/''" "st \<noteq> []"
    and url: "url = trimRight consoleURL CHR ''/''"
    and l: "link_ok env a l decode url rid (if label = [] then rid else label) tok st"
  obtains d' where "enrollEdge (edge_on_console env a l decode now raw) raw0 consoleURL rid label tok
        (d, [] # replicate n [] @ [(now1, raw1, raw2, r1)] # rest)
      = Some ((d', rest), Inr (st, tok, edgeConfig a))"
    "clients_of env a d' = Inr (cs @ [new_client rid st])"
    "\<forall>q. q \<noteq> ap_registerPath a \<longrightarrow> q \<noteq> ap_clientsPath a \<longrightarrow> same_file q d d'"
proof -
  let ?env = "edge_on_console env a l decode now raw" and ?label = "if label = [] then rid else label"
  let ?sched = "replicate n [] @ [(now1, raw1, raw2, r1)] # rest"
  have ok: "console_ok env a" using inv by (auto elim: console_invE)
  have body: "cn_decodeRegister env (take (16 * 1024) (cq_body (hl_parse l (register_call url rid ?label tok))))
      = Inr \<lparr>rr_ID = rid, rr_Label = ?label, rr_InstallToken = tok\<rparr>"
    using l by (auto simp: link_ok_def)
  obtain d1 p where reg: "registerEdge env a now raw (hl_parse l (register_call url rid ?label tok)) d
      = (d1, console_json 202 (JStatus ''pending''))"
    and d1: "clients_of env a d1 = Inr cs" "regs_of env a d1 = Inr (gs @ [p])" "regs_writable env a d1"
      "fs_write_error d1 = fs_write_error d"
    and p: "rg_ID p = rid" "rg_Status p = ''pending''" "rg_InstallToken p = tok"
    by (rule register_new[OF ok cs gs v fresh(1,2) wr(1) body])
  have w1: "fs_write_error d1 (ap_clientsPath a) = None" using d1(4) wr(2) by simp
  obtain d' where poll: "poll_install ?env url tok (d1, ?sched)
      = Some ((d', rest), Inr \<lparr>ir_KeylessToken = st, ir_EdgeConfig = edgeConfig a\<rparr>)"
    and d': "clients_of env a d' = Inr (cs @ [new_client rid st])"
      "\<forall>q. q \<noteq> ap_registerPath a \<longrightarrow> q \<noteq> ap_clientsPath a \<longrightarrow> same_file q d1 d'"
    by (rule polls_until_approved[OF l ok d1(1-3) w1 wr(3) p v(2) fresh ap])
  have "enrollEdge ?env raw0 consoleURL rid label tok (d, [] # ?sched) = Some ((d', rest), Inr (st, tok, edgeConfig a))"
    using enrollEdge_registered[OF _ validInstallToken_nonempty[OF v(2)] url register_over_link(1)[OF l reg] _ poll, of raw0]
      register_over_link(3)[OF l reg] by (simp add: edge_on_console_def)
  then show thesis using that d' same_file_register[OF reg] same_file_trans by blast
qed

definition sample_link :: http_link where
  "sample_link =
     \<lparr>hl_parse = (\<lambda>req. if or_method req = ''POST'' then sample_request ''POST'' ''/api/register'' install_name None
                          else sample_request ''GET'' (''/api/install/'' @ install_name) [] None),
      hl_render = (\<lambda>resp. \<lparr>rs_status = co_status resp, rs_header = [], rs_body = []\<rparr>)\<rparr>"

section \<open>Enrolment that never ends\<close>

lemma poll_forever:
  assumes f: "fetchInstallToken env url tok w = (w, Inl InstallPending)" and n: "ev_done env w = None"
  shows "poll_install env url tok w = None"
proof (cases "poll_install env url tok w")
  case (Some r)
  have "e = env \<and> u = url \<and> t = tok \<longrightarrow> w0 \<noteq> w" if "poll_install e u t w0 = Some y" for e u t w0 y
    using that by (rule poll_install.raw_induct[rotated]) (use f n in \<open>auto split: option.splits, blast\<close>)
  then show ?thesis using Some by blast
qed

end
