(* ===== verification/ConsoleSession.thy ===== *)
theory ConsoleSession
  imports FleetEnroll
begin

text \<open>
  Sessions of the console: what admits a request to the administrator's handlers and what a login yields;
  and the audit window of the overview.
\<close>

section \<open>Sessions\<close>

lemma currentUser_Some:
  assumes "currentUser env a r = Some user"
  shows "\<exists>v sig payload session. cq_cookie r ''ssl_signer_session'' = Some (v @ ''.'' @ sig)
     \<and> hexDecode sig = Some (cn_hmac env (ap_sessionKey a) v) \<and> rawURLDecode v = Some payload
     \<and> cn_decodeSession env payload = Inr session
     \<and> fetchMe env a (session_value session ''account_session'') = Inr user \<and> me_Role user = ''system_admin''"
proof -
  obtain cookie v payload session where c: "cq_cookie r ''ssl_signer_session'' = Some cookie"
    "verifiedPayload env a cookie = (v, True)" "rawURLDecode v = Some payload" "cn_decodeSession env payload = Inr session"
    "fetchMe env a (session_value session ''account_session'') = Inr user" "me_Role user = ''system_admin''"
    using assms by (auto simp: currentUser_def split: option.splits prod.splits sum.splits if_splits)
  obtain sig where "cookie = v @ ''.'' @ sig" "hexDecode sig = Some (cn_hmac env (ap_sessionKey a) v)"
    using verifiedPayload_ok[OF c(2)] by blast
  with c show ?thesis by blast
qed

text \<open>The routes for administrators.\<close>

definition admin_route :: "console_request \<Rightarrow> bool" where
  "admin_route r \<longleftrightarrow>
     cq_method r = ''POST'' \<and> (hasPrefix (cq_path r) ''/api/clients/'' \<or> hasPrefix (cq_path r) ''/api/registrations/'')
     \<or> cq_method r = ''GET'' \<and> cq_path r = ''/api/summary''"

lemma unauthorized_route:
  assumes a: "admin_route r" and n: "currentUser env a r = None"
  shows "consoleHandler env a now raw1 raw2 r d = Some (d, securityHeaders (console_json 401 (JErr ''unauthorized'')))"
proof -
  from a consider s where "cq_method r = ''POST''" "cq_path r = ''/api/clients/'' @ s"
    | s where "cq_method r = ''POST''" "cq_path r = ''/api/registrations/'' @ s"
    | "cq_method r = ''GET''" "cq_path r = ''/api/summary''"
    unfolding admin_route_def hasPrefix_iff by blast
  then show ?thesis
    by cases (simp_all add: consoleHandler_def console_requireAdmin_def n hasPrefix_def)
qed

text \<open>
  C26. A request to an administrator's route is answered otherwise than 401, or changes a file, only if its
  session cookie is a value signed with the console's key that decodes to a session whose account the
  account system confirms, at that moment, as system_admin.
\<close>

theorem admin_needs_signed_session:
  assumes "admin_route r" and h: "consoleHandler env a now raw1 raw2 r d = Some (d', resp)"
    and "co_status resp \<noteq> 401 \<or> d' \<noteq> d"
  shows "\<exists>v sig payload session user. cq_cookie r ''ssl_signer_session'' = Some (v @ ''.'' @ sig)
     \<and> hexDecode sig = Some (cn_hmac env (ap_sessionKey a) v) \<and> rawURLDecode v = Some payload
     \<and> cn_decodeSession env payload = Inr session
     \<and> fetchMe env a (session_value session ''account_session'') = Inr user \<and> me_Role user = ''system_admin''"
proof -
  have "currentUser env a r \<noteq> None"
  proof
    assume n: "currentUser env a r = None"
    then have "consoleHandler env a now raw1 raw2 r d = Some (d, securityHeaders (console_json 401 (JErr ''unauthorized'')))"
      by (rule unauthorized_route[OF assms(1)])
    then show False using h assms(3) by simp
  qed
  then obtain user where "currentUser env a r = Some user" by blast
  from currentUser_Some[OF this] show ?thesis by blast
qed

theorem admin_needs_signed_session_witness:
  "\<exists>v sig. sample_cookie = v @ ''.'' @ sig \<and> hexDecode sig = Some (cn_hmac sample_env (ap_sessionKey sample_app) v)"
proof -
  let ?r = "sample_request ''GET'' ''/api/summary'' [] (Some sample_cookie)"
  let ?d = "sample_files [] []"
  have "consoleHandler sample_env sample_app [] [] [] ?r ?d
      = Some (?d, securityHeaders (summary sample_env sample_app ?d))"
    by (simp add: consoleHandler_def console_requireAdmin_def hasPrefix_def)
  moreover have "co_status (securityHeaders (summary sample_env sample_app ?d)) \<noteq> 401"
    by (auto simp: summary_def split: sum.splits prod.splits option.splits os_error.splits)
  ultimately show ?thesis
    using admin_needs_signed_session[of ?r sample_env sample_app "[]" "[]" "[]" ?d ?d]
    by (auto simp: admin_route_def)
qed

text \<open>
  C27. A login works: when the callback redirects, it has set a session cookie with which every later request
  is recognised as the account the callback checked, a system_admin, as long as the account system gives the
  same answer.
\<close>

theorem login_yields_session:
  assumes st: "co_status (callback env a r) = 302" and json: "\<And>m. cn_decodeSession env (cn_encodeSession env m) = Inr m"
  shows "\<exists>v user. cookie_line ''ssl_signer_session'' v (8 * 3600) \<in> set (hvalues (co_header (callback env a r)) ''Set-Cookie'')
     \<and> fetchMe env a (cq_query r ''account_session'') = Inr user \<and> me_Role user = ''system_admin''
     \<and> (\<forall>q. cq_cookie q ''ssl_signer_session'' = Some v \<longrightarrow> currentUser env a q = Some user)"
proof -
  obtain user where u: "fetchMe env a (cq_query r ''account_session'') = Inr user" "me_Role user = ''system_admin''"
    and c: "callback env a r = clearCookie ''ssl_signer_state''
       (setCookie ''ssl_signer_session'' (signValue env a (rawURLEncode (cn_encodeSession env
          [(''account_session'', cq_query r ''account_session''), (''email'', me_Email user), (''role'', me_Role user)])))
          (8 * 3600) (redirect ''/''))"
    using st by (auto simp: callback_def split: option.splits if_splits sum.splits)
  let ?s = "[(''account_session'', cq_query r ''account_session''), (''email'', me_Email user), (''role'', me_Role user)]"
  let ?v = "signValue env a (rawURLEncode (cn_encodeSession env ?s))"
  have "cookie_line ''ssl_signer_session'' ?v (8 * 3600) \<in> set (hvalues (co_header (callback env a r)) ''Set-Cookie'')"
    unfolding c by (simp add: clearCookie_def setCookie_def hvalues_hadd)
  moreover have "currentUser env a q = Some user" if "cq_cookie q ''ssl_signer_session'' = Some ?v" for q
    using that u verifiedPayload_signValue[OF url_no_dot, of env a "cn_encodeSession env ?s"]
    by (simp add: currentUser_def urlc.dec_enc json session_value_def)
  ultimately show ?thesis using u by blast
qed

definition login_env :: console_env where
  "login_env = sample_env
     \<lparr>cn_encodeSession := (\<lambda>m. enc_strings (map (\<lambda>(k, v). enc_strings [k, v]) m)),
      cn_decodeSession := dec_result (dec_list dec_pair)\<rparr>"

definition login_request :: console_request where
  "login_request =
     \<lparr>cq_method = ''GET'', cq_path = ''/auth/account/callback'',
      cq_query = (\<lambda>k. if k = ''state'' then ''st'' else if k = ''account_session'' then ''acc'' else []), cq_header = [],
      cq_cookie = (\<lambda>_. Some (signValue login_env sample_app ''st'')), cq_remote = [], cq_body = []\<rparr>"

lemma login_codec: "cn_decodeSession login_env (cn_encodeSession login_env m) = Inr m"
proof -
  have "dec_pair ((\<lambda>(k, v). enc_strings [k, v]) kv) = Some kv" for kv
    by (cases kv) (simp add: dec_pair_def strs.dec_enc)
  from dec_list_enc[of dec_pair, OF this] show ?thesis by (simp add: login_env_def dec_result_def)
qed

theorem login_yields_session_witness:
  "\<exists>v user. cookie_line ''ssl_signer_session'' v (8 * 3600)
        \<in> set (hvalues (co_header (callback login_env sample_app login_request)) ''Set-Cookie'')
     \<and> fetchMe login_env sample_app (cq_query login_request ''account_session'') = Inr user \<and> me_Role user = ''system_admin''
     \<and> (\<forall>q. cq_cookie q ''ssl_signer_session'' = Some v \<longrightarrow> currentUser login_env sample_app q = Some user)"
proof (rule login_yields_session)
  have "verifySignedValue login_env sample_app (signValue login_env sample_app ''st'') ''st''"
    by (simp add: verifySignedValue_def verifiedPayload_signValue)
  moreover have "fetchMe login_env sample_app t = Inr \<lparr>me_Email = ''e'', me_DisplayName = ''n'', me_Role = ''system_admin''\<rparr>" for t
    by (simp add: fetchMe_def login_env_def sample_env_def ReadJSON_def)
  ultimately show "co_status (callback login_env sample_app login_request) = 302"
    by (simp add: callback_def login_request_def clearCookie_def setCookie_def redirect_def)
qed (rule login_codec)

section \<open>The audit window\<close>

lemma tail_loop_drop:
  "length acc \<le> limit \<Longrightarrow> tail_loop limit ls acc = drop (length acc + length ls - limit) (acc @ ls)"
proof (induction ls arbitrary: acc)
  case (Cons l ls)
  show ?case
  proof (cases "length acc = limit")
    case True
    have "tail_loop limit (l # ls) acc = tail_loop limit ls (tl (acc @ [l]))" using True by simp
    also have "\<dots> = drop (length ls) (tl (acc @ [l]) @ ls)" using Cons.IH[of "tl (acc @ [l])"] True by simp
    also have "\<dots> = drop (Suc (length ls)) (acc @ l # ls)" by (cases acc) simp_all
    finally show ?thesis using True by simp
  next
    case False
    then show ?thesis using Cons.IH[of "acc @ [l]"] Cons.prems by simp
  qed
qed simp

text \<open>
  The window of \<open>tailLines\<close> is what its name says: the last \<open>limit\<close> of the lines that could be read, all
  of them if there are fewer, in order, and an error exactly when the file or a line cannot be read.
\<close>

theorem audit_window:
  "tailLines d path limit =
     (case readFile d path of
        Inl e \<Rightarrow> ([], Some e)
      | Inr data \<Rightarrow> (drop (length (fst (scan_lines data)) - limit) (fst (scan_lines data)),
                    if snd (scan_lines data) then None else Some (OtherError ''bufio.Scanner: token too long'')))"
  by (simp add: tailLines_def tail_loop_drop split: sum.split prod.split)

section \<open>Tokens\<close>

lemma length_b64_enc: "length s = 3 * k \<Longrightarrow> length (b64_enc al pad s) = 4 * k"
proof (induction k arbitrary: s)
  case (Suc k)
  then obtain a b c t where "s = a # b # c # t" "length t = 3 * k"
    by (auto simp: numeral_3_eq_3 length_Suc_conv)
  then show ?case using Suc.IH[of t] by (simp add: Let_def)
qed simp

lemma url_id_char: "c \<in> set url_alphabet \<Longrightarrow> id_char c"
proof -
  have "list_all id_char url_alphabet" by code_simp
  then show "c \<in> set url_alphabet \<Longrightarrow> id_char c" by (simp add: list_all_iff)
qed

text \<open>
  The tokens the programs draw for themselves are install tokens the console accepts: 48 random bytes
  encode to 64 characters that need no escaping in a path, a header or a shell word.
\<close>

theorem generated_tokens_valid:
  assumes "length raw = 48"
  shows "length (randomString raw) = 64 \<and> validInstallToken (randomString raw) \<and> randomToken raw = randomString raw"
proof -
  have n: "length (randomString raw) = 64"
    using length_b64_enc[of raw 16 url_alphabet False] assms by (simp add: randomString_def rawURLEncode_def)
  have "list_all id_char (randomString raw)"
    using rawURLEncode_safe[of raw] url_id_char by (auto simp: list_all_iff randomString_def)
  with n show ?thesis by (simp add: validInstallToken_def randomToken_def randomString_def)
qed

theorem generated_tokens_valid_witness: "validInstallToken (randomString (replicate 48 (CHR ''x'')))"
  using generated_tokens_valid[of "replicate 48 (CHR ''x'')"] by simp

text \<open>
  The shell that runs the install script gets exactly the client's token as the argument of \<open>printf\<close>,
  whatever characters the token has.
\<close>

theorem install_script_argument: "sh_word Unquoted (shellQuote v) = Some v"
  by (rule shq.dec_enc)

end
