(* ===== verification/Wizard.thy ===== *)
theory Wizard
  imports ConsoleSession "HOL-Library.Char_ord" "HOL-Library.List_Lexorder" "HOL-Library.Multiset"
begin

text \<open>
  The setup wizard (\<open>cmd/setup-wizard/main.go\<close>): its listen check, the environment files it writes, and the
  installation of an edge or of the trusted centre as a sequence of steps that stops at the first error; and
  the start-up checks of the signer console.
\<close>

section \<open>Environment files\<close>

definition envQuote :: "string \<Rightarrow> string" where
  "envQuote v =
     [CHR 0x22]
     @ concat (map (\<lambda>c. if c = CHR 0x22 then [CHR 0x5C, CHR 0x22] else [c])
         (concat (map (\<lambda>c. if c = CHR 0x5C then [CHR 0x5C, CHR 0x5C] else [c]) v)))
     @ [CHR 0x22]"

text \<open>
  The insertion sort of \<open>sortedKeys\<close>: the inner loop moves \<open>keys[j]\<close> to the left while it is smaller, bytes
  compared as unsigned numbers.
\<close>

fun sift :: "string list \<Rightarrow> nat \<Rightarrow> string list" where
  "sift ks j =
     (if 0 < j \<and> ks ! j < ks ! (j - 1) then sift (ks[j := ks ! (j - 1), j - 1 := ks ! j]) (j - 1) else ks)"

declare sift.simps [simp del]

definition sort_keys :: "string list \<Rightarrow> string list" where
  "sort_keys ks = fold (\<lambda>i ks. sift ks i) [1..<length ks] ks"

definition sortedKeys :: "(string, string) gomap \<Rightarrow> string list" where
  "sortedKeys m = sort_keys (map fst m)"

definition env_text :: "(string, string) gomap \<Rightarrow> string" where
  "env_text m =
     concat (map (\<lambda>k. k @ ''='' @ envQuote (case mget m k of None \<Rightarrow> [] | Some v \<Rightarrow> v) @ [newline]) (sortedKeys m))"

section \<open>The machine\<close>

text \<open>
  What the wizard meets: creating a directory, creating the directory of a file, changing a mode, running a
  command (\<open>None\<close>: success; otherwise the error and the output of the command), joining paths, and the host name. The state is the files and the commands run.
\<close>

record wizard_env =
  we_mkdir :: "string \<Rightarrow> error option"
  we_mkdirOf :: "string \<Rightarrow> error option"
  we_chmod :: "string \<Rightarrow> error option"
  we_run :: "string list \<Rightarrow> error option"
  we_join :: "string \<Rightarrow> string \<Rightarrow> string"
  we_hostname :: "string result"

type_synonym machine = "fs \<times> string list list"
type_synonym step = "machine \<Rightarrow> machine \<times> unit result"

text \<open>Steps in sequence: \<open>if err := step(); err != nil { return err }\<close>.\<close>

fun run_steps :: "step list \<Rightarrow> step" where
  "run_steps [] w = (w, Inr ())"
| "run_steps (s # ss) w = (case s w of (w', Inl e) \<Rightarrow> (w', Inl e) | (w', Inr _) \<Rightarrow> run_steps ss w')"

text \<open>A step whose error is dropped: \<open>_ = step()\<close>.\<close>

definition ignoring :: "step \<Rightarrow> step" where
  "ignoring s w = (fst (s w), Inr ())"

definition wiz_run :: "wizard_env \<Rightarrow> string list \<Rightarrow> step" where
  "wiz_run env cmd w =
     ((fst w, snd w @ [cmd]), case we_run env cmd of None \<Rightarrow> Inr () | Some e \<Rightarrow> Inl (join '' '' cmd @ '': '' @ e))"

fun mkdirs :: "wizard_env \<Rightarrow> string list \<Rightarrow> step" where
  "mkdirs env [] w = (w, Inr ())"
| "mkdirs env (p # ps) w = (case we_mkdir env p of Some e \<Rightarrow> (w, Inl e) | None \<Rightarrow> mkdirs env ps w)"

definition copyFile :: "wizard_env \<Rightarrow> string \<Rightarrow> string \<Rightarrow> step" where
  "copyFile env src dst w =
     (case readFile (fst w) src of
        Inl e \<Rightarrow> (w, Inl (os_error_text e))
      | Inr data \<Rightarrow>
     (case we_mkdirOf env dst of
        Some e \<Rightarrow> (w, Inl e)
      | None \<Rightarrow>
     (case writeFile (fst w) dst data of
        Inl e \<Rightarrow> (w, Inl e)
      | Inr d \<Rightarrow> ((d, snd w), case we_chmod env dst of None \<Rightarrow> Inr () | Some e \<Rightarrow> Inl e))))"

definition writeEnv :: "wizard_env \<Rightarrow> string \<Rightarrow> (string, string) gomap \<Rightarrow> step" where
  "writeEnv env path values w =
     (case we_mkdirOf env path of
        Some e \<Rightarrow> (w, Inl e)
      | None \<Rightarrow>
     (case writeFile (fst w) path (env_text values) of
        Inl e \<Rightarrow> (w, Inl e)
      | Inr d \<Rightarrow> ((d, snd w), Inr ())))"

definition ensureFile :: "string \<Rightarrow> string \<Rightarrow> step" where
  "ensureFile path content w =
     (if fs_files (fst w) path \<noteq> None then (w, Inr ())
      else (case writeFile (fst w) path content of Inl _ \<Rightarrow> (w, Inr ()) | Inr d \<Rightarrow> ((d, snd w), Inr ())))"

definition ensureUser :: "wizard_env \<Rightarrow> step" where
  "ensureUser env w =
     (case wiz_run env [''id'', ''myzerossl''] w of
        (w', Inr _) \<Rightarrow> (w', Inr ())
      | (w', Inl _) \<Rightarrow>
          wiz_run env [''useradd'', ''--system'', ''--home-dir'', ''/nonexistent'', ''--shell'', ''/usr/sbin/nologin'',
                       ''myzerossl''] w')"

section \<open>Form values\<close>

definition wiz_value :: "(string \<Rightarrow> string) \<Rightarrow> string \<Rightarrow> string \<Rightarrow> string" where
  "wiz_value form key fallback = (let v = trimSpace (form key) in if v = [] then fallback else v)"

definition hostname :: "wizard_env \<Rightarrow> string" where
  "hostname env = (case we_hostname env of Inl _ \<Rightarrow> ''memecdn'' | Inr name \<Rightarrow> if name = [] then ''memecdn'' else name)"

definition secret :: "string \<Rightarrow> string" where
  "secret raw = rawURLEncode raw"

section \<open>Installing an edge\<close>

definition edge_env :: "wizard_env \<Rightarrow> string \<Rightarrow> (string \<Rightarrow> string) \<Rightarrow> (string, string) gomap" where
  "edge_env env raw form =
     (let edgeID = wiz_value form ''edge_id'' (hostname env @ ''-edge'')
      in [(''EDGE_LISTEN'', wiz_value form ''edge_listen'' '':443,:2053,:2083,:2087,:2096,:8443''),
          (''EDGE_BACKEND'', wiz_value form ''edge_backend'' ''http://127.0.0.1:8080''),
          (''EDGE_CERT'', wiz_value form ''edge_cert'' ''/etc/myzerossl/certs/example.com.fullchain.crt''),
          (''KEYLESS_TOKEN_FILE'', ''/var/lib/memecdn/keyless.token''),
          (''EDGE_CACHE_TTL'', ''10m''),
          (''EDGE_CACHE_MAX_BYTES'', ''67108864''),
          (''EDGE_CACHE_MAX_OBJECT_BYTES'', ''4194304''),
          (''EDGE_REGISTER_URL'', wiz_value form ''edge_register_url'' ''https://ssl-signer.example.com''),
          (''EDGE_REGISTER_ID'', edgeID),
          (''EDGE_REGISTER_LABEL'', wiz_value form ''edge_label'' edgeID),
          (''EDGE_REGISTER_TOKEN'', secret raw),
          (''EDGE_REGISTER_POLL'', ''10s''),
          (''KEYLESS_URL'', wiz_value form ''edge_keyless_url'' ''https://gateway.example.com:9443/api/v1/ssl-signer''),
          (''KEYLESS_CLIENT_ID'', edgeID),
          (''KEYLESS_CA'', wiz_value form ''edge_ca'' ''/etc/ssl/certs/ca-certificates.crt''),
          (''KEYLESS_CLIENT_CERT'', wiz_value form ''edge_client_cert'' ''/etc/myzerossl/keyless/edge-client.crt''),
          (''KEYLESS_CLIENT_KEY'', wiz_value form ''edge_client_key'' ''/etc/myzerossl/keyless/edge-client.key''),
          (''KEYLESS_TOKEN'', [])])"

definition wiz_installEdge :: "wizard_env \<Rightarrow> string \<Rightarrow> string \<Rightarrow> (string \<Rightarrow> string) \<Rightarrow> step" where
  "wiz_installEdge env repo raw form =
     run_steps
       [ensureUser env,
        mkdirs env [''/etc/myzerossl'', ''/etc/myzerossl/certs'', ''/etc/myzerossl/keyless'', ''/var/log/myzerossl'',
                    ''/var/lib/memecdn''],
        copyFile env (we_join env repo ''dist/linux-amd64/edgeproxy'') ''/usr/local/bin/edgeproxy'',
        copyFile env (we_join env repo ''deploy/systemd/edgeproxy.service'') ''/etc/systemd/system/edgeproxy.service'',
        writeEnv env ''/etc/myzerossl/edgeproxy.env'' (edge_env env raw form),
        ignoring (wiz_run env [''chown'', ''-R'', ''root:myzerossl'', ''/etc/myzerossl'']),
        ignoring (wiz_run env [''chmod'', ''0750'', ''/etc/myzerossl'', ''/etc/myzerossl/certs'', ''/etc/myzerossl/keyless'']),
        ignoring (wiz_run env [''chmod'', ''0640'', ''/etc/myzerossl/edgeproxy.env'']),
        ignoring (wiz_run env [''chown'', ''-R'', ''myzerossl:myzerossl'', ''/var/log/myzerossl'', ''/var/lib/memecdn'']),
        wiz_run env [''systemctl'', ''daemon-reload''],
        wiz_run env [''systemctl'', ''enable'', ''edgeproxy.service'']]"

section \<open>Installing the trusted centre\<close>

definition keylessd_env :: "(string \<Rightarrow> string) \<Rightarrow> (string, string) gomap" where
  "keylessd_env form =
     [(''KEYLESS_LISTEN'', wiz_value form ''trusted_keyless_listen'' ''127.0.0.1:19443''),
      (''KEYLESS_PRIVATE_KEY'', wiz_value form ''trusted_private_key'' ''/etc/openresty/ssl/js.gripe.key.pem''),
      (''KEYLESS_TOKEN'', []),
      (''KEYLESS_CLIENTS'', ''/etc/myzerossl/clients.json''),
      (''KEYLESS_REVOKED'', ''/etc/myzerossl/revoked-clients.txt''),
      (''KEYLESS_AUDIT'', ''/var/log/myzerossl/signer-audit.jsonl'')]"

definition console_env_file :: "string \<Rightarrow> (string \<Rightarrow> string) \<Rightarrow> (string, string) gomap" where
  "console_env_file raw form =
     [(''CONSOLE_LISTEN'', ''127.0.0.1:19444''),
      (''CONSOLE_ACCOUNT_API'', wiz_value form ''trusted_account_api'' ''https://gateway.example.com/api/v1/myaccount''),
      (''CONSOLE_ACCOUNT_LOGIN'', wiz_value form ''trusted_account_login'' ''https://account.example.com/login''),
      (''CONSOLE_PUBLIC_URL'', wiz_value form ''trusted_console_url'' ''https://ssl-signer.example.com''),
      (''CONSOLE_EDGE_KEYLESS_URL'',
         wiz_value form ''trusted_keyless_url'' ''https://gateway.example.com:9443/api/v1/ssl-signer''),
      (''CONSOLE_CLIENT_ID'', wiz_value form ''trusted_client_id'' []),
      (''CONSOLE_SESSION_SECRET'', wiz_value form ''trusted_session_secret'' (secret raw)),
      (''KEYLESS_CLIENTS'', ''/etc/myzerossl/clients.json''),
      (''KEYLESS_REVOKED'', ''/etc/myzerossl/revoked-clients.txt''),
      (''KEYLESS_AUDIT'', ''/var/log/myzerossl/signer-audit.jsonl''),
      (''CONSOLE_REGISTRATIONS'', ''/etc/myzerossl/edge-registrations.json'')]"

text \<open>An empty file of the given kind, as Go's \<open>MarshalIndent\<close> would write it.\<close>

definition empty_file :: "string \<Rightarrow> string" where
  "empty_file name =
     ''{'' @ [newline] @ ''  '' @ [CHR 0x22] @ name @ [CHR 0x22] @ '': []'' @ [newline] @ ''}'' @ [newline]"

definition wiz_installTrusted :: "wizard_env \<Rightarrow> string \<Rightarrow> string \<Rightarrow> (string \<Rightarrow> string) \<Rightarrow> step" where
  "wiz_installTrusted env repo raw form =
     run_steps
       [ensureUser env,
        mkdirs env [''/etc/myzerossl'', ''/etc/myzerossl/private'', ''/etc/myzerossl/keyless'', ''/var/log/myzerossl''],
        copyFile env (we_join env repo ''dist/linux-amd64/keylessd'') ''/usr/local/bin/keylessd'',
        copyFile env (we_join env repo ''dist/linux-amd64/signer-console'') ''/usr/local/bin/signer-console'',
        copyFile env (we_join env repo ''deploy/systemd/keylessd-local.service'')
          ''/etc/systemd/system/keylessd-local.service'',
        copyFile env (we_join env repo ''deploy/systemd/signer-console.service'')
          ''/etc/systemd/system/signer-console.service'',
        writeEnv env ''/etc/myzerossl/keylessd-local.env'' (keylessd_env form),
        writeEnv env ''/etc/myzerossl/signer-console.env'' (console_env_file raw form),
        ensureFile ''/etc/myzerossl/clients.json'' (empty_file ''clients''),
        ensureFile ''/etc/myzerossl/revoked-clients.txt'' [],
        ensureFile ''/etc/myzerossl/edge-registrations.json'' (empty_file ''registrations''),
        ignoring (wiz_run env [''chown'', ''-R'', ''root:myzerossl'', ''/etc/myzerossl'']),
        ignoring (wiz_run env [''chmod'', ''0750'', ''/etc/myzerossl'', ''/etc/myzerossl/private'', ''/etc/myzerossl/keyless'']),
        ignoring (wiz_run env [''chmod'', ''0640'', ''/etc/myzerossl/keylessd-local.env'', ''/etc/myzerossl/signer-console.env'',
          ''/etc/myzerossl/clients.json'', ''/etc/myzerossl/revoked-clients.txt'', ''/etc/myzerossl/edge-registrations.json'']),
        ignoring (wiz_run env [''chown'', ''-R'', ''myzerossl:myzerossl'', ''/var/log/myzerossl'']),
        wiz_run env [''systemctl'', ''daemon-reload''],
        wiz_run env [''systemctl'', ''enable'', ''keylessd-local.service'', ''signer-console.service''],
        wiz_run env [''systemctl'', ''restart'', ''keylessd-local.service'', ''signer-console.service'']]"

section \<open>The request and the listen address\<close>

text \<open>What the page reports after an installation.\<close>

record wiz_result =
  wr_title :: string
  wr_lines :: "string list"

definition edge_result :: "wizard_env \<Rightarrow> (string \<Rightarrow> string) \<Rightarrow> wiz_result" where
  "edge_result env form =
     \<lparr>wr_title = ''Edge configured'',
      wr_lines =
       [''Place certificate and mTLS files on this edge, then run: systemctl restart edgeproxy'',
        ''Approve edge id '' @ wiz_value form ''edge_id'' (hostname env @ ''-edge'') @ '' in the trusted console.'',
        ''After approval, edgeproxy will fetch its signer token over HTTPS, store it in ''
        @ ''/var/lib/memecdn/keyless.token, verify with the signer, and start serving.'']\<rparr>"

definition trusted_result :: "(string \<Rightarrow> string) \<Rightarrow> wiz_result" where
  "trusted_result form =
     (let consoleURL = wiz_value form ''trusted_console_url'' ''https://ssl-signer.example.com'';
          keylessURL = wiz_value form ''trusted_keyless_url'' ''https://gateway.example.com:9443/api/v1/ssl-signer'';
          keylessListen = wiz_value form ''trusted_keyless_listen'' ''127.0.0.1:19443''
      in \<lparr>wr_title = ''Trusted center deployed'',
          wr_lines =
           [''Expose http://127.0.0.1:19444 as '' @ consoleURL,
            ''Expose http://'' @ keylessListen @ '' as '' @ keylessURL,
            ''Configure edges with EDGE_REGISTER_URL='' @ consoleURL,
            ''Configure edges with KEYLESS_URL='' @ keylessURL]\<rparr>)"

text \<open>The form, or the error of parsing it; the page shows the result or the error.\<close>

definition wiz_apply ::
  "wizard_env \<Rightarrow> string \<Rightarrow> string \<Rightarrow> (string \<Rightarrow> string) result \<Rightarrow> machine \<Rightarrow> machine \<times> wiz_result result" where
  "wiz_apply env repo raw parsed w =
     (case parsed of
        Inl e \<Rightarrow> (w, Inl e)
      | Inr form \<Rightarrow>
          if form ''role'' = ''edge'' then
            (case wiz_installEdge env repo raw form w of
               (w', Inl e) \<Rightarrow> (w', Inl e) | (w', Inr _) \<Rightarrow> (w', Inr (edge_result env form)))
          else if form ''role'' = ''trusted'' then
            (case wiz_installTrusted env repo raw form w of
               (w', Inl e) \<Rightarrow> (w', Inl e) | (w', Inr _) \<Rightarrow> (w', Inr (trusted_result form)))
          else (w, Inl (''unknown role '' @ go_quote (form ''role''))))"

text \<open>The listing of routes: \<open>GET /\<close> (and \<open>HEAD\<close>) shows the page, \<open>POST /apply\<close> installs.\<close>

datatype wiz_page = FormPage | ErrorPage error | ResultPage wiz_result

definition wizHandler ::
  "wizard_env \<Rightarrow> string \<Rightarrow> string \<Rightarrow> string \<Rightarrow> string \<Rightarrow> (string \<Rightarrow> string) result \<Rightarrow> machine \<Rightarrow> (machine \<times> wiz_page) option" where
  "wizHandler env repo raw method path parsed w =
     (if method = ''POST'' \<and> path = ''/apply'' then
        (case wiz_apply env repo raw parsed w of
           (w', Inl e) \<Rightarrow> Some (w', ErrorPage e) | (w', Inr res) \<Rightarrow> Some (w', ResultPage res))
      else if method = ''GET'' \<or> method = ''HEAD'' then Some (w, FormPage) else None)"

text \<open>What \<open>main\<close> checks before it listens; \<open>euid\<close> is the effective user.\<close>

definition wiz_startup :: "nat \<Rightarrow> string \<Rightarrow> unit result" where
  "wiz_startup euid listen =
     (if euid \<noteq> 0 then Inl ''setup-wizard must run as root because it writes /etc and systemd units''
      else (case splitHostPort listen of
              None \<Rightarrow> Inl ''address error''
            | Some (host, _) \<Rightarrow>
                if host \<noteq> ''127.0.0.1'' \<and> host \<noteq> ''localhost'' \<and> host \<noteq> ''::1''
                then Inl ''setup-wizard refuses non-local listen addresses'' else Inr ()))"

section \<open>Start-up of the signer console\<close>

record console_config =
  cf_accountAPI :: string
  cf_accountLogin :: string
  cf_publicURL :: string
  cf_clientID :: string
  cf_sessionSecret :: string
  cf_clients :: string
  cf_revoked :: string
  cf_audit :: string
  cf_registrations :: string
  cf_edgeKeylessURL :: string

definition console_settings :: "(string \<Rightarrow> string) \<Rightarrow> console_config \<Rightarrow> console_config" where
  "console_settings env f =
     \<lparr>cf_accountAPI = applyEnv env ''CONSOLE_ACCOUNT_API'' (cf_accountAPI f),
      cf_accountLogin = applyEnv env ''CONSOLE_ACCOUNT_LOGIN'' (cf_accountLogin f),
      cf_publicURL = applyEnv env ''CONSOLE_PUBLIC_URL'' (cf_publicURL f),
      cf_clientID = applyEnv env ''CONSOLE_CLIENT_ID'' (cf_clientID f),
      cf_sessionSecret = applyEnv env ''CONSOLE_SESSION_SECRET'' (cf_sessionSecret f),
      cf_clients = applyEnv env ''KEYLESS_CLIENTS'' (cf_clients f),
      cf_revoked = applyEnv env ''KEYLESS_REVOKED'' (cf_revoked f),
      cf_audit = applyEnv env ''KEYLESS_AUDIT'' (cf_audit f),
      cf_registrations = applyEnv env ''CONSOLE_REGISTRATIONS'' (cf_registrations f),
      cf_edgeKeylessURL = applyEnv env ''CONSOLE_EDGE_KEYLESS_URL'' (cf_edgeKeylessURL f)\<rparr>"

definition console_startup :: "console_config \<Rightarrow> app result" where
  "console_startup c =
     (if cf_clientID c = [] then Inl ''-client-id is required''
      else if cf_sessionSecret c = [] then Inl ''-session-secret is required''
      else Inr \<lparr>ap_accountAPI = trimRight (cf_accountAPI c) CHR ''/'', ap_accountLogin = cf_accountLogin c,
                ap_publicURL = trimRight (cf_publicURL c) CHR ''/'', ap_clientID = cf_clientID c,
                ap_sessionKey = cf_sessionSecret c, ap_clientsPath = cf_clients c, ap_revokedPath = cf_revoked c,
                ap_auditPath = cf_audit c, ap_registerPath = cf_registrations c,
                ap_edgeKeylessURL = trimRight (cf_edgeKeylessURL c) CHR ''/''\<rparr>)"

end
