(* ===== verification/WizardInstall.thy ===== *)
theory WizardInstall
  imports WizardProps
begin

text \<open>
  What an installation by the wizard leaves on the machine, and what the installed services make of it.
\<close>

section \<open>The text of an environment file\<close>

text \<open>
  The text of an environment file does not depend on the order in which Go iterates over the map of its
  settings.
\<close>

theorem env_text_order_independent:
  assumes "wf_map m" and "wf_map m'" and "set m' = set m"
  shows "env_text m' = env_text m"
proof -
  have "mset (map fst m') = mset (map fst m)"
    using assms by (metis set_eq_iff_mset_eq_distinct set_map)
  then have "sort (map fst m') = sort (map fst m)" by (metis properties_for_sort mset_sort sorted_sort)
  moreover have "mget m' = mget m" using assms by (metis map_of_inject_set)
  ultimately show ?thesis by (simp add: env_text_def sortedKeys_def sort_keys_sort)
qed

theorem env_text_order_independent_witness:
  "env_text [(''B'', ''1''), (''A'', ''x'')] = env_text [(''A'', ''x''), (''B'', ''1'')]"
  by (rule env_text_order_independent) auto

definition env_of :: "string \<Rightarrow> string \<Rightarrow> string" where
  "env_of text k = (case parse_env (InName []) text of None \<Rightarrow> [] | Some l \<Rightarrow> env_get l k)"

lemma env_of_text:
  assumes "\<forall>k\<in>set (map fst m). CHR ''='' \<notin> set k"
  shows "env_of (env_text m) k = env_get m k"
proof -
  have "env_text m = concat (map (\<lambda>k. k @ ''='' @ envQuote (env_get m k) @ [newline]) (sort (map fst m)))"
    by (simp add: env_text_def sortedKeys_def sort_keys_sort env_get_def)
  then have "parse_env (InName []) (env_text m) = Some (map (\<lambda>k. (k, env_get m k)) (sort (map fst m)))"
    using parse_lines[of "sort (map fst m)" "env_get m"] assms by simp
  then show ?thesis
    by (auto simp: env_of_def env_get_def map_of_map_restrict restrict_map_def split: option.split
        dest: map_of_SomeD intro: rev_image_eqI)
qed

section \<open>Steps\<close>

lemma run_steps_append:
  "run_steps (ss @ ts) w = (case run_steps ss w of (w', Inl e) \<Rightarrow> (w', Inl e) | (w', Inr _) \<Rightarrow> run_steps ts w')"
  by (induction ss arbitrary: w) (auto split: prod.splits sum.splits)

lemma run_steps_split:
  assumes "run_steps (ss @ s # ts) w = (w', Inr u)"
  obtains w1 w2 where "run_steps ss w = (w1, Inr ())" "s w1 = (w2, Inr ())" "run_steps ts w2 = (w', Inr ())"
  using assms that by (auto simp: run_steps_append split: prod.splits sum.splits)

lemma run_steps_nth:
  assumes "run_steps ss w = (w', Inr u)" and "i < length ss"
  obtains w1 w2 where "run_steps (take i ss) w = (w1, Inr ())" "(ss ! i) w1 = (w2, Inr ())"
    "run_steps (drop (Suc i) ss) w2 = (w', Inr ())"
proof -
  have "ss = take i ss @ ss ! i # drop (Suc i) ss" by (rule id_take_nth_drop[OF assms(2)])
  then have "run_steps (take i ss @ ss ! i # drop (Suc i) ss) w = (w', Inr u)" using assms(1) by simp
  then show thesis using that by (rule run_steps_split)
qed

text \<open>Steps that leave a file that exists alone.\<close>

definition keeps :: "string \<Rightarrow> step \<Rightarrow> bool" where
  "keeps p s \<longleftrightarrow> (\<forall>w. fs_files (fst w) p \<noteq> None \<longrightarrow> fs_files (fst (fst (s w))) p = fs_files (fst w) p)"

lemma keeps_run_steps [preserves]: "\<forall>s\<in>set ss. keeps p s \<Longrightarrow> keeps p (run_steps ss)"
proof (induction ss)
  case (Cons s ss)
  then have s: "keeps p s" and ss: "keeps p (run_steps ss)" by simp_all
  show ?case unfolding keeps_def
  proof (intro allI impI)
    fix w :: machine
    assume e: "fs_files (fst w) p \<noteq> None"
    obtain w' r where w': "s w = (w', r)" by (cases "s w")
    have k: "fs_files (fst w') p = fs_files (fst w) p" using s e w' unfolding keeps_def by (metis fst_conv)
    show "fs_files (fst (fst (run_steps (s # ss) w))) p = fs_files (fst w) p"
      using ss e k w' by (cases r; cases w') (simp_all add: keeps_def)
  qed
qed (simp add: keeps_def)

lemma keeps_wiz_run [preserves]: "keeps p (wiz_run env cmd)" "keeps p (ignoring (wiz_run env cmd))"
  by (simp_all add: keeps_def wiz_run_def ignoring_def)

lemma keeps_mkdirs [preserves]: "keeps p (mkdirs env ps)"
proof -
  have "fst (mkdirs env ps w) = w" for w by (induction ps) (auto split: option.splits)
  then show ?thesis by (simp add: keeps_def)
qed

lemma keeps_ensureUser [preserves]: "keeps p (ensureUser env)"
  by (auto simp: keeps_def ensureUser_def wiz_run_def split: option.splits)

lemma keeps_copyFile [preserves]: "p \<noteq> dst \<Longrightarrow> keeps p (copyFile env src dst)"
  by (auto simp: keeps_def copyFile_def writeFile_def split: sum.splits option.splits)

lemma keeps_writeEnv [preserves]: "p \<noteq> q \<Longrightarrow> keeps p (writeEnv env q m)"
  by (auto simp: keeps_def writeEnv_def writeFile_def split: sum.splits option.splits)

lemma keeps_ensureFile [preserves]: "keeps p (ensureFile q content)"
  by (auto simp: keeps_def ensureFile_def writeFile_def split: sum.splits option.splits)

text \<open>
  Installing the trusted centre again keeps its state: an existing client file, revocation file or
  registration file has the same content after any run of the installation, whether it succeeds or stops at
  an error.
\<close>

theorem reinstall_keeps_state:
  assumes "p \<in> {''/etc/myzerossl/clients.json'', ''/etc/myzerossl/revoked-clients.txt'',
      ''/etc/myzerossl/edge-registrations.json''}" and "fs_files d p = Some content"
  shows "fs_files (fst (fst (wiz_installTrusted env repo raw form (d, cmds)))) p = Some content"
proof -
  have "keeps p (wiz_installTrusted env repo raw form)"
    unfolding wiz_installTrusted_def using assms(1) by (intro keeps_run_steps) (auto intro: preserves)
  then show ?thesis using assms(2) unfolding keeps_def by (metis fst_conv option.distinct(1))
qed

definition sample_wizard :: wizard_env where
  "sample_wizard =
     \<lparr>we_mkdir = (\<lambda>_. None), we_mkdirOf = (\<lambda>_. None), we_chmod = (\<lambda>_. None), we_run = (\<lambda>_. None),
      we_join = (\<lambda>a b. a @ ''/'' @ b), we_hostname = Inr ''tw''\<rparr>"

lemma sample_wizard_simps [simp]:
  "we_mkdir sample_wizard p = None" "we_mkdirOf sample_wizard p = None" "we_chmod sample_wizard p = None"
  "we_run sample_wizard cmd = None" "we_join sample_wizard a b = a @ ''/'' @ b" "we_hostname sample_wizard = Inr ''tw''"
  by (simp_all add: sample_wizard_def)

theorem reinstall_keeps_state_witness:
  "fs_files (fst (fst (wiz_installTrusted sample_wizard ''/opt'' [] (\<lambda>_. [])
      (clean_fs [''/etc/myzerossl/clients.json'' \<mapsto> ''{}''], [])))) ''/etc/myzerossl/clients.json'' = Some ''{}''"
  by (rule reinstall_keeps_state) (simp_all add: clean_fs_def)

section \<open>What the services find\<close>

lemma writeEnv_content:
  "writeEnv env p m w = (w', Inr u) \<Longrightarrow> fs_files (fst w') p = Some (env_text m)"
  by (auto simp: writeEnv_def writeFile_def split: option.splits sum.splits)

text \<open>A file one step writes and the later steps leave alone is there at the end.\<close>

lemma written_env:
  assumes "run_steps ss w = (w', Inr u)" and "i < length ss" "ss ! i = writeEnv env p m"
    and "\<forall>s\<in>set (drop (Suc i) ss). keeps p s"
  shows "fs_files (fst w') p = Some (env_text m)"
proof -
  obtain w1 w2 where w2: "writeEnv env p m w1 = (w2, Inr ())" and w3: "run_steps (drop (Suc i) ss) w2 = (w', Inr ())"
    using run_steps_nth[OF assms(1,2)] assms(3) by metis
  show ?thesis using keeps_run_steps[OF assms(4)] w3 writeEnv_content[OF w2] unfolding keeps_def
    by (metis fst_conv option.distinct(1))
qed

lemma installEdge_file:
  assumes "wiz_installEdge env repo raw form w = (w', Inr u)"
  shows "fs_files (fst w') ''/etc/myzerossl/edgeproxy.env'' = Some (env_text (edge_env env raw form))"
  by (rule written_env[OF assms[unfolded wiz_installEdge_def], where i = 4 and env = env]) (simp_all add: preserves)

lemma wiz_value_nonempty: "fallback \<noteq> [] \<Longrightarrow> wiz_value form key fallback \<noteq> []"
  by (simp add: wiz_value_def Let_def)

lemma edge_env_names: "\<forall>k\<in>set (map fst (edge_env env raw form)). CHR ''='' \<notin> set k"
  by (simp add: edge_env_def Let_def)

lemma secret_nonempty: "length raw = 48 \<Longrightarrow> secret raw \<noteq> []"
  using length_b64_enc[of raw 16 url_alphabet False] by (auto simp: secret_def rawURLEncode_def)

lemma secret_valid: "length raw = 48 \<Longrightarrow> validInstallToken (secret raw)"
  using length_b64_enc[of raw 16 url_alphabet False] rawURLEncode_safe[of raw] url_id_char
  by (auto simp: validInstallToken_def secret_def list_all_iff rawURLEncode_def)

lemma installed_env:
  assumes "wiz_installEdge env repo raw form w = (w', Inr u)"
    and "fs_files (fst w') ''/etc/myzerossl/edgeproxy.env'' = Some text"
  shows "env_of text k = env_get (edge_env env raw form) k"
  using installEdge_file[OF assms(1)] assms(2) env_of_text[OF edge_env_names] by simp

lemma edge_env_get:
  "env_get (edge_env env raw form) ''EDGE_REGISTER_URL'' = wiz_value form ''edge_register_url'' ''https://ssl-signer.example.com''"
  "env_get (edge_env env raw form) ''EDGE_REGISTER_ID'' = wiz_value form ''edge_id'' (hostname env @ ''-edge'')"
  "env_get (edge_env env raw form) ''EDGE_REGISTER_TOKEN'' = secret raw"
  "env_get (edge_env env raw form) ''KEYLESS_TOKEN_FILE'' = ''/var/lib/memecdn/keyless.token''"
  "env_get (edge_env env raw form) ''KEYLESS_TOKEN'' = []"
  "env_get (edge_env env raw form) ''EDGE_REGISTER_POLL'' = ''10s''"
  "env_get (edge_env env raw form) ''KEYLESS_URL'' = wiz_value form ''edge_keyless_url'' ''https://gateway.example.com:9443/api/v1/ssl-signer''"
  by (simp_all add: env_get_def edge_env_def Let_def)

text \<open>
  The signer URL an edge gets from the console is never used by an edge the wizard installed: the wizard
  writes a URL even when the form leaves the field empty, its placeholder, and the edge takes the console's
  value only when it has none.
\<close>

theorem wizard_url_overrides_console:
  assumes "wiz_installEdge env repo raw form w = (w', Inr u)"
    and "fs_files (fst w') ''/etc/myzerossl/edgeproxy.env'' = Some text" and "trimSpace (form ''edge_keyless_url'') = []"
  shows "applyRemoteDefault ''KEYLESS_URL'' (ed_keylessURL (edge_settings (env_of text) flags)) config
     = ''https://gateway.example.com:9443/api/v1/ssl-signer''"
  using assms(3)
  by (simp add: applyRemoteDefault_def edge_settings_def applyEnv_def installed_env[OF assms(1,2)] edge_env_get wiz_value_def)

text \<open>The commands an installation ends with.\<close>

definition trusted_commands :: "string list list" where
  "trusted_commands =
     [[''chown'', ''-R'', ''root:myzerossl'', ''/etc/myzerossl''],
      [''chmod'', ''0750'', ''/etc/myzerossl'', ''/etc/myzerossl/private'', ''/etc/myzerossl/keyless''],
      [''chmod'', ''0640'', ''/etc/myzerossl/keylessd-local.env'', ''/etc/myzerossl/signer-console.env'',
        ''/etc/myzerossl/clients.json'', ''/etc/myzerossl/revoked-clients.txt'', ''/etc/myzerossl/edge-registrations.json''],
      [''chown'', ''-R'', ''myzerossl:myzerossl'', ''/var/log/myzerossl''],
      [''systemctl'', ''daemon-reload''],
      [''systemctl'', ''enable'', ''keylessd-local.service'', ''signer-console.service''],
      [''systemctl'', ''restart'', ''keylessd-local.service'', ''signer-console.service'']]"

definition trusted_steps :: "wizard_env \<Rightarrow> string \<Rightarrow> string \<Rightarrow> (string \<Rightarrow> string) \<Rightarrow> step list" where
  "trusted_steps env repo raw form =
     [ensureUser env,
      mkdirs env [''/etc/myzerossl'', ''/etc/myzerossl/private'', ''/etc/myzerossl/keyless'', ''/var/log/myzerossl''],
      copyFile env (we_join env repo ''dist/linux-amd64/keylessd'') ''/usr/local/bin/keylessd'',
      copyFile env (we_join env repo ''dist/linux-amd64/signer-console'') ''/usr/local/bin/signer-console'',
      copyFile env (we_join env repo ''deploy/systemd/keylessd-local.service'')
        ''/etc/systemd/system/keylessd-local.service'',
      copyFile env (we_join env repo ''deploy/systemd/signer-console.service'')
        ''/etc/systemd/system/signer-console.service'',
      writeEnv env ''/etc/myzerossl/keylessd-local.env'' (keylessd_env form),
      writeEnv env ''/etc/myzerossl/signer-console.env'' (console_env_file raw form),
      ensureFile ''/etc/myzerossl/clients.json'' (empty_file ''clients''),
      ensureFile ''/etc/myzerossl/revoked-clients.txt'' [],
      ensureFile ''/etc/myzerossl/edge-registrations.json'' (empty_file ''registrations'')]
     @ map (\<lambda>c. ignoring (wiz_run env c)) (take 4 trusted_commands) @ map (wiz_run env) (drop 4 trusted_commands)"

lemma installTrusted_steps: "wiz_installTrusted env repo raw form = run_steps (trusted_steps env repo raw form)"
  by (simp add: wiz_installTrusted_def trusted_steps_def trusted_commands_def)

lemma installTrusted_file:
  assumes "wiz_installTrusted env repo raw form w = (w', Inr u)"
  shows "fs_files (fst w') ''/etc/myzerossl/signer-console.env'' = Some (env_text (console_env_file raw form))"
  by (rule written_env[OF assms[unfolded installTrusted_steps], where i = 7 and env = env])
     (auto simp: trusted_steps_def preserves)

lemma installTrusted_signer_file:
  assumes "wiz_installTrusted env repo raw form w = (w', Inr u)"
  shows "fs_files (fst w') ''/etc/myzerossl/keylessd-local.env'' = Some (env_text (keylessd_env form))"
  by (rule written_env[OF assms[unfolded installTrusted_steps], where i = 6 and env = env])
     (auto simp: trusted_steps_def preserves)

text \<open>
  A trusted centre installed with the client-id field left empty has a console that cannot start: the
  installation reports success and restarts the service, whose start-up check then refuses the configuration
  it was given.
\<close>

theorem blank_client_id_stops_console:
  assumes "wiz_installTrusted env repo raw form w = (w', Inr u)"
    and "fs_files (fst w') ''/etc/myzerossl/signer-console.env'' = Some text"
    and "trimSpace (form ''trusted_client_id'') = []" and "cf_clientID flags = []"
  shows "console_startup (console_settings (env_of text) flags) = Inl ''-client-id is required''"
proof -
  have "\<forall>k\<in>set (map fst (console_env_file raw form)). CHR ''='' \<notin> set k" by (simp add: console_env_file_def)
  then have "env_of text ''CONSOLE_CLIENT_ID'' = env_get (console_env_file raw form) ''CONSOLE_CLIENT_ID''"
    using installTrusted_file[OF assms(1)] assms(2) env_of_text by simp
  also have "\<dots> = []" using assms(3) by (simp add: env_get_def console_env_file_def wiz_value_def)
  finally show ?thesis using assms(4) by (simp add: console_startup_def console_settings_def applyEnv_def)
qed

section \<open>Sample installations\<close>

definition sample_machine :: machine where
  "sample_machine = (clean_fs [''/opt/dist/linux-amd64/edgeproxy'' \<mapsto> ''bin'',
     ''/opt/deploy/systemd/edgeproxy.service'' \<mapsto> ''unit'', ''/opt/dist/linux-amd64/keylessd'' \<mapsto> ''bin'',
     ''/opt/dist/linux-amd64/signer-console'' \<mapsto> ''bin'', ''/opt/deploy/systemd/keylessd-local.service'' \<mapsto> ''unit'',
     ''/opt/deploy/systemd/signer-console.service'' \<mapsto> ''unit''], [])"

text \<open>Steps that succeed on a machine with working files and the given sources, and leave it so.\<close>

definition working :: "string set \<Rightarrow> machine \<Rightarrow> bool" where
  "working ps w \<longleftrightarrow> fs_read_error (fst w) = (\<lambda>_. None) \<and> fs_write_error (fst w) = (\<lambda>_. None)
     \<and> (\<forall>p\<in>ps. fs_files (fst w) p \<noteq> None)"

definition succeeds :: "string set \<Rightarrow> step \<Rightarrow> bool" where
  "succeeds ps s \<longleftrightarrow> (\<forall>w. working ps w \<longrightarrow> (\<exists>w'. s w = (w', Inr ()) \<and> working ps w'))"

lemma succeeds_run_steps: "\<forall>s\<in>set ss. succeeds ps s \<Longrightarrow> succeeds ps (run_steps ss)"
proof (induction ss)
  case (Cons s ss)
  then have "succeeds ps s" "succeeds ps (run_steps ss)" by simp_all
  then show ?case unfolding succeeds_def by fastforce
qed (simp add: succeeds_def)

lemma succeeds_steps:
  "succeeds ps (wiz_run sample_wizard cmd)" "succeeds ps (ignoring (wiz_run sample_wizard cmd))"
  "succeeds ps (mkdirs sample_wizard ds)" "succeeds ps (ensureUser sample_wizard)"
  "src \<in> ps \<Longrightarrow> succeeds ps (copyFile sample_wizard src dst)" "succeeds ps (writeEnv sample_wizard p m)"
  "succeeds ps (ensureFile p content)"
proof -
  have "mkdirs sample_wizard ds w = (w, Inr ())" for w by (induction ds) simp_all
  then show "succeeds ps (mkdirs sample_wizard ds)" by (simp add: succeeds_def)
  assume src: "src \<in> ps"
  show "succeeds ps (copyFile sample_wizard src dst)" unfolding succeeds_def
  proof (intro allI impI)
    fix w assume w: "working ps w"
    then obtain data where "readFile (fst w) src = Inr data" using src by (auto simp: working_def readFile_def)
    then show "\<exists>w'. copyFile sample_wizard src dst w = (w', Inr ()) \<and> working ps w'"
      using w by (auto simp: copyFile_def writeFile_def working_def)
  qed
qed (auto simp: succeeds_def working_def wiz_run_def ignoring_def ensureUser_def writeEnv_def ensureFile_def writeFile_def)

lemma sample_edge_install: "\<exists>w'. wiz_installEdge sample_wizard ''/opt'' raw form sample_machine = (w', Inr ())"
proof -
  let ?ps = "{''/opt/dist/linux-amd64/edgeproxy'', ''/opt/deploy/systemd/edgeproxy.service''}"
  have "succeeds ?ps (wiz_installEdge sample_wizard ''/opt'' raw form)"
    unfolding wiz_installEdge_def
    by (intro succeeds_run_steps) (simp add: succeeds_steps)
  moreover have "working ?ps sample_machine" by (simp add: working_def sample_machine_def clean_fs_def)
  ultimately show ?thesis unfolding succeeds_def by blast
qed

theorem wizard_url_overrides_console_witness:
  "\<exists>w' text. wiz_installEdge sample_wizard ''/opt'' [] (\<lambda>_. []) sample_machine = (w', Inr ())
     \<and> fs_files (fst w') ''/etc/myzerossl/edgeproxy.env'' = Some text
     \<and> applyRemoteDefault ''KEYLESS_URL'' (ed_keylessURL (edge_settings (env_of text) demo_edge_config))
         [(''KEYLESS_URL'', ''https://signer.example.org'')] = ''https://gateway.example.com:9443/api/v1/ssl-signer''"
proof -
  obtain w' where w': "wiz_installEdge sample_wizard ''/opt'' [] (\<lambda>_. []) sample_machine = (w', Inr ())"
    using sample_edge_install by blast
  then show ?thesis
    using wizard_url_overrides_console[OF w' installEdge_file[OF w']] installEdge_file[OF w'] by auto
qed

lemma sample_trusted_install: "\<exists>w'. wiz_installTrusted sample_wizard ''/opt'' raw form sample_machine = (w', Inr ())"
proof -
  let ?ps = "{''/opt/dist/linux-amd64/keylessd'', ''/opt/dist/linux-amd64/signer-console'',
    ''/opt/deploy/systemd/keylessd-local.service'', ''/opt/deploy/systemd/signer-console.service''}"
  have "succeeds ?ps (wiz_installTrusted sample_wizard ''/opt'' raw form)"
    unfolding wiz_installTrusted_def by (intro succeeds_run_steps) (simp add: succeeds_steps)
  moreover have "working ?ps sample_machine" by (simp add: working_def sample_machine_def clean_fs_def)
  ultimately show ?thesis unfolding succeeds_def by blast
qed

definition sample_console_flags :: console_config where
  "sample_console_flags =
     \<lparr>cf_accountAPI = ''https://a'', cf_accountLogin = ''https://l'', cf_publicURL = ''https://c'', cf_clientID = [],
      cf_sessionSecret = [], cf_clients = ''clients'', cf_revoked = ''revoked'', cf_audit = ''audit'',
      cf_registrations = ''regs'', cf_edgeKeylessURL = []\<rparr>"

theorem blank_client_id_stops_console_witness:
  "\<exists>w' text. wiz_installTrusted sample_wizard ''/opt'' [] (\<lambda>_. []) sample_machine = (w', Inr ())
     \<and> fs_files (fst w') ''/etc/myzerossl/signer-console.env'' = Some text
     \<and> console_startup (console_settings (env_of text) sample_console_flags) = Inl ''-client-id is required''"
proof -
  obtain w' where w': "wiz_installTrusted sample_wizard ''/opt'' [] (\<lambda>_. []) sample_machine = (w', Inr ())"
    using sample_trusted_install by blast
  then show ?thesis
    using blank_client_id_stops_console[OF w' installTrusted_file[OF w'], of sample_console_flags] installTrusted_file[OF w']
    by (auto simp: sample_console_flags_def)
qed

end
