(* ===== verification/WizardPerms.thy ===== *)
theory WizardPerms
  imports WizardInstall
begin

text \<open>
  Owners and modes of what the wizard installs: what its \<open>chown\<close> and \<open>chmod\<close> commands do, and which files the
  services, which the unit files run as user and group \<open>myzerossl\<close>, can write afterwards.
\<close>

section \<open>Owners and modes\<close>

record perm =
  pm_user :: string
  pm_group :: string
  pm_mode :: nat

text \<open>The owner and mode of the files and directories there are.\<close>

type_synonym perms = "string \<Rightarrow> perm option"

definition octal :: "string \<Rightarrow> nat" where
  "octal s = foldl (\<lambda>n c. 8 * n + (of_char c - 48)) 0 s"

definition below :: "string \<Rightarrow> string \<Rightarrow> bool" where
  "below dir p \<longleftrightarrow> p = dir \<or> hasPrefix p (dir @ ''/'')"

text \<open>
  What the two programs that change owners and modes do when the wizard runs them: \<open>chown -R user:group dir ...\<close> and
  \<open>chmod mode path ...\<close>. These programs are not part of the repository; this is the documented effect of the two
  forms in which the wizard calls them, and every other command it runs leaves owners and modes alone.
\<close>

definition command_perms :: "string list \<Rightarrow> perms \<Rightarrow> perms" where
  "command_perms cmd ps p =
     (case cmd of
        c # x # paths \<Rightarrow>
          if c = ''chown'' \<and> x = ''-R'' then
            (case cut (hd paths) CHR '':'' of (usr, grp, _) \<Rightarrow>
               if list_ex (\<lambda>dir. below dir p) (tl paths)
               then map_option (\<lambda>q. q\<lparr>pm_user := usr, pm_group := grp\<rparr>) (ps p) else ps p)
          else if c = ''chmod'' then
            (if p \<in> set paths then map_option (\<lambda>q. q\<lparr>pm_mode := octal x\<rparr>) (ps p) else ps p)
          else ps p
      | _ \<Rightarrow> ps p)"

text \<open>The owners and modes after a sequence of commands, of which only the successful ones count.\<close>

definition perms_after :: "wizard_env \<Rightarrow> string list list \<Rightarrow> perms \<Rightarrow> perms" where
  "perms_after env cmds ps = fold (\<lambda>cmd ps. if we_run env cmd = None then command_perms cmd ps else ps) cmds ps"

text \<open>The class of bits that applies is the first of owner, group and others that fits.\<close>

definition may_write :: "string \<Rightarrow> string \<Rightarrow> perm \<Rightarrow> bool" where
  "may_write usr grp q \<longleftrightarrow>
     (if pm_user q = usr then odd (pm_mode q div 128)
      else if pm_group q = grp then odd (pm_mode q div 16) else odd (pm_mode q div 2))"

definition parent_dir :: "string \<Rightarrow> string" where
  "parent_dir p = (case last_index CHR ''/'' p of None \<Rightarrow> ''.'' | Some i \<Rightarrow> take i p)"

text \<open>A file that exists must be writable itself; one that does not needs a writable directory.\<close>

definition can_write :: "string \<Rightarrow> string \<Rightarrow> perms \<Rightarrow> fs \<Rightarrow> string \<Rightarrow> bool" where
  "can_write usr grp ps d p \<longleftrightarrow>
     (case ps (if fs_files d p = None then parent_dir p else p) of
        None \<Rightarrow> False | Some q \<Rightarrow> may_write usr grp q)"

definition service_view :: "string \<Rightarrow> string \<Rightarrow> perms \<Rightarrow> fs \<Rightarrow> fs" where
  "service_view usr grp ps d =
     d\<lparr>fs_write_error := (\<lambda>p. if can_write usr grp ps d p then fs_write_error d p else Some ''permission denied'')\<rparr>"

section \<open>A console that cannot write\<close>

definition unwritable :: "app \<Rightarrow> fs \<Rightarrow> bool" where
  "unwritable a d \<longleftrightarrow>
     (\<forall>p\<in>{ap_clientsPath a, ap_registerPath a, ap_revokedPath a}. fs_write_error d p \<noteq> None)"

lemma unwritable_files:
  assumes "unwritable a d"
  shows "writeRegistrations env d (ap_registerPath a) gs \<noteq> Inr d'"
    and "writeClientFile env d (ap_clientsPath a) cs \<noteq> Inr d'"
    and "appendRevoked env d (ap_revokedPath a) cid = Inr d' \<Longrightarrow> d' = d"
    and "removeRevoked d (ap_revokedPath a) cid \<noteq> Inr d'"
  using assms
  by (auto simp: unwritable_def writeRegistrations_def writeClientFile_def appendRevoked_def removeRevoked_def
      appendFile_def writeFile_def split: option.splits sum.splits if_splits)

lemma unwritable_store:
  assumes "unwritable a d" and "store_registrations env a d gs resp = (d', r)"
  shows "d' = d \<and> co_status r = 500"
  using assms unwritable_files(1)[OF assms(1), of env gs]
  by (auto simp: store_registrations_def split: sum.splits)

lemma unwritable_register:
  assumes "unwritable a d" and "registerEdge env a now raw r d = (d', resp)"
  shows "d' = d \<and> co_status resp \<noteq> 202"
  using assms(2) unwritable_store[OF assms(1)]
  by (fastforce simp: registerEdge_def Let_def split: sum.splits if_splits)

lemma unwritable_verify:
  assumes "unwritable a d" and "verifyInstall env a now r d = (d', resp)"
  shows "d' = d"
  using assms(2) unwritable_store[OF assms(1)]
  by (fastforce simp: verifyInstall_def Let_def split: sum.splits if_splits option.splits)

lemma unwritable_install:
  assumes "unwritable a d" and "installEdge env a now r d = (d', resp)"
  shows "d' = d"
  using assms(2) unwritable_files(1)[OF assms(1), of env]
  by (auto simp: installEdge_def Let_def split: sum.splits if_splits option.splits)

lemma unwritable_client:
  assumes "unwritable a d" and "clientAction env a r d = (d', resp)"
  shows "d' = d"
  using assms(2) unwritable_files(2-4)[OF assms(1)]
  by (auto simp: clientAction_def split: sum.splits if_splits option.splits prod.splits)

lemma unwritable_registration:
  assumes "unwritable a d" and "registrationAction env a now raw1 raw2 r d = (d', resp)"
  shows "d' = d"
  using assms(2) unwritable_files(2)[OF assms(1), of env] unwritable_store[OF assms(1)]
  by (fastforce simp: registrationAction_def Let_def split: sum.splits if_splits option.splits prod.splits)

lemma unwritable_step:
  assumes "unwritable a d"
  shows "console_step env a e d = d"
proof -
  obtain now raw1 raw2 r where e: "e = (now, raw1, raw2, r)" by (metis prod.exhaust)
  show ?thesis unfolding e
    using unwritable_register[OF assms] unwritable_verify[OF assms] unwritable_install[OF assms]
      unwritable_client[OF assms] unwritable_registration[OF assms]
    by (cases rule: console_step_cases[of env a now raw1 raw2 r d]) (auto simp del: console_step.simps)
qed

lemma unwritable_run: "unwritable a d \<Longrightarrow> fold (console_step env a) es d = d"
  by (induction es) (simp_all add: unwritable_step del: console_step.simps)

section \<open>The installed trusted centre\<close>

lemma installTrusted_commands:
  assumes "wiz_installTrusted env repo raw form w = (w', Inr u)"
  obtains cmds where "snd w' = cmds @ trusted_commands"
proof -
  let ?ss = "trusted_steps env repo raw form"
  have l: "10 < length ?ss" by (simp add: trusted_steps_def)
  obtain w2 where r: "run_steps (drop (Suc 10) ?ss) w2 = (w', Inr ())"
    using run_steps_nth[OF assms[unfolded installTrusted_steps] l] by metis
  have "drop (Suc 10) ?ss = map (\<lambda>c. ignoring (wiz_run env c)) (take 4 trusted_commands) @ map (wiz_run env) (drop 4 trusted_commands)"
    by (simp add: trusted_steps_def)
  then have "snd w' = snd w2 @ trusted_commands"
    using r by (auto simp: trusted_commands_def ignoring_def wiz_run_def split: option.splits)
  then show ?thesis using that by blast
qed

text \<open>
  After the commands an installation ends with, the files of the console belong to \<open>root\<close>, and their group, \<open>myzerossl\<close>, may only read them; the
  directory they are in is closed to it as well.
\<close>

definition state_files :: "string list" where
  "state_files = [''/etc/myzerossl/clients.json'', ''/etc/myzerossl/revoked-clients.txt'', ''/etc/myzerossl/edge-registrations.json'']"

lemma parent_of_state_file: "p \<in> set state_files \<Longrightarrow> parent_dir p = ''/etc/myzerossl''"
  by (auto simp: state_files_def parent_dir_def last_index_def)

lemma below_etc: "p \<in> set state_files \<Longrightarrow> below ''/etc/myzerossl'' p"
  by (auto simp: state_files_def below_def hasPrefix_def)

lemma not_below_log: "p \<in> insert ''/etc/myzerossl'' (set state_files) \<Longrightarrow> \<not> below ''/var/log/myzerossl'' p"
  by (auto simp: state_files_def below_def hasPrefix_def)

lemma octal_modes: "octal ''0750'' = 488" "octal ''0640'' = 416"
  by (simp_all add: octal_def)

lemma chown_perms:
  "command_perms (''chown'' # ''-R'' # owner # dirs) ps p
     = (if list_ex (\<lambda>dir. below dir p) dirs
        then map_option (\<lambda>q. q\<lparr>pm_user := fst (cut owner CHR '':''), pm_group := fst (snd (cut owner CHR '':''))\<rparr>) (ps p)
        else ps p)"
  by (simp add: command_perms_def split: prod.splits)

lemma chmod_perms:
  "command_perms (''chmod'' # mode # paths) ps p
     = (if p \<in> set paths then map_option (\<lambda>q. q\<lparr>pm_mode := octal mode\<rparr>) (ps p) else ps p)"
  by (simp add: command_perms_def)

lemma systemctl_perms: "command_perms (''systemctl'' # args) ps p = ps p"
  by (simp add: command_perms_def split: list.split)

lemma trusted_perms:
  assumes ok: "\<forall>cmd\<in>set trusted_commands. we_run env cmd = None"
    and p: "p = ''/etc/myzerossl'' \<or> p \<in> set state_files"
  shows "perms_after env (cmds @ trusted_commands) ps p
    = map_option (\<lambda>q. q\<lparr>pm_user := ''root'', pm_group := ''myzerossl'', pm_mode := if p = ''/etc/myzerossl'' then 488 else 416\<rparr>)
        (perms_after env cmds ps p)"
proof -
  let ?qs = "perms_after env cmds ps"
  let ?c = "\<lambda>i. command_perms (trusted_commands ! i)"
  have c: "cut ''root:myzerossl'' CHR '':'' = (''root'', ''myzerossl'', True)"
    by (simp add: cut_def)
  have b: "below ''/etc/myzerossl'' p" "\<not> below ''/var/log/myzerossl'' p"
    using p below_etc not_below_log by (auto simp: below_def)
  have c0: "?c 0 qs p = map_option (\<lambda>q. q\<lparr>pm_user := ''root'', pm_group := ''myzerossl''\<rparr>) (qs p)" for qs
    by (simp add: trusted_commands_def chown_perms c b)
  have c1: "?c 1 qs p = (if p = ''/etc/myzerossl'' then map_option (\<lambda>q. q\<lparr>pm_mode := 488\<rparr>) (qs p) else qs p)" for qs
    using p by (auto simp: trusted_commands_def chmod_perms octal_modes state_files_def)
  have c2: "?c 2 qs p = (if p = ''/etc/myzerossl'' then qs p else map_option (\<lambda>q. q\<lparr>pm_mode := 416\<rparr>) (qs p))" for qs
    using p by (auto simp: trusted_commands_def chmod_perms octal_modes state_files_def)
  have c3: "?c 3 qs p = qs p" for qs by (simp add: trusted_commands_def chown_perms b)
  have c4: "?c 4 qs p = qs p" "?c 5 qs p = qs p" "?c 6 qs p = qs p" for qs
    by (simp_all add: trusted_commands_def systemctl_perms)
  have t: "trusted_commands = map ((!) trusted_commands) [0, 1, 2, 3, 4, 5, 6]" by (simp add: trusted_commands_def)
  have "fold (\<lambda>cmd ps. if we_run env cmd = None then command_perms cmd ps else ps) trusted_commands ?qs
      = fold command_perms trusted_commands ?qs"
    using ok by (intro fold_cong) auto
  also have "\<dots> = ?c 6 (?c 5 (?c 4 (?c 3 (?c 2 (?c 1 (?c 0 ?qs))))))" by (subst t) simp
  finally have run: "perms_after env (cmds @ trusted_commands) ps p
      = ?c 6 (?c 5 (?c 4 (?c 3 (?c 2 (?c 1 (?c 0 ?qs)))))) p"
    by (simp add: perms_after_def)
  show ?thesis unfolding run c4 c3 c2 c1 c0 by (cases "p = ''/etc/myzerossl''"; cases "?qs p") simp_all
qed

lemma trusted_unwritable:
  assumes "\<forall>cmd\<in>set trusted_commands. we_run env cmd = None" and "p \<in> set state_files"
  shows "fs_write_error (service_view ''myzerossl'' ''myzerossl'' (perms_after env (cmds @ trusted_commands) ps) d) p \<noteq> None"
proof -
  have "\<not> can_write ''myzerossl'' ''myzerossl'' (perms_after env (cmds @ trusted_commands) ps) d p"
    using trusted_perms[OF assms(1), of p cmds ps] trusted_perms[OF assms(1), of "''/etc/myzerossl''" cmds ps] assms(2)
    by (auto simp: can_write_def parent_of_state_file may_write_def split: option.splits)
  then show ?thesis by (simp add: service_view_def)
qed

lemma console_env_names: "\<forall>k\<in>set (map fst (console_env_file raw form)). CHR ''='' \<notin> set k"
  by (simp add: console_env_file_def)

lemma installed_console_env:
  assumes "wiz_installTrusted env repo raw form w = (w', Inr u)"
    and "fs_files (fst w') ''/etc/myzerossl/signer-console.env'' = Some text"
  shows "env_of text k = env_get (console_env_file raw form) k"
  using installTrusted_file[OF assms(1)] assms(2) env_of_text[OF console_env_names] by simp

lemma console_env_get:
  "env_get (console_env_file raw form) ''KEYLESS_CLIENTS'' = ''/etc/myzerossl/clients.json''"
  "env_get (console_env_file raw form) ''KEYLESS_REVOKED'' = ''/etc/myzerossl/revoked-clients.txt''"
  "env_get (console_env_file raw form) ''KEYLESS_AUDIT'' = ''/var/log/myzerossl/signer-audit.jsonl''"
  "env_get (console_env_file raw form) ''CONSOLE_REGISTRATIONS'' = ''/etc/myzerossl/edge-registrations.json''"
  "env_get (console_env_file raw form) ''CONSOLE_CLIENT_ID'' = wiz_value form ''trusted_client_id'' []"
  "env_get (console_env_file raw form) ''CONSOLE_SESSION_SECRET'' = wiz_value form ''trusted_session_secret'' (secret raw)"
  by (simp_all add: env_get_def console_env_file_def)

lemma console_startup_Inr:
  assumes "console_startup c = Inr a"
  shows "ap_clientsPath a = cf_clients c" "ap_revokedPath a = cf_revoked c" "ap_registerPath a = cf_registrations c"
    "ap_auditPath a = cf_audit c"
  using assms by (auto simp: console_startup_def split: if_splits)

lemma installed_console_paths:
  assumes "wiz_installTrusted env repo raw form w = (w', Inr u)"
    and "fs_files (fst w') ''/etc/myzerossl/signer-console.env'' = Some text"
    and "console_startup (console_settings (env_of text) flags) = Inr a"
  shows "ap_clientsPath a = ''/etc/myzerossl/clients.json''" "ap_revokedPath a = ''/etc/myzerossl/revoked-clients.txt''"
    "ap_registerPath a = ''/etc/myzerossl/edge-registrations.json''"
    "ap_auditPath a = ''/var/log/myzerossl/signer-audit.jsonl''"
  by (simp_all add: console_startup_Inr[OF assms(3)] console_settings_def applyEnv_def
      installed_console_env[OF assms(1,2)] console_env_get)

text \<open>
  C35. A trusted centre installed by the wizard cannot enrol or revoke anybody: the installation makes \<open>root\<close> the
  owner of the state files and lets the group only read them, while the unit file runs the console as
  \<open>myzerossl\<close>. The console it started never changes a file, whatever it is asked, and never accepts the
  registration of an edge.
\<close>

theorem installed_console_cannot_write:
  assumes "wiz_installTrusted wenv repo raw form w = (w', Inr u)"
    and "\<forall>cmd\<in>set (snd w'). hd cmd \<noteq> ''id'' \<longrightarrow> we_run wenv cmd = None"
    and "fs_files (fst w') ''/etc/myzerossl/signer-console.env'' = Some text"
    and "console_startup (console_settings (env_of text) flags) = Inr a"
    and "d = service_view ''myzerossl'' ''myzerossl'' (perms_after wenv (snd w') ps) (fst w')"
  shows "fold (console_step cenv a) es d = d \<and> co_status (snd (registerEdge cenv a now raw1 r d)) \<noteq> 202"
proof -
  obtain cmds where c: "snd w' = cmds @ trusted_commands" using assms(1) by (rule installTrusted_commands)
  have "\<forall>cmd\<in>set trusted_commands. hd cmd \<noteq> ''id''" by (simp add: trusted_commands_def)
  then have "\<forall>cmd\<in>set trusted_commands. we_run wenv cmd = None" using assms(2) c by auto
  from trusted_unwritable[OF this, of _ cmds ps "fst w'"] have "unwritable a d"
    by (simp add: unwritable_def installed_console_paths[OF assms(1,3,4)] assms(5) c state_files_def)
  then show ?thesis using unwritable_run unwritable_register by (metis prod.collapse)
qed

definition sample_form :: "string \<Rightarrow> string" where
  "sample_form k = (if k = ''trusted_client_id'' then ''console'' else [])"

lemma sample_started:
  "\<exists>w' a. wiz_installTrusted sample_wizard ''/opt'' (replicate 48 CHR ''r'') sample_form sample_machine = (w', Inr ())
     \<and> console_startup (console_settings (env_of (env_text (console_env_file (replicate 48 CHR ''r'') sample_form)))
         sample_console_flags) = Inr a"
proof -
  let ?raw = "replicate 48 CHR ''r''"
  let ?text = "env_text (console_env_file ?raw sample_form)"
  obtain w' where w': "wiz_installTrusted sample_wizard ''/opt'' ?raw sample_form sample_machine = (w', Inr ())"
    using sample_trusted_install by blast
  note env = installed_console_env[OF w' installTrusted_file[OF w']]
  have "trimSpace ''console'' = ''console''" by (simp add: no_edge_space_ascii ascii_space_def)
  then have cid: "env_of ?text ''CONSOLE_CLIENT_ID'' \<noteq> []"
    by (simp add: env console_env_get wiz_value_def sample_form_def)
  have sec: "env_of ?text ''CONSOLE_SESSION_SECRET'' \<noteq> []"
    by (simp add: env console_env_get wiz_value_nonempty secret_nonempty)
  show ?thesis using cid sec w' by (simp add: console_startup_def console_settings_def applyEnv_def)
qed

theorem installed_console_cannot_write_witness:
  "\<exists>w' text a. wiz_installTrusted sample_wizard ''/opt'' (replicate 48 CHR ''r'') sample_form sample_machine = (w', Inr ())
     \<and> console_startup (console_settings (env_of text) sample_console_flags) = Inr a
     \<and> (let d = service_view ''myzerossl'' ''myzerossl'' (perms_after sample_wizard (snd w')
                  (\<lambda>_. Some \<lparr>pm_user = ''root'', pm_group = ''root'', pm_mode = octal ''0755''\<rparr>)) (fst w');
            r = sample_request ''POST'' ''/api/register'' [] None
        in fold (console_step sample_env a) [(''now'', [], [], r)] d = d
           \<and> co_status (snd (registerEdge sample_env a ''now'' [] r d)) \<noteq> 202)"
proof -
  let ?text = "env_text (console_env_file (replicate 48 CHR ''r'') sample_form)"
  obtain w' a where w': "wiz_installTrusted sample_wizard ''/opt'' (replicate 48 CHR ''r'') sample_form sample_machine = (w', Inr ())"
    and a: "console_startup (console_settings (env_of ?text) sample_console_flags) = Inr a" using sample_started by blast
  note written = installTrusted_file[OF w']
  have "\<forall>cmd\<in>set (snd w'). hd cmd \<noteq> ''id'' \<longrightarrow> we_run sample_wizard cmd = None" by simp
  note result = installed_console_cannot_write[OF w' this written a HOL.refl]
  show ?thesis
    by (intro exI[of _ w'] exI[of _ ?text] exI[of _ a] conjI) (simp_all only: w' a Let_def result simp_thms)
qed

end
