(* ===== verification/WizardCentre.thy ===== *)
theory WizardCentre
  imports WizardPerms
begin

text \<open>
  The trusted centre as the wizard leaves it on a machine that had none: the two programs it starts share their
  files, and the signer admits nobody until a client is approved.
\<close>

section \<open>Steps that do not concern a file\<close>

text \<open>Steps that leave a file as it is, or missing as it is, and that never change which accesses fail.\<close>

definition leaves :: "string \<Rightarrow> step \<Rightarrow> bool" where
  "leaves p s \<longleftrightarrow> (\<forall>w. fs_files (fst (fst (s w))) p = fs_files (fst w) p)"

definition same_access :: "step \<Rightarrow> bool" where
  "same_access s \<longleftrightarrow> (\<forall>w. fs_read_error (fst (fst (s w))) = fs_read_error (fst w)
     \<and> fs_write_error (fst (fst (s w))) = fs_write_error (fst w))"

lemma run_steps_induct_all:
  assumes "\<forall>s\<in>set ss. \<forall>w. R (fst w) (fst (fst (s w)))" and "\<And>d. R d d" and "\<And>d e f. R d e \<Longrightarrow> R e f \<Longrightarrow> R d f"
  shows "R (fst w) (fst (fst (run_steps ss w)))"
  using assms(1)
proof (induction ss arbitrary: w)
  case (Cons s ss)
  obtain w1 r where s: "s w = (w1, r)" by (cases "s w")
  have "R (fst w) (fst w1)" using Cons.prems s by (metis fst_conv list.set_intros(1))
  moreover have "R (fst w1) (fst (fst (run_steps ss w1)))" using Cons by simp
  ultimately show ?case using s assms(3) by (cases r) auto
qed (simp add: assms(2))

lemma leaves_run_steps: "\<forall>s\<in>set ss. leaves p s \<Longrightarrow> leaves p (run_steps ss)"
  unfolding leaves_def by (intro allI run_steps_induct_all[where R = "\<lambda>d e. fs_files e p = fs_files d p"]) simp_all

lemma same_access_run_steps: "\<forall>s\<in>set ss. same_access s \<Longrightarrow> same_access (run_steps ss)"
  unfolding same_access_def
  by (intro allI run_steps_induct_all
      [where R = "\<lambda>d e. fs_read_error e = fs_read_error d \<and> fs_write_error e = fs_write_error d"]) simp_all

lemma fst_mkdirs: "fst (mkdirs env ps w) = w"
  by (induction ps) (auto split: option.splits)

lemma step_leaves:
  "leaves p (wiz_run env cmd)" "leaves p (ignoring (wiz_run env cmd))" "leaves p (mkdirs env ps)" "leaves p (ensureUser env)"
  "p \<noteq> q \<Longrightarrow> leaves p (copyFile env src q)" "p \<noteq> q \<Longrightarrow> leaves p (writeEnv env q m)" "p \<noteq> q \<Longrightarrow> leaves p (ensureFile q content)"
  by (auto simp: leaves_def wiz_run_def ignoring_def fst_mkdirs ensureUser_def copyFile_def writeEnv_def ensureFile_def
      writeFile_def split: option.splits sum.splits)

lemma step_access:
  "same_access (wiz_run env cmd)" "same_access (ignoring (wiz_run env cmd))" "same_access (mkdirs env ps)"
  "same_access (ensureUser env)" "same_access (copyFile env src q)" "same_access (writeEnv env q m)" "same_access (ensureFile q content)"
  by (auto simp: same_access_def wiz_run_def ignoring_def fst_mkdirs ensureUser_def copyFile_def writeEnv_def ensureFile_def
      writeFile_def split: option.splits sum.splits)

section \<open>The files of a new centre\<close>

lemma access_trusted: "same_access (wiz_installTrusted env repo raw form)"
  unfolding wiz_installTrusted_def by (intro same_access_run_steps) (simp add: step_access)

text \<open>A state file that did not exist is created with its empty content and not touched again.\<close>

lemma ensured_file:
  assumes run: "wiz_installTrusted env repo raw form w = (w', Inr u)" and new: "fs_files (fst w) p = None"
    and wr: "fs_write_error (fst w) p = None"
    and i: "i < length (trusted_steps env repo raw form)" "trusted_steps env repo raw form ! i = ensureFile p content"
    and before: "\<forall>s\<in>set (take i (trusted_steps env repo raw form)). leaves p s"
    and after: "\<forall>s\<in>set (drop (Suc i) (trusted_steps env repo raw form)). keeps p s"
  shows "fs_files (fst w') p = Some content"
proof -
  let ?ss = "trusted_steps env repo raw form"
  obtain w1 w2 where w1: "run_steps (take i ?ss) w = (w1, Inr ())" and w2: "ensureFile p content w1 = (w2, Inr ())"
    and w3: "run_steps (drop (Suc i) ?ss) w2 = (w', Inr ())"
    using run_steps_nth[OF run[unfolded installTrusted_steps] i(1)] i(2) by metis
  have "fs_files (fst w1) p = None"
    using leaves_run_steps[OF before] w1 new unfolding leaves_def by (metis fst_conv)
  moreover have "same_access (run_steps (take i ?ss))"
    by (intro same_access_run_steps ballI)
       (auto dest!: in_set_takeD simp: trusted_steps_def step_access)
  then have "fs_write_error (fst w1) p = None" using w1 wr unfolding same_access_def by (metis fst_conv)
  ultimately have "fs_files (fst w2) p = Some content" using w2 by (auto simp: ensureFile_def writeFile_def)
  then show ?thesis using keeps_run_steps[OF after] w3 unfolding keeps_def by (metis fst_conv option.distinct(1))
qed

lemma new_centre_files:
  assumes "wiz_installTrusted env repo raw form w = (w', Inr u)"
  shows "fs_files (fst w) ''/etc/myzerossl/clients.json'' = None \<Longrightarrow> fs_write_error (fst w) ''/etc/myzerossl/clients.json'' = None \<Longrightarrow>
      fs_files (fst w') ''/etc/myzerossl/clients.json'' = Some (empty_file ''clients'')"
    and "fs_files (fst w) ''/etc/myzerossl/revoked-clients.txt'' = None \<Longrightarrow>
      fs_write_error (fst w) ''/etc/myzerossl/revoked-clients.txt'' = None \<Longrightarrow>
      fs_files (fst w') ''/etc/myzerossl/revoked-clients.txt'' = Some []"
  by (rule ensured_file[OF assms, where i = 8]; auto simp: trusted_steps_def step_leaves preserves)
     (rule ensured_file[OF assms, where i = 9]; auto simp: trusted_steps_def step_leaves preserves)

section \<open>The signer of a new centre\<close>

lemma signer_env_get:
  "env_get (keylessd_env form) ''KEYLESS_CLIENTS'' = ''/etc/myzerossl/clients.json''"
  "env_get (keylessd_env form) ''KEYLESS_REVOKED'' = ''/etc/myzerossl/revoked-clients.txt''"
  "env_get (keylessd_env form) ''KEYLESS_AUDIT'' = ''/var/log/myzerossl/signer-audit.jsonl''"
  "env_get (keylessd_env form) ''KEYLESS_TOKEN'' = []"
  by (simp_all add: env_get_def keylessd_env_def)

lemma installed_signer_settings:
  assumes "wiz_installTrusted env repo raw form w = (w', Inr u)"
    and "fs_files (fst w') ''/etc/myzerossl/keylessd-local.env'' = Some text"
  shows "sg_clients (signer_settings (env_of text) flags) = ''/etc/myzerossl/clients.json''"
    "sg_revoked (signer_settings (env_of text) flags) = ''/etc/myzerossl/revoked-clients.txt''"
    "sg_audit (signer_settings (env_of text) flags) = ''/var/log/myzerossl/signer-audit.jsonl''"
    "sg_token (signer_settings (env_of text) flags) = sg_token flags"
proof -
  have "\<forall>k\<in>set (map fst (keylessd_env form)). CHR ''='' \<notin> set k" by (simp add: keylessd_env_def)
  then have "env_of text k = env_get (keylessd_env form) k" for k
    using installTrusted_signer_file[OF assms(1)] assms(2) env_of_text by simp
  then show "sg_clients (signer_settings (env_of text) flags) = ''/etc/myzerossl/clients.json''"
    "sg_revoked (signer_settings (env_of text) flags) = ''/etc/myzerossl/revoked-clients.txt''"
    "sg_audit (signer_settings (env_of text) flags) = ''/var/log/myzerossl/signer-audit.jsonl''"
    "sg_token (signer_settings (env_of text) flags) = sg_token flags"
    by (simp_all add: signer_settings_def applyEnv_def signer_env_get)
qed

lemma empty_registry_denies:
  assumes "am_clientsMode (fst s)" and "am_clients (fst s) = []"
  shows "authenticate (fst (fold auth_step es s)) token = ([], False, ''bad token'')"
  by (rule unknown_token_denied) (use assms in \<open>simp_all add: known_tokens_def\<close>)

text \<open>
  A centre installed on a machine that had none is closed and connected: its console and its signer use the same
  client, revocation and audit files, and the signer starts and answers ``bad token'' to every token, whatever
  requests it has served, until a client is approved and it is started again.
\<close>

theorem installed_centre_closed:
  assumes inst: "wiz_installTrusted env repo raw form w = (w', Inr u)"
    and new: "\<forall>p\<in>{''/etc/myzerossl/clients.json'', ''/etc/myzerossl/revoked-clients.txt''}.
      fs_files (fst w) p = None \<and> fs_write_error (fst w) p = None \<and> fs_read_error (fst w) p = None"
    and envs: "fs_files (fst w') ''/etc/myzerossl/keylessd-local.env'' = Some text"
      "fs_files (fst w') ''/etc/myzerossl/signer-console.env'' = Some text'"
    and c: "c = signer_settings (env_of text) flags"
    and a: "console_startup (console_settings (env_of text') cflags) = Inr a"
    and decode: "decode (empty_file ''clients'') = Inr []"
  shows "sg_clients c = ap_clientsPath a \<and> sg_revoked c = ap_revokedPath a \<and> sg_audit c = ap_auditPath a
    \<and> (\<exists>m. newAuthManager decode (fst w') \<lparr>opt_Token = sg_token c, opt_ClientsPath = sg_clients c, opt_RevokedPath = sg_revoked c,
           opt_AuditPath = sg_audit c\<rparr> = Inr m
        \<and> authenticate (fst (fold auth_step es (m, d))) token = ([], False, ''bad token''))"
proof -
  let ?cl = "''/etc/myzerossl/clients.json''" and ?rv = "''/etc/myzerossl/revoked-clients.txt''"
  note sg = installed_signer_settings[OF inst envs(1), of flags, folded c]
  note ap = installed_console_paths[OF inst envs(2) a]
  have f: "fs_files (fst w') ?cl = Some (empty_file ''clients'')" "fs_files (fst w') ?rv = Some []"
    using new_centre_files[OF inst] new by simp_all
  have "fs_read_error (fst w') = fs_read_error (fst w)"
    using access_trusted[of env repo raw form] inst unfolding same_access_def by (metis fst_conv)
  then have r: "readFile (fst w') ?cl = Inr (empty_file ''clients'')" "readFile (fst w') ?rv = Inr []"
    using f new by (simp_all add: readFile_def)
  have "scan_lines [] = ([], True)" by (simp add: scan_lines_def raw_lines_def)
  then have "\<exists>m. newAuthManager decode (fst w') \<lparr>opt_Token = sg_token c, opt_ClientsPath = sg_clients c,
      opt_RevokedPath = sg_revoked c, opt_AuditPath = sg_audit c\<rparr> = Inr m \<and> am_clientsMode m \<and> am_clients m = []"
    using r decode by (simp add: newAuthManager_def loadClients_def loadRevoked_def sg)
  then show ?thesis using empty_registry_denies sg ap by (metis fst_conv)
qed

theorem installed_centre_closed_witness:
  "\<exists>w' text m. wiz_installTrusted sample_wizard ''/opt'' (replicate 48 CHR ''r'') sample_form sample_machine = (w', Inr ())
     \<and> fs_files (fst w') ''/etc/myzerossl/keylessd-local.env'' = Some text
     \<and> newAuthManager (\<lambda>_. Inr []) (fst w') \<lparr>opt_Token = [], opt_ClientsPath = ''/etc/myzerossl/clients.json'',
         opt_RevokedPath = ''/etc/myzerossl/revoked-clients.txt'', opt_AuditPath = ''/var/log/myzerossl/signer-audit.jsonl''\<rparr> = Inr m
     \<and> authenticate m ''guess'' = ([], False, ''bad token'')"
proof -
  obtain w' a where w': "wiz_installTrusted sample_wizard ''/opt'' (replicate 48 CHR ''r'') sample_form sample_machine = (w', Inr ())"
    and a: "console_startup (console_settings (env_of (env_text (console_env_file (replicate 48 CHR ''r'') sample_form)))
      sample_console_flags) = Inr a" using sample_started by blast
  let ?flags = "\<lparr>sg_listen = [], sg_key = [], sg_tlsCert = [], sg_tlsKey = [], sg_clientCA = [], sg_token = [], sg_clients = [],
    sg_revoked = [], sg_audit = []\<rparr>"
  note written = installTrusted_signer_file[OF w'] installTrusted_file[OF w']
  have new: "\<forall>p\<in>{''/etc/myzerossl/clients.json'', ''/etc/myzerossl/revoked-clients.txt''}.
      fs_files (fst sample_machine) p = None \<and> fs_write_error (fst sample_machine) p = None \<and> fs_read_error (fst sample_machine) p = None"
    by (simp add: sample_machine_def clean_fs_def)
  have r: "(\<lambda>_. Inr []) (empty_file ''clients'') = Inr ([] :: ClientConfig list)" by simp
  from installed_centre_closed[OF w' new written HOL.refl a r, of ?flags "[]" "fst w'" "''guess''"] w' written(1)
  show ?thesis by (auto simp: installed_signer_settings[OF w' written(1)])
qed

end
