(* ===== verification/WizardEdge.thy ===== *)
theory WizardEdge
  imports WizardPerms
begin

text \<open>
  An installed edge from its first start to its second: the commands of the installation give the directory of the
  token file to the user the edge runs as, so the token of the enrolment is kept.
\<close>

section \<open>The commands of the installation\<close>

definition edge_commands :: "string list list" where
  "edge_commands =
     [[''chown'', ''-R'', ''root:myzerossl'', ''/etc/myzerossl''],
      [''chmod'', ''0750'', ''/etc/myzerossl'', ''/etc/myzerossl/certs'', ''/etc/myzerossl/keyless''],
      [''chmod'', ''0640'', ''/etc/myzerossl/edgeproxy.env''],
      [''chown'', ''-R'', ''myzerossl:myzerossl'', ''/var/log/myzerossl'', ''/var/lib/memecdn''],
      [''systemctl'', ''daemon-reload''],
      [''systemctl'', ''enable'', ''edgeproxy.service'']]"

definition edge_steps :: "wizard_env \<Rightarrow> string \<Rightarrow> string \<Rightarrow> (string \<Rightarrow> string) \<Rightarrow> step list" where
  "edge_steps env repo raw form =
     [ensureUser env,
      mkdirs env [''/etc/myzerossl'', ''/etc/myzerossl/certs'', ''/etc/myzerossl/keyless'', ''/var/log/myzerossl'',
                  ''/var/lib/memecdn''],
      copyFile env (we_join env repo ''dist/linux-amd64/edgeproxy'') ''/usr/local/bin/edgeproxy'',
      copyFile env (we_join env repo ''deploy/systemd/edgeproxy.service'') ''/etc/systemd/system/edgeproxy.service'',
      writeEnv env ''/etc/myzerossl/edgeproxy.env'' (edge_env env raw form)]
     @ map (\<lambda>c. ignoring (wiz_run env c)) (take 4 edge_commands) @ map (wiz_run env) (drop 4 edge_commands)"

lemma installEdge_steps: "wiz_installEdge env repo raw form = run_steps (edge_steps env repo raw form)"
  by (simp add: wiz_installEdge_def edge_steps_def edge_commands_def)

text \<open>Which programs a step runs, by their names.\<close>

definition runs :: "string set \<Rightarrow> step \<Rightarrow> bool" where
  "runs C s \<longleftrightarrow> (\<forall>w. \<exists>cmds. snd (fst (s w)) = snd w @ cmds \<and> (\<forall>c\<in>set cmds. hd c \<in> C))"

lemma runs_run_steps: "\<forall>s\<in>set ss. runs C s \<Longrightarrow> runs C (run_steps ss)"
proof (induction ss)
  case (Cons s ss)
  show ?case unfolding runs_def
  proof
    fix w
    obtain w1 r where s: "s w = (w1, r)" by (cases "s w")
    have r: "runs C s" "runs C (run_steps ss)" using Cons by simp_all
    obtain c1 where c1: "snd w1 = snd w @ c1" "\<forall>c\<in>set c1. hd c \<in> C" using r(1) s unfolding runs_def by (metis fst_conv)
    obtain c2 where c2: "snd (fst (run_steps ss w1)) = snd w1 @ c2" "\<forall>c\<in>set c2. hd c \<in> C"
      using r(2) unfolding runs_def by blast
    show "\<exists>cmds. snd (fst (run_steps (s # ss) w)) = snd w @ cmds \<and> (\<forall>c\<in>set cmds. hd c \<in> C)"
      using c1 c2 s by (cases r) (auto intro: exI[of _ c1] exI[of _ "c1 @ c2"])
  qed
qed (simp add: runs_def)

lemma runs_steps:
  "runs C (mkdirs env ps)" "runs C (copyFile env src dst)" "runs C (writeEnv env q m)" "runs {''id'', ''useradd''} (ensureUser env)"
proof -
  have "fst (mkdirs env ps w) = w" for w by (induction ps) (auto split: option.splits)
  then show "runs C (mkdirs env ps)" by (simp add: runs_def)
  show "runs C (copyFile env src dst)" "runs C (writeEnv env q m)"
    by (auto simp: runs_def copyFile_def writeEnv_def split: option.splits sum.splits)
  show "runs {''id'', ''useradd''} (ensureUser env)"
    by (auto simp: runs_def ensureUser_def wiz_run_def split: option.splits)
qed

lemma installEdge_commands:
  assumes "wiz_installEdge env repo raw form w = (w', Inr u)"
  obtains cmds where "snd w' = snd w @ cmds @ edge_commands" "\<forall>c\<in>set cmds. hd c \<in> {''id'', ''useradd''}"
proof -
  let ?first = "take 5 (edge_steps env repo raw form)"
    and ?last = "map (\<lambda>c. ignoring (wiz_run env c)) (take 4 edge_commands) @ map (wiz_run env) (drop 4 edge_commands)"
  have "edge_steps env repo raw form = ?first @ ?last" by (simp add: edge_steps_def)
  then have "run_steps (?first @ ?last) w = (w', Inr u)" using assms installEdge_steps by metis
  then obtain w2 where w2: "run_steps ?first w = (w2, Inr ())" "run_steps ?last w2 = (w', Inr u)"
    by (auto simp: run_steps_append split: prod.splits sum.splits)
  have "runs {''id'', ''useradd''} (run_steps ?first)"
    by (rule runs_run_steps) (simp add: edge_steps_def runs_steps)
  then obtain cmds where c: "snd w2 = snd w @ cmds" "\<forall>c\<in>set cmds. hd c \<in> {''id'', ''useradd''}"
    using w2(1) unfolding runs_def by (metis fst_conv)
  have "snd w' = snd w2 @ edge_commands"
    using w2(2) by (auto simp: edge_commands_def ignoring_def wiz_run_def split: option.splits)
  then show thesis using that c by simp
qed

text \<open>The directory of the token file belongs to the edge's user in the end, with the mode it had.\<close>

lemma other_perms:
  assumes "\<forall>c\<in>set cmds. hd c \<in> {''id'', ''useradd''}"
  shows "perms_after env cmds ps = ps"
proof -
  have "command_perms c ps = ps" if "hd c \<in> {''id'', ''useradd''}" for c ps
    using that by (cases c) (auto simp: command_perms_def fun_eq_iff split: list.split)
  then have "fold (\<lambda>cmd ps. if we_run env cmd = None then command_perms cmd ps else ps) cmds ps = ps" using assms
    by (induction cmds) auto
  then show ?thesis by (simp add: perms_after_def)
qed

lemma token_dir_perms:
  assumes "\<forall>cmd\<in>set edge_commands. we_run env cmd = None"
  shows "perms_after env edge_commands ps ''/var/lib/memecdn''
    = map_option (\<lambda>q. q\<lparr>pm_user := ''myzerossl'', pm_group := ''myzerossl''\<rparr>) (ps ''/var/lib/memecdn'')"
proof -
  let ?p = "''/var/lib/memecdn''"
  have c: "cut ''myzerossl:myzerossl'' CHR '':'' = (''myzerossl'', ''myzerossl'', True)" by (simp add: cut_def)
  have same: "command_perms (edge_commands ! i) f ?p = f ?p" if "i \<in> {0, 1, 2, 4, 5}" for i f
    using that by (auto simp: edge_commands_def chown_perms chmod_perms systemctl_perms below_def hasPrefix_def)
  have chown: "command_perms (edge_commands ! 3) f ?p = map_option (\<lambda>q. q\<lparr>pm_user := ''myzerossl'', pm_group := ''myzerossl''\<rparr>) (f ?p)" for f
    by (simp add: edge_commands_def chown_perms c below_def)
  have t: "edge_commands = map ((!) edge_commands) [0, 1, 2, 3, 4, 5]" by (simp add: edge_commands_def)
  have "perms_after env edge_commands ps = fold command_perms edge_commands ps"
    unfolding perms_after_def using assms by (intro fold_cong) auto
  also have "\<dots> = fold command_perms (map ((!) edge_commands) [0, 1, 2, 3, 4, 5]) ps" using t by simp
  finally show ?thesis by (simp add: same chown)
qed

lemma token_dir_writable:
  assumes inst: "wiz_installEdge wenv repo raw form w = (w', Inr u)" "snd w = []"
    and run: "\<forall>cmd\<in>set (snd w'). hd cmd \<noteq> ''id'' \<longrightarrow> we_run wenv cmd = None"
    and dir: "ps ''/var/lib/memecdn'' = Some q" "odd (pm_mode q div 128)"
    and new: "fs_files d ''/var/lib/memecdn/keyless.token'' = None"
  shows "can_write ''myzerossl'' ''myzerossl'' (perms_after wenv (snd w') ps) d ''/var/lib/memecdn/keyless.token''"
proof -
  obtain cmds where c: "snd w' = cmds @ edge_commands" "\<forall>c\<in>set cmds. hd c \<in> {''id'', ''useradd''}"
    using installEdge_commands[OF inst(1)] inst(2) by auto
  have "\<forall>cmd\<in>set edge_commands. hd cmd \<noteq> ''id''" by (simp add: edge_commands_def)
  then have "\<forall>cmd\<in>set edge_commands. we_run wenv cmd = None" using run c(1) by auto
  note token_dir_perms[OF this, of ps]
  moreover have "perms_after wenv (snd w') ps = perms_after wenv edge_commands (perms_after wenv cmds ps)"
    by (simp add: c(1) perms_after_def)
  moreover have "parent_dir ''/var/lib/memecdn/keyless.token'' = ''/var/lib/memecdn''" by (simp add: parent_dir_def last_index_def)
  ultimately show ?thesis using dir new other_perms[OF c(2)] by (simp add: can_write_def may_write_def)
qed

lemma installed_edge_config:
  assumes "wiz_installEdge env repo raw form w = (w', Inr u)" and "length raw = 48"
    and "fs_files (fst w') ''/etc/myzerossl/edgeproxy.env'' = Some text"
    and "c = edge_settings (env_of text) flags"
  shows "ed_registerURL c = wiz_value form ''edge_register_url'' ''https://ssl-signer.example.com''"
    "ed_registerID c = wiz_value form ''edge_id'' (hostname env @ ''-edge'')" "ed_registerToken c = secret raw"
    "ed_tokenFile c = ''/var/lib/memecdn/keyless.token''" "ed_token flags = [] \<longrightarrow> ed_token c = []" "ed_registerPoll c = ''10s''"
    "ed_keylessURL c = wiz_value form ''edge_keyless_url'' ''https://gateway.example.com:9443/api/v1/ssl-signer''"
    "ed_registerURL c \<noteq> []" "ed_registerID c \<noteq> []" "ed_keylessURL c \<noteq> []"
  using secret_nonempty[OF assms(2)]
  by (simp_all add: assms(4) edge_settings_def applyEnv_def installed_env[OF assms(1,3)] edge_env_get wiz_value_nonempty)

section \<open>The first and the second start\<close>

text \<open>
  C36. An edge installed by the wizard enrols once: its first start, with no token file yet, enrols with the console's
  URL and the edge id of the form and with the install token the wizard drew, which the console accepts; when that
  returns a signer token (of plain ASCII text without outer spaces), the edge, which runs as \<open>myzerossl\<close>, can store it, and every later
  start has this token, and the signer URL of the form, without asking the console.
\<close>

theorem installed_edge_enrols_once:
  assumes inst: "wiz_installEdge wenv repo raw form w = (w', Inr u)" "length raw = 48"
    and run: "snd w = []" "\<forall>cmd\<in>set (snd w'). hd cmd \<noteq> ''id'' \<longrightarrow> we_run wenv cmd = None"
    and dir: "ps ''/var/lib/memecdn'' = Some q" "odd (pm_mode q div 128)"
    and c: "fs_files (fst w') ''/etc/myzerossl/edgeproxy.env'' = Some text" "c = edge_settings (env_of text) flags" "ed_token flags = []"
    and disk: "\<forall>f\<in>{fs_files d0, fs_read_error d0, fs_write_error d0}. f ''/var/lib/memecdn/keyless.token'' = None"
      "ev_mkdir eenv ''/var/lib/memecdn/keyless.token'' = None"
    and d: "d = service_view ''myzerossl'' ''myzerossl'' (perms_after wenv (snd w') ps) d0"
    and enrol: "enrollEdge eenv raw2 (wiz_value form ''edge_register_url'' ''https://ssl-signer.example.com'')
        (wiz_value form ''edge_id'' (hostname wenv @ ''-edge'')) (ed_registerLabel c) (secret raw) s = Some (s', Inr (token, it, config))"
      "ev_duration eenv ''10s'' = Some n" "ascii token" "no_edge_space token" "token \<noteq> []"
  shows "validInstallToken (secret raw)
    \<and> (\<exists>d'. edge_enrolled eenv raw2 c d s = Some (s', Inr (d', c\<lparr>ed_token := token\<rparr>, it, config))
        \<and> (\<forall>raw3 s2. edge_enrolled eenv raw3 c d' s2 = Some (s2, Inr (d', c\<lparr>ed_token := token\<rparr>, [], []))))
    \<and> applyRemoteDefault ''KEYLESS_URL'' (ed_keylessURL c) config
        = wiz_value form ''edge_keyless_url'' ''https://gateway.example.com:9443/api/v1/ssl-signer''"
proof -
  let ?p = "''/var/lib/memecdn/keyless.token''"
  note cfg = installed_edge_config[OF inst c(1,2)]
  have dp: "fs_files d ?p = None" "fs_read_error d ?p = None" "fs_write_error d ?p = None"
    using disk(1) token_dir_writable[where ps = ps and d = d0, OF inst(1) run dir] by (simp_all add: d service_view_def)
  have r: "readTokenFile d ?p = Inr []" by (simp add: readTokenFile_def readFile_def dp)
  obtain d' where w: "writeTokenFile eenv d ?p token = Inr d'"
    using dp(3) disk(2) by (simp add: writeTokenFile_def writeFile_def)
  have "edge_enrolled eenv raw2 c d s = Some (s', Inr (d', c\<lparr>ed_token := token\<rparr>, it, config))"
    using cfg(5) c(3) cfg(8,9) r w enrol(1,2)
    by (simp add: edge_enrolled_def cfg(1-4,6) mustParseDuration_def)
  moreover have "edge_enrolled eenv raw3 c d' s2 = Some (s2, Inr (d', c\<lparr>ed_token := token\<rparr>, [], []))" for raw3 s2
    using cfg(5) c(3) read_written_token[OF w dp(2) enrol(3,4)] enrol(5) by (simp add: edge_enrolled_def cfg(4))
  moreover have "applyRemoteDefault ''KEYLESS_URL'' (ed_keylessURL c) config
      = wiz_value form ''edge_keyless_url'' ''https://gateway.example.com:9443/api/v1/ssl-signer''"
    using cfg(10) by (simp add: applyRemoteDefault_def cfg(7))
  ultimately show ?thesis using secret_valid[OF inst(2)] by blast
qed

theorem installed_edge_enrols_once_witness:
  "\<exists>w' text d d' c. wiz_installEdge sample_wizard ''/opt'' (replicate 48 (CHR ''x'')) (\<lambda>_. []) sample_machine = (w', Inr ())
     \<and> c = edge_settings (env_of text) (demo_edge_config\<lparr>ed_token := []\<rparr>)
     \<and> edge_enrolled slow_console [] c d 0
         = Some (4, Inr (d', c\<lparr>ed_token := ''T''\<rparr>, secret (replicate 48 (CHR ''x'')), [(''KEYLESS_URL'', ''https://s'')]))
     \<and> edge_enrolled slow_console [] c d' 9 = Some (9, Inr (d', c\<lparr>ed_token := ''T''\<rparr>, [], []))"
proof -
  let ?raw = "replicate 48 (CHR ''x'')" and ?d0 = "clean_fs (\<lambda>_. None)" and ?flags = "demo_edge_config\<lparr>ed_token := []\<rparr>"
  let ?q = "\<lparr>pm_user = ''root'', pm_group = ''root'', pm_mode = octal ''0755''\<rparr>"
  let ?text = "env_text (edge_env sample_wizard ?raw (\<lambda>_. []))"
  let ?c = "edge_settings (env_of ?text) ?flags"
  obtain w' where w': "wiz_installEdge sample_wizard ''/opt'' ?raw (\<lambda>_. []) sample_machine = (w', Inr ())"
    using sample_edge_install by blast
  note ft = installEdge_file[OF w']
  have l: "length ?raw = 48" "snd sample_machine = []" "ed_token ?flags = []" by (simp_all add: sample_machine_def)
  have run: "\<forall>cmd\<in>set (snd w'). hd cmd \<noteq> ''id'' \<longrightarrow> we_run sample_wizard cmd = None" by simp
  have dir: "(\<lambda>_ :: string. Some ?q) ''/var/lib/memecdn'' = Some ?q" "odd (pm_mode ?q div 128)" by (simp_all add: octal_def)
  have disk: "\<forall>f\<in>{fs_files ?d0, fs_read_error ?d0, fs_write_error ?d0}. f ''/var/lib/memecdn/keyless.token'' = None"
    "ev_mkdir slow_console ''/var/lib/memecdn/keyless.token'' = None" by (simp_all add: clean_fs_def slow_console_def)
  have en: "enrollEdge slow_console [] url rid label (secret ?raw) 0 = Some (4, Inr (''T'', secret ?raw, [(''KEYLESS_URL'', ''https://s'')]))"
    for url rid label by (rule slow_enrolment_any) (rule secret_nonempty[OF l(1)])
  have tok: "ev_duration slow_console ''10s'' = Some 10000000000" "ascii ''T''" "no_edge_space ''T''" "''T'' \<noteq> []"
    by (simp_all add: slow_console_def no_edge_space_ascii ascii_space_def)
  note result = installed_edge_enrols_once[where ps = "\<lambda>_. Some ?q", OF w' l(1,2) run dir ft HOL.refl l(3) disk HOL.refl en tok]
  then show ?thesis using w' by blast
qed

end
