(* ===== verification/HtmlText.thy ===== *)
theory HtmlText
  imports GoStrings
begin

text \<open>
  How a browser reads the text of a page: the part of the HTML tokenizer that the tables of the console's page use.
  Tags with their attributes, quoted or not, and character data; the five character references the page writes. Names
  are taken as they stand, comments are skipped to their first \<open>>\<close>.
\<close>

section \<open>Character references\<close>

fun decode_refs :: "string \<Rightarrow> string" where
  "decode_refs [] = []"
| "decode_refs (c # s) =
     (if c = CHR ''&'' then
        (if hasPrefix s ''amp;'' then CHR ''&'' # decode_refs (drop 4 s)
         else if hasPrefix s ''lt;'' then CHR ''<'' # decode_refs (drop 3 s)
         else if hasPrefix s ''gt;'' then CHR ''>'' # decode_refs (drop 3 s)
         else if hasPrefix s ''quot;'' then CHR 0x22 # decode_refs (drop 5 s)
         else if hasPrefix s ''#39;'' then CHR 0x27 # decode_refs (drop 4 s)
         else c # decode_refs s)
      else c # decode_refs s)"

lemma decode_refs_plain: "CHR ''&'' \<notin> set x \<Longrightarrow> decode_refs (x @ s) = x @ decode_refs s"
  by (induction x) auto

section \<open>Tokens\<close>

datatype html_token = Open string "(string \<times> string) list" | Close string | Chars string

text \<open>
  Where the reader is: in character data, after the first characters of a tag, in its name, before or in the name of an
  attribute or after it, before a value, in a quoted or an unquoted one. A tag comes with the flag of a closing tag, its
  name and the attributes read so far.
\<close>

datatype html_mode =
    Data string
  | TagOpen
  | EndOpen
  | Comment
  | TagName bool string
  | BeforeName bool string "(string \<times> string) list"
  | AttrName bool string "(string \<times> string) list" string
  | AfterName bool string "(string \<times> string) list" string
  | BeforeValue bool string "(string \<times> string) list" string
  | Quoted char bool string "(string \<times> string) list" string string
  | Unquoted_value bool string "(string \<times> string) list" string string

definition html_letter :: "char \<Rightarrow> bool" where
  "html_letter c \<longleftrightarrow>
     (let n = (of_char c :: nat) in 97 \<le> n \<and> n \<le> 122 \<or> 65 \<le> n \<and> n \<le> 90)"

definition html_space :: "char \<Rightarrow> bool" where
  "html_space c \<longleftrightarrow> c = CHR '' '' \<or> c = CHR 0x0A \<or> c = CHR 0x09 \<or> c = CHR 0x0C"

definition chars :: "string \<Rightarrow> html_token list" where
  "chars v = (if v = [] then [] else [Chars (decode_refs v)])"

definition tag :: "bool \<Rightarrow> string \<Rightarrow> (string \<times> string) list \<Rightarrow> html_token" where
  "tag e n as = (if e then Close n else Open n (map (\<lambda>(a, v). (a, decode_refs v)) as))"

text \<open>A tag that is not finished at the end of the text is dropped.\<close>

fun html :: "html_mode \<Rightarrow> string \<Rightarrow> html_token list" where
  "html (Data v) [] = chars v"
| "html TagOpen [] = [Chars ''<'']"
| "html _ [] = []"
| "html (Data v) (c # s) = (if c = CHR ''<'' then chars v @ html TagOpen s else html (Data (v @ [c])) s)"
| "html TagOpen (c # s) =
     (if html_letter c then html (TagName False [c]) s
      else if c = CHR ''/'' then html EndOpen s
      else if c = CHR ''!'' \<or> c = CHR ''?'' then html Comment s
      else if c = CHR ''<'' then Chars ''<'' # html TagOpen s
      else html (Data [CHR ''<'', c]) s)"
| "html EndOpen (c # s) =
     (if html_letter c then html (TagName True [c]) s
      else if c = CHR ''>'' then html (Data []) s
      else html Comment s)"
| "html Comment (c # s) = html (if c = CHR ''>'' then Data [] else Comment) s"
| "html (TagName e n) (c # s) =
     (if c = CHR ''>'' then tag e n [] # html (Data []) s
      else if html_space c \<or> c = CHR ''/'' then html (BeforeName e n []) s
      else html (TagName e (n @ [c])) s)"
| "html (BeforeName e n as) (c # s) =
     (if c = CHR ''>'' then tag e n as # html (Data []) s
      else if html_space c \<or> c = CHR ''/'' then html (BeforeName e n as) s
      else html (AttrName e n as [c]) s)"
| "html (AttrName e n as a) (c # s) =
     (if c = CHR ''='' then html (BeforeValue e n as a) s
      else if c = CHR ''>'' then tag e n (as @ [(a, [])]) # html (Data []) s
      else if html_space c \<or> c = CHR ''/'' then html (AfterName e n as a) s
      else html (AttrName e n as (a @ [c])) s)"
| "html (AfterName e n as a) (c # s) =
     (if c = CHR ''='' then html (BeforeValue e n as a) s
      else if c = CHR ''>'' then tag e n (as @ [(a, [])]) # html (Data []) s
      else if html_space c \<or> c = CHR ''/'' then html (AfterName e n as a) s
      else html (AttrName e n (as @ [(a, [])]) [c]) s)"
| "html (BeforeValue e n as a) (c # s) =
     (if c = CHR 0x22 \<or> c = CHR 0x27 then html (Quoted c e n as a []) s
      else if c = CHR ''>'' then tag e n (as @ [(a, [])]) # html (Data []) s
      else if html_space c then html (BeforeValue e n as a) s
      else html (Unquoted_value e n as a [c]) s)"
| "html (Quoted q e n as a v) (c # s) =
     (if c = q then html (BeforeName e n (as @ [(a, v)])) s else html (Quoted q e n as a (v @ [c])) s)"
| "html (Unquoted_value e n as a v) (c # s) =
     (if c = CHR ''>'' then tag e n (as @ [(a, v)]) # html (Data []) s
      else if html_space c then html (BeforeName e n (as @ [(a, v)])) s
      else html (Unquoted_value e n as a (v @ [c])) s)"

abbreviation html_tokens :: "string \<Rightarrow> html_token list" where
  "html_tokens \<equiv> html (Data [])"

section \<open>Stretches of a text\<close>

lemma html_data: "CHR ''<'' \<notin> set x \<Longrightarrow> html (Data v) (x @ s) = html (Data (v @ x)) s"
  by (induction x arbitrary: v) auto

lemma html_quoted: "q \<notin> set x \<Longrightarrow> html (Quoted q e n as a v) (x @ s) = html (Quoted q e n as a (v @ x)) s"
  by (induction x arbitrary: v) auto

text \<open>A text that ends with a tag is read on its own.\<close>

definition closed_text :: "string \<Rightarrow> html_token list \<Rightarrow> bool" where
  "closed_text x toks \<longleftrightarrow> (\<forall>s. html (Data []) (x @ s) = toks @ html (Data []) s)"

lemma closed_textD: "closed_text x toks \<Longrightarrow> html (Data []) (x @ s) = toks @ html (Data []) s"
  by (simp add: closed_text_def)

lemma closed_text_Nil: "closed_text [] []"
  by (simp add: closed_text_def)

lemma closed_text_append: "closed_text x xs \<Longrightarrow> closed_text y ys \<Longrightarrow> closed_text (x @ y) (xs @ ys)"
  by (simp add: closed_text_def)

lemma closed_text_concat: "(\<And>x. x \<in> set xs \<Longrightarrow> closed_text (f x) (g x)) \<Longrightarrow> closed_text (concat (map f xs)) (concat (map g xs))"
  by (induction xs) (simp_all add: closed_text_Nil closed_text_append)

lemma closed_text_all: "closed_text x toks \<Longrightarrow> html_tokens x = toks"
  using closed_textD[of x toks "[]"] by (simp add: chars_def)

end
