(* ===== verification/ConsolePage.thy ===== *)
theory ConsolePage
  imports ConsoleSession HtmlText
begin

text \<open>
  Text the console hands to other interpreters: the install script, which a shell runs, and the tables of the
  administrator's page, which the browser parses (\<open>cmd/signer-console/main.go\<close>, the script of \<open>consolePage\<close>).
  Registrations come from anybody; what they put into either text stays data.
\<close>

section \<open>The install script\<close>

lemma sh_word_dquoted:
  assumes "\<forall>c\<in>set v. c \<notin> {CHR 0x22, CHR 0x24, CHR 0x60, CHR 0x5C}"
  shows "sh_word Unquoted (dquoted v) = Some v"
proof -
  have "sh_word Double (v @ [CHR 0x22]) = Some v" using assms by (induction v) simp_all
  then show ?thesis by (simp add: dquoted_def)
qed

lemma valid_id_chars:
  assumes "validClientID i" and "c \<in> set i"
  shows "id_char c \<or> c = CHR ''.''"
  using assms by (auto simp: validClientID_def list_all_iff)

lemma special_not_id: "id_char c \<or> c = CHR ''.'' \<Longrightarrow> c \<notin> {CHR 0x22, CHR 0x24, CHR 0x60, CHR 0x5C, CHR 0x27, CHR ''&'', CHR ''<'', CHR ''>''}"
  by (auto simp: id_char_def)

text \<open>What the console puts into the script.\<close>

lemma script_body:
  assumes "console_inv env a d" and "installEdge env a now r d = (d', resp)" and "co_body resp = InstallScript q i"
  shows "\<exists>cs. clients_of env a d = Inr cs \<and> q = shellQuote (client_token i cs) \<and> validClientID i"
proof -
  obtain cs gs where b: "console_ok env a" "clients_of env a d = Inr cs" "regs_of env a d = Inr gs" "regs_ok gs"
    using assms(1) by (auto elim: console_invE)
  have st: "co_status resp = 200"
  proof (rule ccontr)
    assume "co_status resp \<noteq> 200"
    then have "\<exists>n m. resp = console_error n m"
      using assms(2) by (auto simp: installEdge_def Let_def notFound_def split: if_splits sum.splits option.splits)
    then show False using assms(3) by (auto simp: console_error_def)
  qed
  have ex: "\<exists>j. j < length gs \<and> (co_body resp = JInstall (rg_ID (gs ! j)) (client_token (rg_ID (gs ! j)) cs) (edgeConfig a)
      \<or> co_body resp = InstallScript (shellQuote (client_token (rg_ID (gs ! j)) cs)) (rg_ID (gs ! j)))"
    using installEdge_effect[OF b(1) assms(2)] st b(2,3) by (auto split: if_splits dest: find_index_Some(1))
  then obtain j where j: "j < length gs" "q = shellQuote (client_token i cs)" "i = rg_ID (gs ! j)" using assms(3) by auto
  have "validClientID i" using regs_ok_nth[OF b(4) j(1)] j(3) by (simp add: reg_ok_def)
  then show ?thesis using b(2) j(2) by blast
qed

text \<open>
  C37. The install script carries the token and the id as data: whenever the console answers with the script, the shell
  reads the word that stands for the token as exactly the signer token of the client, and the word of the final
  message as the message with the id, whatever characters they contain; the rest of the script is fixed.
\<close>

theorem install_script_words:
  assumes "console_inv env a d" and "installEdge env a now r d = (d', resp)" and "co_body resp = InstallScript q i"
  shows "\<exists>cs msg. clients_of env a d = Inr cs \<and> msg = ''memecdn edge token installed for '' @ i
    \<and> install_script q i = script_head @ q @ script_tail @ dquoted msg @ [newline]
    \<and> sh_word Unquoted q = Some (client_token i cs) \<and> sh_word Unquoted (dquoted msg) = Some msg"
proof -
  obtain cs where cs: "clients_of env a d = Inr cs" "q = shellQuote (client_token i cs)" and v: "validClientID i"
    using script_body[OF assms] by blast
  have "\<forall>c\<in>set i. c \<notin> {CHR 0x22, CHR 0x24, CHR 0x60, CHR 0x5C}" using valid_id_chars[OF v] special_not_id by blast
  then have "sh_word Unquoted (dquoted (''memecdn edge token installed for '' @ i)) = Some (''memecdn edge token installed for '' @ i)"
    by (intro sh_word_dquoted) auto
  then show ?thesis using cs shq.dec_enc by (simp only: install_script_def) blast
qed

theorem install_script_words_witness:
  "\<exists>d' resp q. installEdge sample_env sample_app ''now''
       ((sample_request ''GET'' (''/api/install/'' @ install_name) [] None)\<lparr>cq_query := \<lambda>_. []\<rparr>)
       (sample_files [new_client ''edge'' ''to~ken''] [sample_reg ''edge'' ''approved'' install_name]) = (d', resp)
     \<and> co_body resp = InstallScript q ''edge'' \<and> sh_word Unquoted q = Some ''to~ken''"
proof -
  let ?r = "(sample_request ''GET'' (''/api/install/'' @ install_name) [] None)\<lparr>cq_query := \<lambda>_. []\<rparr>"
  let ?reg = "sample_reg ''edge'' ''approved'' install_name" and ?cs = "[new_client ''edge'' ''to~ken'']"
  let ?d = "sample_files ?cs [?reg]"
  have t: "validInstallToken install_name" by simp
  have p: "trimPrefix (cq_path ?r) ''/api/install/'' = install_name" by (simp add: trimPrefix_append del: append_Cons)
  have j: "\<not> wantsJSON ?r" by (simp add: wantsJSON_def sample_request_def hget_def hvalues_def contains_iff)
  have i: "find_index (install_candidate install_name) [?reg] = Some 0" by (simp add: install_candidate_def sample_reg_def)
  have k: "client_token ''edge'' ?cs = ''to~ken''" by (simp add: client_token_def new_client_def)
  obtain d' resp where h: "installEdge sample_env sample_app ''now'' ?r ?d = (d', resp)"
    and b: "co_body resp = InstallScript (shellQuote ''to~ken'') ''edge''"
    using p j i k validInstallToken_nonempty[OF t] validInstallToken_no_slash[OF t]
    by (simp add: installEdge_def Let_def del: append_Cons find_index_simps)
  have inv: "console_inv sample_env sample_app ?d"
    using t by (simp add: console_inv_def sample_ok clients_ok_def regs_ok_def reg_ok_def new_client_def)
  have "clients_of sample_env sample_app ?d = Inr ?cs" by simp
  then have "sh_word Unquoted (shellQuote ''to~ken'') = Some ''to~ken''" using install_script_words[OF inv h b] k by auto
  with h b show ?thesis by blast
qed

section \<open>The tables of the page\<close>

text \<open>\<open>esc\<close> of the page's script.\<close>

definition esc :: "string \<Rightarrow> string" where
  "esc s = concat (map (\<lambda>c. if c = CHR ''&'' then ''&amp;'' else if c = CHR ''<'' then ''&lt;'' else if c = CHR ''>'' then ''&gt;''
     else if c = CHR 0x22 then ''&quot;'' else if c = CHR 0x27 then ''&#39;'' else [c]) s)"

text \<open>What is escaped neither opens a tag nor ends a quoted value, and is read back as it was.\<close>

lemma esc_simps [simp]: "esc [] = []"
  "esc (c # s) = (if c = CHR ''&'' then ''&amp;'' else if c = CHR ''<'' then ''&lt;'' else if c = CHR ''>'' then ''&gt;''
     else if c = CHR 0x22 then ''&quot;'' else if c = CHR 0x27 then ''&#39;'' else [c]) @ esc s"
  by (simp_all add: esc_def)

lemma esc_harmless [simp]: "CHR ''<'' \<notin> set (esc s)" "CHR 0x22 \<notin> set (esc s)"
  by (induction s) auto

lemma esc_empty [simp]: "esc s = [] \<longleftrightarrow> s = []"
  by (cases s) auto

lemma decode_esc [simp]: "decode_refs (esc x @ s) = x @ decode_refs s"
  by (induction x) (auto simp: hasPrefix_def)

lemma decode_esc_all [simp]: "decode_refs (esc x) = x"
  using decode_esc[of x "[]"] by simp

text \<open>The texts of the page in the language of the browser: column titles, buttons, and the notice of an empty table.\<close>

record page_texts =
  tx_titles :: "string list"
  tx_approve :: string
  tx_reject :: string
  tx_empty :: string

text \<open>
  The rows and the table of pending registrations; written with \<open>~\<close> for the double quote and \<open>^\<close> for the single one.
\<close>

definition quoted_text :: "string \<Rightarrow> string" where
  "quoted_text = map (\<lambda>c. if c = CHR ''~'' then CHR 0x22 else if c = CHR ''^'' then CHR 0x27 else c)"

definition pendingRow :: "page_texts \<Rightarrow> edgeRegistration \<Rightarrow> string" where
  "pendingRow t g =
     (let cid = esc (rg_ID g)
      in ''<tr><td><code>'' @ cid @ ''</code></td><td>'' @ esc (rg_Label g) @ ''</td><td>''
         @ esc (rg_RemoteAddr g) @ ''</td><td>'' @ esc (rg_RequestedAt g) @ quoted_text ''</td><td class=~actions~>''
         @ quoted_text ''<button class=~btn~ onclick=~withButton(this,()=>registrationAction(^'' @ cid
         @ quoted_text ''^,^approve^))~>'' @ tx_approve t @ ''</button>''
         @ quoted_text ''<button class=~btn danger~ onclick=~withButton(this,()=>registrationAction(^'' @ cid
         @ quoted_text ''^,^reject^))~>'' @ tx_reject t @ ''</button>''
         @ ''</td></tr>'')"

definition pendingTable :: "page_texts \<Rightarrow> edgeRegistration list \<Rightarrow> string" where
  "pendingTable t gs =
     (let pendingRows = concat (map (pendingRow t) (filter (\<lambda>g. rg_Status g = ''pending'') gs))
      in if pendingRows \<noteq> []
         then quoted_text ''<div class=~table-scroll~><table><thead><tr>'' @ concat (map (\<lambda>h. ''<th>'' @ h @ ''</th>'') (tx_titles t))
              @ ''<th></th></tr></thead><tbody>'' @ pendingRows @ ''</tbody></table></div>''
         else quoted_text ''<div class=~empty~>'' @ tx_empty t @ ''</div>'')"

lemma row_nonempty [simp]: "pendingRow t g \<noteq> []"
  by (simp add: pendingRow_def Let_def)

text \<open>
  The rows of the table of clients and its texts, a part of which the page has in Chinese whatever the browser's
  language. An entry has a second row with the form of its limits.
\<close>

record client_texts =
  ct_titles :: "string list"
  ct_enable :: string
  ct_disable :: string
  ct_revoke :: string
  ct_unrevoke :: string
  ct_rate :: string
  ct_signs :: string
  ct_errors :: string
  ct_autoRevoke :: string
  ct_save :: string
  ct_empty :: string

definition or_dash :: "int \<Rightarrow> string" where
  "or_dash n = (if n = 0 then ''-'' else itoa n)"

definition limit_input :: "string \<Rightarrow> string \<Rightarrow> int \<Rightarrow> string" where
  "limit_input label name n =
     ''<label>'' @ label @ quoted_text (''<input name=~'' @ name @ ''~ type=~number~ min=~0~ max=~1000000~ step=~1~ value=~'')
     @ itoa n @ quoted_text ''~></label>''"

definition limits_form :: "client_texts \<Rightarrow> ClientConfig \<Rightarrow> string" where
  "limits_form t c =
     (let cid = esc (cc_id c)
      in quoted_text ''<form class=~limit-form~ data-client-limits=~'' @ cid
         @ quoted_text ''~ onsubmit=~event.preventDefault();withButton(this.querySelector(^button^),()=>updateLimits(^'' @ cid
         @ quoted_text ''^))~>'' @ limit_input (ct_rate t) ''rate_per_minute'' (cc_rate c)
         @ limit_input (ct_signs t) ''auto_disable_signs_per_minute'' (cc_auto_signs c)
         @ limit_input (ct_errors t) ''auto_disable_errors_per_minute'' (cc_auto_errors c)
         @ quoted_text ''<label class=~check~><input name=~auto_revoke~ type=~checkbox~ ''
         @ (if cc_auto_revoke c then ''checked'' else []) @ ''>'' @ ct_autoRevoke t @ ''</label>''
         @ quoted_text ''<button class=~btn secondary~ type=~submit~>'' @ ct_save t @ ''</button></form>'')"

definition action_button :: "string \<Rightarrow> string \<Rightarrow> string \<Rightarrow> string \<Rightarrow> string" where
  "action_button cls cid name label =
     quoted_text (''<button class=~'' @ cls @ ''~ onclick=~withButton(this,()=>action(^'') @ cid
     @ quoted_text (''^,^'' @ name @ ''^))~>'') @ label @ ''</button>''"

definition clientRow :: "client_texts \<Rightarrow> string list \<Rightarrow> ClientConfig \<Rightarrow> string" where
  "clientRow t revoked c =
     (let cid = esc (cc_id c)
      in ''<tr><td><code>'' @ cid @ ''</code></td><td>'' @ (if cc_disabled c then ''disabled'' else ''active'')
         @ (if cc_id c \<in> set revoked then '' / revoked'' else []) @ ''</td><td>'' @ or_dash (cc_rate c) @ ''/min</td><td>''
         @ or_dash (cc_auto_signs c) @ '' signs, '' @ or_dash (cc_auto_errors c)
         @ quoted_text '' errors</td><td class=~actions~>''
         @ action_button ''btn secondary'' cid (if cc_disabled c then ''enable'' else ''disable'')
             (if cc_disabled c then ct_enable t else ct_disable t)
         @ action_button ''btn danger'' cid ''revoke'' (ct_revoke t) @ action_button ''btn'' cid ''unrevoke'' (ct_unrevoke t)
         @ quoted_text ''</td></tr><tr><td></td><td colspan=~4~>'' @ limits_form t c @ ''</td></tr>'')"

definition clientTable :: "client_texts \<Rightarrow> string list \<Rightarrow> ClientConfig list \<Rightarrow> string" where
  "clientTable t revoked cs =
     (let rows = concat (map (clientRow t revoked) cs)
      in if rows \<noteq> []
         then quoted_text ''<div class=~table-scroll~><table><thead><tr>'' @ concat (map (\<lambda>h. ''<th>'' @ h @ ''</th>'') (ct_titles t))
              @ ''<th></th></tr></thead><tbody>'' @ rows @ ''</tbody></table></div>''
         else quoted_text ''<div class=~empty~>'' @ ct_empty t @ ''</div>'')"

lemma client_row_nonempty [simp]: "clientRow t revoked c \<noteq> []"
  by (simp add: clientRow_def Let_def)

section \<open>What the browser makes of the tables\<close>

text \<open>The texts of the page are plain: no tag and no reference in them.\<close>

definition plain_text :: "string \<Rightarrow> bool" where
  "plain_text x \<longleftrightarrow> CHR ''<'' \<notin> set x \<and> CHR ''&'' \<notin> set x"

definition plain_page :: "page_texts \<Rightarrow> bool" where
  "plain_page t \<longleftrightarrow> list_all plain_text ([tx_approve t, tx_reject t, tx_empty t] @ tx_titles t)"

definition plain_clients :: "client_texts \<Rightarrow> bool" where
  "plain_clients t \<longleftrightarrow> list_all plain_text ([ct_enable t, ct_disable t, ct_revoke t, ct_unrevoke t, ct_rate t, ct_signs t,
     ct_errors t, ct_autoRevoke t, ct_save t, ct_empty t] @ ct_titles t)"

text \<open>Character data, if there is any; an element that holds it.\<close>

definition text_tokens :: "string \<Rightarrow> html_token list" where
  "text_tokens x = (if x = [] then [] else [Chars x])"

definition element :: "string \<Rightarrow> (string \<times> string) list \<Rightarrow> html_token list \<Rightarrow> html_token list" where
  "element n as body = Open n as # body @ [Close n]"

text \<open>A script of the page: the call of a function with the id, quoted, and perhaps the name of an action.\<close>

definition call_with :: "string \<Rightarrow> string \<Rightarrow> string \<Rightarrow> string" where
  "call_with f cid rest = quoted_text (''withButton(this,()=>'' @ f @ ''(^'') @ cid @ quoted_text (''^'' @ rest @ '')'')"

definition button_tokens :: "string \<Rightarrow> string \<Rightarrow> string \<Rightarrow> html_token list" where
  "button_tokens cls script label = element ''button'' [(''class'', cls), (''onclick'', script)] (text_tokens label)"

definition pending_row_tokens :: "page_texts \<Rightarrow> edgeRegistration \<Rightarrow> html_token list" where
  "pending_row_tokens t g =
     element ''tr'' []
       (element ''td'' [] (element ''code'' [] (text_tokens (rg_ID g)))
        @ element ''td'' [] (text_tokens (rg_Label g)) @ element ''td'' [] (text_tokens (rg_RemoteAddr g))
        @ element ''td'' [] (text_tokens (rg_RequestedAt g))
        @ element ''td'' [(''class'', ''actions'')]
            (button_tokens ''btn'' (call_with ''registrationAction'' (rg_ID g) (quoted_text '',^approve^)'')) (tx_approve t)
             @ button_tokens ''btn danger'' (call_with ''registrationAction'' (rg_ID g) (quoted_text '',^reject^)'')) (tx_reject t)))"

definition table_tokens :: "string list \<Rightarrow> html_token list \<Rightarrow> html_token list" where
  "table_tokens titles rows =
     element ''div'' [(''class'', ''table-scroll'')] (element ''table'' []
       (element ''thead'' [] (element ''tr'' []
          (concat (map (\<lambda>h. element ''th'' [] (text_tokens h)) titles) @ element ''th'' [] []))
        @ element ''tbody'' [] rows))"

definition input_tokens :: "string \<Rightarrow> string \<Rightarrow> int \<Rightarrow> html_token list" where
  "input_tokens label name n =
     element ''label'' [] (text_tokens label @ [Open ''input'' [(''name'', name), (''type'', ''number''), (''min'', ''0''),
       (''max'', ''1000000''), (''step'', ''1''), (''value'', itoa n)]])"

definition form_tokens :: "client_texts \<Rightarrow> ClientConfig \<Rightarrow> html_token list" where
  "form_tokens t c =
     element ''form'' [(''class'', ''limit-form''), (''data-client-limits'', cc_id c),
         (''onsubmit'', quoted_text ''event.preventDefault();withButton(this.querySelector(^button^),()=>updateLimits(^''
            @ cc_id c @ quoted_text ''^))'')]
       (input_tokens (ct_rate t) ''rate_per_minute'' (cc_rate c)
        @ input_tokens (ct_signs t) ''auto_disable_signs_per_minute'' (cc_auto_signs c)
        @ input_tokens (ct_errors t) ''auto_disable_errors_per_minute'' (cc_auto_errors c)
        @ element ''label'' [(''class'', ''check'')]
            (Open ''input'' ([(''name'', ''auto_revoke''), (''type'', ''checkbox'')]
               @ (if cc_auto_revoke c then [(''checked'', [])] else [])) # text_tokens (ct_autoRevoke t))
        @ element ''button'' [(''class'', ''btn secondary''), (''type'', ''submit'')] (text_tokens (ct_save t)))"

definition client_row_tokens :: "client_texts \<Rightarrow> string list \<Rightarrow> ClientConfig \<Rightarrow> html_token list" where
  "client_row_tokens t revoked c =
     element ''tr'' []
       (element ''td'' [] (element ''code'' [] (text_tokens (cc_id c)))
        @ element ''td'' [] [Chars ((if cc_disabled c then ''disabled'' else ''active'')
            @ (if cc_id c \<in> set revoked then '' / revoked'' else []))]
        @ element ''td'' [] [Chars (or_dash (cc_rate c) @ ''/min'')]
        @ element ''td'' [] [Chars (or_dash (cc_auto_signs c) @ '' signs, '' @ or_dash (cc_auto_errors c) @ '' errors'')]
        @ element ''td'' [(''class'', ''actions'')]
            (button_tokens ''btn secondary''
               (call_with ''action'' (cc_id c) (quoted_text (if cc_disabled c then '',^enable^)'' else '',^disable^)'')))
               (if cc_disabled c then ct_enable t else ct_disable t)
             @ button_tokens ''btn danger'' (call_with ''action'' (cc_id c) (quoted_text '',^revoke^)'')) (ct_revoke t)
             @ button_tokens ''btn'' (call_with ''action'' (cc_id c) (quoted_text '',^unrevoke^)'')) (ct_unrevoke t)))
     @ element ''tr'' [] (element ''td'' [] [] @ element ''td'' [(''colspan'', ''4'')] (form_tokens t c))"

lemmas token_defs = element_def button_tokens_def call_with_def text_tokens_def chars_def tag_def quoted_text_def
  html_letter_def html_space_def

lemma plain_decode [simp]: "plain_text x \<Longrightarrow> decode_refs x = x" "plain_text x \<Longrightarrow> decode_refs (x @ s) = x @ decode_refs s"
  "plain_text x \<Longrightarrow> CHR ''<'' \<notin> set x"
  using decode_refs_plain[of x "[]"] decode_refs_plain[of x] by (simp_all add: plain_text_def)

lemma pending_row_read:
  assumes "plain_page t"
  shows "closed_text (pendingRow t g) (pending_row_tokens t g)"
  unfolding closed_text_def
proof
  fix s
  show "html (Data []) (pendingRow t g @ s) = pending_row_tokens t g @ html (Data []) s"
    using assms unfolding pendingRow_def pending_row_tokens_def Let_def plain_page_def
    by (simp add: token_defs html_data html_quoted)
qed

lemma number_chars:
  "set (itoa n) \<inter> {CHR ''<'', CHR ''>'', CHR 0x22, CHR ''&''} = {}" "set (or_dash n) \<inter> {CHR ''<'', CHR ''>'', CHR 0x22, CHR ''&''} = {}"
proof -
  have "set (show_nat k) \<inter> {CHR ''<'', CHR ''>'', CHR 0x22, CHR ''&''} = {}" for k
    by (auto dest!: show_nat_digits digit_val_ascii)
  then show n: "set (itoa n) \<inter> {CHR ''<'', CHR ''>'', CHR 0x22, CHR ''&''} = {}" by (simp add: itoa_def)
  then show "set (or_dash n) \<inter> {CHR ''<'', CHR ''>'', CHR 0x22, CHR ''&''} = {}" unfolding or_dash_def by simp
qed

lemma number_plain [simp]:
  "CHR ''<'' \<notin> set (itoa n)" "CHR 0x22 \<notin> set (itoa n)" "CHR ''<'' \<notin> set (or_dash n)"
  "decode_refs (itoa n) = itoa n" "decode_refs (or_dash n @ s) = or_dash n @ decode_refs s"
  "or_dash n @ c # s \<noteq> []"
  using number_chars[of n] decode_refs_plain[of "itoa n" "[]"] decode_refs_plain[of "or_dash n" s] by auto

lemma input_read:
  assumes "plain_text label" and "name \<in> {''rate_per_minute'', ''auto_disable_signs_per_minute'', ''auto_disable_errors_per_minute''}"
  shows "closed_text (limit_input label name n) (input_tokens label name n)"
  unfolding closed_text_def limit_input_def input_tokens_def using assms
  by (auto simp: token_defs html_data html_quoted)

lemma button_read:
  assumes "plain_text label" and "(cls, name) \<in> {(''btn secondary'', ''enable''), (''btn secondary'', ''disable''),
    (''btn danger'', ''revoke''), (''btn'', ''unrevoke'')}"
  shows "closed_text (action_button cls (esc cid) name label)
    (button_tokens cls (call_with ''action'' cid (quoted_text ('',^'' @ name @ ''^)''))) label)"
  unfolding closed_text_def action_button_def using assms
  by (auto simp: token_defs html_data html_quoted)

lemma form_read:
  assumes "plain_clients t"
  shows "closed_text (limits_form t c) (form_tokens t c)"
  unfolding closed_text_def
proof
  fix s
  have p: "plain_text (ct_rate t)" "plain_text (ct_signs t)" "plain_text (ct_errors t)" "plain_text (ct_autoRevoke t)" "plain_text (ct_save t)"
    using assms by (simp_all add: plain_clients_def)
  have i: "html (Data []) (limit_input (ct_rate t) ''rate_per_minute'' (cc_rate c) @ r)
      = input_tokens (ct_rate t) ''rate_per_minute'' (cc_rate c) @ html (Data []) r"
    "html (Data []) (limit_input (ct_signs t) ''auto_disable_signs_per_minute'' (cc_auto_signs c) @ r)
      = input_tokens (ct_signs t) ''auto_disable_signs_per_minute'' (cc_auto_signs c) @ html (Data []) r"
    "html (Data []) (limit_input (ct_errors t) ''auto_disable_errors_per_minute'' (cc_auto_errors c) @ r)
      = input_tokens (ct_errors t) ''auto_disable_errors_per_minute'' (cc_auto_errors c) @ html (Data []) r" for r
    using p(1-3) by (intro closed_textD input_read; simp)+
  show "html (Data []) (limits_form t c @ s) = form_tokens t c @ html (Data []) s"
    using p(4,5) unfolding limits_form_def form_tokens_def Let_def
    by (cases "cc_auto_revoke c") (simp_all add: i token_defs html_data html_quoted)
qed

lemma client_row_read:
  assumes "plain_clients t"
  shows "closed_text (clientRow t revoked c) (client_row_tokens t revoked c)"
  unfolding closed_text_def
proof
  fix s
  have p: "plain_text (ct_enable t)" "plain_text (ct_disable t)" "plain_text (ct_revoke t)" "plain_text (ct_unrevoke t)"
    using assms by (simp_all add: plain_clients_def)
  have b: "html (Data []) (action_button ''btn secondary'' (esc i) ''enable'' (ct_enable t) @ r)
      = button_tokens ''btn secondary'' (call_with ''action'' i (quoted_text '',^enable^)'')) (ct_enable t) @ html (Data []) r"
    "html (Data []) (action_button ''btn secondary'' (esc i) ''disable'' (ct_disable t) @ r)
      = button_tokens ''btn secondary'' (call_with ''action'' i (quoted_text '',^disable^)'')) (ct_disable t) @ html (Data []) r"
    "html (Data []) (action_button ''btn danger'' (esc i) ''revoke'' (ct_revoke t) @ r)
      = button_tokens ''btn danger'' (call_with ''action'' i (quoted_text '',^revoke^)'')) (ct_revoke t) @ html (Data []) r"
    "html (Data []) (action_button ''btn'' (esc i) ''unrevoke'' (ct_unrevoke t) @ r)
      = button_tokens ''btn'' (call_with ''action'' i (quoted_text '',^unrevoke^)'')) (ct_unrevoke t) @ html (Data []) r" for i r
    using p closed_textD[OF button_read, of "ct_enable t" "''btn secondary''" "''enable''" i r]
      closed_textD[OF button_read, of "ct_disable t" "''btn secondary''" "''disable''" i r]
      closed_textD[OF button_read, of "ct_revoke t" "''btn danger''" "''revoke''" i r]
      closed_textD[OF button_read, of "ct_unrevoke t" "''btn''" "''unrevoke''" i r] by simp_all
  note f = closed_textD[OF form_read[OF assms]]
  show "html (Data []) (clientRow t revoked c @ s) = client_row_tokens t revoked c @ html (Data []) s"
    unfolding clientRow_def client_row_tokens_def Let_def
    by (cases "cc_disabled c"; cases "cc_id c \<in> set revoked")
       (simp_all add: b f element_def text_tokens_def chars_def tag_def html_letter_def html_space_def quoted_text_def html_data)
qed

text \<open>A table around rows, or the notice that there are none.\<close>

lemma table_read:
  assumes "closed_text rows toks" and "list_all plain_text titles"
  shows "html_tokens (quoted_text ''<div class=~table-scroll~><table><thead><tr>'' @ concat (map (\<lambda>h. ''<th>'' @ h @ ''</th>'') titles)
      @ ''<th></th></tr></thead><tbody>'' @ rows @ ''</tbody></table></div>'') = table_tokens titles toks"
proof -
  have "closed_text (''<th>'' @ h @ ''</th>'') (element ''th'' [] (text_tokens h))" if "h \<in> set titles" for h
    using that assms(2) by (simp add: closed_text_def list_all_iff token_defs html_data)
  then have t: "closed_text (concat (map (\<lambda>h. ''<th>'' @ h @ ''</th>'') titles)) (concat (map (\<lambda>h. element ''th'' [] (text_tokens h)) titles))"
    by (rule closed_text_concat)
  show ?thesis
    unfolding table_tokens_def by (simp add: closed_textD[OF t, simplified] closed_textD[OF assms(1)] token_defs)
qed

lemma notice_read:
  "plain_text x \<Longrightarrow> html_tokens (quoted_text ''<div class=~empty~>'' @ x @ ''</div>'') = element ''div'' [(''class'', ''empty'')] (text_tokens x)"
  by (simp add: token_defs html_data)

lemma rows_empty:
  "concat (map (pendingRow t) gs) = [] \<longleftrightarrow> gs = []" "concat (map (clientRow t' revoked) cs) = [] \<longleftrightarrow> cs = []"
  by (cases gs; simp) (cases cs; simp)

lemma valid_id_quoted: "validClientID i \<Longrightarrow> CHR 0x27 \<notin> set i \<and> CHR 0x5C \<notin> set i"
  using valid_id_chars[of i] special_not_id by blast

text \<open>
  C38. Nobody who registers or is registered can change the administrator's page: read by the browser, the tables of
  pending registrations and of clients are exactly the elements written down in \<open>pending_row_tokens\<close> and
  \<open>client_row_tokens\<close>, one row (two for a client) for each entry, and what an entry carries is in them as data: its id,
  label, address and time as the text of a cell, its numbers as text and as the values of the form, its flags as the
  word for the status, the name of the button's action and the tick; and the id that a button's script names between
  single quotes has, in well-formed files, neither a quote nor a backslash. The texts of the page (titles and buttons)
  hold neither tags nor references.
\<close>

theorem page_structure_fixed:
  assumes "regs_ok gs" and "clients_ok cs" and "plain_page t" and "plain_clients t'"
  shows "html_tokens (pendingTable t gs)
      = (let pending = filter (\<lambda>g. rg_Status g = ''pending'') gs
         in if pending = [] then element ''div'' [(''class'', ''empty'')] (text_tokens (tx_empty t))
            else table_tokens (tx_titles t) (concat (map (pending_row_tokens t) pending)))
    \<and> html_tokens (clientTable t' revoked cs)
      = (if cs = [] then element ''div'' [(''class'', ''empty'')] (text_tokens (ct_empty t'))
         else table_tokens (ct_titles t') (concat (map (client_row_tokens t' revoked) cs)))
    \<and> (\<forall>i\<in>rg_ID ` set gs \<union> cc_id ` set cs. CHR 0x27 \<notin> set i \<and> CHR 0x5C \<notin> set i)"
proof (intro conjI)
  have p: "plain_text (tx_empty t)" "list_all plain_text (tx_titles t)" "plain_text (ct_empty t')" "list_all plain_text (ct_titles t')"
    using assms(3,4) by (simp_all add: plain_page_def plain_clients_def)
  show "html_tokens (pendingTable t gs)
      = (let pending = filter (\<lambda>g. rg_Status g = ''pending'') gs
         in if pending = [] then element ''div'' [(''class'', ''empty'')] (text_tokens (tx_empty t))
            else table_tokens (tx_titles t) (concat (map (pending_row_tokens t) pending)))"
    using table_read[OF closed_text_concat[where f = "pendingRow t" and g = "pending_row_tokens t", OF pending_row_read[OF assms(3)]] p(2)]
      notice_read[OF p(1)]
    unfolding pendingTable_def Let_def rows_empty(1)
    by (cases "filter (\<lambda>g. rg_Status g = ''pending'') gs = []") (simp_all only: if_True if_False simp_thms)
  show "html_tokens (clientTable t' revoked cs)
      = (if cs = [] then element ''div'' [(''class'', ''empty'')] (text_tokens (ct_empty t'))
         else table_tokens (ct_titles t') (concat (map (client_row_tokens t' revoked) cs)))"
    using table_read[OF closed_text_concat[where f = "clientRow t' revoked" and g = "client_row_tokens t' revoked",
        OF client_row_read[OF assms(4)]] p(4)] notice_read[OF p(3)]
    unfolding clientTable_def Let_def rows_empty(2)
    by (cases "cs = []") (simp_all only: if_True if_False simp_thms)
  show "\<forall>i\<in>rg_ID ` set gs \<union> cc_id ` set cs. CHR 0x27 \<notin> set i \<and> CHR 0x5C \<notin> set i"
    using assms(1,2) valid_id_quoted by (auto simp: regs_ok_def reg_ok_def clients_ok_def)
qed

definition sample_texts :: page_texts where
  "sample_texts = \<lparr>tx_titles = [''ID'', ''Label'', ''Remote'', ''Requested''], tx_approve = ''Approve'', tx_reject = ''Reject'',
     tx_empty = ''No pending registrations''\<rparr>"

definition sample_client_texts :: client_texts where
  "sample_client_texts = \<lparr>ct_titles = [''ID'', ''Status'', ''Rate'', ''Auto disable''], ct_enable = ''Enable'', ct_disable = ''Disable'',
     ct_revoke = ''Revoke'', ct_unrevoke = ''Unrevoke'', ct_rate = ''Rate'', ct_signs = ''Signs'', ct_errors = ''Errors'',
     ct_autoRevoke = ''Auto revoke'', ct_save = ''Save'', ct_empty = ''No clients''\<rparr>"

theorem page_structure_fixed_witness:
  "list_ex (\<lambda>x. x = Chars ''</td><script>'')
     (html_tokens (pendingTable sample_texts [(sample_reg ''edge'' ''pending'' install_name)\<lparr>rg_Label := ''</td><script>''\<rparr>]))
   \<and> \<not> list_ex (\<lambda>x. x = Open ''script'' [])
     (html_tokens (pendingTable sample_texts [(sample_reg ''edge'' ''pending'' install_name)\<lparr>rg_Label := ''</td><script>''\<rparr>]))"
proof -
  let ?g = "(sample_reg ''edge'' ''pending'' install_name)\<lparr>rg_Label := ''</td><script>''\<rparr>" and ?c = "new_client ''edge'' ''tok''"
  have 1: "regs_ok [?g]" by (simp add: regs_ok_def reg_ok_def)
  have 2: "clients_ok [?c]" by (simp add: clients_ok_def new_client_def)
  have 3: "plain_page sample_texts" "plain_clients sample_client_texts"
    by (simp_all add: plain_page_def plain_clients_def plain_text_def sample_texts_def sample_client_texts_def)
  have "html_tokens (pendingTable sample_texts [?g]) = table_tokens (tx_titles sample_texts) (pending_row_tokens sample_texts ?g)"
    using page_structure_fixed[OF 1 2 3, of "[]"] by (simp add: sample_reg_def)
  then show ?thesis
    by (simp only:) (simp add: table_tokens_def pending_row_tokens_def element_def text_tokens_def button_tokens_def sample_texts_def sample_reg_def)
qed

end
