(* ===== verification/Dashboard.thy ===== *)
theory Dashboard
  imports ConsolePage
begin

text \<open>
  What the administrator's page sends (\<open>action\<close>, \<open>updateLimits\<close>, \<open>registrationAction\<close>, \<open>intValue\<close> of the script in
  \<open>consolePage\<close>, \<open>cmd/signer-console/main.go\<close>) and what the console does with it: the buttons and the form of the
  table of clients, from the click to the files.
\<close>

section \<open>Requests of the page\<close>

text \<open>\<open>encodeURIComponent\<close> on the bytes of the text, and how the server decodes the path (\<open>net/url\<close>).\<close>

definition upper_digit :: "nat \<Rightarrow> char" where
  "upper_digit n = ''0123456789ABCDEF'' ! n"

definition uri_plain :: "char \<Rightarrow> bool" where
  "uri_plain c \<longleftrightarrow> id_char c \<or> c \<in> set ''.!~*()'' \<or> c = CHR 0x27"

definition encodeURIComponent :: "string \<Rightarrow> string" where
  "encodeURIComponent s =
     concat (map (\<lambda>c. if uri_plain c then [c] else [CHR ''%'', upper_digit (of_char c div 16), upper_digit (of_char c mod 16)]) s)"

definition path_hex :: "char \<Rightarrow> nat option" where
  "path_hex c =
     (let n = (of_char c :: nat)
      in if 48 \<le> n \<and> n \<le> 57 then Some (n - 48) else if 97 \<le> n \<and> n \<le> 102 then Some (n - 87)
         else if 65 \<le> n \<and> n \<le> 70 then Some (n - 55) else None)"

fun decode_path :: "string \<Rightarrow> string option" where
  "decode_path [] = Some []"
| "decode_path (c # s) =
     (if c \<noteq> CHR ''%'' then map_option (\<lambda>w. c # w) (decode_path s)
      else (case s of
              h # l # s' \<Rightarrow> (case (path_hex h, path_hex l, decode_path s') of
                  (Some p, Some q, Some w) \<Rightarrow> Some (char_of (16 * p + q) # w) | _ \<Rightarrow> None)
            | _ \<Rightarrow> None))"

definition action_path :: "string \<Rightarrow> string \<Rightarrow> string \<Rightarrow> string" where
  "action_path kind cid name = ''/api/'' @ kind @ ''/'' @ encodeURIComponent cid @ ''/'' @ name"

text \<open>The request the server reads when the page posts a body to a path.\<close>

definition posted :: "string \<Rightarrow> string \<Rightarrow> console_request \<Rightarrow> bool" where
  "posted path body r \<longleftrightarrow> cq_method r = ''POST'' \<and> decode_path path = Some (cq_path r) \<and> cq_body r = body"

text \<open>The buttons of a client's row, as in \<open>clientRow\<close>.\<close>

definition row_actions :: "ClientConfig \<Rightarrow> string list" where
  "row_actions c = [if cc_disabled c then ''enable'' else ''disable'', ''revoke'', ''unrevoke'']"

text \<open>
  \<open>intValue\<close>: \<open>Number.parseInt\<close> reads the digits the text starts with, after white space and a sign, and ignores the
  rest; no digits, and everything that is not positive, is 0. Numbers are exact here; JavaScript rounds those beyond
  \<open>2^53\<close>, far above what the server accepts.
\<close>

definition intValue :: "string \<Rightarrow> int" where
  "intValue value =
     (let s = dropWhile ascii_space value;
          ds = (case s of [] \<Rightarrow> [] | c # s' \<Rightarrow> if c = CHR ''+'' then s' else s)
      in (case parse_digits 0 (takeWhile (\<lambda>c. digit_val c \<noteq> None) ds) of None \<Rightarrow> 0 | Some n \<Rightarrow> int n))"

definition limits_payload :: "string \<Rightarrow> string \<Rightarrow> string \<Rightarrow> bool \<Rightarrow> clientLimitsRequest" where
  "limits_payload rate signs errs revoke =
     \<lparr>lr_Rate = intValue rate, lr_Signs = intValue signs, lr_Errors = intValue errs, lr_AutoRevoke = revoke\<rparr>"

section \<open>Paths\<close>

lemma path_hex_upper: "n < 16 \<Longrightarrow> path_hex (upper_digit n) = Some n"
proof -
  have "\<forall>n<16. path_hex (upper_digit n) = Some n" by code_simp
  then show "n < 16 \<Longrightarrow> path_hex (upper_digit n) = Some n" by blast
qed

lemma decode_path_plain: "\<forall>c\<in>set s. c \<noteq> CHR ''%'' \<Longrightarrow> decode_path (s @ t) = map_option (\<lambda>w. s @ w) (decode_path t)"
proof (induction s)
  case (Cons c s)
  then show ?case by (cases "decode_path t") simp_all
qed (cases "decode_path t", simp_all)

lemma of_char_limit: "(of_char c :: nat) div 16 < 16" "(of_char c :: nat) mod 16 < 16"
proof -
  have "(of_char c :: nat) < 256" by (metis of_char_mod_256 mod_less_divisor zero_less_numeral)
  then show "(of_char c :: nat) div 16 < 16" by (simp add: less_mult_imp_div_less)
qed simp

lemma decode_encode: "decode_path (encodeURIComponent s @ t) = map_option (\<lambda>w. s @ w) (decode_path t)"
proof (induction s)
  case (Cons c s)
  show ?case
  proof (cases "uri_plain c")
    case True
    then have "c \<noteq> CHR ''%''" by (auto simp: uri_plain_def id_char_def)
    then show ?thesis using True Cons.IH by (simp add: encodeURIComponent_def option.map_comp comp_def)
  next
    case False
    then show ?thesis using Cons.IH
      by (cases "decode_path t") (simp_all add: encodeURIComponent_def path_hex_upper of_char_limit)
  qed
qed (simp add: encodeURIComponent_def option.map_ident)

interpretation uri: codec encodeURIComponent decode_path
  by unfold_locales (use decode_encode[of _ "[]"] in simp)

lemma id_char_plain:
  "id_char c \<or> c = CHR ''.'' \<Longrightarrow> \<not> ascii_space c \<and> (of_char c :: nat) < 128 \<and> c \<noteq> newline \<and> c \<noteq> CHR ''#'' \<and> c \<noteq> CHR ''/''"
  by (auto simp: id_char_def ascii_space_def Let_def)

lemma no_slash_valid: "validClientID i \<Longrightarrow> CHR ''/'' \<notin> set i"
  using valid_id_chars id_char_plain by blast

lemma valid_id_plain:
  assumes "validClientID i"
  shows "plain_id i"
proof -
  have s: "\<forall>c\<in>set i. \<not> ascii_space c \<and> (of_char c :: nat) < 128 \<and> c \<noteq> newline \<and> c \<noteq> CHR ''#''"
    using valid_id_chars[OF assms] id_char_plain by blast
  have "i \<noteq> []" "length i < scan_limit" using assms by (auto simp: validClientID_def scan_limit_def)
  then show ?thesis using s no_edge_space_ascii[of i] by (cases i) (auto simp: plain_id_def hasPrefix_def)
qed

lemma posted_action:
  assumes "posted (action_path ''clients'' cid name) body r" and "validClientID cid" and "name \<noteq> []" and "set name \<inter> set ''/%'' = {}"
  shows "cq_method r = ''POST''" "hasPrefix (cq_path r) ''/api/clients/''" "parseClientAction (cq_path r) = Some (cid, name)"
    "cq_body r = body"
proof -
  let ?p = "''/api/clients/''"
  have k: "''/api/'' @ ''clients'' @ ''/'' = ?p" by simp
  have a: "action_path ''clients'' cid name = ?p @ encodeURIComponent cid @ ''/'' @ name"
    unfolding action_path_def by simp
  have pl: "\<forall>c\<in>set ?p. c \<noteq> CHR ''%''" "\<forall>c\<in>set (''/'' @ name). c \<noteq> CHR ''%''" using assms(4) by auto
  have "decode_path (?p @ encodeURIComponent cid @ ''/'' @ name) = Some (?p @ cid @ ''/'' @ name)"
    using decode_path_plain[OF pl(1)] decode_encode decode_path_plain[OF pl(2), of "[]"] by simp
  then have p: "cq_path r = ?p @ cid @ ''/'' @ name" using assms(1) a by (simp add: posted_def)
  show "cq_method r = ''POST''" "cq_body r = body" using assms(1) by (simp_all add: posted_def)
  show "hasPrefix (cq_path r) ?p" unfolding p by (rule hasPrefix_append)
  have nn: "CHR ''/'' \<notin> set name" "CHR ''/'' \<notin> set cid" using assms(4) no_slash_valid[OF assms(2)] by auto
  have e: "cq_path r = CHR ''/'' # (''api/clients/'' @ cid @ ''/'' @ name)" using p by simp
  have l: "last (''api/clients/'' @ cid @ ''/'' @ name) \<noteq> CHR ''/''"
    using nn(1) assms(3) last_in_set[OF assms(3)] by (metis last_appendR append_is_Nil_conv)
  have "hd (''api/clients/'' @ cid @ ''/'' @ name) \<noteq> CHR ''/''" by simp
  from trim_id[OF _ this l] have t: "trim (cq_path r) CHR ''/'' = ''api/clients/'' @ cid @ ''/'' @ name"
    unfolding e by (simp add: trim_def)
  have "split_at CHR ''/'' (''api/clients/'' @ cid @ ''/'' @ name) = [''api'', ''clients'', cid, name]"
    using split_at_join[of "[''api'', ''clients'', cid, name]" "CHR ''/''"] nn by simp
  then show "parseClientAction (cq_path r) = Some (cid, name)" by (simp add: parseClientAction_def parse_action_def t)
qed

section \<open>Effects\<close>

lemma client_loop_toggle:
  "client_loop env cid (if b then ''disable'' else ''enable'') bodies cs
     = Inr (map (\<lambda>c. if cc_id c = cid then c\<lparr>cc_disabled := b\<rparr> else c) cs, cid \<in> cc_id ` set cs)"
  by (induction cs) (cases b; force)+

definition set_limits :: "clientLimitsRequest \<Rightarrow> ClientConfig \<Rightarrow> ClientConfig" where
  "set_limits req c =
     c\<lparr>cc_rate := lr_Rate req, cc_auto_signs := lr_Signs req, cc_auto_errors := lr_Errors req, cc_auto_revoke := lr_AutoRevoke req\<rparr>"

lemma client_loop_absent: "cid \<notin> cc_id ` set cs \<Longrightarrow> client_loop env cid action bodies cs = Inr (cs, False)"
  by (induction cs) auto

lemma client_loop_limits:
  assumes "distinct (map cc_id cs)" and "cn_decodeLimits env (take (16 * 1024) body) = Inr req" and "limits_ok req"
  shows "client_loop env cid ''limits'' [body] cs
    = Inr (map (\<lambda>c. if cc_id c = cid then set_limits req c else c) cs, cid \<in> cc_id ` set cs)"
  using assms(1)
proof (induction cs)
  case (Cons c cs)
  show ?case
  proof (cases "cc_id c = cid")
    case True
    then have a: "cid \<notin> cc_id ` set cs" using Cons.prems by auto
    then have "map (\<lambda>c. if cc_id c = cid then set_limits req c else c) cs = cs" by (intro map_idI) auto
    then show ?thesis using True client_loop_absent[OF a] assms(2,3) by (simp add: set_limits_def)
  next
    case False
    then show ?thesis using Cons by auto
  qed
qed simp

text \<open>Where the client file can be written, such an action rewrites it and nothing else.\<close>

lemma clientAction_store:
  assumes "clients_of env a d = Inr cs" and "console_ok env a"
    and "fs_write_error d (ap_clientsPath a) = None" and "cn_mkdir env (ap_clientsPath a) = None"
    and "parseClientAction (cq_path r) = Some (cid, action)" and "action \<in> {''disable'', ''enable'', ''limits''}"
    and "client_loop env cid action [cq_body r] cs = Inr (cs', True)"
  obtains d' where "clientAction env a r d = (d', console_json 200 JOk)" "clients_of env a d' = Inr cs'"
    "revfile_ids (ap_revokedPath a) d' = revfile_ids (ap_revokedPath a) d"
proof -
  have w0: "writeFile d (ap_clientsPath a) (cn_encodeClients env cs') = Inr (d\<lparr>fs_files := (fs_files d)(ap_clientsPath a \<mapsto> cn_encodeClients env cs')\<rparr>)"
    using assms(3) by (simp add: writeFile_def)
  then obtain d' where w: "writeClientFile env d (ap_clientsPath a) cs' = Inr d'" "writeFile d (ap_clientsPath a) (cn_encodeClients env cs') = Inr d'"
    using assms(4) by (simp add: writeClientFile_def)
  have "clientAction env a r d = (d', console_json 200 JOk)"
    using assms(1,5,6,7) w(1) by (auto simp: clientAction_def)
  moreover have "clients_of env a d' = Inr cs'" by (rule write_clients_effect(1)[OF assms(2) w(1) assms(1)])
  moreover have "revfile_ids (ap_revokedPath a) d' = revfile_ids (ap_revokedPath a) d"
    using w0 w(2) assms(2) by (auto simp: revfile_ids_def file_text_def console_ok_def)
  ultimately show thesis by (rule that)
qed

lemma handled_action:
  assumes "cq_method r = ''POST''" "hasPrefix (cq_path r) ''/api/clients/''" and "currentUser env a r \<noteq> None"
    and "clientAction env a r d = (d', resp)"
  shows "consoleHandler env a now raw1 raw2 r d = Some (d', securityHeaders resp)"
proof -
  have "cq_path r \<noteq> ''/logout''" "cq_path r \<noteq> ''/api/register''" "\<not> hasPrefix (cq_path r) ''/api/install/''"
    using assms(2) by (auto simp: hasPrefix_def)
  then show ?thesis using assms by (auto simp: consoleHandler_def console_requireAdmin_def)
qed

section \<open>Values of the form\<close>

lemma intValue_itoa:
  assumes "0 \<le> n"
  shows "intValue (itoa n) = n"
proof -
  obtain c cs where s: "show_nat (nat n) = c # cs" using show_nat_neq_Nil[of "nat n"] by (cases "show_nat (nat n)") blast+
  have d: "\<forall>x\<in>set (show_nat (nat n)). digit_val x \<noteq> None" using show_nat_digits by blast
  then have "digit_val c \<noteq> None" using s by simp
  then have "\<not> ascii_space c" "c \<noteq> CHR ''+''" using digit_val_ascii[of c] by (auto simp: ascii_space_def)
  moreover have "takeWhile (\<lambda>x. digit_val x \<noteq> None) (c # cs) = c # cs" using d s by (simp only: takeWhile_eq_all_conv)
  moreover have "parse_digits 0 (c # cs) = Some (nat n)" using parse_digits_show_nat[of "nat n"] s by simp
  ultimately show ?thesis using assms by (simp add: intValue_def itoa_def s)
qed

text \<open>A number field also accepts \<open>1e3\<close> for a thousand; the page sends 1.\<close>

lemma exponent_misread: "intValue ''1e3'' = 1"
  by code_simp

lemma unique_client:
  assumes "clients_ok cs" and "c \<in> set cs"
  shows "map (\<lambda>x. if cc_id x = cc_id c then f x else x) cs = map (\<lambda>x. if x = c then f c else x) cs" and "validClientID (cc_id c)"
proof -
  have "cc_id x = cc_id c \<longleftrightarrow> x = c" if "x \<in> set cs" for x
    using assms that by (auto simp: clients_ok_def dest: inj_onD[OF distinct_map[THEN iffD1, THEN conjunct2]])
  then show "map (\<lambda>x. if cc_id x = cc_id c then f x else x) cs = map (\<lambda>x. if x = c then f c else x) cs" by simp
  show "validClientID (cc_id c)" using assms by (simp add: clients_ok_def)
qed

section \<open>Properties\<close>

text \<open>
  The buttons of a client's row do what they say, to that client only: clicked by an administrator, the first one
  enables a disabled client and disables an enabled one, and the others put its id on the revocation file or take it
  off; the console answers 200 and nothing else changes in either file.
\<close>

theorem dashboard_buttons_work:
  assumes inv: "console_inv env a d" and cs: "clients_of env a d = Inr cs" "c \<in> set cs" and admin: "currentUser env a r \<noteq> None"
    and sent: "posted (action_path ''clients'' (cc_id c) name) [] r" "name \<in> set (row_actions c)"
    and files: "fs_write_error d (ap_clientsPath a) = None" "cn_mkdir env (ap_clientsPath a) = None" "revfile_ok env (ap_revokedPath a) d"
  shows "\<exists>d' resp cs'. consoleHandler env a now raw1 raw2 r d = Some (d', resp) \<and> co_status resp = 200 \<and> clients_of env a d' = Inr cs'
    \<and> (name \<in> {''disable'', ''enable''} \<longrightarrow> cs' = map (\<lambda>x. if x = c then c\<lparr>cc_disabled := \<not> cc_disabled c\<rparr> else x) cs
         \<and> revfile_ids (ap_revokedPath a) d' = revfile_ids (ap_revokedPath a) d)
    \<and> (name = ''revoke'' \<longrightarrow> cs' = cs \<and> revfile_ids (ap_revokedPath a) d' = insert (cc_id c) (revfile_ids (ap_revokedPath a) d))
    \<and> (name = ''unrevoke'' \<longrightarrow> cs' = cs \<and> revfile_ids (ap_revokedPath a) d' = revfile_ids (ap_revokedPath a) d - {cc_id c})"
proof -
  let ?p = "ap_revokedPath a"
  have ok: "console_ok env a" and cok: "clients_ok cs" using inv cs(1) by (auto simp: console_inv_def)
  have n: "name \<noteq> []" "set name \<inter> set ''/%'' = {}" using sent(2) by (auto simp: row_actions_def split: if_splits)
  note v = unique_client(2)[OF cok cs(2)]
  note r = posted_action[OF sent(1) v n]
  note run = handled_action[OF r(1,2) admin]
  consider (toggle) "name = (if \<not> cc_disabled c then ''disable'' else ''enable'')" | (revoke) "name = ''revoke''" | (unrevoke) "name = ''unrevoke''"
    using sent(2) by (auto simp: row_actions_def)
  then show ?thesis
  proof cases
    case toggle
    have in_ids: "cc_id c \<in> cc_id ` set cs" using cs(2) by blast
    from client_loop_toggle[of env "cc_id c" "\<not> cc_disabled c" "[cq_body r]" cs]
    have l: "client_loop env (cc_id c) name [cq_body r] cs = Inr (map (\<lambda>x. if x = c then c\<lparr>cc_disabled := \<not> cc_disabled c\<rparr> else x) cs, True)"
      unfolding toggle[symmetric] unique_client(1)[OF cok cs(2)] using in_ids by simp
    have act: "name \<in> {''disable'', ''enable'', ''limits''}" using toggle by simp
    obtain d' where e: "clientAction env a r d = (d', console_json 200 JOk)"
      "clients_of env a d' = Inr (map (\<lambda>x. if x = c then c\<lparr>cc_disabled := \<not> cc_disabled c\<rparr> else x) cs)" "revfile_ids ?p d' = revfile_ids ?p d"
      by (rule clientAction_store[OF cs(1) ok files(1,2) r(3) act l])
    have "name \<noteq> ''revoke''" "name \<noteq> ''unrevoke''" using toggle by (auto split: if_splits)
    then show ?thesis using run[OF e(1)] e(2,3) by (auto simp: securityHeaders_def console_json_def)
  next
    case revoke
    obtain d' where w: "appendRevoked env d ?p (cc_id c) = Inr d'" "revfile_ids ?p d' = insert (cc_id c) (revfile_ids ?p d)"
      by (rule appendRevoked_effect[OF files(3) valid_id_plain[OF v]])
    have e: "clientAction env a r d = (d', console_json 200 JOk)" using clientAction_other[OF cs(1) r(3)] revoke w(1) by simp
    have "clients_of env a d' = Inr cs" using revoked_write_effect(1)[OF ok] w(1) cs(1) by metis
    then show ?thesis using run[OF e] w(2) revoke by (auto simp: securityHeaders_def console_json_def)
  next
    case unrevoke
    obtain d' where w: "removeRevoked d ?p (cc_id c) = Inr d'" "revfile_ids ?p d' = revfile_ids ?p d - {cc_id c}"
      by (rule removeRevoked_effect[OF files(3)])
    have e: "clientAction env a r d = (d', console_json 200 JOk)" using clientAction_other[OF cs(1) r(3)] unrevoke w(1) by simp
    have "clients_of env a d' = Inr cs" using revoked_write_effect(1)[OF ok] w(1) cs(1) by metis
    then show ?thesis using run[OF e] w(2) unrevoke by (auto simp: securityHeaders_def console_json_def)
  qed
qed

lemma sample_posted:
  "posted (action_path ''clients'' ''edge'' ''disable'') [] (sample_request ''POST'' ''/api/clients/edge/disable'' [] (Some sample_cookie))"
  "posted (action_path ''clients'' ''edge'' ''limits'') body (sample_request ''POST'' ''/api/clients/edge/limits'' body (Some sample_cookie))"
proof -
  have "decode_path (action_path ''clients'' ''edge'' ''disable'') = Some ''/api/clients/edge/disable''"
    "decode_path (action_path ''clients'' ''edge'' ''limits'') = Some ''/api/clients/edge/limits''" by code_simp+
  then show "posted (action_path ''clients'' ''edge'' ''disable'') [] (sample_request ''POST'' ''/api/clients/edge/disable'' [] (Some sample_cookie))"
    "posted (action_path ''clients'' ''edge'' ''limits'') body (sample_request ''POST'' ''/api/clients/edge/limits'' body (Some sample_cookie))"
    by (simp_all add: posted_def)
qed

lemma sample_edge_files:
  "console_inv sample_env sample_app (sample_files [new_client ''edge'' ''tok''] [])"
  "fs_write_error (sample_files [new_client ''edge'' ''tok''] []) (ap_clientsPath sample_app) = None"
  "cn_mkdir sample_env (ap_clientsPath sample_app) = None"
proof -
  show "console_inv sample_env sample_app (sample_files [new_client ''edge'' ''tok''] [])"
    by (simp add: console_inv_def sample_ok clients_ok_def regs_ok_def new_client_def)
qed (simp_all add: sample_files_def clean_fs_def)

theorem dashboard_buttons_work_witness:
  "\<exists>d' resp. consoleHandler sample_env sample_app ''now'' [] [] (sample_request ''POST'' ''/api/clients/edge/disable'' [] (Some sample_cookie))
       (sample_files [new_client ''edge'' ''tok''] []) = Some (d', resp) \<and> co_status resp = 200
     \<and> clients_of sample_env sample_app d' = Inr [(new_client ''edge'' ''tok'')\<lparr>cc_disabled := True\<rparr>]"
proof -
  let ?d = "sample_files [new_client ''edge'' ''tok''] []" and ?c = "new_client ''edge'' ''tok''"
  have c: "cc_id ?c = ''edge''" "\<not> cc_disabled ?c" by (simp_all add: new_client_def)
  have cs: "clients_of sample_env sample_app ?d = Inr [?c]" "?c \<in> set [?c]" by simp_all
  have r: "revfile_ok sample_env (ap_revokedPath sample_app) ?d" by (simp add: sample_revfile)
  have "''disable'' \<in> set (row_actions ?c)" using c(2) by (simp add: row_actions_def)
  from dashboard_buttons_work[OF sample_edge_files(1) cs _ _ this sample_edge_files(2,3) r, unfolded c(1), OF _ sample_posted(1)]
  show ?thesis using c(2) by fastforce
qed

text \<open>
  The limits an administrator types are the ones the console stores: for numbers from 0 to 1000000, typed as
  decimal digits, the form's request changes exactly the limits of that client to the typed ones; saving the form as the
  page shows it changes nothing.
\<close>

theorem dashboard_limits_stored:
  assumes inv: "console_inv env a d" and cs: "clients_of env a d = Inr cs" "c \<in> set cs" and admin: "currentUser env a r \<noteq> None"
    and sent: "posted (action_path ''clients'' (cc_id c) ''limits'') body r"
      "cn_decodeLimits env (take (16 * 1024) body) = Inr (limits_payload (itoa rate) (itoa signs) (itoa errs) revoke)"
    and range: "\<forall>n\<in>{rate, signs, errs}. 0 \<le> n \<and> n \<le> 1000000"
    and files: "fs_write_error d (ap_clientsPath a) = None" "cn_mkdir env (ap_clientsPath a) = None"
  shows "\<exists>d' resp cs'. consoleHandler env a now raw1 raw2 r d = Some (d', resp) \<and> co_status resp = 200 \<and> clients_of env a d' = Inr cs'
    \<and> cs' = map (\<lambda>x. if x = c then c\<lparr>cc_rate := rate, cc_auto_signs := signs, cc_auto_errors := errs, cc_auto_revoke := revoke\<rparr> else x) cs
    \<and> (rate = cc_rate c \<and> signs = cc_auto_signs c \<and> errs = cc_auto_errors c \<and> revoke = cc_auto_revoke c \<longrightarrow> cs' = cs)"
proof -
  let ?f = "\<lambda>c. c\<lparr>cc_rate := rate, cc_auto_signs := signs, cc_auto_errors := errs, cc_auto_revoke := revoke\<rparr>"
  have ok: "console_ok env a" and cok: "clients_ok cs" using inv cs(1) by (auto simp: console_inv_def)
  note v = unique_client(2)[OF cok cs(2)]
  note r = posted_action[OF sent(1) v]
  have q: "limits_payload (itoa rate) (itoa signs) (itoa errs) revoke = \<lparr>lr_Rate = rate, lr_Signs = signs, lr_Errors = errs, lr_AutoRevoke = revoke\<rparr>"
    using range by (simp add: limits_payload_def intValue_itoa)
  have b: "cq_body r = body" using sent(1) by (simp add: posted_def)
  have l: "client_loop env (cc_id c) ''limits'' [cq_body r] cs = Inr (map (\<lambda>x. if x = c then ?f c else x) cs, True)"
    using client_loop_limits[OF _ sent(2)[unfolded q], of cs "cc_id c"] cok cs(2) range unique_client(1)[OF cok cs(2), of ?f]
    by (auto simp: clients_ok_def limits_ok_def set_limits_def b)
  obtain d' where e: "clientAction env a r d = (d', console_json 200 JOk)" "clients_of env a d' = Inr (map (\<lambda>x. if x = c then ?f c else x) cs)"
    by (rule clientAction_store[OF cs(1) ok files _ _ l]) (use r(3) in simp_all)
  have "consoleHandler env a now raw1 raw2 r d = Some (d', securityHeaders (console_json 200 JOk))"
    by (rule handled_action[OF _ _ admin e(1)]) (use r(1,2) in simp_all)
  moreover have "?f c = c" if "rate = cc_rate c \<and> signs = cc_auto_signs c \<and> errs = cc_auto_errors c \<and> revoke = cc_auto_revoke c"
    using that by simp
  ultimately show ?thesis using e(2) by (auto simp: securityHeaders_def console_json_def intro!: map_idI)
qed

theorem dashboard_limits_stored_witness:
  "\<exists>d' resp. consoleHandler sample_env sample_app ''now'' [] [] (sample_request ''POST'' ''/api/clients/edge/limits'' ''b'' (Some sample_cookie))
       (sample_files [new_client ''edge'' ''tok''] []) = Some (d', resp) \<and> co_status resp = 200
     \<and> clients_of sample_env sample_app d' = Inr [(new_client ''edge'' ''tok'')\<lparr>cc_rate := 1, cc_auto_signs := 1, cc_auto_errors := 1, cc_auto_revoke := True\<rparr>]"
proof -
  let ?d = "sample_files [new_client ''edge'' ''tok''] []" and ?c = "new_client ''edge'' ''tok''"
  have c: "cc_id ?c = ''edge''" by (simp add: new_client_def)
  have cs: "clients_of sample_env sample_app ?d = Inr [?c]" "?c \<in> set [?c]" by simp_all
  have dec: "cn_decodeLimits sample_env (take (16 * 1024) ''b'') = Inr (limits_payload (itoa 1) (itoa 1) (itoa 1) True)"
    by (simp add: sample_env_def limits_payload_def intValue_itoa)
  have range: "\<forall>n\<in>{1, 1, 1}. 0 \<le> n \<and> n \<le> (1000000 :: int)" by simp
  from dashboard_limits_stored[OF sample_edge_files(1) cs _ _ dec range sample_edge_files(2,3), unfolded c, OF _ sample_posted(2)]
  show ?thesis by fastforce
qed

end
