(* ===== verification/RevocationRace.thy ===== *)
theory RevocationRace
  imports Fleet
begin

text \<open>
  The revocation file is written by two processes: the signer appends the clients it revokes by itself
  (\<open>appendRevokedLocked\<close>), the console appends and rewrites (\<open>appendRevoked\<close>, \<open>removeRevoked\<close>). Each has a mutex
  of its own and none is shared, so the signer can write between the console's reading and its writing.
\<close>

section \<open>The two writers\<close>

text \<open>What an action of the console that has read the file is about to write.\<close>

datatype pending_write = AppendLine string | Rewrite string

type_synonym race = "auth_world \<times> pending_write option"

text \<open>
  The signer revokes a client; an action of the console reads the file, to revoke a client or to lift a revocation,
  under the console's mutex; and it writes.
\<close>

datatype race_event = SignerRevokes string | ConsoleReads bool string | ConsoleWrites

definition console_reads :: "bool \<Rightarrow> string \<Rightarrow> fs \<Rightarrow> string \<Rightarrow> pending_write option" where
  "console_reads revoke cid d path =
     (case readRevoked d path of
        Inl e \<Rightarrow> None
      | Inr current \<Rightarrow>
          if revoke then (if cid \<in> set current then None else Some (AppendLine cid))
          else Some (Rewrite (join [newline] (filter (\<lambda>item. item \<noteq> cid) current) @ [newline])))"

definition console_writes :: "console_env \<Rightarrow> fs \<Rightarrow> string \<Rightarrow> pending_write \<Rightarrow> fs" where
  "console_writes env d path wr =
     (case (case wr of
              AppendLine cid \<Rightarrow>
                (case cn_mkdir env path of Some e \<Rightarrow> Inl e | None \<Rightarrow> appendFile d path (cid @ [newline]))
            | Rewrite text \<Rightarrow> writeFile d path text) of
        Inl e \<Rightarrow> d | Inr d' \<Rightarrow> d')"

fun race_step :: "console_env \<Rightarrow> string \<Rightarrow> race_event \<Rightarrow> race \<Rightarrow> race" where
  "race_step env path (SignerRevokes cid) (w, p) = (appendRevokedLocked cid w, p)"
| "race_step env path (ConsoleReads revoke cid) ((m, d), None) = ((m, d), console_reads revoke cid d path)"
| "race_step env path (ConsoleReads revoke cid) (w, Some wr) = (w, Some wr)"
| "race_step env path ConsoleWrites ((m, d), None) = ((m, d), None)"
| "race_step env path ConsoleWrites ((m, d), Some wr) = ((m, console_writes env d path wr), None)"

text \<open>Undisturbed, reading and writing are the console's operations.\<close>

lemma undisturbed_append:
  "fold (race_step env path) [ConsoleReads True cid, ConsoleWrites] ((m, d), None)
     = ((m, case appendRevoked env d path cid of Inl _ \<Rightarrow> d | Inr d' \<Rightarrow> d'), None)"
  by (auto simp: console_reads_def console_writes_def appendRevoked_def split: sum.splits option.splits)

lemma undisturbed_remove:
  "fold (race_step env path) [ConsoleReads False cid, ConsoleWrites] ((m, d), None)
     = ((m, case removeRevoked d path cid of Inl _ \<Rightarrow> d | Inr d' \<Rightarrow> d'), None)"
  by (auto simp: console_reads_def console_writes_def removeRevoked_def split: sum.splits)

section \<open>Appending does not conflict\<close>

lemma append_line_effect:
  assumes "revfile_ok env p d" and "plain_id cid"
  obtains d' where "appendFile d p (cid @ [newline]) = Inr d'" "revfile_ok env p d'"
    "revfile_ids p d' = insert cid (revfile_ids p d)"
proof -
  obtain d' where w: "writeFile d p (file_text d p @ cid @ [newline]) = Inr d'"
    using assms(1) writeFile_ok[of d p "file_text d p @ cid @ [newline]"] by (auto simp: revfile_ok_def)
  have sc: "scan_lines (file_text d p @ cid @ [newline]) = (fst (scan_lines (file_text d p)) @ [cid], True)"
    using assms by (intro scan_lines_append) (simp_all add: revfile_ok_def)
  show thesis
  proof (rule that)
    show "appendFile d p (cid @ [newline]) = Inr d'" by (simp add: appendFile_def w)
    show "revfile_ok env p d'"
      using assms(1) writeFile_same_errors[OF w] sc by (simp add: revfile_ok_def file_text_writeFile[OF w])
    show "revfile_ids p d' = insert cid (revfile_ids p d)"
      by (simp add: revfile_ids_def file_text_writeFile[OF w] sc revoked_ids_append revoked_ids_single[OF assms(2)])
  qed
qed

lemma signer_append_effect:
  assumes "revfile_ok env p d" and "plain_id cid" and "am_revokedPath m = p" and "p \<noteq> []"
    and "appendRevokedLocked cid (m, d) = (m', d')"
  shows "revfile_ok env p d'" "am_revokedPath m' = p" "am_revoked m' = insert cid (am_revoked m)"
    "revfile_ids p d' = (if cid \<in> am_revoked m then revfile_ids p d else insert cid (revfile_ids p d))"
    "am_clients m' = am_clients m \<and> am_clientsMode m' = am_clientsMode m"
proof -
  obtain d1 where "appendFile d p (cid @ [newline]) = Inr d1" "revfile_ok env p d1"
    "revfile_ids p d1 = insert cid (revfile_ids p d)" by (rule append_line_effect[OF assms(1,2)])
  then show "revfile_ok env p d'" "am_revokedPath m' = p" "am_revoked m' = insert cid (am_revoked m)"
    "revfile_ids p d' = (if cid \<in> am_revoked m then revfile_ids p d else insert cid (revfile_ids p d))"
    "am_clients m' = am_clients m \<and> am_clientsMode m' = am_clientsMode m"
    using assms by (auto simp: appendRevokedLocked_def append_ignoring_errors_def Let_def insert_absorb split: if_splits)
qed

text \<open>
  The invariant of runs in which no revocation is lifted: the file can be read and written, whatever the signer
  holds as revoked is in the file, and only an append can be pending.
\<close>

definition race_inv :: "console_env \<Rightarrow> string \<Rightarrow> string set \<Rightarrow> race \<Rightarrow> bool" where
  "race_inv env p ids s \<longleftrightarrow>
     (case s of ((m, d), pend) \<Rightarrow>
        revfile_ok env p d \<and> am_revokedPath m = p \<and> ids \<union> am_revoked m \<subseteq> revfile_ids p d
        \<and> (\<forall>wr. pend = Some wr \<longrightarrow> (\<exists>cid. wr = AppendLine cid \<and> plain_id cid)))"

text \<open>The ids an event revokes; no event lifts a revocation.\<close>

definition revoking :: "race_event \<Rightarrow> bool" where
  "revoking e \<longleftrightarrow>
     (case e of SignerRevokes cid \<Rightarrow> plain_id cid | ConsoleReads revoke cid \<Rightarrow> revoke \<and> plain_id cid | ConsoleWrites \<Rightarrow> True)"

lemma race_step_inv:
  assumes "race_inv env p ids s" and "revoking e" and "p \<noteq> []"
  shows "race_inv env p ids (race_step env p e s)"
proof -
  obtain m d pend where s: "s = ((m, d), pend)" by (metis prod.exhaust)
  have ok: "revfile_ok env p d" "am_revokedPath m = p" "ids \<union> am_revoked m \<subseteq> revfile_ids p d"
    and pe: "\<And>wr. pend = Some wr \<Longrightarrow> \<exists>cid. wr = AppendLine cid \<and> plain_id cid"
    using assms(1) by (simp_all add: race_inv_def s)
  show ?thesis
  proof (cases e)
    case (SignerRevokes cid)
    obtain m' d' where a: "appendRevokedLocked cid (m, d) = (m', d')" by (metis surj_pair)
    note f = signer_append_effect[OF ok(1) _ ok(2) assms(3) a]
    show ?thesis using SignerRevokes assms(2) f ok(3) pe by (auto simp: race_inv_def s a revoking_def)
  next
    case (ConsoleReads revoke cid)
    then show ?thesis using assms ok pe
      by (cases pend) (auto simp: race_inv_def s revoking_def console_reads_def split: sum.splits if_splits)
  next
    case ConsoleWrites
    show ?thesis
    proof (cases pend)
      case None
      then show ?thesis using ConsoleWrites assms(1) by (simp add: s)
    next
      case (Some wr)
      then obtain cid where wr: "wr = AppendLine cid" "plain_id cid" using pe by blast
      obtain d' where "appendFile d p (cid @ [newline]) = Inr d'" "revfile_ok env p d'"
        "revfile_ids p d' = insert cid (revfile_ids p d)" by (rule append_line_effect[OF ok(1) wr(2)])
      then show ?thesis using ConsoleWrites Some wr ok
        by (auto simp: race_inv_def s console_writes_def revfile_ok_def)
    qed
  qed
qed

lemma race_run_inv:
  "race_inv env p ids s \<Longrightarrow> \<forall>e\<in>set es. revoking e \<Longrightarrow> p \<noteq> [] \<Longrightarrow> race_inv env p ids (fold (race_step env p) es s)"
  by (induction es arbitrary: s) (simp_all add: race_step_inv)

text \<open>
  C30. Revocations by the signer and by the console do not conflict: from a revocation file that can be read and
  written, whose last line is ended (or that is empty or missing) and that holds every client the signer holds as
  revoked, and for ids a line of it can hold, however the signer's appends interleave with the console's reading and
  appending, no id that was in the file is lost, the file stays of this kind, and every client the running signer holds
  as revoked is in it, so it stays revoked after a restart.
\<close>

theorem interleaved_revocations_kept:
  assumes "revfile_ok env p d" and "p \<noteq> []" and "am_revokedPath m = p" and "am_revoked m \<subseteq> revfile_ids p d"
    and "\<forall>e\<in>set es. revoking e" and "fold (race_step env p) es ((m, d), None) = ((m', d'), pend)"
  shows "revfile_ok env p d' \<and> revfile_ids p d \<subseteq> revfile_ids p d' \<and> am_revoked m' \<subseteq> revfile_ids p d'"
proof -
  have "race_inv env p (revfile_ids p d) ((m, d), None)" using assms(1,3,4) by (simp add: race_inv_def)
  from race_run_inv[OF this assms(5,2)] assms(6) show ?thesis by (simp add: race_inv_def)
qed

theorem interleaved_revocations_kept_witness:
  "\<exists>m' d' pend. fold (race_step sample_env ''revoked'') [ConsoleReads True ''edge'', SignerRevokes ''edge'', ConsoleWrites]
       ((file_manager sample_app [] (sample_files [] []), sample_files [] []), None) = ((m', d'), pend)
     \<and> revfile_ok sample_env ''revoked'' d' \<and> am_revoked m' \<subseteq> revfile_ids ''revoked'' d' \<and> ''edge'' \<in> am_revoked m'"
proof -
  let ?m = "file_manager sample_app [] (sample_files [] [])" and ?d = "sample_files [] []"
  let ?es = "[ConsoleReads True ''edge'', SignerRevokes ''edge'', ConsoleWrites]"
  obtain m' d' pend where r: "fold (race_step sample_env ''revoked'') ?es ((?m, ?d), None) = ((m', d'), pend)"
    by (metis prod.exhaust)
  have m: "am_revokedPath ?m = ''revoked''" "am_revoked ?m = {}"
    by (simp_all add: file_manager_def sample_app_def sample_revfile)
  have e: "\<forall>e\<in>set ?es. revoking e" using plain_edge by (simp add: revoking_def)
  have "''edge'' \<in> am_revoked m'"
    using r m by (auto simp: console_reads_def console_writes_def appendRevokedLocked_def Let_def split: sum.splits option.splits if_splits)
  then show ?thesis
    using interleaved_revocations_kept[OF sample_revfile(1) _ m(1) _ e r] m(2) r by auto
qed

section \<open>Lifting a revocation does\<close>

text \<open>A client of the client file that the signer would accept but for the revocation file.\<close>

definition acceptable :: "(string, clientState) gomap \<Rightarrow> string \<Rightarrow> string \<Rightarrow> bool" where
  "acceptable ms cid token \<longleftrightarrow>
     (\<exists>st. mget ms cid = Some st \<and> cc_token (st_cfg st) = token \<and> \<not> cc_disabled (st_cfg st) \<and> \<not> st_autoDisabled st
        \<and> (\<forall>(c', st')\<in>set ms. cc_token (st_cfg st') = token \<longrightarrow> c' = cid \<and> st' = st))"

lemma restarted_signer_accepts:
  assumes "clients_of env a d = Inr cs" and "add_clients cs [] = Inr ms" and "revfile_ok env (ap_revokedPath a) d"
    and "ap_clientsPath a \<noteq> []" "ap_revokedPath a \<noteq> []" and acc: "acceptable ms cid token"
    and new: "cid \<notin> revfile_ids (ap_revokedPath a) d"
  shows "\<exists>m. newAuthManager (cn_decodeClients env) d (file_opts a) = Inr m \<and> authenticate m token = (cid, True, [])"
proof -
  let ?ids = "revfile_ids (ap_revokedPath a) d"
  obtain st where st: "mget ms cid = Some st" "cc_token (st_cfg st) = token" "\<not> cc_disabled (st_cfg st)" "\<not> st_autoDisabled st"
    and only: "\<forall>(c', st')\<in>set ms. cc_token (st_cfg st') = token \<longrightarrow> c' = cid \<and> st' = st"
    using acc by (auto simp: acceptable_def)
  have mem: "(cid, st) \<in> set ms" using st(1) by (rule map_of_SomeD)
  have "find_client token ?ids ms = (cid, True, [])"
    using find_client_cases[of token ?ids ms]
  proof
    assume "find_client token ?ids ms = ([], False, ''bad token'') \<and> (\<forall>(c, st)\<in>set ms. cc_token (st_cfg st) \<noteq> token)"
    then have "cc_token (st_cfg st) \<noteq> token" using mem by blast
    then show ?thesis using st(2) by simp
  next
    assume "\<exists>c st'. (c, st') \<in> set ms \<and> cc_token (st_cfg st') = token
      \<and> find_client token ?ids ms = client_verdict ?ids c st'"
    then obtain c st' where c: "(c, st') \<in> set ms" "cc_token (st_cfg st') = token"
      "find_client token ?ids ms = client_verdict ?ids c st'" by blast
    have "c = cid \<and> st' = st" using only c(1,2) by fast
    then show ?thesis using c(3) st(3,4) new by (simp add: client_verdict_def)
  qed
  then have "authenticate (file_manager a ms d) token = (cid, True, [])" by (simp add: authenticate_def file_manager_def)
  then show ?thesis using newAuthManager_files[OF assms(1-5)] by blast
qed

text \<open>
  C31. A revocation can be lost: when the console lifts the revocation of one client and the signer revokes another
  one between the console's reading and writing, the console writes back what it read. The signer still holds the
  client as revoked, but the file does not, and a signer started from the file accepts the client's token again.
\<close>

theorem unrevoke_race_loses_revocation:
  assumes ok: "revfile_ok env (ap_revokedPath a) d" and i: "plain_id cid"
    and path: "am_revokedPath m = ap_revokedPath a" "ap_revokedPath a \<noteq> []"
    and new: "cid \<notin> am_revoked m" "cid \<notin> revfile_ids (ap_revokedPath a) d"
    and cl: "clients_of env a d = Inr cs" "add_clients cs [] = Inr ms" "ap_clientsPath a \<noteq> []"
      "ap_clientsPath a \<noteq> ap_revokedPath a"
    and tok: "acceptable ms cid token"
    and run: "fold (race_step env (ap_revokedPath a)) [ConsoleReads False other, SignerRevokes cid, ConsoleWrites] ((m, d), None)
      = ((m', d'), pend)"
  shows "cid \<in> am_revoked m' \<and> revfile_ids (ap_revokedPath a) d' = revfile_ids (ap_revokedPath a) d - {other}
    \<and> (\<exists>m2. newAuthManager (cn_decodeClients env) d' (file_opts a) = Inr m2 \<and> authenticate m2 token = (cid, True, []))"
proof -
  let ?p = "ap_revokedPath a"
  let ?ids = "revoked_ids (fst (scan_lines (file_text d ?p)))"
  let ?text = "join [newline] (filter (\<lambda>item. item \<noteq> other) ?ids) @ [newline]"
  have rd: "console_reads False other d ?p = Some (Rewrite ?text)"
    using readRevoked_text[of d ?p] ok by (simp add: console_reads_def revfile_ok_def)
  obtain m1 d1 where s: "appendRevokedLocked cid (m, d) = (m1, d1)" by (metis surj_pair)
  note f = signer_append_effect[OF ok i path s]
  obtain d2 where w: "writeFile d1 ?p ?text = Inr d2"
    using f(1) writeFile_ok[of d1 ?p ?text] by (auto simp: revfile_ok_def)
  have "fold (race_step env ?p) [ConsoleReads False other, SignerRevokes cid, ConsoleWrites] ((m, d), None) = ((m1, d2), None)"
    by (simp only: fold_simps race_step.simps comp_def rd s) (simp add: console_writes_def w)
  then have res: "m' = m1" "d' = d2" using run by simp_all
  have "\<forall>j\<in>set (filter (\<lambda>item. item \<noteq> other) ?ids). plain_id j" using revoked_ids_plain by auto
  note sc = scan_joined[OF this]
  have ids: "revfile_ids ?p d2 = revfile_ids ?p d - {other}"
    using sc by (auto simp: revfile_ids_def file_text_writeFile[OF w])
  have ok2: "revfile_ok env ?p d2"
    using f(1) writeFile_same_errors[OF w] sc by (simp add: revfile_ok_def file_text_writeFile[OF w] ends_line_def)
  obtain d0 where "appendFile d ?p (cid @ [newline]) = Inr d0" by (rule append_line_effect[OF ok i])
  then have "writeFile d ?p (file_text d ?p @ cid @ [newline]) = Inr d1"
    using s path new(1) by (auto simp: appendRevokedLocked_def append_ignoring_errors_def appendFile_def Let_def)
  from other_files(1)[OF this cl(4)] have "clients_of env a d1 = clients_of env a d" .
  then have "clients_of env a d2 = Inr cs" using cl(1) other_files(1)[OF w cl(4)] by simp
  from restarted_signer_accepts[OF this cl(2) ok2 cl(3) path(2) tok] ids new(2)
  have "\<exists>m2. newAuthManager (cn_decodeClients env) d2 (file_opts a) = Inr m2 \<and> authenticate m2 token = (cid, True, [])" by blast
  then show ?thesis unfolding res f(3) ids by blast
qed

theorem unrevoke_race_loses_revocation_witness:
  "\<exists>m' d' pend. fold (race_step sample_env ''revoked'') [ConsoleReads False ''other'', SignerRevokes ''edge'', ConsoleWrites]
       ((file_manager sample_app [] (sample_files [new_client ''edge'' ''tok''] []), sample_files [new_client ''edge'' ''tok''] []),
        None) = ((m', d'), pend)
     \<and> ''edge'' \<in> am_revoked m'
     \<and> (\<exists>m2. newAuthManager (cn_decodeClients sample_env) d' (file_opts sample_app) = Inr m2
          \<and> authenticate m2 ''tok'' = (''edge'', True, []))"
proof -
  let ?d = "sample_files [new_client ''edge'' ''tok''] []"
  let ?m = "file_manager sample_app [] ?d" and ?st = "fresh_state (new_client ''edge'' ''tok'')"
  let ?es = "[ConsoleReads False ''other'', SignerRevokes ''edge'', ConsoleWrites]"
  obtain m' d' pend where r: "fold (race_step sample_env ''revoked'') ?es ((?m, ?d), None) = ((m', d'), pend)"
    by (metis prod.exhaust)
  have p: "ap_revokedPath sample_app = ''revoked''" "ap_clientsPath sample_app = ''clients''" by (simp_all add: sample_app_def)
  have "trimSpace ''edge'' = ''edge''" by (simp add: no_edge_space_ascii ascii_space_def)
  then have add: "add_clients [new_client ''edge'' ''tok''] [] = Inr [(''edge'', ?st)]" by (simp add: new_client_def)
  have "''edge'' \<in> am_revoked m' \<and> revfile_ids (ap_revokedPath sample_app) d' = revfile_ids (ap_revokedPath sample_app) ?d - {''other''}
    \<and> (\<exists>m2. newAuthManager (cn_decodeClients sample_env) d' (file_opts sample_app) = Inr m2
          \<and> authenticate m2 ''tok'' = (''edge'', True, []))"
    by (rule unrevoke_race_loses_revocation[where cs = "[new_client ''edge'' ''tok'']" and ms = "[(''edge'', ?st)]"
          and m = ?m and d = ?d and other = "''other''" and pend = pend])
       (use add r in \<open>simp_all add: p sample_revfile plain_edge file_manager_def fresh_state_def new_client_def acceptable_def\<close>)
  with r show ?thesis by blast
qed

section \<open>A crash while the file is written\<close>

text \<open>
  \<open>os.WriteFile\<close> empties the file and then writes: a crash in between, or a full disk, leaves a beginning of the text.
\<close>

definition torn_write :: "fs \<Rightarrow> string \<Rightarrow> string \<Rightarrow> nat \<Rightarrow> fs" where
  "torn_write d path s n = d\<lparr>fs_files := (fs_files d)(path \<mapsto> take n s)\<rparr>"

text \<open>
  A crash while the console lifts the revocation of one client can lift all of them: the revocation file is
  rewritten in place, and if the console stops after emptying it, every client that was revoked is accepted again
  by a signer started from the files.
\<close>

theorem torn_unrevoke_readmits_all:
  assumes ok: "revfile_ok env (ap_revokedPath a) d"
    and cl: "clients_of env a d = Inr cs" "add_clients cs [] = Inr ms" "ap_clientsPath a \<noteq> []" "ap_revokedPath a \<noteq> []"
      "ap_clientsPath a \<noteq> ap_revokedPath a"
    and pend: "console_reads False other d (ap_revokedPath a) = Some (Rewrite text)"
  shows "\<exists>n d'. d' = torn_write d (ap_revokedPath a) text n \<and> revfile_ids (ap_revokedPath a) d' = {}
    \<and> (\<exists>m. newAuthManager (cn_decodeClients env) d' (file_opts a) = Inr m
        \<and> (\<forall>cid token. acceptable ms cid token \<longrightarrow> authenticate m token = (cid, True, [])))"
proof -
  let ?p = "ap_revokedPath a" and ?d = "torn_write d (ap_revokedPath a) text 0"
  have e: "file_text ?d ?p = []" by (simp add: torn_write_def file_text_def)
  have "scan_lines [] = ([], True)" by (simp add: scan_lines_def raw_lines_def)
  then have ids: "revfile_ids ?p ?d = {}" by (simp add: revfile_ids_def e revoked_ids_def List.map_filter_simps)
  have ok': "revfile_ok env ?p ?d"
    using ok e \<open>scan_lines [] = ([], True)\<close> by (simp add: revfile_ok_def torn_write_def ends_line_def)
  have "clients_of env a ?d = clients_of env a d"
    using cl(5) by (cases "fs_read_error d (ap_clientsPath a)") (simp_all add: readClientFile_def readFile_def torn_write_def)
  then have cs: "clients_of env a ?d = Inr cs" using cl(1) by simp
  note mgr = newAuthManager_files[OF cs cl(2) ok' cl(3,4)]
  have "authenticate (file_manager a ms ?d) token = (cid, True, [])" if "acceptable ms cid token" for cid token
    using restarted_signer_accepts[OF cs cl(2) ok' cl(3,4) that] ids mgr by auto
  then show ?thesis using ids mgr by (intro exI[of _ 0] exI[of _ ?d]) blast
qed

theorem torn_unrevoke_readmits_all_witness:
  "\<exists>n d'. d' = torn_write (sample_files [new_client ''edge'' ''tok''] []) ''revoked'' [newline] n
     \<and> revfile_ids (ap_revokedPath sample_app) d' = {}
     \<and> (\<exists>m. newAuthManager (cn_decodeClients sample_env) d' (file_opts sample_app) = Inr m
          \<and> authenticate m ''tok'' = (''edge'', True, []))"
proof -
  let ?d = "sample_files [new_client ''edge'' ''tok''] []"
  let ?st = "fresh_state (new_client ''edge'' ''tok'')"
  have p: "ap_revokedPath sample_app = ''revoked''" "ap_clientsPath sample_app = ''clients''" by (simp_all add: sample_app_def)
  have "trimSpace ''edge'' = ''edge''" by (simp add: no_edge_space_ascii ascii_space_def)
  then have add: "add_clients [new_client ''edge'' ''tok''] [] = Inr [(''edge'', ?st)]" by (simp add: new_client_def)
  have acc: "acceptable [(''edge'', ?st)] ''edge'' ''tok''" by (simp add: acceptable_def fresh_state_def new_client_def)
  have "\<exists>n d'. d' = torn_write ?d (ap_revokedPath sample_app) [newline] n \<and> revfile_ids (ap_revokedPath sample_app) d' = {}
    \<and> (\<exists>m. newAuthManager (cn_decodeClients sample_env) d' (file_opts sample_app) = Inr m
        \<and> (\<forall>cid token. acceptable [(''edge'', ?st)] cid token \<longrightarrow> authenticate m token = (cid, True, [])))"
  proof (rule torn_unrevoke_readmits_all[OF _ _ add])
    have "readRevoked ?d ''revoked'' = Inr []"
      using readRevoked_text[of ?d "''revoked''"] sample_revfile(1)[of "[new_client ''edge'' ''tok'']" "[]"]
        sample_revfile(2)[of "[new_client ''edge'' ''tok'']" "[]"] by (simp add: revfile_ok_def revfile_ids_def)
    then show "console_reads False ''other'' ?d (ap_revokedPath sample_app) = Some (Rewrite [newline])"
      by (simp add: console_reads_def p)
  qed (simp_all add: p sample_revfile)
  then show ?thesis using acc unfolding p by blast
qed

end
