(* ===== verification/EdgeListeners.thy ===== *)
theory EdgeListeners
  imports EdgeMain
begin

text \<open>
  The sockets of the edge (the end of \<open>main\<close>, \<open>buildHTTP3Server\<close>, \<open>httpPluginTransport\<close> and \<open>h2cTransport\<close> of
  \<open>cmd/edgeproxy/main.go\<close>): the settings of its servers and transports, and how it reacts when a server ends.
  Durations are in nanoseconds.
\<close>

section \<open>Settings\<close>

abbreviation seconds :: "int \<Rightarrow> int" where "seconds n \<equiv> n * 1000000000"

record http3_server =
  h3_addr :: string
  h3_maxHeaderBytes :: int
  h3_idleTimeout :: int
  h3_handshakeIdleTimeout :: int
  h3_maxIdleTimeout :: int
  h3_keepAlivePeriod :: int
  h3_maxIncomingStreams :: int
  h3_maxIncomingUniStreams :: int
  h3_streamWindows :: "int \<times> int"
  h3_connectionWindows :: "int \<times> int"

text \<open>The windows are the initial and the largest size.\<close>

definition buildHTTP3Server :: "string \<Rightarrow> http3_server" where
  "buildHTTP3Server addr =
     \<lparr>h3_addr = addr, h3_maxHeaderBytes = 2 ^ 20, h3_idleTimeout = seconds 120, h3_handshakeIdleTimeout = seconds 10,
      h3_maxIdleTimeout = seconds 120, h3_keepAlivePeriod = seconds 30, h3_maxIncomingStreams = 2048,
      h3_maxIncomingUniStreams = 512, h3_streamWindows = (1 * 1024 * 1024, 6 * 1024 * 1024),
      h3_connectionWindows = (16 * 1024 * 1024, 32 * 1024 * 1024)\<rparr>"

record http_server =
  hs_addr :: string
  hs_minVersion :: nat
  hs_protocols :: "string list"
  hs_readHeaderTimeout :: int

text \<open>\<open>0x0303\<close> is the number of TLS 1.2; the certificates come from \<open>buildCertificateSelector\<close>.\<close>

definition edge_servers :: "string list \<Rightarrow> (http_server \<times> http3_server) list" where
  "edge_servers listens =
     map (\<lambda>addr. (\<lparr>hs_addr = addr, hs_minVersion = 0x0303, hs_protocols = [''h2'', ''http/1.1''], hs_readHeaderTimeout = seconds 10\<rparr>,
                  buildHTTP3Server addr)) listens"

text \<open>The transports of plugin routes; a nil dial function means the default dialer, which dials directly.\<close>

record http_transport =
  ht_envProxy :: bool
  ht_dial :: dialer
  ht_maxIdleConns :: int
  ht_maxIdleConnsPerHost :: int
  ht_maxConnsPerHost :: int
  ht_idleConnTimeout :: int
  ht_tlsHandshakeTimeout :: int
  ht_expectContinueTimeout :: int
  ht_responseHeaderTimeout :: int
  ht_bufferSizes :: "int \<times> int"

definition httpPluginTransport :: "dialer option \<Rightarrow> http_transport" where
  "httpPluginTransport dialContext =
     \<lparr>ht_envProxy = True, ht_dial = (case dialContext of None \<Rightarrow> DirectDial | Some dial \<Rightarrow> dial),
      ht_maxIdleConns = 2048, ht_maxIdleConnsPerHost = 2048, ht_maxConnsPerHost = 0, ht_idleConnTimeout = seconds 120,
      ht_tlsHandshakeTimeout = seconds 10, ht_expectContinueTimeout = seconds 1, ht_responseHeaderTimeout = 0,
      ht_bufferSizes = (64 * 1024, 64 * 1024)\<rparr>"

record http2_transport =
  h2_allowHTTP :: bool
  h2_dial :: dialer
  h2_readIdleTimeout :: int
  h2_pingTimeout :: int
  h2_writeByteTimeout :: int

definition h2cTransport :: "dialer option \<Rightarrow> http2_transport" where
  "h2cTransport dialContext =
     \<lparr>h2_allowHTTP = True, h2_dial = (case dialContext of None \<Rightarrow> DirectDial | Some dial \<Rightarrow> dial),
      h2_readIdleTimeout = seconds 30, h2_pingTimeout = seconds 10, h2_writeByteTimeout = seconds 30\<rparr>"

section \<open>Serving and ending\<close>

text \<open>
  Each address has two goroutines. One serves TCP and sends the error it ends with to a channel with room for one
  error per address; the other serves QUIC and logs its error. \<open>main\<close> waits for the first error in the channel and
  exits with it. The state: which servers still run, the channel, the log, and the error of the exit.
\<close>

record listeners =
  ln_tcp :: "(string \<times> bool) list"
  ln_quic :: "(string \<times> bool) list"
  ln_channel :: "error list"
  ln_log :: "string list"
  ln_exit :: "error option"

definition start_listeners :: "string list \<Rightarrow> listeners" where
  "start_listeners listens =
     \<lparr>ln_tcp = map (\<lambda>(s, _). (hs_addr s, True)) (edge_servers listens),
      ln_quic = map (\<lambda>(_, q). (h3_addr q, True)) (edge_servers listens),
      ln_channel = [], ln_log = [], ln_exit = None\<rparr>"

text \<open>The error of a closed QUIC server is \<open>None\<close>: nothing is logged then.\<close>

datatype listen_event = TCPEnds nat error | QUICEnds nat "error option" | MainReceives

definition running :: "(string \<times> bool) list \<Rightarrow> nat \<Rightarrow> bool" where
  "running ls i \<longleftrightarrow> i < length ls \<and> snd (ls ! i)"

fun listen_step :: "listen_event \<Rightarrow> listeners \<Rightarrow> listeners" where
  "listen_step (TCPEnds i e) s =
     (if ln_exit s = None \<and> running (ln_tcp s) i
      then s\<lparr>ln_tcp := (ln_tcp s)[i := (fst (ln_tcp s ! i), False)], ln_channel := ln_channel s @ [e]\<rparr> else s)"
| "listen_step (QUICEnds i err) s =
     (if ln_exit s = None \<and> running (ln_quic s) i
      then s\<lparr>ln_quic := (ln_quic s)[i := (fst (ln_quic s ! i), False)],
             ln_log := ln_log s @ (case err of None \<Rightarrow> []
               | Some e \<Rightarrow> [''warning: http3 listen '' @ fst (ln_quic s ! i) @ '': '' @ e])\<rparr> else s)"
| "listen_step MainReceives s =
     (if ln_exit s = None
      then (case ln_channel s of [] \<Rightarrow> s | e # es \<Rightarrow> s\<lparr>ln_channel := es, ln_exit := Some e\<rparr>) else s)"

text \<open>While the edge has not exited, the channel holds one error for each TCP server that has ended.\<close>

definition ended :: "(string \<times> bool) list \<Rightarrow> nat" where
  "ended ls = length (filter (\<lambda>l. \<not> snd l) ls)"

definition listen_inv :: "string list \<Rightarrow> listen_event set \<Rightarrow> listeners \<Rightarrow> bool" where
  "listen_inv listens E s \<longleftrightarrow>
     map fst (ln_tcp s) = listens \<and> length (ln_channel s) \<le> ended (ln_tcp s)
     \<and> (ln_exit s = None \<longrightarrow> length (ln_channel s) = ended (ln_tcp s))
     \<and> (\<forall>e\<in>set (ln_channel s) \<union> set_option (ln_exit s). \<exists>i<length listens. TCPEnds i e \<in> E)"

lemma ended_update: "running ls i \<Longrightarrow> ended (ls[i := (a, False)]) = Suc (ended ls)"
  unfolding running_def ended_def
  by (induction ls arbitrary: i) (auto split: nat.splits)

lemma map_fst_update: "i < length ls \<Longrightarrow> map fst (ls[i := (fst (ls ! i), b)]) = map fst ls"
  by (simp add: map_update list_update_same_conv)

lemma listen_step_inv:
  assumes "listen_inv listens E s" and "e \<in> E"
  shows "listen_inv listens E (listen_step e s)"
proof (cases e)
  case (TCPEnds i err)
  then show ?thesis using assms ended_update[of "ln_tcp s" i]
    by (auto simp: listen_inv_def running_def map_fst_update)
qed (use assms in \<open>auto simp: listen_inv_def split: list.splits\<close>)

lemma listen_run_inv: "listen_inv listens E s \<Longrightarrow> set es \<subseteq> E \<Longrightarrow> listen_inv listens E (fold listen_step es s)"
  by (induction es arbitrary: s) (simp_all add: listen_step_inv)

lemma start_listen_inv: "listen_inv listens E (start_listeners listens)"
  by (simp add: listen_inv_def start_listeners_def edge_servers_def ended_def comp_def)

lemma ended_le: "ended ls \<le> length ls"
  by (simp add: ended_def)

lemma ended_running: "ended ls = 0 \<Longrightarrow> i < length ls \<Longrightarrow> running ls i"
  by (auto simp: ended_def running_def filter_empty_conv)

text \<open>
  The edge exits exactly over its TCP servers: it serves every configured address (\<open>:443\<close> if none is configured) as
  long as no TCP server has ended, whatever happens to HTTP/3; the error it exits with is one a TCP server ended with;
  once one has ended \<open>main\<close> has an error to exit with; and the channel never holds more errors than it has room
  for, so no server waits to report its own.
\<close>

theorem edge_exits_over_tcp:
  assumes "listens = splitListens value" and "s = fold listen_step es (start_listeners listens)"
  shows "map fst (ln_tcp s) = listens \<and> listens \<noteq> [] \<and> length (ln_channel s) \<le> length listens
    \<and> (ln_exit s = None \<and> (\<forall>e\<in>set es. \<forall>i err. e \<noteq> TCPEnds i err) \<longrightarrow> (\<forall>i<length listens. running (ln_tcp s) i))
    \<and> (\<forall>e. ln_exit s = Some e \<longrightarrow> (\<exists>i<length listens. TCPEnds i e \<in> set es))
    \<and> (ln_exit s = None \<and> ended (ln_tcp s) \<noteq> 0 \<longrightarrow> ln_exit (listen_step MainReceives s) = Some (hd (ln_channel s)))"
proof -
  have inv: "listen_inv listens (set es) s" using listen_run_inv[OF start_listen_inv] assms(2) by blast
  have m: "map fst (ln_tcp s) = listens" using inv by (simp add: listen_inv_def)
  then have len: "length (ln_tcp s) = length listens" using length_map[of fst "ln_tcp s"] by simp
  have "listens \<noteq> []" by (simp add: assms(1) splitListens_def Let_def)
  moreover have "length (ln_channel s) \<le> length listens" using inv ended_le[of "ln_tcp s"] len by (simp add: listen_inv_def)
  moreover have "ln_exit s = None \<and> (\<forall>e\<in>set es. \<forall>i err. e \<noteq> TCPEnds i err) \<longrightarrow> (\<forall>i<length listens. running (ln_tcp s) i)"
  proof (intro impI, elim conjE)
    assume x: "ln_exit s = None" and n: "\<forall>e\<in>set es. \<forall>i err. e \<noteq> TCPEnds i err"
    have "ln_channel s = []"
    proof (rule ccontr)
      assume "ln_channel s \<noteq> []"
      then have "\<exists>i<length listens. TCPEnds i (hd (ln_channel s)) \<in> set es" using inv hd_in_set by (simp add: listen_inv_def)
      then show False using n by blast
    qed
    then have "ended (ln_tcp s) = 0" using inv x by (simp add: listen_inv_def)
    then show "\<forall>i<length listens. running (ln_tcp s) i" using ended_running len by simp
  qed
  moreover have "ln_exit s = None \<and> ended (ln_tcp s) \<noteq> 0 \<longrightarrow> ln_exit (listen_step MainReceives s) = Some (hd (ln_channel s))"
  proof (intro impI, elim conjE)
    assume x: "ln_exit s = None" and n: "ended (ln_tcp s) \<noteq> 0"
    then have "ln_channel s \<noteq> []" using inv by (auto simp: listen_inv_def)
    then show "ln_exit (listen_step MainReceives s) = Some (hd (ln_channel s))" using x by (cases "ln_channel s") simp_all
  qed
  moreover have "\<forall>e. ln_exit s = Some e \<longrightarrow> (\<exists>i<length listens. TCPEnds i e \<in> set es)"
    using inv by (simp add: listen_inv_def)
  ultimately show ?thesis using m by blast
qed

theorem edge_exits_over_tcp_witness:
  "ln_exit (listen_step MainReceives (fold listen_step [QUICEnds 0 (Some ''no udp''), TCPEnds 1 ''in use'']
     (start_listeners (splitListens '':443,:8443'')))) = Some ''in use''"
proof -
  let ?s = "fold listen_step [QUICEnds 0 (Some ''no udp''), TCPEnds 1 ''in use''] (start_listeners (splitListens '':443,:8443''))"
  have sl: "splitListens '':443,:8443'' = ['':443'', '':8443'']" by code_simp
  have "ln_exit ?s = None \<and> ended (ln_tcp ?s) \<noteq> 0 \<and> hd (ln_channel ?s) = ''in use''"
    by (simp add: sl start_listeners_def edge_servers_def buildHTTP3Server_def running_def ended_def)
  then show ?thesis using edge_exits_over_tcp[OF HOL.refl HOL.refl, of "[QUICEnds 0 (Some ''no udp''), TCPEnds 1 ''in use'']" "'':443,:8443''"]
    by simp
qed

end
