(* ===== verification/CacheConcurrency.thy ===== *)
theory CacheConcurrency
  imports CacheTheorems "HOL-Library.Multiset"
begin

text \<open>
  The response cache under concurrent requests. The HTTP server handles every request in a goroutine of its own;
  \<open>get\<close> and the insertion of \<open>store\<close> hold the cache's mutex, and between them a request that missed waits for the
  backend. A run is any interleaving of lookups and of answers of the backend to requests in flight.
\<close>

section \<open>Interleaved requests\<close>

text \<open>
  The cache, the outgoing requests in flight, the exchanges with the backend so far, and the hits served so far
  (time, request and entry).
\<close>

record traffic =
  tr_cache :: responseCache
  tr_flight :: "edge_request multiset"
  tr_exchanges :: "exchange set"
  tr_hits :: "(int \<times> edge_request \<times> cacheEntry) set"

definition start_traffic :: "responseCache \<Rightarrow> traffic" where
  "start_traffic c = \<lparr>tr_cache = c, tr_flight = {#}, tr_exchanges = {}, tr_hits = {}\<rparr>"

text \<open>
  The steps: a lookup that hits, a lookup that misses and sends the request to the backend, a round trip that fails,
  and an answer of the backend, whatever it is, with \<open>ModifyResponse\<close> run on it.
\<close>

inductive traffic_step ::
  "(string \<Rightarrow> string) \<Rightarrow> backend_url \<Rightarrow> (header \<Rightarrow> header) \<Rightarrow> traffic \<Rightarrow> traffic \<Rightarrow> bool" for gzip url out where
  hit: "cache_get t r (tr_cache s) = (Some v, c) \<Longrightarrow>
    traffic_step gzip url out s (s\<lparr>tr_cache := c, tr_hits := insert (t, r, v) (tr_hits s)\<rparr>)"
| miss: "cache_get t r (tr_cache s) = (None, c) \<Longrightarrow>
    traffic_step gzip url out s (s\<lparr>tr_cache := c, tr_flight := add_mset (director url out r) (tr_flight s)\<rparr>)"
| failure: "q \<in># tr_flight s \<Longrightarrow> traffic_step gzip url out s (s\<lparr>tr_flight := tr_flight s - {#q#}\<rparr>)"
| answer: "q \<in># tr_flight s \<Longrightarrow> ModifyResponse gzip t (answer_response q a) (tr_cache s) = Some (err, resp, c) \<Longrightarrow>
    traffic_step gzip url out s
      (s\<lparr>tr_cache := c, tr_flight := tr_flight s - {#q#}, tr_exchanges := insert (t, q, a) (tr_exchanges s)\<rparr>)"

section \<open>The invariant\<close>

definition traffic_inv :: "responseCache \<Rightarrow> traffic \<Rightarrow> bool" where
  "traffic_inv c0 s \<longleftrightarrow>
     cache_inv (tr_cache s) \<and> same_config c0 (tr_cache s)
     \<and> (\<forall>e\<in>set (entries (tr_cache s)). \<exists>x\<in>tr_exchanges s. cached_from (rc_ttl c0) x e)
     \<and> (\<forall>(t, r, v)\<in>tr_hits s. sound_hit (rc_ttl c0) (tr_exchanges s) t r v)"

lemma sound_hit_mono: "sound_hit ttl H t r v \<Longrightarrow> H \<subseteq> H' \<Longrightarrow> sound_hit ttl H' t r v"
  unfolding sound_hit_def by blast

lemma traffic_step_inv:
  assumes "traffic_step gzip url out s s'" and "traffic_inv c0 s"
  shows "traffic_inv c0 s'"
  using assms
proof (induction rule: traffic_step.induct)
  case (hit t r s v c)
  then have inv: "cache_inv (tr_cache s)" "same_config c0 (tr_cache s)"
    and held: "\<forall>e\<in>set (entries (tr_cache s)). \<exists>x\<in>tr_exchanges s. cached_from (rc_ttl c0) x e"
    by (simp_all add: traffic_inv_def)
  note c = cache_get_facts(1-3)[OF inv(1) hit.hyps]
  show ?case
    using hit.prems c same_config_trans[OF inv(2) c(2)] cached_hit_sound[OF held inv(1) hit.hyps]
    by (auto simp: traffic_inv_def)
next
  case (miss t r s c)
  then have inv: "cache_inv (tr_cache s)" "same_config c0 (tr_cache s)" by (simp_all add: traffic_inv_def)
  note c = cache_get_facts(1-3)[OF inv(1) miss.hyps]
  show ?case using miss.prems c same_config_trans[OF inv(2) c(2)] by (auto simp: traffic_inv_def)
next
  case (failure q s)
  then show ?case by (simp add: traffic_inv_def)
next
  case (answer q s t a err resp c)
  let ?c = "tr_cache s" and ?H = "insert (t, q, a) (tr_exchanges s)"
  from answer.prems have inv: "cache_inv ?c" "same_config c0 ?c"
    and held: "\<forall>e\<in>set (entries ?c). \<exists>x\<in>tr_exchanges s. cached_from (rc_ttl c0) x e"
    and hits: "\<forall>(t, r, v)\<in>tr_hits s. sound_hit (rc_ttl c0) ?H t r v"
    by (auto simp: traffic_inv_def intro: sound_hit_mono)
  let ?e = "made_entry (rc_ttl ?c) t q (answer_response q a) (bs_data (ba_body a))"
  have ttl: "rc_ttl ?c = rc_ttl c0" using inv(2) by (simp add: same_config_def)
  consider "c = ?c"
    | "isCacheableResponse q (answer_response q a)" "bs_error (ba_body a) = None" "insert_entry ?e ?c = Some c" "entry_ok ?c ?e"
    using ModifyResponse_cases[OF inv(1), of "answer_response q a" "ba_body a" gzip t] answer.hyps(2)
    by (auto simp: answer_response_def)
  then show ?case
  proof cases
    case 1
    then show ?thesis using inv held hits by (auto simp: traffic_inv_def)
  next
    case 2
    have "entry_ok c0 ?e" using 2(4) inv(2) by (simp add: entry_ok_def same_config_def)
    then have "cache_inv c \<and> same_config c0 c \<and> set (entries c) \<subseteq> insert ?e (set (entries ?c))"
      using rc.insert_returns[of ?c c0 ?e] inv 2(3) by auto
    moreover have "cached_from (rc_ttl c0) (t, q, a) ?e" using 2(1,2) by (simp add: cached_from_def ttl)
    ultimately show ?thesis using held hits by (fastforce simp: traffic_inv_def)
  qed
qed

interpretation traffic: concurrent_invariant "traffic_step gzip url out" "traffic_inv c0" for gzip url out c0
  by unfold_locales (rule traffic_step_inv)

lemma start_traffic_inv: "cache_inv c \<Longrightarrow> rc_ll c = [] \<Longrightarrow> traffic_inv c (start_traffic c)"
  by (simp add: traffic_inv_def start_traffic_def entries_def)

lemma traffic_reach_inv:
  assumes "0 \<le> maxBytes" and "0 \<le> maxObject" and "maxBytes + maxObject < 2 ^ 63"
    and "(traffic_step gzip url out)\<^sup>*\<^sup>* (start_traffic (newResponseCache maxBytes maxObject ttl)) s"
  shows "traffic_inv (newResponseCache maxBytes maxObject ttl) s"
  using traffic.reach_inv[OF assms(4)] start_traffic_inv new_cache_inv[OF assms(1-3)]
  by (simp add: newResponseCache_def)

section \<open>Properties\<close>


text \<open>
  C15. Memory stays bounded and no request hangs, whatever requests and answers of the backend interleave, for a size
  limit and an object limit that are not negative and together stay below \<open>2^63\<close>: the
  bodies held sum to the accounted bytes and do not exceed the configured limit, no single body exceeds the object
  limit, and handling the next answer of the backend to a request in flight returns, eviction loop included.
\<close>

theorem concurrent_memory_bounded:
  assumes "0 \<le> maxBytes" and "0 \<le> maxObject" and "maxBytes + maxObject < 2 ^ 63"
    and "(traffic_step gzip url out)\<^sup>*\<^sup>* (start_traffic (newResponseCache maxBytes maxObject ttl)) s"
  shows "(\<Sum>e\<leftarrow>entries (tr_cache s). int (length (en_body e))) = rc_bytes (tr_cache s)
       \<and> rc_bytes (tr_cache s) \<le> maxBytes
       \<and> (\<forall>e\<in>set (entries (tr_cache s)). int (length (en_body e)) \<le> maxObject)
       \<and> (\<exists>err resp c. ModifyResponse gzip t (answer_response q a) (tr_cache s) = Some (err, resp, c))"
proof -
  have inv: "cache_inv (tr_cache s)" and cfg: "same_config (newResponseCache maxBytes maxObject ttl) (tr_cache s)"
    using traffic_reach_inv[OF assms] by (simp_all add: traffic_inv_def)
  have ok: "\<forall>e\<in>set (entries (tr_cache s)). entry_ok (tr_cache s) e"
    and b: "rc_bytes (tr_cache s) \<le> rc_maxBytes (tr_cache s)"
    using inv by (simp_all add: cache_inv_def)
  have "\<exists>err resp c. ModifyResponse gzip t (answer_response q a) (tr_cache s) = Some (err, resp, c)"
    using ModifyResponse_cases[OF inv, of "answer_response q a" "ba_body a" gzip t] by (auto simp: answer_response_def)
  then show ?thesis
    using ok b cfg cached_bodies[OF inv] by (auto simp: entry_ok_def same_config_def newResponseCache_def)
qed

text \<open>Requests handled one after the other are one of the interleavings.\<close>

lemma sequential_is_interleaving:
  assumes "serveDefault gzip bk t1 t2 r (w, tr_cache s) = Some ((w', c), resp)"
  shows "\<exists>V. (traffic_step gzip (bk_url bk) (bk_outHeader bk))\<^sup>*\<^sup>* s
     (s\<lparr>tr_cache := c, tr_exchanges := tr_exchanges s \<union> exchanged bk t1 t2 r (w, tr_cache s), tr_hits := V\<rparr>)"
proof -
  let ?step = "traffic_step gzip (bk_url bk) (bk_outHeader bk)"
  let ?q = "director (bk_url bk) (bk_outHeader bk) r"
  obtain res c1 where g: "cache_get t1 r (tr_cache s) = (res, c1)" by (metis surj_pair)
  show ?thesis
  proof (cases res)
    case (Some v)
    then show ?thesis
      using assms g hit[OF g[unfolded Some], of gzip "bk_url bk" "bk_outHeader bk"]
      by (auto simp: serveDefault_def exchanged_def)
  next
    case None
    let ?s1 = "s\<lparr>tr_cache := c1, tr_flight := add_mset ?q (tr_flight s)\<rparr>"
    have m: "?step s ?s1" using miss g None by blast
    obtain w1 ans where rt: "bk_roundTrip bk w ?q = (w1, ans)" by (metis surj_pair)
    show ?thesis
    proof (cases ans)
      case (Inl e)
      have "?step ?s1 (s\<lparr>tr_cache := c1\<rparr>)" using failure[of ?q ?s1] by simp
      then have "?step\<^sup>*\<^sup>* s (s\<lparr>tr_cache := c1\<rparr>)" using m by (meson converse_rtranclp_into_rtranclp r_into_rtranclp)
      then show ?thesis using assms g None rt Inl
        by (auto simp: serveDefault_def proxyServe_def exchanged_def intro!: exI[of _ "tr_hits s"])
    next
      case (Inr a)
      then obtain err resp' where mr: "ModifyResponse gzip t2 (answer_response ?q a) c1 = Some (err, resp', c)"
        using assms g None rt
        by (auto simp: serveDefault_def proxyServe_def Let_def split: option.splits)
      let ?s2 = "s\<lparr>tr_cache := c, tr_exchanges := insert (t2, ?q, a) (tr_exchanges s)\<rparr>"
      have "?step ?s1 ?s2" using answer[of ?q ?s1 gzip t2 a err resp' c] mr by simp
      then have "?step\<^sup>*\<^sup>* s ?s2" using m by (meson converse_rtranclp_into_rtranclp r_into_rtranclp)
      then show ?thesis using g None rt Inr
        by (auto simp: exchanged_def intro!: exI[of _ "tr_hits s"])
    qed
  qed
qed

section \<open>A sample run\<close>

text \<open>Two requests for the same page miss before the backend answers the first of them; a third one hits.\<close>

lemma sample_traffic:
  "\<exists>s v. (traffic_step (\<lambda>x. x) (bk_url (sample_backend ''body'')) (\<lambda>h. h))\<^sup>*\<^sup>* (start_traffic small_cache) s
     \<and> tr_flight s = {#get_request ''/''#} \<and> (7, get_request ''/'', v) \<in> tr_hits s \<and> en_body v = ''body''"
proof -
  let ?bk = "sample_backend ''body''" and ?r = "get_request ''/''" and ?a = "sample_answer ''body''"
  let ?step = "traffic_step (\<lambda>x. x) (bk_url ?bk) (\<lambda>h. h)"
  let ?s0 = "start_traffic small_cache"
  let ?s1 = "?s0\<lparr>tr_flight := {#?r#}\<rparr>" and ?s2 = "?s0\<lparr>tr_flight := {#?r, ?r#}\<rparr>"
  have g: "er_method ?r = ''GET''" "er_header ?r = []" by (simp_all add: get_request_def)
  have d: "director (bk_url ?bk) (\<lambda>h. h) ?r = ?r" using sample_director[of "''body''"] by (simp add: sample_backend_def)
  have n: "cache_get t ?r small_cache = (None, small_cache)" for t
    by (simp add: cache_get_def small_cache_def newResponseCache_def)
  obtain c' resp v c'' where h: "serveDefault (\<lambda>x. x) ?bk 0 5 ?r ((), small_cache) = Some (((), c'), resp)"
    "cache_get 7 ?r c' = (Some v, c'')" "en_body v = ''body''"
    using hit_after_miss[OF small_cache_inv small_cache_enabled small_cache_miss
        sample_director[of "''body''", symmetric], of "()" "()" ?a ?r 7 5 "\<lambda>x. x" 0]
      sample_cacheable[OF g, of "''body''"] g
    by (auto simp: sample_backend_def sample_answer_def small_cache_def newResponseCache_def)
  then obtain err resp' where m: "ModifyResponse (\<lambda>x. x) 5 (answer_response ?r ?a) small_cache = Some (err, resp', c')"
    using n sample_director[of "''body''"]
    by (auto simp: serveDefault_def proxyServe_def sample_backend_def Let_def split: option.splits)
  let ?s3 = "?s1\<lparr>tr_cache := c', tr_exchanges := {(5, ?r, ?a)}\<rparr>"
  let ?s4 = "?s3\<lparr>tr_cache := c'', tr_hits := {(7, ?r, v)}\<rparr>"
  have s1: "?step ?s0 ?s1" 
    using miss[where t = 0 and r = ?r and s = ?s0 and c = small_cache and gzip = "\<lambda>x. x" and url = "bk_url ?bk" and out = "\<lambda>h. h"] n d by (simp add: start_traffic_def)
  have s2: "?step ?s1 ?s2" 
    using miss[where t = 1 and r = ?r and s = ?s1 and c = small_cache and gzip = "\<lambda>x. x" and url = "bk_url ?bk" and out = "\<lambda>h. h"] n d by (simp add: start_traffic_def)
  have s3: "?step ?s2 ?s3" 
    using answer[where q = ?r and s = ?s2 and t = 5 and a = ?a and err = err and resp = resp' and c = c' and gzip = "\<lambda>x. x" and url = "bk_url ?bk" and out = "\<lambda>h. h"] m by (simp add: start_traffic_def)
  have s4: "?step ?s3 ?s4" 
    using hit[where t = 7 and r = ?r and s = ?s3 and v = v and c = c'' and gzip = "\<lambda>x. x" and url = "bk_url ?bk" and out = "\<lambda>h. h"] h(2) by (simp add: start_traffic_def)
  note go = converse_rtranclp_into_rtranclp[of ?step]
  have "?step\<^sup>*\<^sup>* ?s0 ?s4"
    by (rule go[OF s1], rule go[OF s2], rule go[OF s3], rule r_into_rtranclp[of ?step, OF s4])
  then show ?thesis using h(3) by (intro exI[of _ ?s4] exI[of _ v] conjI) simp_all
qed


theorem concurrent_memory_bounded_witness:
  "\<exists>s::traffic. tr_flight s = {#get_request ''/''#} \<and> tr_hits s \<noteq> {} \<and> rc_bytes (tr_cache s) \<le> 100
     \<and> (\<exists>err resp c. ModifyResponse (\<lambda>x. x) 9 (answer_response (get_request ''/'') (sample_answer ''late'')) (tr_cache s)
           = Some (err, resp, c))"
proof -
  obtain s v where s: "(traffic_step (\<lambda>x. x) (bk_url (sample_backend ''body'')) (\<lambda>h. h))\<^sup>*\<^sup>*
      (start_traffic (newResponseCache 100 10 (60 * 1000000000))) s"
    and v: "tr_flight s = {#get_request ''/''#}" "(7, get_request ''/'', v) \<in> tr_hits s"
    using sample_traffic unfolding small_cache_def by blast
  have l: "(0::int) \<le> 100" "(0::int) \<le> 10" "(100::int) + 10 < 2 ^ 63" by simp_all
  have "rc_bytes (tr_cache s) \<le> 100
     \<and> (\<exists>err resp c. ModifyResponse (\<lambda>x. x) 9 (answer_response (get_request ''/'') (sample_answer ''late'')) (tr_cache s)
           = Some (err, resp, c))"
    using concurrent_memory_bounded[OF l s] by blast
  with v show ?thesis by blast
qed

end
