(* ===== verification/CacheRetention.thy ===== *)
theory CacheRetention
  imports CacheTheorems
begin

text \<open>
  How long the cache keeps what it stored: a stored answer is served to later requests until its lifetime ends, as
  long as what was stored does not exceed the cache's limit, whatever is requested in between.
\<close>

section \<open>Requests in between\<close>

fun serve_run ::
  "(string \<Rightarrow> string) \<Rightarrow> 'w backend \<Rightarrow> (int \<times> int \<times> edge_request) list \<Rightarrow> 'w \<times> responseCache \<Rightarrow> ('w \<times> responseCache) option" where
  "serve_run gzip bk [] s = Some s"
| "serve_run gzip bk ((t1, t2, r) # rs) s =
     (case serveDefault gzip bk t1 t2 r s of None \<Rightarrow> None | Some (s', resp) \<Rightarrow> serve_run gzip bk rs s')"

text \<open>The bytes of the body that the backend sends for a request, and for a run of requests.\<close>

definition answer_bytes :: "'w backend \<Rightarrow> int \<Rightarrow> edge_request \<Rightarrow> 'w \<times> responseCache \<Rightarrow> int" where
  "answer_bytes bk t1 r s =
     (case (fst (cache_get t1 r (snd s)), snd (bk_roundTrip bk (fst s) (director (bk_url bk) (bk_outHeader bk) r))) of
        (None, Inr a) \<Rightarrow> int (length (bs_data (ba_body a)))
      | _ \<Rightarrow> 0)"

fun run_bytes ::
  "(string \<Rightarrow> string) \<Rightarrow> 'w backend \<Rightarrow> (int \<times> int \<times> edge_request) list \<Rightarrow> 'w \<times> responseCache \<Rightarrow> int" where
  "run_bytes gzip bk [] s = 0"
| "run_bytes gzip bk ((t1, t2, r) # rs) s =
     answer_bytes bk t1 r s
       + (case serveDefault gzip bk t1 t2 r s of None \<Rightarrow> 0 | Some (s', resp) \<Rightarrow> run_bytes gzip bk rs s')"

text \<open>Requests for another key, as asked and as sent to the backend, or for this key within its lifetime.\<close>

definition spares :: "'w backend \<Rightarrow> string \<Rightarrow> int \<Rightarrow> int \<times> int \<times> edge_request \<Rightarrow> bool" where
  "spares bk k expires x \<longleftrightarrow>
     (case x of (t1, t2, r) \<Rightarrow>
        (if cacheKey r = k then (er_method r = ''GET'' \<or> er_method r = ''HEAD'') \<and> t1 \<le> expires
         else cacheKey (director (bk_url bk) (bk_outHeader bk) r) \<noteq> k))"

section \<open>What they leave\<close>

lemma cache_total: "cache_inv c \<Longrightarrow> rc_bytes c = total (entries c) \<and> (\<forall>e\<in>set (entries c). 0 \<le> en_size e)"
  using linkedD(6,7) by (auto simp: cache_inv_def)

lemma total_other: "\<forall>e\<in>set es. 0 \<le> en_size e \<Longrightarrow> total (other_key k es) \<le> total es"
  by (induction es) auto

lemma find_key: "e \<in> set es \<Longrightarrow> distinct (map en_key es) \<Longrightarrow> find (\<lambda>x. en_key x = en_key e) es = Some e"
  by (induction es) auto

text \<open>A lookup keeps an entry of another key, and an entry that has not expired; it adds no bytes.\<close>

lemma get_keeps:
  assumes inv: "cache_inv c" and en: "enabled c" and e: "e \<in> set (entries c)"
    and s: "cacheKey r \<noteq> en_key e \<or> t \<le> en_expiresAt e" and g: "cache_get t r c = (res, c')"
  shows "e \<in> set (entries c')" "rc_bytes c' \<le> rc_bytes c"
    "cacheKey r = en_key e \<Longrightarrow> er_method r = ''GET'' \<or> er_method r = ''HEAD'' \<Longrightarrow> res = Some (clone e)"
proof -
  have d: "distinct (map en_key (entries c))" using inv linkedD(3) by (simp add: cache_inv_def)
  have "e \<in> set (entries c') \<and> rc_bytes c' \<le> rc_bytes c
    \<and> (cacheKey r = en_key e \<and> (er_method r = ''GET'' \<or> er_method r = ''HEAD'') \<longrightarrow> res = Some (clone e))"
  proof (cases "er_method r = ''GET'' \<or> er_method r = ''HEAD''")
    case False
    then have "c' = c" using g cache_get_disabled[of c r t] by auto
    then show ?thesis using e False by simp
  next
    case True
    have x: "cache_inv c'" "entries c' = snd (lru_get t (cacheKey r) (entries c))"
      "res = map_option clone (fst (lru_get t (cacheKey r) (entries c)))"
      using cache_get_lru[OF inv en True g] by auto
    have b: "total (entries c') \<le> total (entries c)"
    proof (cases "find (\<lambda>x. en_key x = cacheKey r) (entries c)")
      case (Some y)
      then have y: "y \<in> set (entries c)" "en_key y = cacheKey r" by (auto dest: find_SomeD)
      show ?thesis using x(2) Some cache_total[OF inv] total_other[of "entries c" "cacheKey r"]
          total_remove[OF d y(1)] y(2) by (auto simp: lru_get_def)
    qed (simp add: x(2) lru_get_def)
    have "e \<in> set (entries c')" "cacheKey r = en_key e \<Longrightarrow> res = Some (clone e)"
      using x(2,3) e s find_key[OF e d] by (auto simp: lru_get_def split: option.splits)
    then show ?thesis using b cache_total[OF inv] cache_total[OF x(1)] by simp
  qed
  then show "e \<in> set (entries c')" "rc_bytes c' \<le> rc_bytes c"
    "cacheKey r = en_key e \<Longrightarrow> er_method r = ''GET'' \<or> er_method r = ''HEAD'' \<Longrightarrow> res = Some (clone e)" by blast+
qed

text \<open>Storing an entry of another key within the limit keeps every entry.\<close>

lemma insert_keeps:
  assumes inv: "cache_inv c" and ok: "entry_ok c x" and ins: "insert_entry x c = Some c'"
    and fits: "rc_bytes c + en_size x \<le> rc_maxBytes c" and e: "e \<in> set (entries c)" "en_key x \<noteq> en_key e"
  shows "e \<in> set (entries c')" "rc_bytes c' \<le> rc_bytes c + en_size x"
proof -
  have c': "cache_inv c'" "entries c' = lru_put (rc_maxBytes c) x (entries c)"
    using insert_entry_lru[OF inv ok] ins by auto
  have nn: "\<forall>e\<in>set (x # other_key (en_key x) (entries c)). 0 \<le> en_size e"
    using cache_total[OF inv] ok by (auto simp: entry_ok_def)
  have t: "total (x # other_key (en_key x) (entries c)) \<le> rc_bytes c + en_size x"
    using total_other cache_total[OF inv] by simp
  have "entries c' = x # other_key (en_key x) (entries c)"
    unfolding c'(2) lru_put_def by (rule fit_all[OF nn]) (use t fits in linarith)
  then show "e \<in> set (entries c')" "rc_bytes c' \<le> rc_bytes c + en_size x"
    using e t cache_total[OF c'(1)] by auto
qed

lemma serve_keeps:
  assumes inv: "cache_inv c" and en: "enabled c" and e: "e \<in> set (entries c)"
    and sp: "spares bk (en_key e) (en_expiresAt e) (t1, t2, r)"
    and fits: "rc_bytes c + answer_bytes bk t1 r (w, c) \<le> rc_maxBytes c"
  shows "\<exists>w' c' resp. serveDefault gzip bk t1 t2 r (w, c) = Some ((w', c'), resp) \<and> cache_inv c' \<and> same_config c c'
     \<and> e \<in> set (entries c') \<and> rc_bytes c' \<le> rc_bytes c + answer_bytes bk t1 r (w, c)"
proof -
  obtain res c1 where g: "cache_get t1 r c = (res, c1)" by (metis surj_pair)
  have "cacheKey r \<noteq> en_key e \<or> t1 \<le> en_expiresAt e" using sp by (auto simp: spares_def split: if_splits)
  note k = get_keeps[OF inv en e this g]
  have c1: "cache_inv c1" "same_config c c1" using cache_get_facts(1,2)[OF inv g] by simp_all
  have pos: "0 \<le> answer_bytes bk t1 r (w, c)" by (simp add: answer_bytes_def split: option.splits sum.splits)
  obtain s' resp where sv: "serveDefault gzip bk t1 t2 r (w, c) = Some (s', resp)"
    and alt: "snd s' = c1 \<or> (\<exists>x. entry_ok c x \<and> (\<exists>y\<in>exchanged bk t1 t2 r (w, c). cached_from (rc_ttl c) y x)
               \<and> insert_entry x c1 = Some (snd s'))"
    using serveDefault_store[OF inv, of gzip bk t1 t2 r w] unfolding g snd_conv by metis
  from alt have "cache_inv (snd s') \<and> same_config c (snd s') \<and> e \<in> set (entries (snd s'))
      \<and> rc_bytes (snd s') \<le> rc_bytes c + answer_bytes bk t1 r (w, c)"
  proof (elim disjE exE conjE bexE)
    assume "snd s' = c1"
    then show ?thesis using c1 k(1,2) pos by simp
  next
    fix x y assume x: "entry_ok c x" "y \<in> exchanged bk t1 t2 r (w, c)" "cached_from (rc_ttl c) y x"
      "insert_entry x c1 = Some (snd s')"
    let ?q = "director (bk_url bk) (bk_outHeader bk) r"
    obtain a where a: "fst (cache_get t1 r c) = None" "snd (bk_roundTrip bk w ?q) = Inr a" "y = (t2, ?q, a)"
      using x(2) by (auto simp: exchanged_def Let_def split: option.splits sum.splits)
    have size: "en_size x = answer_bytes bk t1 r (w, c)" and key: "en_key x = cacheKey ?q"
      using x(3) a by (simp_all add: cached_from_def made_entry_fields answer_bytes_def)
    have "cacheKey r \<noteq> en_key e"
    proof
      assume "cacheKey r = en_key e"
      then show False using k(3) sp a(1) g by (auto simp: spares_def)
    qed
    then have ne: "en_key x \<noteq> en_key e" using sp key by (simp add: spares_def)
    have ok1: "entry_ok c1 x" using x(1) c1(2) by (simp add: entry_ok_def same_config_def)
    have fit1: "rc_bytes c1 + en_size x \<le> rc_maxBytes c1" using fits k(2) size c1(2) by (simp add: same_config_def)
    obtain c2 where "insert_entry x c1 = Some c2" "cache_inv c2" "same_config c1 c2" using insert_entry_lru[OF c1(1) ok1] by blast
    then have "cache_inv (snd s')" "same_config c (snd s')" using x(4) same_config_trans[OF c1(2)] by simp_all
    then show ?thesis using insert_keeps[OF c1(1) ok1 x(4) fit1 k(1) ne] k(2) size by simp
  qed
  then show ?thesis using sv by (cases s') auto
qed

lemma run_bytes_nonneg: "0 \<le> run_bytes gzip bk rs s"
proof (induction rs arbitrary: s)
  case (Cons x rs)
  obtain t1 t2 r where x: "x = (t1, t2, r)" by (metis prod_cases3)
  have "0 \<le> answer_bytes bk t1 r s" by (simp add: answer_bytes_def split: option.splits sum.splits)
  then show ?case using Cons.IH by (auto simp: x split: option.splits)
qed simp

lemma run_keeps:
  assumes "cache_inv c" and "enabled c" and "e \<in> set (entries c)"
    and "list_all (spares bk (en_key e) (en_expiresAt e)) rs" and "rc_bytes c + run_bytes gzip bk rs (w, c) \<le> rc_maxBytes c"
  shows "\<exists>w' c'. serve_run gzip bk rs (w, c) = Some (w', c') \<and> cache_inv c' \<and> same_config c c' \<and> e \<in> set (entries c')"
  using assms
proof (induction rs arbitrary: w c)
  case Nil
  then show ?case by simp
next
  case (Cons x rs)
  obtain t1 t2 r where x: "x = (t1, t2, r)" by (metis prod_cases3)
  have f: "rc_bytes c + answer_bytes bk t1 r (w, c) \<le> rc_maxBytes c"
    using Cons.prems(5) run_bytes_nonneg[of gzip bk rs] by (auto simp: x split: option.splits) (smt (verit))+
  obtain w1 c1 resp where s1: "serveDefault gzip bk t1 t2 r (w, c) = Some ((w1, c1), resp)" "cache_inv c1"
    "same_config c c1" "e \<in> set (entries c1)" "rc_bytes c1 \<le> rc_bytes c + answer_bytes bk t1 r (w, c)"
    using serve_keeps[OF Cons.prems(1-3) _ f, of t2 gzip] Cons.prems(4) by (auto simp: x)
  have "enabled c1" using Cons.prems(2) s1(3) by (simp add: enabled_def same_config_def)
  moreover have "rc_bytes c1 + run_bytes gzip bk rs (w1, c1) \<le> rc_maxBytes c1"
    using Cons.prems(5) s1(1,3,5) by (simp add: x same_config_def)
  ultimately obtain w' c' where "serve_run gzip bk rs (w1, c1) = Some (w', c')" "cache_inv c'" "same_config c1 c'"
    "e \<in> set (entries c')" using Cons.IH[OF s1(2) _ s1(4), of w1] Cons.prems(4) by auto
  then show ?case using s1(1) same_config_trans[OF s1(3)] by (auto simp: x)
qed

text \<open>The first request, which stores its answer.\<close>

lemma miss_stores:
  assumes inv: "cache_inv c" and en: "enabled c" and miss: "fst (cache_get t1 r c) = None"
    and q: "q = director (bk_url bk) (bk_outHeader bk) r"
    and rt: "bk_roundTrip bk w q = (w', Inr a)" and ca: "isCacheableResponse q (answer_response q a)"
    and b: "bs_error (ba_body a) = None" "int (length (bs_data (ba_body a))) \<le> rc_maxObjectBytes c"
    and fits: "rc_bytes c + int (length (bs_data (ba_body a))) \<le> rc_maxBytes c"
    and e: "e = made_entry (rc_ttl c) t2 q (answer_response q a) (bs_data (ba_body a))"
  shows "\<exists>c' resp. serveDefault gzip bk t1 t2 r (w, c) = Some ((w', c'), resp) \<and> cache_inv c' \<and> same_config c c'
     \<and> e \<in> set (entries c') \<and> rc_bytes c' \<le> rc_bytes c + int (length (bs_data (ba_body a)))"
proof -
  obtain c1 where g: "cache_get t1 r c = (None, c1)" using miss by (metis prod.collapse)
  have c1: "cache_inv c1" "same_config c c1" "set (entries c1) \<subseteq> set (entries c)" using cache_get_facts(1-3)[OF inv g] by simp_all
  have en1: "enabled c1" using en c1(2) by (simp add: enabled_def same_config_def)
  have b1: "rc_bytes c1 \<le> rc_bytes c"
  proof (cases "er_method r = ''GET'' \<or> er_method r = ''HEAD''")
    case True
    have "entries c1 = snd (lru_get t1 (cacheKey r) (entries c))" "fst (lru_get t1 (cacheKey r) (entries c)) = None"
      using cache_get_lru[OF inv en True g] by auto
    then show ?thesis using cache_total[OF inv] cache_total[OF c1(1)] total_other[of "entries c" "cacheKey r"]
      by (auto simp: lru_get_def split: option.splits if_splits)
  qed (use g in \<open>simp add: cache_get_def\<close>)
  have ok: "entry_ok c1 e" and size: "en_size e = int (length (bs_data (ba_body a)))"
    using b(2) c1(2) by (simp_all add: e made_entry_def entry_ok_def same_config_def Let_def)
  obtain c' where ins: "insert_entry e c1 = Some c'" "cache_inv c'" "same_config c1 c'"
    "entries c' = lru_put (rc_maxBytes c1) e (entries c1)" using insert_entry_lru[OF c1(1) ok] by blast
  have ttl1: "rc_ttl c1 = rc_ttl c" and mo: "rc_maxObjectBytes c1 = rc_maxObjectBytes c" "rc_maxBytes c1 = rc_maxBytes c"
    using c1(2) by (simp_all add: same_config_def)
  have "\<exists>resp'. cache_store t2 q (answer_response q a) c1 = Some (None, resp', c')"
    by (rule cache_store_stores[OF c1(1) en1, where b = "ba_body a"])
       (use b ins(1) in \<open>simp_all add: mo ttl1 e[symmetric]\<close>, simp add: answer_response_def)
  then have "\<exists>resp'. ModifyResponse gzip t2 (answer_response q a) c1 = Some (None, resp', c')"
    using en1 ca by (auto simp: ModifyResponse_def answer_response_def Let_def)
  then have sv: "\<exists>resp. serveDefault gzip bk t1 t2 r (w, c) = Some ((w', c'), resp)"
    using g rt by (auto simp: serveDefault_def proxyServe_def Let_def q[symmetric])
  have nn: "\<forall>x\<in>set (e # other_key (en_key e) (entries c1)). 0 \<le> en_size x"
    using cache_total[OF c1(1)] size by auto
  have t: "total (e # other_key (en_key e) (entries c1)) \<le> rc_bytes c + en_size e"
    using total_other[of "entries c1" "en_key e"] cache_total[OF c1(1)] b1 by simp
  have "entries c' = e # other_key (en_key e) (entries c1)"
    unfolding ins(4) lru_put_def by (rule fit_all[OF nn]) (use t fits size mo(2) in linarith)
  then have "e \<in> set (entries c')" "rc_bytes c' \<le> rc_bytes c + int (length (bs_data (ba_body a)))"
    using t cache_total[OF ins(2)] size by auto
  then show ?thesis using sv ins(2) same_config_trans[OF c1(2) ins(3)] by blast
qed

section \<open>The property\<close>

text \<open>
  C39. The cache works: with a backend URL without path and query and proxy headers that keep
  \<open>Accept-Encoding\<close>, once a cacheable answer within the object limit has been proxied, and then any requests were
  served that are for other keys or for this one within its lifetime, the same request (also as \<open>HEAD\<close>) within the
  lifetime is answered from the cache, marked \<open>HIT\<close>, with the same body (none for \<open>HEAD\<close>) and without involving the
  backend, provided that what the cache held at the beginning and the bodies the backend has sent since fit the
  cache's limit together.
\<close>

theorem fresh_hit:
  assumes "cache_inv c" and "enabled c" and "fst (cache_get t1 r c) = None"
    and url: "bu_epath (bk_url bk) = [] \<or> bu_epath (bk_url bk) = ''/''" "bu_query (bk_url bk) = []"
    and r: "hasPrefix (er_epath r) ''/''"
      "hget (bk_outHeader bk (er_header r)) ''Accept-Encoding'' = hget (er_header r) ''Accept-Encoding''"
    and q: "q = director (bk_url bk) (bk_outHeader bk) r"
    and rt: "bk_roundTrip bk w q = (w', Inr a)" and ca: "isCacheableResponse q (answer_response q a)"
    and b: "bs_error (ba_body a) = None" "int (length (bs_data (ba_body a))) \<le> rc_maxObjectBytes c"
    and first: "serveDefault gzip bk t1 t2 r (w, c) = Some (s1, resp)"
    and expires: "expires = t2 + cacheTTLFromResponse (answer_response q a) (rc_ttl c)"
    and between: "list_all (spares bk (cacheKey r) expires) rs"
    and fits: "rc_bytes c + int (length (bs_data (ba_body a))) + run_bytes gzip bk rs s1 \<le> rc_maxBytes c"
    and r': "r' = r\<lparr>er_method := m\<rparr>" "m = ''GET'' \<or> m = ''HEAD''" and t: "t \<le> expires"
  shows "\<exists>w2 c2 c3 resp'. serve_run gzip bk rs s1 = Some (w2, c2)
     \<and> serveDefault gzip bk t t3 r' (w2, c2) = Some ((w2, c3), resp')
     \<and> cr_status resp' = 200 \<and> hget (cr_header resp') ''X-Memecdn-Cache'' = ''HIT''
     \<and> bs_data (cr_body resp') = (if m = ''HEAD'' then [] else bs_data (ba_body a))"
proof -
  define e where "e = made_entry (rc_ttl c) t2 q (answer_response q a) (bs_data (ba_body a))"
  have uri: "RequestURI r' = RequestURI r" by (simp add: r' RequestURI_def)
  have eq: "er_header q = bk_outHeader bk (er_header r)" by (simp add: q director_def)
  have keys: "cacheKey r' = cacheKey r" "cacheKey q = cacheKey r"
    using uri eq RequestURI_director[OF url r(1), of "bk_outHeader bk"] r(2) q
    by (simp_all add: cacheKey_def r')
  have ef: "en_key e = cacheKey r" "en_expiresAt e = expires" "en_body (clone e) = bs_data (ba_body a)" "en_status (clone e) = 200"
    using ca by (simp_all add: e_def made_entry_fields keys expires clone_def)
      (simp add: isCacheableResponse_def Let_def split: if_splits)
  have fits1: "rc_bytes c + int (length (bs_data (ba_body a))) \<le> rc_maxBytes c"
    using fits run_bytes_nonneg[of gzip bk rs s1] by linarith
  obtain c1 where c1: "s1 = (w', c1)" "cache_inv c1" "same_config c c1" "e \<in> set (entries c1)"
    "rc_bytes c1 \<le> rc_bytes c + int (length (bs_data (ba_body a)))"
    using miss_stores[OF assms(1-3) q rt ca b fits1 e_def, of gzip] first by auto
  have en1: "enabled c1" using assms(2) c1(3) by (simp add: enabled_def same_config_def)
  have "rc_bytes c1 + run_bytes gzip bk rs (w', c1) \<le> rc_maxBytes c1"
    using fits c1(1,3,5) by (simp add: same_config_def)
  then obtain w2 c2 where run: "serve_run gzip bk rs s1 = Some (w2, c2)" and c2: "cache_inv c2" "same_config c1 c2"
    "e \<in> set (entries c2)"
    using run_keeps[OF c1(2) en1 c1(4), of bk rs gzip w'] between ef(1,2) c1(1) by auto
  have en2: "enabled c2" using en1 c2(2) by (simp add: enabled_def same_config_def)
  obtain res c3 where g: "cache_get t r' c2 = (res, c3)" by (metis surj_pair)
  have "res = Some (clone e)"
    using get_keeps(3)[OF c2(1) en2 c2(3) _ g] t ef(1,2) keys(1) r' by auto
  then have "serveDefault gzip bk t t3 r' (w2, c2) = Some ((w2, c3), entry_write t r' (clone e) [])"
    using g by (simp add: serveDefault_def)
  moreover have "cr_status (entry_write t r' (clone e) []) = 200"
    "hget (cr_header (entry_write t r' (clone e) [])) ''X-Memecdn-Cache'' = ''HIT''"
    "bs_data (cr_body (entry_write t r' (clone e) [])) = (if m = ''HEAD'' then [] else bs_data (ba_body a))"
    using ef(3,4) r' by (auto simp: entry_write_def Let_def hget_hset)
  ultimately show ?thesis using run by blast
qed

text \<open>A small cache: one page, then another one, then the first again.\<close>

theorem fresh_hit_witness:
  "\<exists>c1 resp w2 c2 c3 resp'.
     serveDefault (\<lambda>x. x) (sample_backend ''body'') 0 5 (get_request ''/'') ((), small_cache) = Some (((), c1), resp)
   \<and> serve_run (\<lambda>x. x) (sample_backend ''body'') [(6, 6, get_request ''/'')] ((), c1) = Some (w2, c2)
   \<and> serveDefault (\<lambda>x. x) (sample_backend ''body'') 7 7 (get_request ''/'') (w2, c2) = Some ((w2, c3), resp')
   \<and> bs_data (cr_body resp') = ''body''"
proof -
  let ?bk = "sample_backend ''body''" and ?r = "get_request ''/''"
  have g: "er_method ?r = ''GET''" "er_header ?r = []" by (simp_all add: get_request_def)
  let ?a = "sample_answer ''body''"
  have rt: "bk_roundTrip ?bk () ?r = ((), Inr ?a)" by (simp add: sample_backend_def)
  have lim: "int (length (bs_data (ba_body ?a))) \<le> rc_maxObjectBytes small_cache"
    "rc_bytes small_cache + int (length (bs_data (ba_body ?a))) \<le> rc_maxBytes small_cache" "bs_error (ba_body ?a) = None"
    by (simp_all add: sample_answer_def small_cache_def newResponseCache_def)
  obtain c1 resp where first: "serveDefault (\<lambda>x. x) ?bk 0 5 ?r ((), small_cache) = Some (((), c1), resp)"
    and c1: "cache_inv c1" "same_config small_cache c1"
      "made_entry (rc_ttl small_cache) 5 ?r (answer_response ?r ?a) (bs_data (ba_body ?a)) \<in> set (entries c1)"
  proof -
    have "\<exists>c' resp. serveDefault (\<lambda>x. x) ?bk 0 5 ?r ((), small_cache) = Some (((), c'), resp) \<and> cache_inv c'
        \<and> same_config small_cache c'
        \<and> made_entry (rc_ttl small_cache) 5 ?r (answer_response ?r ?a) (bs_data (ba_body ?a)) \<in> set (entries c')
        \<and> rc_bytes c' \<le> rc_bytes small_cache + int (length (bs_data (ba_body ?a)))"
      by (rule miss_stores[OF small_cache_inv small_cache_enabled small_cache_miss sample_director[symmetric] rt
        sample_cacheable(1)[OF g] lim(3,1,2) HOL.refl])
    then show thesis using that by (elim exE conjE)
  qed
  have ttl: "5 + cacheTTLFromResponse (answer_response ?r ?a) (rc_ttl small_cache) = 5 + rc_ttl small_cache"
    "rc_ttl small_cache \<ge> 2"
    using sample_cacheable(2)[OF g] by (simp_all add: small_cache_def newResponseCache_def)
  have hit: "fst (cache_get 6 ?r c1) \<noteq> None"
  proof -
    obtain res c' where x: "cache_get 6 ?r c1 = (res, c')" by (metis surj_pair)
    have "enabled c1" using c1(2) small_cache_enabled by (simp add: enabled_def same_config_def)
    moreover have "6 \<le> en_expiresAt (made_entry (rc_ttl small_cache) 5 ?r (answer_response ?r ?a) (bs_data (ba_body ?a)))"
      unfolding made_entry_fields ttl(1) using ttl(2) by linarith
    ultimately have "res = Some (clone (made_entry (rc_ttl small_cache) 5 ?r (answer_response ?r ?a) (bs_data (ba_body ?a))))"
      using get_keeps(3)[OF c1(1) _ c1(3) _ x] unfolding made_entry_fields(1) g(1) by blast
    then show ?thesis by (simp only: x fst_conv) blast
  qed
  have rb: "run_bytes (\<lambda>x. x) ?bk [(6, 6, ?r)] ((), c1) = 0"
    using hit by (auto simp: answer_bytes_def split: option.splits)
  have "\<exists>w2 c2 c3 resp'. serve_run (\<lambda>x. x) ?bk [(6, 6, ?r)] ((), c1) = Some (w2, c2)
     \<and> serveDefault (\<lambda>x. x) ?bk 7 7 ?r (w2, c2) = Some ((w2, c3), resp')
     \<and> cr_status resp' = 200 \<and> hget (cr_header resp') ''X-Memecdn-Cache'' = ''HIT''
     \<and> bs_data (cr_body resp') = (if ''GET'' = ''HEAD'' then [] else bs_data (ba_body ?a))"
  proof (rule fresh_hit[OF small_cache_inv small_cache_enabled small_cache_miss _ _ _ _ sample_director[symmetric] rt
          sample_cacheable(1)[OF g] lim(3,1) first HOL.refl])
    show "list_all (spares ?bk (cacheKey ?r)
        (5 + cacheTTLFromResponse (answer_response ?r ?a) (rc_ttl small_cache))) [(6, 6, ?r)]"
      unfolding ttl(1) using ttl(2) by (simp add: spares_def g)
    show "rc_bytes small_cache + int (length (bs_data (ba_body ?a))) + run_bytes (\<lambda>x. x) ?bk [(6, 6, ?r)] ((), c1)
        \<le> rc_maxBytes small_cache" unfolding rb using lim(2) by simp
    show "7 \<le> 5 + cacheTTLFromResponse (answer_response ?r ?a) (rc_ttl small_cache)" unfolding ttl(1) using ttl(2) by simp
    show "hget (bk_outHeader ?bk (er_header ?r)) ''Accept-Encoding'' = hget (er_header ?r) ''Accept-Encoding''"
      by (simp add: sample_backend_def)
  qed (simp_all add: sample_backend_def get_request_def hasPrefix_def)
  then obtain w2 c2 c3 resp' where "serve_run (\<lambda>x. x) ?bk [(6, 6, ?r)] ((), c1) = Some (w2, c2)"
    "serveDefault (\<lambda>x. x) ?bk 7 7 ?r (w2, c2) = Some ((w2, c3), resp')" "bs_data (cr_body resp') = ''body''"
    by (auto simp: sample_answer_def simp del: serve_run.simps)
  with first show ?thesis by (intro exI conjI)
qed

end
