(* ===== verification/Tunnel.thy ===== *)
theory Tunnel
  imports PluginProps "HOL-Library.Sublist"
begin

text \<open>
  What a tunnel does once the connection is upgraded (\<open>tunnelConns\<close>, \<open>tunnelOneWay\<close>, \<open>closeWrite\<close> of
  \<open>cmd/edgeproxy/main.go\<close>): two goroutines copy, one in each direction, and both connections are closed when
  both have returned. Also the pool the copy buffers come from.
\<close>

section \<open>The pool of copy buffers\<close>

text \<open>
  A buffer is its length and capacity. The pool hands out any buffer it holds, or a new one; it holds what was
  put back, of which it may forget any part.
\<close>

type_synonym buffer = "nat \<times> nat"

definition proxy_buffer_size :: nat where "proxy_buffer_size = 64 * 1024"

definition pool_get :: "nat \<Rightarrow> buffer list \<Rightarrow> buffer \<times> buffer list" where
  "pool_get i pool =
     (if i < length pool then (pool ! i, take i pool @ drop (Suc i) pool)
      else ((proxy_buffer_size, proxy_buffer_size), pool))"

definition relayPut :: "buffer \<Rightarrow> buffer list \<Rightarrow> buffer list" where
  "relayPut buf pool = (if snd buf < proxy_buffer_size then pool else (proxy_buffer_size, snd buf) # pool)"

text \<open>Every buffer handed out has the full size, whatever the callers put back.\<close>

definition full_buffers :: "buffer list \<Rightarrow> bool" where
  "full_buffers pool \<longleftrightarrow> (\<forall>b\<in>set pool. fst b = proxy_buffer_size \<and> proxy_buffer_size \<le> snd b)"

lemma pool_get_full:
  "full_buffers pool \<Longrightarrow> pool_get i pool = (b, pool') \<Longrightarrow> fst b = proxy_buffer_size \<and> full_buffers pool'"
  unfolding full_buffers_def pool_get_def
  by (cases "i < length pool") (auto dest!: in_set_takeD in_set_dropD dest: nth_mem)

lemma relayPut_full: "full_buffers pool \<Longrightarrow> full_buffers (relayPut b pool)"
  by (auto simp: full_buffers_def relayPut_def)

section \<open>One direction\<close>

text \<open>
  What the two ends of a direction do: the source sends, ends its stream or is reset (what has arrived and is not
  read is then gone), and the destination makes room for more bytes by reading, or stops taking data. A
  destination may also do neither for ever: no deadline is set on the connections.
\<close>

inductive peer_step :: "flow \<Rightarrow> flow \<Rightarrow> bool" where
  arrive: "\<not> fl_ended f \<Longrightarrow> peer_step f (f\<lparr>fl_sent := fl_sent f @ s, fl_pending := fl_pending f @ s\<rparr>)"
| hang_up: "peer_step f (f\<lparr>fl_ended := True\<rparr>)"
| abort: "peer_step f (f\<lparr>fl_pending := [], fl_ended := True, fl_reset := True\<rparr>)"
| make_room: "peer_step f (f\<lparr>fl_room := fl_room f + k\<rparr>)"
| refuse: "peer_step f (f\<lparr>fl_broken := True\<rparr>)"

text \<open>
  What \<open>tunnelOneWay\<close> does: it reads up to a buffer of bytes, and writes them all, as the destination takes them,
  before it reads again; a write that fails or the end of the source ends the copying and with it the
  destination's stream.
\<close>

inductive copy_step :: "flow \<Rightarrow> flow \<Rightarrow> bool" where
  fetch: "\<not> fl_done f \<Longrightarrow> fl_held f = [] \<Longrightarrow> 0 < n \<Longrightarrow> n \<le> length (fl_pending f) \<Longrightarrow> n \<le> proxy_buffer_size \<Longrightarrow>
    copy_step f (f\<lparr>fl_pending := drop n (fl_pending f), fl_held := take n (fl_pending f)\<rparr>)"
| put: "\<not> fl_done f \<Longrightarrow> \<not> fl_broken f \<Longrightarrow> 0 < k \<Longrightarrow> k \<le> length (fl_held f) \<Longrightarrow> k \<le> fl_room f \<Longrightarrow>
    copy_step f (f\<lparr>fl_held := drop k (fl_held f), fl_out := fl_out f @ take k (fl_held f), fl_room := fl_room f - k\<rparr>)"
| write_error: "\<not> fl_done f \<Longrightarrow> fl_broken f \<Longrightarrow> fl_held f \<noteq> [] \<Longrightarrow>
    copy_step f (f\<lparr>fl_held := [], fl_done := True\<rparr>)"
| finish: "\<not> fl_done f \<Longrightarrow> fl_held f = [] \<Longrightarrow> fl_pending f = [] \<Longrightarrow> fl_ended f \<Longrightarrow> copy_step f (f\<lparr>fl_done := True\<rparr>)"

inductive_cases copy_stepE: "copy_step f f'"
inductive_cases peer_stepE: "peer_step f f'"

section \<open>Both directions\<close>

inductive own_step :: "relay \<Rightarrow> relay \<Rightarrow> bool" where
  up: "copy_step (rl_up r) f \<Longrightarrow> own_step r (r\<lparr>rl_up := f\<rparr>)"
| down: "copy_step (rl_down r) f \<Longrightarrow> own_step r (r\<lparr>rl_down := f\<rparr>)"
| close: "fl_done (rl_up r) \<Longrightarrow> fl_done (rl_down r) \<Longrightarrow> \<not> rl_closed r \<Longrightarrow> own_step r (r\<lparr>rl_closed := True\<rparr>)"

inductive tunnel_step :: "relay \<Rightarrow> relay \<Rightarrow> bool" where
  own: "own_step r r' \<Longrightarrow> tunnel_step r r'"
| client: "peer_step (rl_up r) f \<Longrightarrow> tunnel_step r (r\<lparr>rl_up := f\<rparr>)"
| backend: "peer_step (rl_down r) f \<Longrightarrow> tunnel_step r (r\<lparr>rl_down := f\<rparr>)"

inductive_cases own_stepE: "own_step r r'"

section \<open>What arrives\<close>

definition clean :: "flow \<Rightarrow> bool" where
  "clean f \<longleftrightarrow> \<not> fl_reset f \<and> \<not> fl_broken f"

text \<open>
  The invariant of a direction: what was written, after what was skipped, is a beginning of what was sent, and what is
  to be written next follows it; while nothing failed the rest is what is pending; and a copying that ended
  without a failure has written everything.
\<close>

definition flow_inv :: "flow \<Rightarrow> bool" where
  "flow_inv f \<longleftrightarrow>
     prefix (fl_skipped f @ fl_out f) (fl_sent f)
     \<and> (\<not> fl_broken f \<longrightarrow> prefix (fl_skipped f @ fl_out f @ fl_held f) (fl_sent f))
     \<and> (fl_reset f \<longrightarrow> fl_ended f \<and> fl_pending f = [])
     \<and> (clean f \<longrightarrow> fl_sent f = fl_skipped f @ fl_out f @ fl_held f @ fl_pending f)
     \<and> (clean f \<and> fl_done f \<longrightarrow> fl_ended f \<and> fl_held f = [] \<and> fl_pending f = [])"

lemma peer_step_inv: "peer_step f f' \<Longrightarrow> flow_inv f \<Longrightarrow> flow_inv f'"
  by (induction rule: peer_step.induct) (auto simp: flow_inv_def clean_def prefix_def)

lemma copy_step_inv: "copy_step f f' \<Longrightarrow> flow_inv f \<Longrightarrow> flow_inv f'"
proof (induction rule: copy_step.induct)
  case (fetch f n)
  then have "\<not> fl_reset f" by (auto simp: flow_inv_def)
  then have "\<not> fl_broken f \<Longrightarrow> clean f" by (simp add: clean_def)
  then show ?case using fetch
    by (auto simp: flow_inv_def clean_def) (metis append.assoc append_take_drop_id prefixI)
next
  case (put f k)
  have h: "take k (fl_held f) @ drop k (fl_held f) @ x = fl_held f @ x" for x
    by (simp add: append_assoc[symmetric] del: append_assoc)
  have "prefix (fl_skipped f @ fl_out f @ fl_held f) (fl_sent f)" using put by (simp add: flow_inv_def)
  then obtain x where x: "fl_sent f = fl_skipped f @ fl_out f @ fl_held f @ x" by (auto simp: prefix_def)
  have "prefix (fl_skipped f @ fl_out f @ take k (fl_held f)) (fl_sent f)"
    unfolding x by (simp add: h[of x, symmetric])
  then show ?case using put x h by (auto simp: flow_inv_def clean_def)
qed (auto simp: flow_inv_def clean_def)

text \<open>What a direction skipped is decided before the copying starts, and a copying that has returned stays so.\<close>

lemma flow_facts:
  assumes "copy_step f f' \<or> peer_step f f'" and "flow_inv f"
  shows "flow_inv f'" "fl_skipped f' = fl_skipped f" "fl_done f \<Longrightarrow> fl_done f'"
  using assms copy_step_inv peer_step_inv by (auto elim: copy_stepE peer_stepE)

definition relay_inv :: "string \<Rightarrow> relay \<Rightarrow> bool" where
  "relay_inv early r \<longleftrightarrow>
     flow_inv (rl_up r) \<and> flow_inv (rl_down r) \<and> fl_skipped (rl_up r) = [] \<and> fl_skipped (rl_down r) = early
     \<and> (rl_closed r \<longrightarrow> fl_done (rl_up r) \<and> fl_done (rl_down r))"

lemma relay_inv_up:
  "copy_step (rl_up r) f \<or> peer_step (rl_up r) f \<Longrightarrow> relay_inv early r \<Longrightarrow> relay_inv early (r\<lparr>rl_up := f\<rparr>)"
  using flow_facts[of "rl_up r" f] by (simp add: relay_inv_def)

lemma relay_inv_down:
  "copy_step (rl_down r) f \<or> peer_step (rl_down r) f \<Longrightarrow> relay_inv early r \<Longrightarrow> relay_inv early (r\<lparr>rl_down := f\<rparr>)"
  using flow_facts[of "rl_down r" f] by (simp add: relay_inv_def)

lemma own_step_inv: "own_step r r' \<Longrightarrow> relay_inv early r \<Longrightarrow> relay_inv early r'"
proof (induction rule: own_step.induct)
  case (close r)
  then show ?case by (simp add: relay_inv_def)
qed (simp_all add: relay_inv_up relay_inv_down)

lemma tunnel_step_inv: "tunnel_step r r' \<Longrightarrow> relay_inv early r \<Longrightarrow> relay_inv early r'"
  by (induction rule: tunnel_step.induct) (auto intro: relay_inv_up relay_inv_down own_step_inv)

lemma start_relay_inv: "relay_inv early (start_relay buffered n early)"
  by (auto simp: relay_inv_def start_relay_def flow_inv_def clean_def take_is_prefix)

interpretation tunnel: concurrent_invariant tunnel_step "relay_inv early" for early
  by unfold_locales (rule tunnel_step_inv)

lemma tunnel_start:
  assumes "serveWebSocketTunnel env ws route req = Tunnelled r0"
  obtains conn resp early buffered n where "ws_read ws conn = Inr (resp, early)" "cr_status resp = 101"
    "r0 = start_relay buffered n early"
  using assms by (auto simp: serveWebSocketTunnel_def split: if_splits sum.splits option.splits)

lemma tunnel_reach_inv:
  assumes "serveWebSocketTunnel env ws route req = Tunnelled r0" and "tunnel_step\<^sup>*\<^sup>* r0 r"
  shows "\<exists>conn resp early. ws_read ws conn = Inr (resp, early) \<and> cr_status resp = 101 \<and> relay_inv early r"
  using tunnel_start[OF assms(1)] tunnel.reach_inv[OF assms(2)] start_relay_inv by metis

text \<open>
  C24. The tunnel passes everything on, in order, except what the backend sends together with its answer: in every
  state a tunnel can reach, what the backend has received is a beginning of what the client sent, and what the
  client has received is a beginning of what the backend sent after the bytes that came with its 101 answer; those
  bytes never reach the client. A tunnel is closed only when in each direction the source has ended or the
  destination refuses; where neither end failed, everything else that was sent has arrived then.
\<close>

theorem tunnel_delivers_in_order:
  assumes "serveWebSocketTunnel env ws route req = Tunnelled r0" and "tunnel_step\<^sup>*\<^sup>* r0 r"
  shows "prefix (fl_out (rl_up r)) (fl_sent (rl_up r))
    \<and> (\<exists>conn resp early rest. ws_read ws conn = Inr (resp, early) \<and> cr_status resp = 101
        \<and> fl_sent (rl_down r) = early @ rest \<and> prefix (fl_out (rl_down r)) rest
        \<and> (rl_closed r \<and> clean (rl_down r) \<longrightarrow> fl_out (rl_down r) = rest))
    \<and> (rl_closed r \<and> clean (rl_up r) \<longrightarrow> fl_out (rl_up r) = fl_sent (rl_up r))
    \<and> (rl_closed r \<longrightarrow> (\<forall>f\<in>{rl_up r, rl_down r}. fl_ended f \<or> fl_broken f))"
proof -
  obtain conn resp early where read: "ws_read ws conn = Inr (resp, early)" "cr_status resp = 101"
    and inv: "relay_inv early r" using tunnel_reach_inv[OF assms] by blast
  then have up: "flow_inv (rl_up r)" "fl_skipped (rl_up r) = []"
    and down: "flow_inv (rl_down r)" "fl_skipped (rl_down r) = early"
    and closed: "rl_closed r \<Longrightarrow> fl_done (rl_up r) \<and> fl_done (rl_down r)" by (auto simp: relay_inv_def)
  obtain rest where rest: "fl_sent (rl_down r) = early @ rest" "prefix (fl_out (rl_down r)) rest"
    using down by (auto simp: flow_inv_def prefix_def)
  have "rl_closed r \<and> clean (rl_down r) \<longrightarrow> fl_out (rl_down r) = rest"
    using down closed rest(1) by (auto simp: flow_inv_def)
  moreover have "rl_closed r \<longrightarrow> (\<forall>f\<in>{rl_up r, rl_down r}. fl_ended f \<or> fl_broken f)"
    using up down closed by (auto simp: flow_inv_def clean_def)
  ultimately show ?thesis using read rest up closed by (fastforce simp: flow_inv_def)
qed

text \<open>A run of a tunnel: the backend sends two bytes, they are copied, both ends hang up.\<close>

definition demo_relay_end :: relay where
  "demo_relay_end =
     \<lparr>rl_up = \<lparr>fl_sent = ''q'', fl_skipped = [], fl_pending = [], fl_held = [], fl_out = ''q'', fl_room = 0,
              fl_ended = True, fl_reset = False, fl_broken = False, fl_done = True\<rparr>,
      rl_down = \<lparr>fl_sent = ''hixy'', fl_skipped = ''hi'', fl_pending = [], fl_held = [], fl_out = ''xy'', fl_room = 0,
              fl_ended = True, fl_reset = False, fl_broken = False, fl_done = True\<rparr>,
      rl_closed = True\<rparr>"

definition flow_step :: "flow \<Rightarrow> flow \<Rightarrow> bool" where
  "flow_step f f' \<longleftrightarrow> copy_step f f' \<or> peer_step f f'"

lemma flow_steps:
  "flow_step\<^sup>*\<^sup>* f f' \<Longrightarrow> tunnel_step\<^sup>*\<^sup>* \<lparr>rl_up = f, rl_down = g, rl_closed = c\<rparr> \<lparr>rl_up = f', rl_down = g, rl_closed = c\<rparr>"
  "flow_step\<^sup>*\<^sup>* f f' \<Longrightarrow> tunnel_step\<^sup>*\<^sup>* \<lparr>rl_up = g, rl_down = f, rl_closed = c\<rparr> \<lparr>rl_up = g, rl_down = f', rl_closed = c\<rparr>"
proof -
  have one: "flow_step x y \<Longrightarrow> tunnel_step \<lparr>rl_up = x, rl_down = g, rl_closed = c\<rparr> \<lparr>rl_up = y, rl_down = g, rl_closed = c\<rparr>"
    "flow_step x y \<Longrightarrow> tunnel_step \<lparr>rl_up = g, rl_down = x, rl_closed = c\<rparr> \<lparr>rl_up = g, rl_down = y, rl_closed = c\<rparr>" for x y
    using own[OF own_step.up, of "\<lparr>rl_up = x, rl_down = g, rl_closed = c\<rparr>" y]
      own[OF own_step.down, of "\<lparr>rl_up = g, rl_down = x, rl_closed = c\<rparr>" y]
      client[of "\<lparr>rl_up = x, rl_down = g, rl_closed = c\<rparr>" y] backend[of "\<lparr>rl_up = g, rl_down = x, rl_closed = c\<rparr>" y]
    by (auto simp: flow_step_def)
  show "tunnel_step\<^sup>*\<^sup>* \<lparr>rl_up = f, rl_down = g, rl_closed = c\<rparr> \<lparr>rl_up = f', rl_down = g, rl_closed = c\<rparr>" if "flow_step\<^sup>*\<^sup>* f f'"
    using that by (induction rule: rtranclp_induct) (auto dest: one(1))
  show "tunnel_step\<^sup>*\<^sup>* \<lparr>rl_up = g, rl_down = f, rl_closed = c\<rparr> \<lparr>rl_up = g, rl_down = f', rl_closed = c\<rparr>" if "flow_step\<^sup>*\<^sup>* f f'"
    using that by (induction rule: rtranclp_induct) (auto dest: one(2))
qed

lemma demo_run: "tunnel_step\<^sup>*\<^sup>* (start_relay ''q'' 1 ''hi'') demo_relay_end"
proof -
  let ?u = "rl_up (start_relay ''q'' 1 ''hi'')" and ?d = "rl_down (start_relay ''q'' 1 ''hi'')"
  let ?d1 = "?d\<lparr>fl_sent := ''hixy'', fl_pending := ''xy''\<rparr>"
  let ?d2 = "?d1\<lparr>fl_room := 2\<rparr>"
  let ?d3 = "?d2\<lparr>fl_pending := [], fl_held := ''xy''\<rparr>"
  let ?d4 = "?d3\<lparr>fl_held := [], fl_out := ''xy'', fl_room := 0\<rparr>"
  let ?d5 = "?d4\<lparr>fl_ended := True\<rparr>"
  have "flow_step ?d ?d1" "flow_step ?d1 ?d2" "flow_step ?d2 ?d3" "flow_step ?d3 ?d4" "flow_step ?d4 ?d5"
    "flow_step ?d5 (rl_down demo_relay_end)"
    using arrive[of ?d "''xy''"] make_room[of ?d1 2] fetch[of ?d2 2] put[of ?d3 2] hang_up[of ?d4] finish[of ?d5]
    by (simp_all add: flow_step_def start_relay_def proxy_buffer_size_def demo_relay_end_def numeral_2_eq_2)
  then have down: "flow_step\<^sup>*\<^sup>* ?d (rl_down demo_relay_end)" by (meson r_into_rtranclp rtranclp_trans)
  have "flow_step ?u (?u\<lparr>fl_ended := True\<rparr>)" "flow_step (?u\<lparr>fl_ended := True\<rparr>) (rl_up demo_relay_end)"
    using hang_up[of ?u] finish[of "?u\<lparr>fl_ended := True\<rparr>"]
    by (simp_all add: flow_step_def start_relay_def demo_relay_end_def)
  then have up: "flow_step\<^sup>*\<^sup>* ?u (rl_up demo_relay_end)" by (meson r_into_rtranclp rtranclp_trans)
  have "tunnel_step\<^sup>*\<^sup>* \<lparr>rl_up = ?u, rl_down = ?d, rl_closed = False\<rparr>
      \<lparr>rl_up = rl_up demo_relay_end, rl_down = rl_down demo_relay_end, rl_closed = False\<rparr>"
    by (rule rtranclp_trans[OF flow_steps(1)[OF up] flow_steps(2)[OF down]])
  moreover have "tunnel_step \<lparr>rl_up = rl_up demo_relay_end, rl_down = rl_down demo_relay_end, rl_closed = False\<rparr> demo_relay_end"
    using own[OF close, of "\<lparr>rl_up = rl_up demo_relay_end, rl_down = rl_down demo_relay_end, rl_closed = False\<rparr>"]
    by (simp add: demo_relay_end_def)
  ultimately show ?thesis by (simp add: start_relay_def)
qed

lemma demo_tunnel:
  "\<exists>route. newPluginRoute demo_routes_env (demo_spec [] [''/api'']) [] = Inr route
     \<and> serveWebSocketTunnel demo_routes_env switching_env route upgrading_request = Tunnelled (start_relay ''q'' 1 ''hi'')"
proof -
  have "cleanPathList [''/api''] \<noteq> []" by (simp add: cleanPathList_def demo_route)
  note n = demo_newPluginRoute[OF this, of "[]"]
  show ?thesis by (simp add: n serveWebSocketTunnel_def switching_env_def pluginDialContext_def)
qed

theorem tunnel_delivers_in_order_witness:
  "\<exists>rest. rl_closed demo_relay_end \<and> fl_sent (rl_down demo_relay_end) = ''hi'' @ rest
     \<and> fl_out (rl_down demo_relay_end) = rest \<and> fl_out (rl_up demo_relay_end) = ''q''"
proof -
  obtain route where t: "serveWebSocketTunnel demo_routes_env switching_env route upgrading_request
      = Tunnelled (start_relay ''q'' 1 ''hi'')" using demo_tunnel by blast
  have c: "rl_closed demo_relay_end" "clean (rl_up demo_relay_end)" "clean (rl_down demo_relay_end)"
    "fl_sent (rl_up demo_relay_end) = ''q''"
    by (simp_all add: demo_relay_end_def clean_def)
  show ?thesis using tunnel_delivers_in_order[OF t demo_run] c by (auto simp: switching_env_def)
qed

section \<open>Closing\<close>

definition both_ended :: "relay \<Rightarrow> bool" where
  "both_ended r \<longleftrightarrow> fl_ended (rl_up r) \<and> fl_ended (rl_down r)"

definition relay_work :: "relay \<Rightarrow> nat" where
  "relay_work r = 2 * (length (fl_pending (rl_up r)) + length (fl_pending (rl_down r)))
     + length (fl_held (rl_up r)) + length (fl_held (rl_down r))
     + of_bool (\<not> fl_done (rl_up r)) + of_bool (\<not> fl_done (rl_down r)) + of_bool (\<not> rl_closed r)"

definition flow_work :: "flow \<Rightarrow> nat" where
  "flow_work f = 2 * length (fl_pending f) + length (fl_held f) + of_bool (\<not> fl_done f)"

lemma copy_step_less: "copy_step f f' \<Longrightarrow> flow_work f' < flow_work f \<and> (fl_ended f \<longrightarrow> fl_ended f')"
  by (induction rule: copy_step.induct) (auto simp: flow_work_def)

text \<open>A direction is stalled when it has bytes to write and the destination neither takes one nor refuses.\<close>

definition stalled :: "flow \<Rightarrow> bool" where
  "stalled f \<longleftrightarrow> \<not> fl_done f \<and> \<not> fl_broken f \<and> fl_held f \<noteq> [] \<and> fl_room f = 0"

lemma copy_progress:
  assumes "fl_ended f" and "\<not> fl_done f" and "\<not> stalled f"
  shows "\<exists>f'. copy_step f f'"
proof (cases "fl_held f = []")
  case held: True
  show ?thesis
  proof (cases "fl_pending f = []")
    case True
    then show ?thesis using finish assms held by blast
  next
    case False
    then have n: "(1::nat) \<le> length (fl_pending f)" "(1::nat) \<le> proxy_buffer_size"
      by (simp_all add: Suc_le_eq proxy_buffer_size_def)
    show ?thesis using fetch[OF assms(2) held _ n] by auto
  qed
next
  case False
  show ?thesis
  proof (cases "fl_broken f")
    case True
    then show ?thesis using write_error[OF assms(2) True False] by blast
  next
    case unbroken: False
    then have "(1::nat) \<le> length (fl_held f)" "(1::nat) \<le> fl_room f"
      using False assms(2,3) by (auto simp: Suc_le_eq stalled_def)
    then show ?thesis using put[OF assms(2) unbroken, of 1] by auto
  qed
qed

text \<open>
  A destination takes the rest of a direction: the copying has returned, or the destination refuses, or it has room for
  everything that is left. While the source has ended and nobody but the tunnel moves, that does not change.
\<close>

definition takes_rest :: "flow \<Rightarrow> bool" where
  "takes_rest f \<longleftrightarrow> fl_done f \<or> fl_broken f \<or> length (fl_held f) + length (fl_pending f) \<le> fl_room f"

lemma copy_step_rest: "copy_step f f' \<Longrightarrow> takes_rest f' = takes_rest f"
  by (induction rule: copy_step.induct) (auto simp: takes_rest_def)

lemma own_step_rest:
  "own_step r r' \<Longrightarrow> takes_rest (rl_up r') = takes_rest (rl_up r) \<and> takes_rest (rl_down r') = takes_rest (rl_down r)"
  by (auto elim!: own_stepE dest: copy_step_rest)

lemma own_steps_rest:
  "own_step\<^sup>*\<^sup>* r r' \<Longrightarrow> takes_rest (rl_up r') = takes_rest (rl_up r) \<and> takes_rest (rl_down r') = takes_rest (rl_down r)"
  by (induction rule: rtranclp_induct) (auto dest: own_step_rest)

lemma stalled_rest: "stalled f \<Longrightarrow> \<not> takes_rest f"
  by (auto simp: stalled_def takes_rest_def)

definition closed_done :: "relay \<Rightarrow> bool" where
  "closed_done r \<longleftrightarrow> (rl_closed r \<longrightarrow> fl_done (rl_up r) \<and> fl_done (rl_down r))"

interpretation closed_done: concurrent_invariant own_step closed_done
  by unfold_locales (auto simp: closed_done_def elim!: own_stepE copy_stepE)

lemma closed_rest:
  assumes "own_step\<^sup>*\<^sup>* r r'" and "rl_closed r'" and "\<not> rl_closed r"
  shows "takes_rest (rl_up r) \<and> takes_rest (rl_down r)"
proof -
  have "closed_done r'" using closed_done.reach_inv[OF assms(1)] assms(3) by (simp add: closed_done_def)
  then have "takes_rest (rl_up r') \<and> takes_rest (rl_down r')" using assms(2) by (simp add: closed_done_def takes_rest_def)
  then show ?thesis using own_steps_rest[OF assms(1)] by simp
qed

interpretation closing: terminating_system own_step both_ended relay_work
  "\<lambda>r. rl_closed r \<or> stalled (rl_up r) \<or> stalled (rl_down r)"
proof
  fix r r' assume s: "own_step r r'" and e: "both_ended r"
  show "both_ended r'" using s e by (auto simp: both_ended_def dest: copy_step_less elim!: own_stepE)
  show "relay_work r' < relay_work r"
    using s by (auto simp: relay_work_def flow_work_def dest!: copy_step_less elim!: own_stepE)
next
  fix r assume e: "both_ended r" and c: "\<not> (rl_closed r \<or> stalled (rl_up r) \<or> stalled (rl_down r))"
  then show "\<exists>r'. own_step r r'"
    using copy_progress[of "rl_up r"] copy_progress[of "rl_down r"] own_step.intros by (metis both_ended_def)
qed

text \<open>
  C25. When a tunnel closes: once both ends have ended their streams or were reset, the tunnel has only finitely many
  steps to take by itself, at most two for each byte still to be read, one for each byte still to be written and
  three more, in whatever order the two goroutines run. If in each direction the destination takes
  the rest, having room for it or refusing it, every way to go on ends with both connections closed. If not, no way does:
  every way ends with a direction that waits for ever in a write, which no deadline interrupts, until the
  destination reads or its connection fails.
\<close>

theorem tunnel_closes:
  assumes "fl_ended (rl_up r)" and "fl_ended (rl_down r)" and "\<not> rl_closed r"
  shows "((\<exists>r'. own_step\<^sup>*\<^sup>* r r' \<and> rl_closed r') \<longleftrightarrow> takes_rest (rl_up r) \<and> takes_rest (rl_down r))
    \<and> (\<forall>n r'. (own_step ^^ n) r r' \<longrightarrow>
         n \<le> 2 * (length (fl_pending (rl_up r)) + length (fl_pending (rl_down r)))
            + length (fl_held (rl_up r)) + length (fl_held (rl_down r)) + 3)
    \<and> (\<forall>r'. own_step\<^sup>*\<^sup>* r r' \<and> (\<nexists>r''. own_step r' r'') \<longrightarrow>
         (if takes_rest (rl_up r) \<and> takes_rest (rl_down r) then rl_closed r'
          else \<not> rl_closed r' \<and> (stalled (rl_up r') \<or> stalled (rl_down r'))))"
proof -
  have e: "both_ended r" using assms by (simp add: both_ended_def)
  let ?t = "takes_rest (rl_up r) \<and> takes_rest (rl_down r)"
  have fin: "if ?t then rl_closed r' else \<not> rl_closed r' \<and> (stalled (rl_up r') \<or> stalled (rl_down r'))"
    if "own_step\<^sup>*\<^sup>* r r'" "rl_closed r' \<or> stalled (rl_up r') \<or> stalled (rl_down r')" for r'
  proof (cases ?t)
    case True
    then have "\<not> stalled (rl_up r')" "\<not> stalled (rl_down r')" using own_steps_rest[OF that(1)] stalled_rest by simp_all blast+
    then show ?thesis using True that(2) by simp
  next
    case False
    then have "\<not> rl_closed r'" using closed_rest[OF that(1) _ assms(3)] by blast
    then show ?thesis using False that(2) by simp
  qed
  have "relay_work r \<le> 2 * (length (fl_pending (rl_up r)) + length (fl_pending (rl_down r)))
      + length (fl_held (rl_up r)) + length (fl_held (rl_down r)) + 3"
    by (simp add: relay_work_def of_bool_def)
  then have "\<forall>n r'. (own_step ^^ n) r r' \<longrightarrow>
         n \<le> 2 * (length (fl_pending (rl_up r)) + length (fl_pending (rl_down r)))
            + length (fl_held (rl_up r)) + length (fl_held (rl_down r)) + 3"
    using closing.steps_bounded[OF _ e] le_trans by blast
  moreover have "(\<exists>r'. own_step\<^sup>*\<^sup>* r r' \<and> rl_closed r') \<longleftrightarrow> ?t"
  proof
    assume t: ?t
    obtain r' where r': "own_step\<^sup>*\<^sup>* r r'" "rl_closed r' \<or> stalled (rl_up r') \<or> stalled (rl_down r')"
      using closing.reaches_final[OF e] by blast
    then have "rl_closed r'" using fin[OF r'] t by simp
    then show "\<exists>r'. own_step\<^sup>*\<^sup>* r r' \<and> rl_closed r'" using r'(1) by blast
  qed (use closed_rest[OF _ _ assms(3)] in blast)
  moreover have "\<forall>r'. own_step\<^sup>*\<^sup>* r r' \<and> (\<nexists>r''. own_step r' r'') \<longrightarrow>
      (if ?t then rl_closed r' else \<not> rl_closed r' \<and> (stalled (rl_up r') \<or> stalled (rl_down r')))"
  proof (intro allI impI, elim conjE)
    fix r' assume r': "own_step\<^sup>*\<^sup>* r r'" "\<nexists>r''. own_step r' r''"
    show "if ?t then rl_closed r' else \<not> rl_closed r' \<and> (stalled (rl_up r') \<or> stalled (rl_down r'))"
      by (rule fin[OF r'(1) closing.stuck_final[OF r'(1) e r'(2)]])
  qed
  ultimately show ?thesis by blast
qed

text \<open>
  Both ends have ended their streams, and the backend's last byte is on its way: it closes when the client has room for
  it, and never when the client does not read.
\<close>

definition last_byte :: "nat \<Rightarrow> relay" where
  "last_byte room =
     (let r = start_relay [] 0 [] in
      r\<lparr>rl_up := (rl_up r)\<lparr>fl_ended := True\<rparr>,
        rl_down := (rl_down r)\<lparr>fl_sent := ''x'', fl_pending := ''x'', fl_room := room, fl_ended := True\<rparr>\<rparr>)"

theorem tunnel_closes_witness:
  "(\<exists>r'. own_step\<^sup>*\<^sup>* (last_byte 1) r' \<and> rl_closed r') \<and> (\<nexists>r'. own_step\<^sup>*\<^sup>* (last_byte 0) r' \<and> rl_closed r')"
proof -
  have e: "fl_ended (rl_up (last_byte n))" "fl_ended (rl_down (last_byte n))" "\<not> rl_closed (last_byte n)" for n
    by (simp_all add: last_byte_def start_relay_def Let_def)
  have t: "takes_rest (rl_up (last_byte n)) \<and> takes_rest (rl_down (last_byte n)) \<longleftrightarrow> 1 \<le> n" for n
    by (simp add: last_byte_def start_relay_def takes_rest_def Let_def)
  have c: "(\<exists>r'. own_step\<^sup>*\<^sup>* (last_byte n) r' \<and> rl_closed r') \<longleftrightarrow> 1 \<le> n" for n
    using tunnel_closes[OF e, THEN conjunct1] unfolding t .
  show ?thesis unfolding c by simp
qed

end
