(* ===== verification/SignRate.thy ===== *)
theory SignRate
  imports SignConcurrency
begin

text \<open>
  The minute counters of a client against the history of its requests: the counters are the numbers of
  signatures and errors recorded in the current minute, and the rate limit bounds the signatures of every
  minute, however requests interleave.
\<close>

section \<open>The history of a client\<close>

definition minute_of :: "int \<Rightarrow> int" where
  "minute_of now = time_truncate now time_minute"

text \<open>The requests recorded for a client: the time, whether it was a signature, whether it failed.\<close>

fun records_of :: "string \<Rightarrow> auth_event list \<Rightarrow> (int \<times> bool \<times> bool) list" where
  "records_of cid [] = []"
| "records_of cid (EvAllowed c act # es) = records_of cid es"
| "records_of cid (EvRecord now ts c act ok reason addr # es) =
     (if c = cid then (now, ok \<and> act = ''sign'', \<not> ok) # records_of cid es else records_of cid es)"

definition signs_in :: "string \<Rightarrow> int \<Rightarrow> auth_event list \<Rightarrow> nat" where
  "signs_in cid m es = length (filter (\<lambda>(now, signed, failed). minute_of now = m \<and> signed) (records_of cid es))"

definition errors_in :: "string \<Rightarrow> int \<Rightarrow> auth_event list \<Rightarrow> nat" where
  "errors_in cid m es = length (filter (\<lambda>(now, signed, failed). minute_of now = m \<and> failed) (records_of cid es))"

text \<open>
  The clock: \<open>record\<close> reads it under the registry's lock, so the times of a client's records do not decrease;
  and it is past the first minute of the year 1, whose start the code takes for \<open>no window\<close>.
\<close>

definition clock_ok :: "string \<Rightarrow> auth_event list \<Rightarrow> bool" where
  "clock_ok cid es \<longleftrightarrow> sorted (map fst (records_of cid es)) \<and> (\<forall>x\<in>set (records_of cid es). zero_time + time_minute \<le> fst x)"

text \<open>The reference: the window is the minute of the last record, the counters count over the history.\<close>

definition reference_counters :: "string \<Rightarrow> auth_event list \<Rightarrow> int \<times> int \<times> int" where
  "reference_counters cid es =
     (if records_of cid es = [] then (zero_time, 0, 0)
      else (let m = minute_of (fst (last (records_of cid es)))
            in (m, int (signs_in cid m es), int (errors_in cid m es))))"

lemma records_of_append [simp]: "records_of cid (es @ fs) = records_of cid es @ records_of cid fs"
  by (induction cid es rule: records_of.induct) auto

lemma minute_of_eq: "minute_of now = zero_time + time_minute * ((now - zero_time) div time_minute)"
  unfolding minute_of_def time_truncate_def using mult_div_mod_eq[of time_minute "now - zero_time"] by linarith

lemma minute_of_mono: "s \<le> t \<Longrightarrow> minute_of s \<le> minute_of t"
  unfolding minute_of_eq by (simp add: time_minute_def zdiv_mono1)

lemma minute_of_nonzero: "zero_time + time_minute \<le> t \<Longrightarrow> minute_of t \<noteq> zero_time"
  using minute_of_mono[of "zero_time + time_minute" t] minute_of_eq[of "zero_time + time_minute"]
  by (auto simp: time_minute_def)

lemma clock_ok_append:
  assumes "clock_ok cid (es @ fs)"
  shows "clock_ok cid es"
  using assms by (auto simp: clock_ok_def sorted_append)

section \<open>The counters are the reference counters\<close>

definition counters :: "clientState \<Rightarrow> int \<times> int \<times> int" where
  "counters st = (st_windowStart st, st_signs st, st_errors st)"

lemma counters_recorded:
  "counters (recorded now act ok st) =
     (let m = minute_of now;
          old = (if st_windowStart st = zero_time \<or> st_windowStart st \<noteq> m then (0, 0) else (st_signs st, st_errors st))
      in (m, fst old + (if ok \<and> act = ''sign'' then 1 else 0), snd old + (if ok then 0 else 1)))"
  by (simp add: counters_def counted_def count_event_def roll_window_def minute_of_def Let_def)

text \<open>Nothing is recorded yet in the minutes after the last record.\<close>

lemma later_minute_empty:
  assumes "sorted (map fst rs)" and "rs \<noteq> []" and "minute_of (fst (last rs)) < m"
  shows "filter (\<lambda>(now, signed, failed). minute_of now = m \<and> signed) rs = []"
    and "filter (\<lambda>(now, signed, failed). minute_of now = m \<and> failed) rs = []"
proof -
  have lt: "\<forall>x\<in>set rs. minute_of (fst x) < m"
  proof
    fix x assume "x \<in> set rs"
    then obtain i where i: "i < length rs" "rs ! i = x" by (metis in_set_conv_nth)
    have "map fst rs ! i \<le> map fst rs ! (length rs - 1)"
      using sorted_nth_mono[OF assms(1), of i "length rs - 1"] i(1) by simp
    then have "fst x \<le> fst (last rs)" using i assms(2) by (simp add: last_conv_nth)
    then show "minute_of (fst x) < m" using minute_of_mono[of "fst x" "fst (last rs)"] assms(3) by simp
  qed
  show "filter (\<lambda>(now, signed, failed). minute_of now = m \<and> signed) rs = []"
    "filter (\<lambda>(now, signed, failed). minute_of now = m \<and> failed) rs = []"
    by (rule filter_False, clarify, drule bspec[OF lt], simp)+
qed

lemma counters_step:
  assumes "counters st = reference_counters cid es" and "clock_ok cid (es @ [EvRecord now ts cid act ok reason addr])"
  shows "counters (recorded now act ok st) = reference_counters cid (es @ [EvRecord now ts cid act ok reason addr])"
proof (cases "records_of cid es = []")
  case True
  then have "st_windowStart st = zero_time" "st_signs st = 0" "st_errors st = 0"
    using assms(1) by (simp_all add: counters_def reference_counters_def)
  then show ?thesis using True
    by (simp add: counters_recorded reference_counters_def signs_in_def errors_in_def Let_def)
next
  case False
  let ?rs = "records_of cid es" and ?m = "minute_of now"
  let ?w = "minute_of (fst (last ?rs))"
  have st: "st_windowStart st = ?w" "st_signs st = int (signs_in cid ?w es)" "st_errors st = int (errors_in cid ?w es)"
    using assms(1) False by (simp_all add: counters_def reference_counters_def Let_def)
  have srt: "sorted (map fst ?rs)" and le: "fst (last ?rs) \<le> now" and nz: "?w \<noteq> zero_time"
    using assms(2) False minute_of_nonzero by (auto simp: clock_ok_def sorted_append)
  show ?thesis
  proof (cases "?w = ?m")
    case True
    then show ?thesis using st nz False
      by (simp add: counters_recorded reference_counters_def signs_in_def errors_in_def Let_def)
  next
    case neq: False
    then have "?w < ?m" using minute_of_mono[OF le] by simp
    from later_minute_empty[OF srt False this] show ?thesis using st neq False
      by (simp add: counters_recorded reference_counters_def signs_in_def errors_in_def Let_def)
  qed
qed

text \<open>The counters of a client follow the history through every event.\<close>

definition follows :: "string \<Rightarrow> auth_event list \<Rightarrow> auth_world \<Rightarrow> bool" where
  "follows cid es w \<longleftrightarrow>
     (case mget (am_clients (fst w)) cid of None \<Rightarrow> False | Some st \<Rightarrow> counters st = reference_counters cid es)"

lemma follows_iff:
  "follows cid es w \<longleftrightarrow> (\<exists>st. mget (am_clients (fst w)) cid = Some st \<and> counters st = reference_counters cid es)"
  by (auto simp: follows_def split: option.splits)

lemma reference_irrelevant: "records_of cid [e] = [] \<Longrightarrow> reference_counters cid (es @ [e]) = reference_counters cid es"
  by (simp add: reference_counters_def signs_in_def errors_in_def)

lemma follows_step:
  assumes "follows cid es w" and "clock_ok cid (es @ [e])" and "cid \<noteq> []"
  shows "follows cid (es @ [e]) (auth_step e w)"
proof -
  obtain st where st: "mget (am_clients (fst w)) cid = Some st" "counters st = reference_counters cid es"
    using assms(1) by (auto simp: follows_iff)
  show ?thesis
  proof (cases e)
    case (EvAllowed c act)
    have r: "reference_counters cid (es @ [e]) = reference_counters cid es" by (simp add: reference_irrelevant EvAllowed)
    from allowed_cases[of c act w] show ?thesis
    proof (elim disjE exE conjE)
      assume "snd (allowed c act w) = w"
      then show ?thesis using st r by (auto simp: follows_iff EvAllowed simp del: map_of_eq_Some_iff)
    next
      fix sc
      assume "mget (am_clients (fst w)) c = Some sc"
        and f: "fst (snd (allowed c act w)) = set_client c (sc\<lparr>st_autoDisabled := True\<rparr>)
              ((fst w)\<lparr>am_revoked := insert c (am_revoked (fst w))\<rparr>)"
      then show ?thesis using st unfolding follows_iff EvAllowed auth_step.simps f r[unfolded EvAllowed]
        by (auto simp: counters_def simp del: map_of_eq_Some_iff)
    qed
  next
    case (EvRecord now ts c act ok reason addr)
    show ?thesis
    proof (cases "c = cid")
      case True
      have "counters (recorded now act ok st) = reference_counters cid (es @ [e])"
        using counters_step[OF st(2), of now ts act ok reason addr] assms(2) by (simp add: EvRecord True)
      then show ?thesis using authRecord_Some[OF assms(3) st(1), of now ts act ok reason addr]
        by (auto simp: follows_iff EvRecord True simp del: map_of_eq_Some_iff)
    next
      case other: False
      then have r: "reference_counters cid (es @ [e]) = reference_counters cid es" by (simp add: reference_irrelevant EvRecord)
      show ?thesis
      proof (cases "c = [] \<or> mget (am_clients (fst w)) c = None")
        case True
        then show ?thesis using st by (simp add: follows_iff r[unfolded EvRecord] EvRecord authRecord_None del: map_of_eq_Some_iff)
      next
        case False
        then obtain sc where "c \<noteq> []" "mget (am_clients (fst w)) c = Some sc" by blast
        from authRecord_Some[OF this, of now ts act ok reason addr] show ?thesis
          using st other by (auto simp: follows_iff r[unfolded EvRecord] EvRecord simp del: map_of_eq_Some_iff)
      qed
    qed
  qed
qed

lemma follows_run:
  "follows cid hs w \<Longrightarrow> clock_ok cid (hs @ es) \<Longrightarrow> cid \<noteq> [] \<Longrightarrow> follows cid (hs @ es) (fold auth_step es w)"
proof (induction es arbitrary: hs w)
  case (Cons e es)
  have "clock_ok cid (hs @ [e])" by (rule clock_ok_append[of _ _ es]) (use Cons.prems(2) in simp)
  from Cons.IH[OF follows_step[OF Cons.prems(1) this Cons.prems(3)]] Cons.prems(2,3) show ?case by simp
qed simp

lemma fresh_follows:
  "mget (am_clients (fst w)) cid = Some (fresh_state cfg) \<Longrightarrow> follows cid [] w"
  by (simp add: follows_iff counters_def reference_counters_def fresh_state_def del: map_of_eq_Some_iff)

lemma config_run:
  "mget (am_clients (fst w)) cid = Some st \<Longrightarrow>
   \<exists>st'. mget (am_clients (fst (fold auth_step es w))) cid = Some st' \<and> st_cfg st' = st_cfg st"
proof (induction es arbitrary: w st)
  case (Cons e es)
  have "\<exists>st1. mget (am_clients (fst (auth_step e w))) cid = Some st1 \<and> st_cfg st1 = st_cfg st"
  proof (cases e)
    case (EvAllowed c act)
    then show ?thesis using allowed_client[OF Cons.prems, of c act] by auto
  next
    case (EvRecord now ts c act ok reason addr)
    then show ?thesis using authRecord_client[OF Cons.prems, of now ts c act ok reason addr] by auto
  qed
  then show ?case using Cons.IH by fastforce
qed simp

text \<open>The decision about a signing request, from the configuration and the number of signatures.\<close>

definition history_decision :: "ClientConfig \<Rightarrow> int \<Rightarrow> bool \<times> string" where
  "history_decision cfg n =
     (if cc_rate cfg > 0 \<and> n \<ge> cc_rate cfg then (False, ''rate limit exceeded'')
      else if cc_auto_signs cfg > 0 \<and> n \<ge> cc_auto_signs cfg
      then (False, if cc_auto_revoke cfg then ''auto-revoked: sign threshold exceeded''
                   else ''auto limit exceeded: sign threshold'')
      else (True, []))"

lemma allowed_decision:
  assumes "mget (am_clients (fst w)) cid = Some st"
  shows "fst (allowed cid ''sign'' w) = history_decision (st_cfg st) (st_signs st)"
  using assms by (auto simp: allowed_def history_decision_def split: prod.splits)

text \<open>
  C20. The signer decides by the history: after any sequence of permission checks and recorded requests since its start,
  with a clock that does not run backwards, the window of a client is the minute of its last record, its counters are
  the numbers of signatures and of errors recorded for it in that minute, counted over the whole history, and a
  signing request is permitted or refused according to that number of signatures: the one of the minute of the last
  record, which need not be the current minute.
\<close>

theorem counters_equal_history:
  assumes "mget (am_clients (fst w)) cid = Some (fresh_state cfg)" and "cid \<noteq> []" and "clock_ok cid es"
    and "reference_counters cid es = (window, signs, errors)"
  shows "\<exists>st. mget (am_clients (fst (fold auth_step es w))) cid = Some st
     \<and> (st_windowStart st, st_signs st, st_errors st) = (window, signs, errors)
     \<and> fst (allowed cid ''sign'' (fold auth_step es w)) = history_decision cfg signs"
proof -
  obtain st where st: "mget (am_clients (fst (fold auth_step es w))) cid = Some st"
    "counters st = reference_counters cid es"
    using follows_run[OF fresh_follows[OF assms(1)], of es] assms(2,3) by (auto simp: follows_iff)
  have "st_cfg st = cfg" using config_run[OF assms(1), of es] st(1) by (simp add: fresh_state_def)
  then show ?thesis using st assms(4) allowed_decision[OF st(1)] by (simp add: counters_def del: map_of_eq_Some_iff)
qed

section \<open>The rate limit of every minute\<close>

text \<open>
  The steps of \<open>conc_step\<close> with their events, the permission checks and the records in the order of the
  registry's lock, and the history of a run.
\<close>

inductive hist_step :: "string \<Rightarrow> nat \<Rightarrow> conc \<Rightarrow> auth_event \<Rightarrow> conc \<Rightarrow> bool" for cid :: string and N :: nat where
  enter: "fst (allowed cid ''sign'' (cn_world s)) = (True, reason) \<Longrightarrow> cn_inflight s < N \<Longrightarrow>
     e = EvAllowed cid ''sign'' \<Longrightarrow>
     hist_step cid N s e \<lparr>cn_world = auth_step e (cn_world s), cn_inflight = Suc (cn_inflight s)\<rparr>"
| leave: "cn_inflight s = Suc n \<Longrightarrow>
     e = EvRecord now ts cid ''sign'' True [] addr \<or> e = EvRecord now ts cid ''sign'' False reason addr \<Longrightarrow>
     hist_step cid N s e \<lparr>cn_world = auth_step e (cn_world s), cn_inflight = n\<rparr>"
| other: "background cid e \<Longrightarrow>
     hist_step cid N s e \<lparr>cn_world = auth_step e (cn_world s), cn_inflight = cn_inflight s\<rparr>"

inductive hist_run :: "string \<Rightarrow> nat \<Rightarrow> conc \<Rightarrow> auth_event list \<Rightarrow> conc \<Rightarrow> bool" for cid :: string and N :: nat where
  start: "hist_run cid N s [] s"
| event: "hist_run cid N s es t \<Longrightarrow> hist_step cid N t e u \<Longrightarrow> hist_run cid N s (es @ [e]) u"

inductive_simps hist_run_Nil [simp]: "hist_run cid N s [] t"

lemma hist_step_world: "hist_step cid N s e t \<Longrightarrow> cn_world t = auth_step e (cn_world s)"
  by (induction rule: hist_step.induct) auto

lemma conc_step_iff: "conc_step cid N s t \<longleftrightarrow> (\<exists>e. hist_step cid N s e t)"
proof
  assume "conc_step cid N s t"
  then show "\<exists>e. hist_step cid N s e t"
  proof (cases rule: conc_step.cases)
    case (enter reason)
    then show ?thesis using hist_step.enter[OF enter(2,3) HOL.refl] by auto
  next
    case (signed n now ts addr)
    then show ?thesis using hist_step.leave[OF signed(2), of "EvRecord now ts cid ''sign'' True [] addr"] by auto
  next
    case (failed n now ts reason addr)
    then show ?thesis using hist_step.leave[OF failed(2), of "EvRecord now ts cid ''sign'' False reason addr"] by auto
  next
    case (other e)
    then show ?thesis using hist_step.other[OF other(2)] by auto
  qed
next
  assume "\<exists>e. hist_step cid N s e t"
  then obtain e where "hist_step cid N s e t" by blast
  then show "conc_step cid N s t"
    by (cases rule: hist_step.cases) (auto intro: conc_step.intros)
qed

lemma hist_run_world: "hist_run cid N s es t \<Longrightarrow> cn_world t = fold auth_step es (cn_world s)"
  by (induction rule: hist_run.induct) (auto simp: hist_step_world)

lemma conc_run_iff: "conc_run cid N s t \<longleftrightarrow> (\<exists>es. hist_run cid N s es t)"
proof
  show "conc_run cid N s t \<Longrightarrow> \<exists>es. hist_run cid N s es t"
    by (induction rule: conc_run.induct) (auto simp: conc_step_iff intro: hist_run.intros)
  have "hist_run cid N s es t \<Longrightarrow> conc_run cid N s t" for es
    by (induction rule: hist_run.induct) (blast intro: conc_run.intros conc_step_iff[THEN iffD2])+
  then show "\<exists>es. hist_run cid N s es t \<Longrightarrow> conc_run cid N s t" by blast
qed

lemma signs_in_step:
  "signs_in cid m (es @ [e]) = signs_in cid m es
   \<or> (\<exists>now ts act reason addr. e = EvRecord now ts cid act True reason addr \<and> minute_of now = m)"
  by (cases e) (auto simp: signs_in_def)

lemma every_minute_bounded:
  assumes "hist_run cid N s es t" and "follows cid [] (cn_world s)" and "conc_inv cid N limit s" and "limit > 0" and "N \<ge> 1"
    and "cid \<noteq> []" and "clock_ok cid es"
  shows "int (signs_in cid m es) \<le> limit + int N - 1"
  using assms
proof (induction rule: hist_run.induct)
  case (start s)
  then show ?case by (simp add: signs_in_def)
next
  case (event s es t e u)
  have ok: "clock_ok cid es" by (rule clock_ok_append[OF event.prems(6)])
  from signs_in_step[of cid m es e] show ?case
  proof
    assume "signs_in cid m (es @ [e]) = signs_in cid m es"
    then show ?thesis using event.IH[OF event.prems(1-5) ok] by simp
  next
    assume "\<exists>now ts act reason addr. e = EvRecord now ts cid act True reason addr \<and> minute_of now = m"
    then have m: "reference_counters cid (es @ [e]) = (m, int (signs_in cid m (es @ [e])), int (errors_in cid m (es @ [e])))"
      by (auto simp: reference_counters_def Let_def)
    have u: "hist_run cid N s (es @ [e]) u" by (rule hist_run.event[OF event.hyps])
    have "follows cid (es @ [e]) (cn_world u)"
      using follows_run[OF event.prems(1), of "es @ [e]"] event.prems(5,6) hist_run_world[OF u] by simp
    moreover have "conc_inv cid N limit u" using conc_run_inv[OF _ event.prems(2,3)] u conc_run_iff by blast
    ultimately show ?thesis unfolding follows_iff m by (auto simp: conc_inv_def counters_def simp del: map_of_eq_Some_iff)
  qed
qed

text \<open>
  C19. The rate limit under concurrency: with at most \<open>N\<close> requests of a client between permission check and
  bookkeeping, in any interleaving with any other events since the start of the signer, as long as the clock the
  bookkeeping reads does not run backwards (nor show the year 1), the signatures recorded for the client, whose
  limit is positive, in any minute of the clock are at most \<open>rate_per_minute + N - 1\<close>; requests handled one at a time
  (\<open>N = 1\<close>) never exceed the limit.
\<close>

theorem rate_limit_every_minute:
  assumes "hist_run cid N \<lparr>cn_world = w, cn_inflight = 0\<rparr> es t" and "N \<ge> 1" and "cid \<noteq> []"
    and "mget (am_clients (fst w)) cid = Some (fresh_state cfg)" and "cc_rate cfg > 0" and "clock_ok cid es"
  shows "int (signs_in cid m es) \<le> cc_rate cfg + int N - 1"
proof (rule every_minute_bounded[OF assms(1) _ _ assms(5,2,3,6)])
  show "follows cid [] (cn_world \<lparr>cn_world = w, cn_inflight = 0\<rparr>)" using fresh_follows[OF assms(4)] by simp
  show "conc_inv cid N (cc_rate cfg) \<lparr>cn_world = w, cn_inflight = 0\<rparr>"
    using assms(2,4,5) by (auto simp: conc_inv_def fresh_state_def simp del: map_of_eq_Some_iff)
qed

section \<open>A run of two requests\<close>

definition two_signs :: "auth_event list" where
  "two_signs = [EvAllowed ''a'' ''sign'', EvAllowed ''a'' ''sign'', EvRecord 0 ''t'' ''a'' ''sign'' True [] ''h'',
     EvRecord 1 ''t'' ''a'' ''sign'' True [] ''h'']"

lemma two_signs_clock: "clock_ok ''a'' two_signs"
  by (simp add: clock_ok_def two_signs_def go_simps)

lemma two_signs_minute: "minute_of 0 = 0" "minute_of 1 = 0"
  by (simp_all add: minute_of_def time_truncate_def go_simps)

theorem counters_equal_history_witness:
  "\<exists>st. mget (am_clients (fst (fold auth_step two_signs rate_one_world))) ''a'' = Some st \<and> st_signs st = 2 \<and> st_errors st = 0
     \<and> fst (allowed ''a'' ''sign'' (fold auth_step two_signs rate_one_world)) = (False, ''rate limit exceeded'')"
proof -
  have "reference_counters ''a'' two_signs = (0, 2, 0)"
    by (simp add: reference_counters_def signs_in_def errors_in_def two_signs_def two_signs_minute)
  moreover have "history_decision rate_one_cfg 2 = (False, ''rate limit exceeded'')"
    by (simp add: history_decision_def rate_one_cfg_def)
  ultimately show ?thesis using counters_equal_history[OF rate_one_client _ two_signs_clock] by auto
qed

lemma two_signs_run:
  "hist_run ''a'' 2 \<lparr>cn_world = rate_one_world, cn_inflight = 0\<rparr> two_signs
     \<lparr>cn_world = fold auth_step two_signs rate_one_world, cn_inflight = 0\<rparr>"
proof -
  let ?w1 = "authRecord 0 ''t'' ''a'' ''sign'' True [] ''h'' rate_one_world"
  let ?A = "EvAllowed ''a'' ''sign''" and ?R = "\<lambda>now. EvRecord now ''t'' ''a'' ''sign'' True [] ''h''"
  have a: "hist_step ''a'' 2 \<lparr>cn_world = rate_one_world, cn_inflight = n\<rparr> ?A \<lparr>cn_world = rate_one_world, cn_inflight = Suc n\<rparr>"
    if "n < 2" for n
    using hist_step.enter[of "''a''" "\<lparr>cn_world = rate_one_world, cn_inflight = n\<rparr>" "[]" 2 ?A] that
    by (simp add: rate_one_allowed)
  have r: "hist_step ''a'' 2 \<lparr>cn_world = w, cn_inflight = Suc n\<rparr> (?R now)
      \<lparr>cn_world = auth_step (?R now) w, cn_inflight = n\<rparr>" for w n now
    using hist_step.leave[of "\<lparr>cn_world = w, cn_inflight = Suc n\<rparr>" n "?R now" now "''t''" "''a''" "''h''" "[]" 2] by simp
  have "hist_run ''a'' 2 \<lparr>cn_world = rate_one_world, cn_inflight = 0\<rparr> (((([] @ [?A]) @ [?A]) @ [?R 0]) @ [?R 1])
     \<lparr>cn_world = auth_step (?R 1) ?w1, cn_inflight = 0\<rparr>"
    by (rule hist_run.event[OF hist_run.event[OF hist_run.event[OF hist_run.event[OF hist_run.start a] a] r[unfolded auth_step.simps]] r]) simp_all
  then show ?thesis by (simp add: two_signs_def rate_one_allowed)
qed

theorem rate_limit_every_minute_witness:
  "signs_in ''a'' 0 two_signs = 2 \<and> int (signs_in ''a'' 0 two_signs) \<le> cc_rate rate_one_cfg + int 2 - 1"
proof -
  have "signs_in ''a'' 0 two_signs = 2" by (simp add: signs_in_def two_signs_def two_signs_minute)
  moreover have "cc_rate rate_one_cfg = 1" by (simp add: rate_one_cfg_def)
  ultimately show ?thesis
    using rate_limit_every_minute[OF two_signs_run _ _ rate_one_client _ two_signs_clock, of 0] by simp
qed

end
