(* ===== verification/WizardForm.thy ===== *)
theory WizardForm
  imports WizardEdge
begin

text \<open>
  The page of the wizard as a form: its fields with the values it shows, and what a browser posts. The values shown
  are the ones the installation takes for blank fields. And what an installed edge is worth whose id the console
  does not accept.
\<close>

section \<open>The form\<close>

text \<open>The roles one can choose, and the fields of the two sections with the values the page shows.\<close>

definition role_options :: "string list" where
  "role_options = [''edge'', ''trusted'']"

definition edge_fields :: "(string \<times> string) list" where
  "edge_fields =
     [(''edge_register_url'', ''https://ssl-signer.example.com''),
      (''edge_keyless_url'', ''https://gateway.example.com:9443/api/v1/ssl-signer''),
      (''edge_id'', ''''),
      (''edge_label'', ''''),
      (''edge_listen'', '':443,:2053,:2083,:2087,:2096,:8443''),
      (''edge_backend'', ''http://127.0.0.1:8080''),
      (''edge_cert'', ''/etc/myzerossl/certs/example.com.fullchain.crt''),
      (''edge_ca'', ''/etc/ssl/certs/ca-certificates.crt''),
      (''edge_client_cert'', ''/etc/myzerossl/keyless/edge-client.crt''),
      (''edge_client_key'', ''/etc/myzerossl/keyless/edge-client.key'')]"

definition trusted_fields :: "(string \<times> string) list" where
  "trusted_fields =
     [(''trusted_console_url'', ''https://ssl-signer.example.com''),
      (''trusted_keyless_url'', ''https://gateway.example.com:9443/api/v1/ssl-signer''),
      (''trusted_private_key'', ''/etc/openresty/ssl/js.gripe.key.pem''),
      (''trusted_keyless_listen'', ''127.0.0.1:19443''),
      (''trusted_account_api'', ''https://gateway.example.com/api/v1/myaccount''),
      (''trusted_account_login'', ''https://account.example.com/login''),
      (''trusted_client_id'', ''''),
      (''trusted_session_secret'', '''')]"

text \<open>Which section is shown for a role, edge or trusted centre; a hidden section is posted all the same.\<close>

definition syncRole :: "string \<Rightarrow> bool \<times> bool" where
  "syncRole role = (role = ''edge'', role = ''trusted'')"

text \<open>
  What is posted: for every field what was typed into it, or else the value shown. \<open>blank_form\<close> is the form of a
  client that posts only what was typed.
\<close>

definition submission :: "string \<Rightarrow> (string \<Rightarrow> string option) \<Rightarrow> string \<Rightarrow> string" where
  "submission role typed k =
     (if k = ''role'' then role
      else (case map_of (edge_fields @ trusted_fields) k of
              None \<Rightarrow> []
            | Some shown \<Rightarrow> (case typed k of None \<Rightarrow> shown | Some v \<Rightarrow> v)))"

definition blank_form :: "string \<Rightarrow> (string \<Rightarrow> string option) \<Rightarrow> string \<Rightarrow> string" where
  "blank_form role typed k = (if k = ''role'' then role else (case typed k of None \<Rightarrow> [] | Some v \<Rightarrow> v))"

section \<open>What the page shows is what is installed\<close>

text \<open>A field of the page, read by the handlers with its shown value, or no value, as the fallback.\<close>

lemma trim_shown: "list_all (\<lambda>(k, v). trimSpace v = v) (edge_fields @ trusted_fields)"
  by code_simp

definition falls_back :: "string \<Rightarrow> string \<Rightarrow> bool" where
  "falls_back k fallback \<longleftrightarrow>
     (case map_of (edge_fields @ trusted_fields) k of None \<Rightarrow> False | Some shown \<Rightarrow> shown = fallback \<or> shown = [])"

lemma value_submission:
  assumes "falls_back k fallback"
  shows "wiz_value (submission role typed) k fallback = wiz_value (blank_form role typed) k fallback"
proof -
  obtain shown where m: "map_of (edge_fields @ trusted_fields) k = Some shown" and f: "shown = fallback \<or> shown = []"
    using assms by (auto simp: falls_back_def split: option.splits)
  have "''role'' \<notin> fst ` set (edge_fields @ trusted_fields)"
    by (simp add: edge_fields_def trusted_fields_def)
  then have n: "k \<noteq> ''role''" using map_of_SomeD[OF m] by force
  have "trimSpace shown = shown" using trim_shown map_of_SomeD[OF m] by (auto simp: list_all_iff)
  then show ?thesis
    using m n f by (cases "typed k") (auto simp: wiz_value_def submission_def blank_form_def Let_def)
qed

lemma fields_fall_back:
  "falls_back ''edge_register_url'' ''https://ssl-signer.example.com''"
  "falls_back ''edge_keyless_url'' ''https://gateway.example.com:9443/api/v1/ssl-signer''"
  "falls_back ''edge_id'' v" "falls_back ''edge_label'' v"
  "falls_back ''edge_listen'' '':443,:2053,:2083,:2087,:2096,:8443''"
  "falls_back ''edge_backend'' ''http://127.0.0.1:8080''"
  "falls_back ''edge_cert'' ''/etc/myzerossl/certs/example.com.fullchain.crt''"
  "falls_back ''edge_ca'' ''/etc/ssl/certs/ca-certificates.crt''"
  "falls_back ''edge_client_cert'' ''/etc/myzerossl/keyless/edge-client.crt''"
  "falls_back ''edge_client_key'' ''/etc/myzerossl/keyless/edge-client.key''"
  "falls_back ''trusted_console_url'' ''https://ssl-signer.example.com''"
  "falls_back ''trusted_keyless_url'' ''https://gateway.example.com:9443/api/v1/ssl-signer''"
  "falls_back ''trusted_private_key'' ''/etc/openresty/ssl/js.gripe.key.pem''"
  "falls_back ''trusted_keyless_listen'' ''127.0.0.1:19443''"
  "falls_back ''trusted_account_api'' ''https://gateway.example.com/api/v1/myaccount''"
  "falls_back ''trusted_account_login'' ''https://account.example.com/login''"
  "falls_back ''trusted_client_id'' v" "falls_back ''trusted_session_secret'' v"
  by (simp_all add: falls_back_def edge_fields_def trusted_fields_def)

lemmas form_values = value_submission[OF fields_fall_back(1)] value_submission[OF fields_fall_back(2)]
  value_submission[OF fields_fall_back(3)] value_submission[OF fields_fall_back(4)] value_submission[OF fields_fall_back(5)]
  value_submission[OF fields_fall_back(6)] value_submission[OF fields_fall_back(7)] value_submission[OF fields_fall_back(8)]
  value_submission[OF fields_fall_back(9)] value_submission[OF fields_fall_back(10)] value_submission[OF fields_fall_back(11)]
  value_submission[OF fields_fall_back(12)] value_submission[OF fields_fall_back(13)] value_submission[OF fields_fall_back(14)]
  value_submission[OF fields_fall_back(15)] value_submission[OF fields_fall_back(16)] value_submission[OF fields_fall_back(17)]
  value_submission[OF fields_fall_back(18)]

lemma same_settings:
  "edge_env env raw (submission role typed) = edge_env env raw (blank_form role typed)"
  "edge_result env (submission role typed) = edge_result env (blank_form role typed)"
  "keylessd_env (submission role typed) = keylessd_env (blank_form role typed)"
  "console_env_file raw (submission role typed) = console_env_file raw (blank_form role typed)"
  "trusted_result (submission role typed) = trusted_result (blank_form role typed)"
  unfolding edge_env_def edge_result_def keylessd_env_def console_env_file_def trusted_result_def form_values
  by (rule HOL.refl)+

text \<open>
  The wizard installs what its page shows: whatever was typed into any of the fields, posting the form has the
  same effect, on files and commands and on the answer, as posting only what was typed; a field left as the page
  shows it means the value shown.
\<close>

theorem page_shows_what_is_installed:
  "wiz_apply env repo raw (Inr (submission role typed)) w = wiz_apply env repo raw (Inr (blank_form role typed)) w"
proof -
  have "submission role typed ''role'' = role" "blank_form role typed ''role'' = role"
    by (simp_all add: submission_def blank_form_def)
  then show ?thesis
    by (simp add: wiz_apply_def wiz_installEdge_def wiz_installTrusted_def same_settings)
qed

text \<open>One section is shown for each role one can choose.\<close>

lemma one_section: "role \<in> set role_options \<Longrightarrow> fst (syncRole role) \<noteq> snd (syncRole role)"
  by (auto simp: role_options_def syncRole_def)

section \<open>An edge id the console does not accept\<close>

text \<open>
  The wizard takes any edge id, the console only some: an edge installed with an id that has a character other than
  letters, digits, dot, hyphen and underscore, say, ends its start with an error, at every start, and the console
  records nothing.
\<close>

lemma registerEdge_invalid:
  assumes "cn_decodeRegister env (take (16 * 1024) (cq_body r)) = Inr req" and "\<not> validClientID (trimSpace (rr_ID req))"
  shows "registerEdge env a now raw r d = (d, console_json 400 (JErr ''invalid id''))"
  using assms by (simp add: registerEdge_def Let_def)

lemma enrollEdge_refused:
  assumes "\<And>u. ev_badURL env u = None" and "tok \<noteq> []" and "url = trimRight consoleURL CHR ''/''"
    and "ev_do env w (register_call url rid (if label = [] then rid else label) tok) = (w0, Inr resp)"
    and "rs_status resp \<noteq> 202" and "rs_status resp \<noteq> 409"
  shows "enrollEdge env raw consoleURL rid label tok w
    = Some (w0, Inl (''edge registration failed: '' @ statusText (rs_status resp)))"
  using assms by (cases "label = []") (simp_all add: enrollEdge_def)

theorem unaccepted_id_never_enrols:
  assumes inst: "wiz_installEdge wenv repo raw form w = (w', Inr u)" "length raw = 48"
    and env: "fs_files (fst w') ''/etc/myzerossl/edgeproxy.env'' = Some text" "c = edge_settings (env_of text) flags" "ed_token flags = []"
    and id: "rid = wiz_value form ''edge_id'' (hostname wenv @ ''-edge'')" "\<not> validClientID (trimSpace rid)"
    and link: "link_ok env a l decode (trimRight (ed_registerURL c) CHR ''/'') rid
        (if ed_registerLabel c = [] then rid else ed_registerLabel c) (secret raw) st"
    and new: "fs_files d ''/var/lib/memecdn/keyless.token'' = None" "fs_read_error d ''/var/lib/memecdn/keyless.token'' = None"
  shows "edge_enrolled (edge_on_console env a l decode now raw2) raw3 c d (dc, [])
    = Some ((dc, []), Inl (''edge enrollment failed: edge registration failed: '' @ statusText 400))"
proof -
  note cfg = installed_edge_config[OF inst env(1,2)]
  let ?url = "trimRight (ed_registerURL c) CHR ''/''" and ?label = "if ed_registerLabel c = [] then rid else ed_registerLabel c"
  let ?call = "register_call ?url rid ?label (secret raw)"
  have "cn_decodeRegister env (take (16 * 1024) (cq_body (hl_parse l ?call)))
      = Inr \<lparr>rr_ID = rid, rr_Label = ?label, rr_InstallToken = secret raw\<rparr>" using link by (auto simp: link_ok_def)
  then have h: "registerEdge env a now raw2 (hl_parse l ?call) dc = (dc, console_json 400 (JErr ''invalid id''))"
    using id(2) by (intro registerEdge_invalid) auto
  note reg = register_over_link[OF link h]
  have bad: "ev_badURL (edge_on_console env a l decode now raw2) v = None" for v by (simp add: edge_on_console_def)
  have st: "rs_status (hl_render l (securityHeaders (console_json 400 (JErr ''invalid id'')))) = 400" using reg(3) by simp
  have "enrollEdge (edge_on_console env a l decode now raw2) raw3 (ed_registerURL c) rid (ed_registerLabel c) (secret raw) (dc, [])
    = Some ((dc, []), Inl (''edge registration failed: '' @ statusText 400))"
    using enrollEdge_refused[OF bad secret_nonempty[OF inst(2)] HOL.refl reg(2)] st by simp
  moreover have "readTokenFile d ''/var/lib/memecdn/keyless.token'' = Inr []" by (simp add: readTokenFile_def readFile_def new)
  moreover have "ed_token c = []" using cfg(5) env(3) by simp
  moreover have "mustParseDuration (ev_duration (edge_on_console env a l decode now raw2)) ''10s'' \<noteq> None"
    by (simp add: edge_on_console_def mustParseDuration_def)
  ultimately show ?thesis
    using cfg(8,9) by (auto simp: edge_enrolled_def cfg(2,3,4,6) id(1)[symmetric])
qed

theorem unaccepted_id_never_enrols_witness:
  "\<exists>w' c e. wiz_installEdge sample_wizard ''/opt'' (replicate 48 (CHR ''x'')) (\<lambda>k. if k = ''edge_id'' then ''a b'' else [])
        sample_machine = (w', Inr ())
     \<and> edge_enrolled e [] c (clean_fs (\<lambda>_. None)) (sample_files [] [], [] :: console_event list list)
        = Some ((sample_files [] [], []), Inl (''edge enrollment failed: edge registration failed: '' @ statusText 400))"
proof -
  let ?raw = "replicate 48 (CHR ''x'')" and ?form = "\<lambda>k. if k = ''edge_id'' then ''a b'' else []"
  let ?flags = "demo_edge_config\<lparr>ed_token := []\<rparr>"
  let ?text = "env_text (edge_env sample_wizard ?raw ?form)"
  let ?c = "edge_settings (env_of ?text) ?flags"
  obtain w' where w': "wiz_installEdge sample_wizard ''/opt'' ?raw ?form sample_machine = (w', Inr ())"
    using sample_edge_install by blast
  note ft = installEdge_file[OF w']
  have l: "length ?raw = 48" "ed_token ?flags = []" by simp_all
  let ?label = "if ed_registerLabel ?c = [] then ''a b'' else ed_registerLabel ?c"
  let ?env = "sample_env\<lparr>cn_decodeRegister := \<lambda>_. Inr \<lparr>rr_ID = ''a b'', rr_Label = ?label, rr_InstallToken = secret ?raw\<rparr>\<rparr>"
  let ?link = "\<lparr>hl_parse = (\<lambda>req. if or_method req = ''POST'' then sample_request ''POST'' ''/api/register'' [] None
                          else sample_request ''GET'' (''/api/install/'' @ secret ?raw) [] None),
      hl_render = (\<lambda>resp. \<lparr>rs_status = co_status resp, rs_header = [], rs_body = []\<rparr>)\<rparr>"
  have v: "''a b'' = wiz_value ?form ''edge_id'' (hostname sample_wizard @ ''-edge'')"
    by (simp add: wiz_value_def no_edge_space_ascii ascii_space_def)
  have bad: "\<not> validClientID (trimSpace ''a b'')" by code_simp
  have lk: "link_ok ?env sample_app ?link (\<lambda>_. Inr \<lparr>ir_KeylessToken = ''T'', ir_EdgeConfig = edgeConfig sample_app\<rparr>)
      (trimRight (ed_registerURL ?c) CHR ''/'') ''a b'' ?label (secret ?raw) ''T''"
    by (simp add: link_ok_def)
  have new: "fs_files (clean_fs (\<lambda>_. None)) ''/var/lib/memecdn/keyless.token'' = None"
    "fs_read_error (clean_fs (\<lambda>_. None)) ''/var/lib/memecdn/keyless.token'' = None" by (simp_all add: clean_fs_def)
  note r = unaccepted_id_never_enrols[where now = "''t''" and ?raw2.0 = "[]" and ?raw3.0 = "[]" and dc = "sample_files [] []",
      OF w' l(1) ft HOL.refl l(2) v bad lk new]
  show ?thesis using w' r by blast
qed

end
