(* ===== verification/EnrolDesk.thy ===== *)
theory EnrolDesk
  imports ConsoleTokens
begin

text \<open>
  What the console promises about enrolment, as an abstract machine: a desk that takes applications, an
  administrator who grants or refuses them and who may look over the clients, and holders of install tokens who
  collect the signer token of a granted one; with what the desk keeps and what it hands out over a run.
\<close>

section \<open>The enrolment desk\<close>

text \<open>An application is waiting, granted, delivered (and may be collected again), used up, or refused.\<close>

datatype phase = Waiting | Granted | Delivered | Spent | Refused

type_synonym application = "string \<times> string \<times> phase"

text \<open>Applications with id and install token, in the order of arrival; clients with their signer tokens.\<close>

record desk =
  dk_regs :: "application list"
  dk_clients :: "(string \<times> string) list"

text \<open>
  The actions: an application for an id with an install token; granting it with a signer token; a grant that
  is recorded for the client but not for the application; refusing; collecting the signer token with the
  install token, for the last time or not; confirming the installation; looking over all clients.
\<close>

datatype act = Apply string string | Grant string string | HalfGrant string string | Refuse string
  | Collect string bool | Confirm string | Inspect

text \<open>The ways a signer token leaves the desk: collected with an install token, or in an overview of the clients.\<close>

datatype channel = Install string | Overview

type_synonym handout = "channel \<times> string \<times> string"

abbreviation enrolled :: "phase \<Rightarrow> bool" where
  "enrolled p \<equiv> p \<in> {Granted, Delivered, Spent}"

fun is_for :: "string \<Rightarrow> application \<Rightarrow> bool" where
  "is_for i (j, t, p) \<longleftrightarrow> j = i"

fun waits_for :: "string \<Rightarrow> application \<Rightarrow> bool" where
  "waits_for i (j, t, p) \<longleftrightarrow> j = i \<and> p = Waiting"

fun opens :: "string \<Rightarrow> application \<Rightarrow> bool" where
  "opens t (j, t', p) \<longleftrightarrow> t' = t \<and> enrolled p"

fun with_phase :: "phase \<Rightarrow> application \<Rightarrow> application" where
  "with_phase q (i, t, p) = (i, t, q)"

definition is_client :: "string \<Rightarrow> desk \<Rightarrow> bool" where
  "is_client i s \<longleftrightarrow> map_of (dk_clients s) i \<noteq> None"

definition signer_token :: "string \<Rightarrow> desk \<Rightarrow> string" where
  "signer_token i s = (case map_of (dk_clients s) i of None \<Rightarrow> [] | Some tok \<Rightarrow> tok)"

definition settle :: "(application \<Rightarrow> bool) \<Rightarrow> phase \<Rightarrow> desk \<Rightarrow> desk option" where
  "settle P q s = (case find_index P (dk_regs s) of
     None \<Rightarrow> None
   | Some k \<Rightarrow> Some (s\<lparr>dk_regs := (dk_regs s)[k := with_phase q (dk_regs s ! k)]\<rparr>))"

text \<open>One action, \<open>None\<close> when it is not enabled.\<close>

fun desk_do :: "act \<Rightarrow> desk \<Rightarrow> desk option" where
  "desk_do (Apply i t) s =
     (if is_client i s then None
      else Some (s\<lparr>dk_regs := (case find_index (waits_for i) (dk_regs s) of
                    Some k \<Rightarrow> (dk_regs s)[k := (i, t, Waiting)]
                  | None \<Rightarrow> dk_regs s @ [(i, t, Waiting)])\<rparr>))"
| "desk_do (Grant i tok) s =
     (if is_client i s then None
      else settle (is_for i) Granted (s\<lparr>dk_clients := dk_clients s @ [(i, tok)]\<rparr>))"
| "desk_do (HalfGrant i tok) s =
     (if is_client i s \<or> find_index (is_for i) (dk_regs s) = None then None
      else Some (s\<lparr>dk_clients := dk_clients s @ [(i, tok)]\<rparr>))"
| "desk_do (Refuse i) s = settle (is_for i) Refused s"
| "desk_do (Collect t final) s =
     (case find_index (opens t) (dk_regs s) of
        None \<Rightarrow> None
      | Some k \<Rightarrow>
          if snd (snd (dk_regs s ! k)) = Spent \<or> signer_token (fst (dk_regs s ! k)) s = [] then None
          else settle (opens t) (if final then Spent else Delivered) s)"
| "desk_do (Confirm t) s = settle (opens t) Spent s"
| "desk_do Inspect s = Some s"

text \<open>
  What is handed out: the way, the client id and the signer token. A collection hands out one token, an overview
  those of all clients.
\<close>

fun desk_gives :: "act \<Rightarrow> desk \<Rightarrow> handout list" where
  "desk_gives (Collect t final) s =
     (case find_index (opens t) (dk_regs s) of
        None \<Rightarrow> []
      | Some k \<Rightarrow> (let i = fst (dk_regs s ! k) in [(Install t, i, signer_token i s)]))"
| "desk_gives Inspect s = map (Pair Overview) (dk_clients s)"
| "desk_gives _ s = []"

text \<open>A run of the desk over actions and idle rounds: the final desk and the tokens handed out, in order.\<close>

fun desk_run :: "act option list \<Rightarrow> desk \<Rightarrow> (desk \<times> handout list) option" where
  "desk_run [] s = Some (s, [])"
| "desk_run (None # as) s = desk_run as s"
| "desk_run (Some act # as) s =
     (case desk_do act s of
        None \<Rightarrow> None
      | Some s' \<Rightarrow> map_option (\<lambda>(s'', log). (s'', desk_gives act s @ log)) (desk_run as s'))"

section \<open>What the desk keeps\<close>

definition desk_step :: "desk \<Rightarrow> desk \<Rightarrow> bool" where
  "desk_step s s' \<longleftrightarrow> (\<exists>act. desk_do act s = Some s')"

lemma desk_run_reach: "desk_run as s = Some (s', log) \<Longrightarrow> desk_step\<^sup>*\<^sup>* s s'"
proof (induction as s arbitrary: s' log rule: desk_run.induct)
  case (3 act as s)
  then obtain s1 log1 where "desk_do act s = Some s1" "desk_run as s1 = Some (s', log1)"
    by (auto split: option.splits)
  then show ?case using 3(1) by (meson converse_rtranclp_into_rtranclp desk_step_def)
qed auto

lemma settle_Some:
  "settle P q s = Some s' \<longleftrightarrow>
     (\<exists>k. find_index P (dk_regs s) = Some k \<and> s' = s\<lparr>dk_regs := (dk_regs s)[k := with_phase q (dk_regs s ! k)]\<rparr>)"
  by (auto simp: settle_def split: option.splits)

lemma find_indexD: "find_index P xs = Some k \<Longrightarrow> k < length xs \<and> P (xs ! k)"
  using find_index_Some by blast

lemma with_phase_simps [simp]:
  "fst (with_phase q x) = fst x" "fst (snd (with_phase q x)) = fst (snd x)" "snd (snd (with_phase q x)) = q"
  by (cases x; simp)+

lemma predicates_of [simp]:
  "is_for i x \<longleftrightarrow> fst x = i" "waits_for i x \<longleftrightarrow> fst x = i \<and> snd (snd x) = Waiting"
  "opens t x \<longleftrightarrow> fst (snd x) = t \<and> enrolled (snd (snd x))"
  by (cases x; simp)+

text \<open>
  Every action leaves the clients or appends a new one, and leaves the applications, appends a waiting one, or
  changes one of them.
\<close>

lemma desk_do_cases:
  assumes "desk_do act s = Some s'"
  obtains (apply_new) i t where "\<not> is_client i s" "s' = s\<lparr>dk_regs := dk_regs s @ [(i, t, Waiting)]\<rparr>"
    | (apply_again) i t k where "k < length (dk_regs s)" "fst (dk_regs s ! k) = i" "snd (snd (dk_regs s ! k)) = Waiting"
        "\<not> is_client i s" "s' = s\<lparr>dk_regs := (dk_regs s)[k := (i, t, Waiting)]\<rparr>"
    | (grant) i tok k where "\<not> is_client i s" "k < length (dk_regs s)" "fst (dk_regs s ! k) = i"
        "s' = s\<lparr>dk_clients := dk_clients s @ [(i, tok)], dk_regs := (dk_regs s)[k := with_phase Granted (dk_regs s ! k)]\<rparr>"
    | (half) i tok where "\<not> is_client i s" "s' = s\<lparr>dk_clients := dk_clients s @ [(i, tok)]\<rparr>"
    | (refuse) k where "k < length (dk_regs s)" "s' = s\<lparr>dk_regs := (dk_regs s)[k := with_phase Refused (dk_regs s ! k)]\<rparr>"
    | (enrol) k q where "k < length (dk_regs s)" "enrolled (snd (snd (dk_regs s ! k)))" "enrolled q"
        "s' = s\<lparr>dk_regs := (dk_regs s)[k := with_phase q (dk_regs s ! k)]\<rparr>"
    | (inspect) "s' = s"
proof (cases act)
  case (Apply i t)
  then show thesis using assms that(1)[of i t] that(2)[of _ i t]
    by (auto split: if_splits option.splits dest!: find_indexD)
next
  case (Grant i tok)
  then show thesis using assms that(3)[of i _ tok]
    by (auto simp: settle_Some split: if_splits dest!: find_indexD)
next
  case (HalfGrant i tok)
  then show thesis using assms that(4) by (auto split: if_splits)
next
  case (Refuse i)
  then show thesis using assms that(5) by (auto simp: settle_Some dest!: find_indexD)
next
  case (Collect t final)
  then show thesis using assms that(6)[of _ "if final then Spent else Delivered"]
    by (auto simp: settle_Some split: option.splits if_splits dest!: find_indexD)
next
  case (Confirm t)
  then show thesis using assms that(6)[of _ Spent] by (auto simp: settle_Some dest!: find_indexD)
next
  case Inspect
  then show thesis using assms that(7) by simp
qed

lemma is_client_append [simp]:
  "is_client j (s\<lparr>dk_clients := dk_clients s @ [(i, tok)]\<rparr>) \<longleftrightarrow> j = i \<or> is_client j s"
  "is_client j (s\<lparr>dk_regs := rs\<rparr>) \<longleftrightarrow> is_client j s"
  "is_client j (s\<lparr>dk_regs := rs, dk_clients := dk_clients s @ [(i, tok)]\<rparr>) \<longleftrightarrow> j = i \<or> is_client j s"
  by (auto simp: is_client_def map_add_def split: option.splits)

lemma is_client_iff: "is_client i s \<longleftrightarrow> i \<in> fst ` set (dk_clients s)"
  by (simp add: is_client_def map_of_eq_None_iff)

text \<open>
  Each client is there once and enrolled through one application at most, and enrolled applications belong to
  clients.
\<close>

definition desk_ok :: "desk \<Rightarrow> bool" where
  "desk_ok s \<longleftrightarrow> distinct (map fst (dk_clients s))
     \<and> (\<forall>j<length (dk_regs s). enrolled (snd (snd (dk_regs s ! j))) \<longrightarrow>
     is_client (fst (dk_regs s ! j)) s
     \<and> (\<forall>k<length (dk_regs s). enrolled (snd (snd (dk_regs s ! k))) \<longrightarrow> fst (dk_regs s ! k) = fst (dk_regs s ! j) \<longrightarrow> k = j))"

interpretation desk: concurrent_invariant desk_step desk_ok
proof
  fix s s' assume "desk_step s s'" and ok: "desk_ok s"
  then obtain act where "desk_do act s = Some s'" by (auto simp: desk_step_def)
  then show "desk_ok s'"
  proof (cases rule: desk_do_cases)
    case (apply_new i t)
    then show ?thesis using ok by (auto simp: desk_ok_def nth_append)
  next
    case (apply_again i t k)
    then show ?thesis using ok by (simp add: desk_ok_def nth_list_update)
  next
    case (grant i tok k)
    have "distinct (map fst (dk_clients s'))"
      using ok grant(1) unfolding desk_ok_def is_client_iff grant(4) by simp
    then show ?thesis using ok grant(1-3) unfolding desk_ok_def grant(4)
      by (simp add: nth_list_update) metis
  next
    case (half i tok)
    then show ?thesis using ok by (auto simp: desk_ok_def is_client_iff)
  next
    case (refuse k)
    then show ?thesis using ok by (simp add: desk_ok_def nth_list_update)
  next
    case (enrol k q)
    then show ?thesis using ok unfolding desk_ok_def enrol(4)
      by (simp add: nth_list_update del: insert_iff) metis
  next
    case inspect
    then show ?thesis using ok by simp
  qed
qed

text \<open>The signer token of a client, for good.\<close>

definition key_of :: "string \<Rightarrow> string \<Rightarrow> desk \<Rightarrow> bool" where
  "key_of i tok s \<longleftrightarrow> distinct (map fst (dk_clients s)) \<and> (i, tok) \<in> set (dk_clients s)"

interpretation key_of: concurrent_invariant desk_step "key_of i tok" for i tok
proof
  fix s s' assume "desk_step s s'" and ok: "key_of i tok s"
  then obtain act where "desk_do act s = Some s'" by (auto simp: desk_step_def)
  then show "key_of i tok s'"
    by (cases rule: desk_do_cases) (use ok in \<open>auto simp: key_of_def is_client_iff\<close>)
qed

text \<open>The only install token that is of use for a client.\<close>

definition only_install :: "string \<Rightarrow> string \<Rightarrow> desk \<Rightarrow> bool" where
  "only_install i t s \<longleftrightarrow> is_client i s
     \<and> (\<forall>x\<in>set (dk_regs s). fst x = i \<and> enrolled (snd (snd x)) \<longrightarrow> fst (snd x) = t)"

interpretation only_install: concurrent_invariant desk_step "only_install i t" for i t
proof
  fix s s' assume "desk_step s s'" and ok: "only_install i t s"
  then obtain act where "desk_do act s = Some s'" by (auto simp: desk_step_def)
  then show "only_install i t s'"
    by (cases rule: desk_do_cases) (use ok in \<open>auto simp: only_install_def dest!: set_update_subsetD\<close>)
qed

text \<open>A client nobody can enrol: none of its applications was granted.\<close>

definition stranded :: "string \<Rightarrow> desk \<Rightarrow> bool" where
  "stranded i s \<longleftrightarrow> is_client i s \<and> (\<forall>x\<in>set (dk_regs s). fst x = i \<longrightarrow> \<not> enrolled (snd (snd x)))"

interpretation stranded: concurrent_invariant desk_step "stranded i" for i
proof
  fix s s' assume "desk_step s s'" and ok: "stranded i s"
  then obtain act where "desk_do act s = Some s'" by (auto simp: desk_step_def)
  then show "stranded i s'"
    by (cases rule: desk_do_cases) (use ok in \<open>auto simp: stranded_def dest!: set_update_subsetD\<close>)
qed

section \<open>What the desk hands out\<close>

lemma gives_cases:
  assumes "desk_do act s = Some s'" and "(c, i, tok) \<in> set (desk_gives act s)"
  obtains (collected) t x where "c = Install t" "x \<in> set (dk_regs s)" "fst x = i" "fst (snd x) = t" "enrolled (snd (snd x))"
      "map_of (dk_clients s) i = Some tok"
    | (looked_over) "c = Overview" "(i, tok) \<in> set (dk_clients s)"
proof (cases act)
  case (Collect t final)
  obtain k where k: "find_index (opens t) (dk_regs s) = Some k"
    using assms(1) by (cases "find_index (opens t) (dk_regs s)") (simp_all add: Collect)
  then have "signer_token (fst (dk_regs s ! k)) s \<noteq> []" using assms(1) by (simp add: Collect split: if_splits)
  moreover have x: "c = Install t" "i = fst (dk_regs s ! k)" "tok = signer_token i s"
    using assms(2) k by (simp_all add: Collect Let_def)
  ultimately have "map_of (dk_clients s) i = Some tok"
    by (cases "map_of (dk_clients s) i") (simp_all add: signer_token_def)
  then show thesis using find_indexD[OF k] x by (intro collected[of t "dk_regs s ! k"]) simp_all
next
  case Inspect
  then show thesis using assms(2) looked_over by auto
qed (use assms(2) in simp_all)

lemma gives_key:
  assumes "distinct (map fst (dk_clients s))" and "desk_do act s = Some s'" and "(c, i, tok) \<in> set (desk_gives act s)"
  shows "key_of i tok s"
  by (rule gives_cases[OF assms(2,3)]) (auto simp: key_of_def assms(1) dest: map_of_SomeD)

lemma key_gives:
  assumes "key_of i tok s" and "desk_do act s = Some s'" and "(c, i, tok') \<in> set (desk_gives act s)"
  shows "tok' = tok"
proof -
  have "key_of i tok' s" using gives_key assms unfolding key_of_def by blast
  then show ?thesis using assms(1) unfolding key_of_def by (metis eq_key_imp_eq_value)
qed

lemma gives_only_install:
  assumes "desk_ok s" and "desk_do act s = Some s'" and "(Install t, i, tok) \<in> set (desk_gives act s)"
  shows "only_install i t s"
proof -
  obtain x where x: "x \<in> set (dk_regs s)" "fst x = i" "fst (snd x) = t" "enrolled (snd (snd x))"
    "map_of (dk_clients s) i = Some tok" by (rule gives_cases[OF assms(2,3)]) auto
  obtain j where j: "j < length (dk_regs s)" "dk_regs s ! j = x" using x(1) by (auto simp: in_set_conv_nth)
  have "y = x" if y: "y \<in> set (dk_regs s)" "fst y = i" "enrolled (snd (snd y))" for y
  proof -
    obtain k where k: "k < length (dk_regs s)" "dk_regs s ! k = y" using y(1) by (auto simp: in_set_conv_nth)
    have "k = j" using assms(1) j k x(2,4) y(2,3) unfolding desk_ok_def by blast
    then show ?thesis using j(2) k(2) by simp
  qed
  then show ?thesis unfolding only_install_def is_client_def using x(3,5) by blast
qed

lemma only_install_gives:
  assumes "only_install i t s" and "desk_do act s = Some s'" and "(Install t', i, tok) \<in> set (desk_gives act s)"
  shows "t' = t"
  by (rule gives_cases[OF assms(2,3)]) (use assms(1) in \<open>auto simp: only_install_def\<close>)

lemma stranded_gives:
  assumes "stranded i s" and "desk_do act s = Some s'"
  shows "(Install t, i, tok) \<notin> set (desk_gives act s)"
proof
  assume "(Install t, i, tok) \<in> set (desk_gives act s)"
  from gives_cases[OF assms(2) this] show False using assms(1) by (auto simp: stranded_def)
qed

text \<open>What every action hands out under an invariant, a run hands out.\<close>

lemma run_gives:
  assumes "desk_run as s = Some (s', log)" and "I s" and "x \<in> set log"
    and "\<And>s1 s2. desk_step s1 s2 \<Longrightarrow> I s1 \<Longrightarrow> I s2"
    and "\<And>act s1 s2 y. I s1 \<Longrightarrow> desk_do act s1 = Some s2 \<Longrightarrow> y \<in> set (desk_gives act s1) \<Longrightarrow> P y"
  shows "P x"
  using assms(1-3)
proof (induction as s arbitrary: s' log rule: desk_run.induct)
  case (3 act as s)
  then obtain s1 log1 where x: "desk_do act s = Some s1" "desk_run as s1 = Some (s', log1)" "log = desk_gives act s @ log1"
    by (auto split: option.splits)
  have "desk_step s s1" using x(1) by (auto simp: desk_step_def)
  then have "I s1" using assms(4) 3(3) by blast
  then show ?case using 3(1)[OF x(1,2)] 3(4) assms(5)[OF 3(3) x(1)] unfolding x(3) set_append Un_iff by blast
qed auto

lemma key_run:
  assumes "desk_run as s = Some (s', log)" and "key_of i tok s" and "(c, i, tok') \<in> set log"
  shows "tok' = tok"
proof -
  have "\<forall>c tok'. (c, i, tok') = y \<longrightarrow> tok' = tok" if "y \<in> set log" for y
    by (rule run_gives[where I = "key_of i tok", OF assms(1,2) that, where P = "\<lambda>y. \<forall>c tok'. (c, i, tok') = y \<longrightarrow> tok' = tok"])
      (use key_of.step_inv key_gives in blast)+
  then show ?thesis using assms(3) by blast
qed

lemma only_install_run:
  assumes "desk_run as s = Some (s', log)" and "only_install i t s" and "(Install t', i, tok) \<in> set log"
  shows "t' = t"
proof -
  have "\<forall>t' tok. (Install t', i, tok) = y \<longrightarrow> t' = t" if "y \<in> set log" for y
    by (rule run_gives[where I = "only_install i t", OF assms(1,2) that, where P = "\<lambda>y. \<forall>t' tok. (Install t', i, tok) = y \<longrightarrow> t' = t"])
      (use only_install.step_inv only_install_gives in blast)+
  then show ?thesis using assms(3) by blast
qed

text \<open>The token of a stranded client is handed out in overviews only.\<close>

lemma stranded_run:
  assumes "desk_run as s = Some (s', log)" and "stranded i s" and "key_of i tok s" and "(c, i, tok') \<in> set log"
  shows "c = Overview \<and> tok' = tok"
proof -
  have "\<forall>t tok. (Install t, i, tok) \<noteq> y" if "y \<in> set log" for y
    by (rule run_gives[where I = "stranded i", OF assms(1,2) that, where P = "\<lambda>y. \<forall>t tok. (Install t, i, tok) \<noteq> y"])
      (use stranded.step_inv stranded_gives in blast)+
  then have "c \<noteq> Install t" for t using assms(4) by blast
  then show ?thesis using key_run[OF assms(1,3,4)] by (cases c) auto
qed

text \<open>
  Over a run one signer token per client is handed out, and one install token is of use for it.
\<close>

lemma log_single_valued:
  "desk_run as s = Some (s', log) \<Longrightarrow> desk_ok s \<Longrightarrow> (c, i, tok) \<in> set log \<Longrightarrow> (c', i, tok') \<in> set log \<Longrightarrow>
   tok' = tok \<and> (c = Overview \<or> c' = Overview \<or> c' = c)"
proof (induction as s arbitrary: s' log rule: desk_run.induct)
  case (3 act as s)
  then obtain s1 log1 where x: "desk_do act s = Some s1" "desk_run as s1 = Some (s', log1)" "log = desk_gives act s @ log1"
    by (auto split: option.splits)
  have step: "desk_step s s1" using x(1) by (auto simp: desk_step_def)
  have run: "desk_run (Some act # as) s = Some (s', log)" using x by simp
  have dist: "distinct (map fst (dk_clients s))" using 3(3) by (simp add: desk_ok_def)
  have key: "tok2 = tok1 \<and> (c1 = Overview \<or> c2 = Overview \<or> c2 = c1)"
    if g: "(c1, i, tok1) \<in> set (desk_gives act s)" "(c2, i, tok2) \<in> set log" for c1 tok1 c2 tok2
  proof (intro conjI)
    show "tok2 = tok1" by (rule key_run[OF run gives_key[OF dist x(1) g(1)] g(2)])
    show "c1 = Overview \<or> c2 = Overview \<or> c2 = c1"
    proof (cases c1)
      case (Install t)
      show ?thesis
        using only_install_run[OF run gives_only_install[OF 3(3) x(1)]] g unfolding Install by (cases c2) blast+
    qed simp
  qed
  show ?case
    using key[of c tok c' tok'] key[of c' tok' c tok] 3(1)[OF x(1,2) desk.step_inv[OF step 3(3)]] 3(4,5)
    unfolding x(3) set_append Un_iff by blast
qed auto

end
