(* ===== verification/ConsoleSpec.thy ===== *)
theory ConsoleSpec
  imports EnrolDesk
begin

text \<open>
  The console refines the enrolment desk: every request is nothing or one action of the desk, the one it stands for
  (\<open>act_of\<close>) or half of a grant, and the tokens the answers carry are the tokens the desk hands out, in the same
  order. What the desk keeps holds for the console.
\<close>

section \<open>The console as a desk\<close>

definition phase_of :: "edgeRegistration \<Rightarrow> phase" where
  "phase_of g =
     (if rg_Status g = ''approved'' then
        (if rg_InstallUsedAt g \<noteq> [] then Spent else if rg_InstallStatus g = ''delivered'' then Delivered else Granted)
      else if rg_Status g = ''pending'' then Waiting else Refused)"

definition application_of :: "edgeRegistration \<Rightarrow> application" where
  "application_of g = (rg_ID g, rg_InstallToken g, phase_of g)"

definition client_key :: "ClientConfig \<Rightarrow> string \<times> string" where
  "client_key c = (cc_id c, cc_token c)"

definition desk_of :: "console_env \<Rightarrow> app \<Rightarrow> fs \<Rightarrow> desk" where
  "desk_of env a d =
     \<lparr>dk_regs = (case regs_of env a d of Inl _ \<Rightarrow> [] | Inr gs \<Rightarrow> map application_of gs),
      dk_clients = (case clients_of env a d of Inl _ \<Rightarrow> [] | Inr cs \<Rightarrow> map client_key cs)\<rparr>"

text \<open>
  Who may do what: the action a request stands for. Anybody may apply; an administrator's session is needed to grant,
  to refuse and to look over the clients; whoever names an install token may collect with it or confirm.
\<close>

definition apply_of :: "console_env \<Rightarrow> string \<Rightarrow> console_request \<Rightarrow> act option" where
  "apply_of env raw1 r =
     (case cn_decodeRegister env (take (16 * 1024) (cq_body r)) of
        Inl _ \<Rightarrow> None
      | Inr req \<Rightarrow>
          (let i = trimSpace (rr_ID req);
               t = (if trimSpace (rr_InstallToken req) = [] then randomString raw1 else trimSpace (rr_InstallToken req))
           in if validClientID i \<and> validInstallToken t then Some (Apply i t) else None))"

definition settle_of :: "string \<Rightarrow> console_request \<Rightarrow> act option" where
  "settle_of raw1 r =
     (case parseRegistrationAction (cq_path r) of
        None \<Rightarrow> None
      | Some (i, action) \<Rightarrow>
          if action = ''approve'' then Some (Grant i (randomString raw1))
          else if action = ''reject'' then Some (Refuse i) else None)"

definition confirm_of :: "console_request \<Rightarrow> act option" where
  "confirm_of r =
     (if hasSuffix (cq_path r) ''/verified''
      then Some (Confirm (trimSuffix (trimPrefix (cq_path r) ''/api/install/'') ''/verified'')) else None)"

definition collect_of :: "console_request \<Rightarrow> act" where
  "collect_of r = Collect (trimPrefix (cq_path r) ''/api/install/'') (\<not> wantsJSON r)"

fun act_of :: "console_env \<Rightarrow> app \<Rightarrow> console_event \<Rightarrow> act option" where
  "act_of env a (now, raw1, raw2, r) =
     (if cq_method r = ''POST'' then
        (if cq_path r = ''/api/register'' then apply_of env raw1 r
         else if hasPrefix (cq_path r) ''/api/install/'' then confirm_of r
         else if hasPrefix (cq_path r) ''/api/registrations/'' \<and> currentUser env a r \<noteq> None then settle_of raw1 r
         else None)
      else if cq_method r = ''GET'' \<or> cq_method r = ''HEAD'' then
        (if hasPrefix (cq_path r) ''/api/install/'' then Some (collect_of r)
         else if cq_path r = ''/api/summary'' \<and> currentUser env a r \<noteq> None then Some Inspect
         else None)
      else None)"

text \<open>A request may do its action, or half of a grant.\<close>

definition may_do :: "console_env \<Rightarrow> app \<Rightarrow> console_event \<Rightarrow> act \<Rightarrow> bool" where
  "may_do env a e act \<longleftrightarrow>
     (case act of HalfGrant i tok \<Rightarrow> act_of env a e = Some (Grant i tok) | _ \<Rightarrow> act_of env a e = Some act)"

text \<open>
  The tokens in an answer, and the log of a run. An install script is read the way the shell reads it; the overview
  holds every entry of the client file.
\<close>

definition handed_out :: "console_response \<Rightarrow> (string \<times> string) list" where
  "handed_out resp =
     (case co_body resp of
        JInstall cid tok cfg \<Rightarrow> [(cid, tok)]
      | InstallScript q cid \<Rightarrow> (case sh_word Unquoted q of None \<Rightarrow> [] | Some tok \<Rightarrow> [(cid, tok)])
      | JSummary cs revoked auditLines regs \<Rightarrow> map client_key cs
      | _ \<Rightarrow> [])"

definition channel_of :: "console_request \<Rightarrow> channel" where
  "channel_of r = (if cq_path r = ''/api/summary'' then Overview else Install (trimPrefix (cq_path r) ''/api/install/''))"

fun handed :: "console_env \<Rightarrow> app \<Rightarrow> console_event \<Rightarrow> fs \<Rightarrow> handout list" where
  "handed env a (now, raw1, raw2, r) d =
     (case consoleHandler env a now raw1 raw2 r d of
        None \<Rightarrow> []
      | Some (_, resp) \<Rightarrow> map (Pair (channel_of r)) (handed_out resp))"

text \<open>
  A request together with the files that cannot be written while it is served: disks fill up and recover, so a
  handler that writes two files can be stopped between them.
\<close>

type_synonym disk_event = "(string \<Rightarrow> error option) \<times> console_event"

abbreviation faulty :: "(string \<Rightarrow> error option) \<Rightarrow> fs \<Rightarrow> fs" where
  "faulty w d \<equiv> d\<lparr>fs_write_error := w\<rparr>"

fun disk_step :: "console_env \<Rightarrow> app \<Rightarrow> disk_event \<Rightarrow> fs \<Rightarrow> fs" where
  "disk_step env a (w, e) d = console_step env a e (faulty w d)"

fun console_log :: "console_env \<Rightarrow> app \<Rightarrow> disk_event list \<Rightarrow> fs \<Rightarrow> handout list" where
  "console_log env a [] d = []"
| "console_log env a ((w, e) # es) d
     = handed env a e (faulty w d) @ console_log env a es (disk_step env a (w, e) d)"

section \<open>Each handler is an action of the desk\<close>

declare predicates_of [simp del]

lemma desk_of_eq:
  "regs_of env a d = Inr gs \<Longrightarrow> clients_of env a d = Inr cs \<Longrightarrow>
   desk_of env a d = \<lparr>dk_regs = map application_of gs, dk_clients = map client_key cs\<rparr>"
  by (simp add: desk_of_def)

lemma find_index_map: "find_index P (map f xs) = find_index (\<lambda>x. P (f x)) xs"
  by (simp add: find_index_def takeWhile_map comp_def)

lemma find_index_iff: "find_index P xs = Some i \<longleftrightarrow> i < length xs \<and> P (xs ! i) \<and> (\<forall>j<i. \<not> P (xs ! j))"
proof
  assume "find_index P xs = Some i"
  then show "i < length xs \<and> P (xs ! i) \<and> (\<forall>j<i. \<not> P (xs ! j))" using find_index_Some by metis
next
  assume r: "i < length xs \<and> P (xs ! i) \<and> (\<forall>j<i. \<not> P (xs ! j))"
  then obtain k where k: "find_index P xs = Some k"
    using find_index_None[of P xs] nth_mem by (cases "find_index P xs") blast+
  note x = find_index_Some[OF k]
  have "k = i" using r x(2) x(3)[of i] by (metis linorder_neqE_nat)
  with k show "find_index P xs = Some i" by simp
qed

lemma application_simps [simp]:
  "is_for i (application_of g) \<longleftrightarrow> rg_ID g = i" "opens t (application_of g) \<longleftrightarrow> install_candidate t g"
  "waits_for i (application_of g) \<longleftrightarrow> rg_ID g = i \<and> rg_Status g = ''pending''"
  "fst (application_of g) = rg_ID g" "fst (snd (application_of g)) = rg_InstallToken g"
  by (auto simp: application_of_def phase_of_def install_candidate_def)

lemma client_key_map:
  "map_of (map client_key cs) i = None \<longleftrightarrow> i \<notin> cc_id ` set cs"
  "client_token i cs = (case map_of (map client_key cs) i of None \<Rightarrow> [] | Some tok \<Rightarrow> tok)"
  by (induction cs) (auto simp: client_key_def client_token_def)

lemma is_client_keys: "is_client i \<lparr>dk_regs = rs, dk_clients = map client_key cs\<rparr> \<longleftrightarrow> i \<in> cc_id ` set cs"
  using client_key_map(1)[of cs i] by (simp add: is_client_def)

lemma client_key_new: "client_key (new_client i tok) = (i, tok)"
  by (simp add: client_key_def new_client_def)

text \<open>Changing one registration settles its application.\<close>

lemma desk_of_settle:
  assumes "regs_of env a d = Inr gs" and "clients_of env a d = Inr cs" and "find_index (\<lambda>g. P (application_of g)) gs = Some k"
    and "regs_of env a d' = Inr (gs[k := g])" and "clients_of env a d' = Inr cs"
    and "rg_ID g = rg_ID (gs ! k)" and "rg_InstallToken g = rg_InstallToken (gs ! k)"
  shows "settle P (phase_of g) (desk_of env a d) = Some (desk_of env a d')"
proof -
  have "with_phase (phase_of g) (application_of (gs ! k)) = application_of g"
    using assms(6,7) by (simp add: application_of_def)
  then show ?thesis
    using find_index_Some(1)[OF assms(3)]
    by (simp add: settle_def desk_of_eq[OF assms(1,2)] desk_of_eq[OF assms(4,5)] find_index_map assms(3) map_update)
qed

lemma register_act:
  assumes ok: "console_ok env a" and h: "registerEdge env a now raw1 r d = (d', resp)"
  shows "d' = d \<and> co_status resp \<noteq> 202
    \<or> (\<exists>act. apply_of env raw1 r = Some act \<and> desk_do act (desk_of env a d) = Some (desk_of env a d')
        \<and> desk_gives act (desk_of env a d) = [])"
proof (cases "d' = d \<and> co_status resp \<noteq> 202")
  case False
  with registerEdge_effect[OF ok h] obtain cs gs req req0 where
    f: "clients_of env a d = Inr cs" "regs_of env a d = Inr gs"
    and v: "validClientID (rr_ID req)" "validInstallToken (rr_InstallToken req)" "rr_ID req \<notin> cc_id ` set cs"
    and b: "cn_decodeRegister env (take (16 * 1024) (cq_body r)) = Inr req0" "rr_ID req = trimSpace (rr_ID req0)"
      "rr_InstallToken req = (if trimSpace (rr_InstallToken req0) = [] then randomString raw1 else trimSpace (rr_InstallToken req0))"
    and e: "regs_of env a d' = Inr (case refresh_pending r now req gs of
              Some gs' \<Rightarrow> gs' | None \<Rightarrow> gs @ [pending_registration a r now req])" "clients_of env a d' = Inr cs"
    by blast
  let ?act = "Apply (rr_ID req) (rr_InstallToken req)"
  have "apply_of env raw1 r = Some ?act"
    using v(1,2) unfolding apply_of_def b(1) sum.case b(2,3) Let_def by simp
  moreover have "desk_do ?act (desk_of env a d) = Some (desk_of env a d')"
  proof (cases "refresh_pending r now req gs")
    case None
    then have "find_index (\<lambda>g. waits_for (rr_ID req) (application_of g)) gs = None"
      by (auto simp: find_index_None refresh_pending_None set_pending_ids)
    moreover have "application_of (pending_registration a r now req) = (rr_ID req, rr_InstallToken req, Waiting)"
      by (simp add: application_of_def phase_of_def pending_registration_def)
    ultimately show ?thesis using None v(3) e(1)
      by (simp add: desk_of_eq[OF f(2,1)] desk_of_eq[OF _ e(2)] find_index_map is_client_def client_key_map
         )
  next
    case (Some gs')
    then obtain j g where j: "j < length gs" "gs' = gs[j := g]" "rg_ID (gs ! j) = rr_ID req" "rg_Status (gs ! j) = ''pending''"
      and g: "g = (gs ! j)\<lparr>rg_Label := rr_Label req, rg_RemoteAddr := clientAddress r, rg_RequestedAt := now,
                 rg_InstallToken := rr_InstallToken req, rg_InstallIssuedAt := now\<rparr>"
      and first: "\<forall>k<j. \<not> (rg_ID (gs ! k) = rr_ID req \<and> rg_Status (gs ! k) = ''pending'')"
      by (rule refresh_pending_Some)
    have fi: "find_index (\<lambda>g. waits_for (rr_ID req) (application_of g)) gs = Some j"
      using j first by (simp add: find_index_iff)
    have "application_of g = (rr_ID req, rr_InstallToken req, Waiting)"
      using j(3,4) by (simp add: application_of_def phase_of_def g)
    then show ?thesis using Some v(3) e(1) j(2) fi
      by (simp add: desk_of_eq[OF f(2,1)] desk_of_eq[OF _ e(2)] find_index_map is_client_def client_key_map
          map_update)
  qed
  ultimately show ?thesis by (intro disjI2 exI[of _ ?act]) simp
qed simp

lemma registration_act:
  assumes inv: "console_inv env a d" and h: "registrationAction env a now raw1 raw2 r d = (d', resp)"
  shows "d' = d \<and> co_status resp \<noteq> 200
    \<or> (\<exists>act. settle_of raw1 r = Some act \<and> desk_do act (desk_of env a d) = Some (desk_of env a d')
        \<and> desk_gives act (desk_of env a d) = [])
    \<or> (\<exists>i tok. settle_of raw1 r = Some (Grant i tok) \<and> co_status resp = 500
        \<and> desk_do (HalfGrant i tok) (desk_of env a d) = Some (desk_of env a d'))"
proof (cases "d' = d \<and> co_status resp \<noteq> 200")
  case False
  obtain cs0 gs0 where b: "console_ok env a" "clients_of env a d = Inr cs0" "regs_of env a d = Inr gs0"
    "clients_ok cs0" "regs_ok gs0" using inv by (rule console_invE)
  from False registrationAction_effect[OF b(1) h] obtain cid cs gs i where
    f: "clients_of env a d = Inr cs" "regs_of env a d = Inr gs" and i: "find_index (\<lambda>g. rg_ID g = cid) gs = Some i"
    and e: "(parseRegistrationAction (cq_path r) = Some (cid, ''approve'') \<and> cid \<notin> cc_id ` set cs
             \<and> clients_of env a d' = Inr (cs @ [new_client cid (randomString raw1)])
             \<and> (regs_of env a d' = Inr (gs[i := approved now (randomString raw2) (gs ! i)])
               \<or> regs_of env a d' = Inr gs \<and> co_status resp = 500))
           \<or> parseRegistrationAction (cq_path r) = Some (cid, ''reject'') \<and> clients_of env a d' = Inr cs
             \<and> regs_of env a d' = Inr (gs[i := (gs ! i)\<lparr>rg_Status := ''rejected'', rg_RejectedAt := now\<rparr>])"
    by blast
  note len = find_index_Some(1)[OF i]
  have i': "find_index (\<lambda>g. is_for cid (application_of g)) gs = Some i" using i by simp
  have nonempty: "rg_InstallToken (gs ! i) \<noteq> []"
    using regs_ok_nth[OF b(5), of i] f(2) b(3) len by (auto simp: reg_ok_def dest: validInstallToken_nonempty)
  let ?s = "desk_of env a d"
  from e consider (full) "parseRegistrationAction (cq_path r) = Some (cid, ''approve'')" "cid \<notin> cc_id ` set cs"
      "clients_of env a d' = Inr (cs @ [new_client cid (randomString raw1)])"
      "regs_of env a d' = Inr (gs[i := approved now (randomString raw2) (gs ! i)])"
    | (half) "parseRegistrationAction (cq_path r) = Some (cid, ''approve'')" "cid \<notin> cc_id ` set cs"
      "clients_of env a d' = Inr (cs @ [new_client cid (randomString raw1)])" "regs_of env a d' = Inr gs" "co_status resp = 500"
    | (reject) "parseRegistrationAction (cq_path r) = Some (cid, ''reject'')" "clients_of env a d' = Inr cs"
      "regs_of env a d' = Inr (gs[i := (gs ! i)\<lparr>rg_Status := ''rejected'', rg_RejectedAt := now\<rparr>])" by blast
  then show ?thesis
  proof cases
    case full
    have "application_of (approved now (randomString raw2) (gs ! i)) = with_phase Granted (application_of (gs ! i))"
      using nonempty by (simp add: application_of_def phase_of_def) (simp add: approved_def Let_def)
    then have "desk_do (Grant cid (randomString raw1)) ?s = Some (desk_of env a d')"
      using full(2) len i'
      by (simp add: settle_def is_client_def client_key_map desk_of_eq[OF f(2,1)] desk_of_eq[OF full(4,3)] find_index_map
          map_update client_key_new del: application_simps)
    then show ?thesis using full(1)
      by (intro disjI2 disjI1 exI[of _ "Grant cid (randomString raw1)"]) (simp add: settle_of_def)
  next
    case half
    have "desk_do (HalfGrant cid (randomString raw1)) ?s = Some (desk_of env a d')"
      using half(2) len i'
      by (simp add: is_client_def client_key_map desk_of_eq[OF f(2,1)] desk_of_eq[OF half(4,3)] find_index_map
          client_key_new del: application_simps)
    then show ?thesis using half(1,5)
      by (intro disjI2 exI[of _ cid] exI[of _ "randomString raw1"]) (simp add: settle_of_def)
  next
    case reject
    have "settle (is_for cid) (phase_of ((gs ! i)\<lparr>rg_Status := ''rejected'', rg_RejectedAt := now\<rparr>)) ?s = Some (desk_of env a d')"
      by (rule desk_of_settle[OF f(2,1) i' reject(3,2)]) simp_all
    then have "desk_do (Refuse cid) ?s = Some (desk_of env a d')" by (simp add: phase_of_def)
    then show ?thesis using reject(1) by (intro disjI2 disjI1 exI[of _ "Refuse cid"]) (simp add: settle_of_def)
  qed
qed simp

lemma client_act:
  assumes ok: "console_ok env a" and h: "clientAction env a r d = (d', resp)"
  shows "desk_of env a d' = desk_of env a d"
proof (cases "d' = d")
  case False
  with clientAction_effect[OF ok h] obtain cs cs' where
    c: "regs_of env a d' = regs_of env a d" "clients_of env a d = Inr cs" "clients_of env a d' = Inr cs'"
    and k: "map (\<lambda>c. (cc_id c, cc_token c)) cs' = map (\<lambda>c. (cc_id c, cc_token c)) cs" by blast
  have "map client_key cs' = map client_key cs" using k by (simp add: client_key_def[abs_def])
  with c show ?thesis by (simp add: desk_of_def)
qed simp

lemma verify_act:
  assumes inv: "console_inv env a d" and h: "verifyInstall env a now r d = (d', resp)" and n: "now \<noteq> []"
  shows "d' = d \<and> co_status resp \<noteq> 200
    \<or> (\<exists>act. confirm_of r = Some act \<and> desk_do act (desk_of env a d) = Some (desk_of env a d')
        \<and> desk_gives act (desk_of env a d) = [])"
proof (cases "d' = d \<and> co_status resp \<noteq> 200")
  case False
  obtain cs gs0 where b: "console_ok env a" "clients_of env a d = Inr cs" "regs_of env a d = Inr gs0"
    using inv by (rule console_invE)
  let ?t = "trimSuffix (trimPrefix (cq_path r) ''/api/install/'') ''/verified''"
  from False verifyInstall_effect[OF b(1) h] b(2) obtain gs i where gs: "regs_of env a d = Inr gs"
    and i: "find_index (\<lambda>g. opens ?t (application_of g)) gs = Some i"
    and e: "regs_of env a d' = Inr (gs[i := (gs ! i)\<lparr>rg_InstallUsedAt := now, rg_InstallVerifiedAt := now,
              rg_InstallStatus := ''verified'', rg_InstallError := []\<rparr>])" "clients_of env a d' = Inr cs"
    by auto
  have "rg_Status (gs ! i) = ''approved''" using find_index_Some(2)[OF i] by (simp add: install_candidate_def)
  then have "desk_do (Confirm ?t) (desk_of env a d) = Some (desk_of env a d')"
    using desk_of_settle[OF gs b(2) i e] n by (simp add: phase_of_def)
  moreover have "hasSuffix (cq_path r) ''/verified''"
    using h False by (auto simp: verifyInstall_def split: if_splits)
  ultimately show ?thesis by (intro disjI2 exI[of _ "Confirm ?t"]) (simp add: confirm_of_def)
qed simp

lemma handed_out_simps [simp]:
  "handed_out (securityHeaders resp) = handed_out resp"
  "\<not> delivers resp \<Longrightarrow> handed_out resp = []"
  by (auto simp: handed_out_def delivers_def split: console_body.splits)

lemma installEdge_refuses:
  "installEdge env a now r d = (d', resp) \<Longrightarrow> co_status resp \<noteq> 200 \<Longrightarrow> \<not> delivers resp"
  by (auto simp: installEdge_def Let_def split: if_splits sum.splits option.splits)

lemma install_act:
  assumes ok: "console_ok env a" and h: "installEdge env a now r d = (d', resp)" and n: "now \<noteq> []"
  shows "d' = d \<and> co_status resp \<noteq> 200 \<and> handed_out resp = []
    \<or> desk_do (collect_of r) (desk_of env a d) = Some (desk_of env a d')
        \<and> desk_gives (collect_of r) (desk_of env a d)
          = map (Pair (Install (trimPrefix (cq_path r) ''/api/install/''))) (handed_out resp)"
proof (cases "co_status resp = 200")
  case True
  let ?t = "trimPrefix (cq_path r) ''/api/install/''"
  from True installEdge_effect[OF ok h] obtain cs gs i where
    f: "clients_of env a d = Inr cs" "regs_of env a d = Inr gs" and i: "find_index (install_candidate ?t) gs = Some i"
    and u: "rg_InstallUsedAt (gs ! i) = []" "client_token (rg_ID (gs ! i)) cs \<noteq> []" and c: "clients_of env a d' = Inr cs"
    and e: "if wantsJSON r
           then regs_of env a d' = Inr (gs[i := (gs ! i)\<lparr>rg_InstallStatus := ''delivered''\<rparr>])
             \<and> co_body resp = JInstall (rg_ID (gs ! i)) (client_token (rg_ID (gs ! i)) cs) (edgeConfig a)
           else regs_of env a d' = Inr (gs[i := (gs ! i)\<lparr>rg_InstallUsedAt := now, rg_InstallStatus := ''delivered''\<rparr>])
             \<and> co_body resp = InstallScript (shellQuote (client_token (rg_ID (gs ! i)) cs)) (rg_ID (gs ! i))"
    by blast
  have i': "find_index (\<lambda>g. opens ?t (application_of g)) gs = Some i" using i by simp
  have ap: "rg_Status (gs ! i) = ''approved''" using find_index_Some(2)[OF i] by (simp add: install_candidate_def)
  let ?s = "desk_of env a d"
  have st: "signer_token (rg_ID (gs ! i)) ?s = client_token (rg_ID (gs ! i)) cs"
    by (simp add: signer_token_def desk_of_eq[OF f(2,1)] client_key_map(2))
  have fi: "find_index (opens ?t) (dk_regs ?s) = Some i" "dk_regs ?s ! i = application_of (gs ! i)"
    using i' find_index_Some(1)[OF i] by (simp_all add: desk_of_eq[OF f(2,1)] find_index_map del: application_simps)
  have ph: "snd (snd (application_of (gs ! i))) \<noteq> Spent" using u(1) ap by (simp add: application_of_def phase_of_def)
  have out: "handed_out resp = [(rg_ID (gs ! i), client_token (rg_ID (gs ! i)) cs)]"
    using e by (cases "wantsJSON r") (simp_all add: handed_out_def shq.dec_enc)
  let ?act = "Collect ?t (\<not> wantsJSON r)"
  have "settle (opens ?t) (if wantsJSON r then Delivered else Spent) ?s = Some (desk_of env a d')"
  proof (cases "wantsJSON r")
    case True
    then show ?thesis using e ap u(1) desk_of_settle[OF f(2,1) i' _ c, of "(gs ! i)\<lparr>rg_InstallStatus := ''delivered''\<rparr>"]
      by (simp add: phase_of_def)
  next
    case False
    then show ?thesis
      using e ap n desk_of_settle[OF f(2,1) i' _ c, of "(gs ! i)\<lparr>rg_InstallUsedAt := now, rg_InstallStatus := ''delivered''\<rparr>"]
      by (simp add: phase_of_def)
  qed
  then have "desk_do ?act ?s = Some (desk_of env a d')" using fi ph u(2) st by (cases "wantsJSON r") simp_all
  moreover have "desk_gives ?act ?s = map (Pair (Install ?t)) (handed_out resp)" using fi st out by (simp add: Let_def)
  ultimately show ?thesis unfolding collect_of_def by blast
next
  case False
  then show ?thesis using installEdge_effect[OF ok h] installEdge_refuses[OF h] by auto
qed

section \<open>The console refines the desk\<close>

text \<open>An overview hands out what the desk hands out on inspection, or nothing.\<close>

lemma overview_act:
  "handed_out (summary env a d) = []
   \<or> map (Pair Overview) (handed_out (summary env a d)) = desk_gives Inspect (desk_of env a d)"
proof (cases "delivers (summary env a d)")
  case True
  then show ?thesis by (rule summary_body) (simp add: handed_out_def desk_of_eq)
qed simp

lemma console_routes:
  assumes "consoleHandler env a now raw1 raw2 r d = Some (d', resp)"
  obtains (other) "act_of env a (now, raw1, raw2, r) = None" "d' = d \<or> (\<exists>resp0. clientAction env a r d = (d', resp0))"
      "\<not> delivers resp"
    | (register) resp0 where "registerEdge env a now raw1 r d = (d', resp0)"
        "act_of env a (now, raw1, raw2, r) = apply_of env raw1 r" "\<not> delivers resp"
    | (verify) resp0 where "verifyInstall env a now r d = (d', resp0)"
        "act_of env a (now, raw1, raw2, r) = confirm_of r" "\<not> delivers resp"
    | (install) resp0 where "installEdge env a now r d = (d', resp0)"
        "act_of env a (now, raw1, raw2, r) = Some (collect_of r)" "handed_out resp = handed_out resp0"
        "channel_of r = Install (trimPrefix (cq_path r) ''/api/install/'')"
    | (overview) "act_of env a (now, raw1, raw2, r) = Some Inspect" "d' = d" "channel_of r = Overview"
        "resp = securityHeaders (summary env a d)"
    | (registration) resp0 where "registrationAction env a now raw1 raw2 r d = (d', resp0)"
        "act_of env a (now, raw1, raw2, r) = settle_of raw1 r" "\<not> delivers resp"
proof (cases "delivers resp")
  case True
  from assms True show thesis
  proof (cases rule: consoleHandler_delivers)
    case (install resp0)
    then have "cq_path r \<noteq> ''/api/summary''" by (auto simp: hasPrefix_def)
    then show thesis using install that(4)[of resp0] by (auto simp: channel_of_def)
  next
    case overview
    then show thesis by (intro that(5)) (auto simp: channel_of_def hasPrefix_def)
  qed
next
  case False
  have pre: "hasPrefix p ''/api/install/'' \<Longrightarrow> \<not> hasPrefix p ''/api/registrations/''"
    "hasPrefix p ''/api/clients/'' \<Longrightarrow> \<not> hasPrefix p ''/api/registrations/''"
    "hasPrefix p ''/api/clients/'' \<Longrightarrow> \<not> hasPrefix p ''/api/install/''" for p
    by (auto simp: hasPrefix_iff)
  have notp: "\<not> hasPrefix ''/logout'' ''/api/install/''" "\<not> hasPrefix ''/logout'' ''/api/registrations/''"
    "\<not> hasPrefix ''/auth/account/callback'' ''/api/install/''" "\<not> hasPrefix ''/api/summary'' ''/api/install/''"
    by (simp_all add: hasPrefix_def)
  have path: "hasPrefix (cq_path r) ''/api/install/'' \<Longrightarrow> cq_path r \<noteq> ''/api/summary''" using notp(4) by auto
  have chan: "cq_path r = ''/api/summary'' \<Longrightarrow> channel_of r = Overview"
    "cq_path r \<noteq> ''/api/summary'' \<Longrightarrow> channel_of r = Install (trimPrefix (cq_path r) ''/api/install/'')"
    by (simp_all add: channel_of_def)
  show thesis
    using assms False that pre notp path chan unfolding consoleHandler_def console_requireAdmin_def
    by (auto split: if_splits)
qed

lemma unrouted_no_act: "consoleHandler env a now raw1 raw2 r d = None \<Longrightarrow> act_of env a (now, raw1, raw2, r) = None"
  by (auto simp: consoleHandler_def split: if_splits)

text \<open>What one request does to the desk.\<close>

lemma step_act:
  assumes inv: "console_inv env a d" and n: "now \<noteq> []"
  shows "desk_of env a (console_step env a (now, raw1, raw2, r) d) = desk_of env a d
      \<and> handed env a (now, raw1, raw2, r) d = []
    \<or> (\<exists>act. may_do env a (now, raw1, raw2, r) act
        \<and> desk_do act (desk_of env a d) = Some (desk_of env a (console_step env a (now, raw1, raw2, r) d))
        \<and> desk_gives act (desk_of env a d) = handed env a (now, raw1, raw2, r) d)"
proof (cases "consoleHandler env a now raw1 raw2 r d")
  case None
  then show ?thesis by simp
next
  case (Some p)
  then obtain d' resp where h: "consoleHandler env a now raw1 raw2 r d = Some (d', resp)" by (cases p) auto
  have ok: "console_ok env a" using inv by (simp add: console_inv_def)
  let ?e = "(now, raw1, raw2, r)"
  have e: "console_step env a ?e d = d'"
    "handed env a ?e d = map (Pair (channel_of r)) (handed_out resp)"
    using h by simp_all
  let ?gone = "desk_of env a d' = desk_of env a d
      \<and> map (Pair (channel_of r)) (handed_out resp) = []
    \<or> (\<exists>act. may_do env a ?e act \<and> desk_do act (desk_of env a d) = Some (desk_of env a d')
        \<and> desk_gives act (desk_of env a d)
          = map (Pair (channel_of r)) (handed_out resp))"
  have may: "act_of env a ?e = Some act \<Longrightarrow> \<forall>i tok. act \<noteq> HalfGrant i tok \<Longrightarrow> may_do env a ?e act" for act
    by (cases act) (simp_all add: may_do_def del: act_of.simps)
  from h have ?gone
  proof (cases rule: console_routes)
    case other
    then show ?gone using client_act[OF ok] by auto
  next
    case (register resp0)
    from register_act[OF ok register(1)] show ?gone
    proof (elim disjE exE conjE)
      fix act assume a: "apply_of env raw1 r = Some act" "desk_do act (desk_of env a d) = Some (desk_of env a d')"
        "desk_gives act (desk_of env a d) = []"
      have "may_do env a ?e act" using a(1) register(2)
        by (intro may) (auto simp: apply_of_def Let_def split: sum.splits if_splits)
      then show ?gone using a register(3) by auto
    qed (use register in simp)
  next
    case (verify resp0)
    from verify_act[OF inv verify(1) n] show ?gone
    proof (elim disjE exE conjE)
      fix act assume a: "confirm_of r = Some act" "desk_do act (desk_of env a d) = Some (desk_of env a d')"
        "desk_gives act (desk_of env a d) = []"
      have "may_do env a ?e act" using a(1) verify(2)
        by (intro may) (auto simp: confirm_of_def split: if_splits)
      then show ?gone using a verify(3) by auto
    qed (use verify in simp)
  next
    case (install resp0)
    have "may_do env a ?e (collect_of r)" using install(2) by (intro may) (simp_all add: collect_of_def)
    then show ?gone using install_act[OF ok install(1) n] install(3,4) by auto
  next
    case overview
    have "may_do env a ?e Inspect" using overview(1) by (intro may) simp_all
    then show ?gone using overview_act[of env a d] overview(2-4) by (auto simp del: desk_gives.simps)
  next
    case (registration resp0)
    from registration_act[OF inv registration(1)] show ?gone
    proof (elim disjE exE conjE)
      fix act assume a: "settle_of raw1 r = Some act" "desk_do act (desk_of env a d) = Some (desk_of env a d')"
        "desk_gives act (desk_of env a d) = []"
      have "may_do env a ?e act" using a(1) registration(2)
        by (intro may) (auto simp: settle_of_def split: if_splits option.splits)
      then show ?gone using a registration(3) by auto
    next
      fix i tok assume a: "settle_of raw1 r = Some (Grant i tok)"
        "desk_do (HalfGrant i tok) (desk_of env a d) = Some (desk_of env a d')"
      have "may_do env a ?e (HalfGrant i tok)" using a(1) registration(2) by (simp add: may_do_def)
      then show ?gone using a(2) registration(3) by (intro disjI2 exI[of _ "HalfGrant i tok"]) simp
    qed (use registration in simp)
  qed
  then show ?thesis unfolding e .
qed

lemma faulty_reads [simp]:
  "readClientFile env (faulty w d) p = readClientFile env d p"
  "readRegistrations env (faulty w d) p = readRegistrations env d p"
  "desk_of env a (faulty w d) = desk_of env a d" "console_inv env a (faulty w d) = console_inv env a d"
  by (simp_all add: readClientFile_def readRegistrations_def readFile_def desk_of_def console_inv_def
      cong: option.case_cong)

interpretation disk: invariant_system "disk_step env a" "console_inv env a" for env a
proof
  fix d :: fs and e :: disk_event
  assume "console_inv env a d"
  then show "console_inv env a (disk_step env a e d)"
    using console.step_inv[of env a "faulty (fst e) d" "snd e"] by (cases e) (simp del: console_step.simps)
qed

text \<open>The time of a request is a formatted time, never empty.\<close>

fun timed :: "disk_event \<Rightarrow> bool" where
  "timed (w, now, raw1, raw2, r) \<longleftrightarrow> now \<noteq> []"

text \<open>A request and the action it stands for, if any.\<close>

definition entitled :: "console_env \<Rightarrow> app \<Rightarrow> disk_event \<Rightarrow> act option \<Rightarrow> bool" where
  "entitled env a e x \<longleftrightarrow> (case x of None \<Rightarrow> True | Some act \<Rightarrow> may_do env a (snd e) act)"

lemma entitled_simps [simp]: "entitled env a e None" "entitled env a (w, c) (Some act) \<longleftrightarrow> may_do env a c act"
  by (simp_all add: entitled_def)

lemma desk_simulation:
  assumes "console_inv env a d" and "\<forall>e\<in>set es. timed e"
  shows "\<exists>as. list_all2 (entitled env a) es as
     \<and> desk_run as (desk_of env a d) = Some (desk_of env a (fold (disk_step env a) es d), console_log env a es d)"
  using assms
proof (induction es arbitrary: d)
  case Nil
  then show ?case by simp
next
  case (Cons e es)
  obtain w now raw1 raw2 r where e: "e = (w, now, raw1, raw2, r)" by (metis prod.exhaust)
  let ?c = "(now, raw1, raw2, r)"
  let ?d1 = "console_step env a ?c (faulty w d)"
  have d1: "disk_step env a e d = ?d1" by (simp add: e del: console_step.simps)
  have inv: "console_inv env a ?d1" using disk.step_inv[OF Cons.prems(1), of e] by (simp only: d1)
  obtain as where as: "list_all2 (entitled env a) es as"
    "desk_run as (desk_of env a ?d1) = Some (desk_of env a (fold (disk_step env a) es ?d1), console_log env a es ?d1)"
    using Cons.IH[OF inv] Cons.prems(2) by auto
  have run: "fold (disk_step env a) (e # es) d = fold (disk_step env a) es ?d1"
    "console_log env a (e # es) d = handed env a ?c (faulty w d) @ console_log env a es ?d1"
    by (simp_all add: e del: console_step.simps handed.simps)
  have n: "now \<noteq> []" using Cons.prems(2) by (simp add: e)
  have "console_inv env a (faulty w d)" using Cons.prems(1) by simp
  from step_act[OF this n, of raw1 raw2 r] consider
      (idle) "desk_of env a ?d1 = desk_of env a d" "handed env a ?c (faulty w d) = []"
    | (acts) act where "may_do env a ?c act" "desk_do act (desk_of env a d) = Some (desk_of env a ?d1)"
        "desk_gives act (desk_of env a d) = handed env a ?c (faulty w d)"
    unfolding faulty_reads by blast
  then show ?case
  proof cases
    case idle
    then show ?thesis unfolding run using as
      by (intro exI[of _ "None # as"]) (simp del: console_step.simps handed.simps)
  next
    case acts
    then show ?thesis unfolding run using as
      by (intro exI[of _ "Some act # as"]) (simp add: e del: console_step.simps handed.simps)
  qed
qed

text \<open>
  C5. The console refines the enrolment desk, also when the disk fails: from well-formed files, over any sequence of
  requests (each at some time), with files that cannot be written at some of them, every request does nothing, the one action it stands for, or half of a grant (an
  application by anybody, a grant, a refusal or an overview with an administrator's session, a collection or
  confirmation by whoever names the install token); every action done is one the desk enables, the files always stand
  for the state of the desk, and the signer tokens the answers carry (install configurations, install scripts and
  overviews, as the handlers write them) are the ones the desk hands out, in this order.
\<close>

theorem console_refines_desk:
  assumes "console_inv env a d" and "\<forall>e\<in>set es. timed e"
  shows "\<exists>as. list_all2 (entitled env a) es as
     \<and> desk_run as (desk_of env a d) = Some (desk_of env a (fold (disk_step env a) es d), console_log env a es d)"
  using desk_simulation[OF assms] .

lemma sample_faulty [simp]:
  "faulty (\<lambda>_. None) (sample_files cs gs) = sample_files cs gs"
  "desk_of sample_env sample_app (sample_files cs gs) = \<lparr>dk_regs = map application_of gs, dk_clients = map client_key cs\<rparr>"
  by (simp_all add: sample_files_def clean_fs_def desk_of_eq)
     (simp add: desk_of_eq sample_files_def[symmetric] clean_fs_def[symmetric])

definition approve_event :: console_event where
  "approve_event = (''t1'', ''r1'', ''r2'', sample_request ''POST'' ''/api/registrations/edge/approve'' [] (Some sample_cookie))"

definition collect_event :: console_event where
  "collect_event = (''t2'', [], [], sample_request ''GET'' (''/api/install/'' @ install_name) [] None)"

definition inspect_event :: console_event where
  "inspect_event = (''t3'', [], [], sample_request ''GET'' ''/api/summary'' [] (Some sample_cookie))"

definition sample_events :: "disk_event list" where
  "sample_events = map (Pair (\<lambda>_. None)) [approve_event, collect_event, inspect_event]"

lemma sample_overview:
  "handed sample_env sample_app inspect_event (sample_files cs gs) = map (Pair Overview) (map client_key cs)"
  "console_step sample_env sample_app inspect_event (sample_files cs gs) = sample_files cs gs"
proof -
  let ?r = "sample_request ''GET'' ''/api/summary'' [] (Some sample_cookie)" and ?d = "sample_files cs gs"
  have u: "readRevoked ?d (ap_revokedPath sample_app) = Inr []" "tailLines ?d (ap_auditPath sample_app) 200 = ([], Some NotExist)"
    by (simp_all add: readRevoked_def tailLines_def readFile_def sample_files_def clean_fs_def sample_app_def)
  have "summary sample_env sample_app ?d = console_json 200 (JSummary cs [] [] gs)"
    unfolding summary_def u by simp
  then have "consoleHandler sample_env sample_app ''t3'' [] [] ?r ?d
      = Some (?d, securityHeaders (console_json 200 (JSummary cs [] [] gs)))"
    by (simp add: consoleHandler_def console_requireAdmin_def hasPrefix_def)
  then show "handed sample_env sample_app inspect_event ?d = map (Pair Overview) (map client_key cs)"
    "console_step sample_env sample_app inspect_event ?d = ?d"
    by (simp_all add: inspect_event_def handed_out_def channel_of_def)
qed

lemma sample_run:
  "console_log sample_env sample_app sample_events
     (sample_files [] [sample_reg ''edge'' ''pending'' install_name])
   = [(Install install_name, ''edge'', randomString ''r1''), (Overview, ''edge'', randomString ''r1'')]"
proof -
  let ?c = "new_client ''edge'' (randomString ''r1'')"
  let ?g = "approved ''t1'' (randomString ''r2'') (sample_reg ''edge'' ''pending'' install_name)"
  let ?g2 = "?g\<lparr>rg_InstallStatus := ''delivered''\<rparr>"
  let ?r = "sample_request ''GET'' (''/api/install/'' @ install_name) [] None"
  have h: "consoleHandler sample_env sample_app now raw1 raw2 ?r (sample_files [?c] [g])
      = Some (sample_files [?c] [?g2], securityHeaders (console_json 200 (JInstall ''edge'' (randomString ''r1'') (edgeConfig sample_app))))"
    if "g = ?g \<or> g = ?g2" for g now raw1 raw2
  proof -
    have i: "find_index (install_candidate install_name) [g] = Some 0"
      using that by (auto simp: install_candidate_def)
    have "installEdge sample_env sample_app now ?r (sample_files [?c] [g])
      = (sample_files [?c] [?g2], console_json 200 (JInstall ''edge'' (randomString ''r1'') (edgeConfig sample_app)))"
      using that sample_install[OF i, of "[?c]" "randomString ''r1''" now "[]" None]
      by (auto simp: client_token_def new_client_def)
    then show ?thesis unfolding consoleHandler_install[OF sample_request_simps(1,2)] by (simp only: map_prod_simp id_apply)
  qed
  have first: "console_step sample_env sample_app approve_event (sample_files [] [sample_reg ''edge'' ''pending'' install_name])
      = sample_files [?c] [?g]"
    by (simp add: approve_event_def sample_approve_step del: console_step.simps)
  have none: "handed sample_env sample_app approve_event (sample_files [] [sample_reg ''edge'' ''pending'' install_name]) = []"
    by (simp add: approve_event_def consoleHandler_def console_requireAdmin_def hasPrefix_def registrationAction_def
        handed_out_def)
  have chan: "channel_of ?r = Install install_name"
    by (simp add: channel_of_def trimPrefix_append del: append_Cons)
  have col: "console_step sample_env sample_app collect_event (sample_files [?c] [?g]) = sample_files [?c] [?g2]"
    "handed sample_env sample_app collect_event (sample_files [?c] [?g]) = [(Install install_name, ''edge'', randomString ''r1'')]"
    using h[of ?g] by (simp_all add: collect_event_def handed_out_def chan del: append_Cons)
  have key: "client_key ?c = (''edge'', randomString ''r1'')" by (simp add: client_key_new)
  show ?thesis unfolding sample_events_def
    by (simp add: first none col sample_overview key del: console_step.simps handed.simps)
qed

lemma sample_desk_inv:
  "console_inv sample_env sample_app (sample_files [] [sample_reg ''edge'' ''pending'' install_name])"
  "desk_ok (desk_of sample_env sample_app (sample_files [] [sample_reg ''edge'' ''pending'' install_name]))"
  "\<forall>e\<in>set sample_events. timed e"
  by (auto simp: console_inv_def sample_ok clients_ok_def regs_ok_def reg_ok_def desk_ok_def application_of_def
      phase_of_def approve_event_def collect_event_def inspect_event_def sample_events_def)

theorem console_refines_desk_witness:
  "\<exists>as s. desk_run as \<lparr>dk_regs = [(''edge'', install_name, Waiting)], dk_clients = []\<rparr>
     = Some (s, [(Install install_name, ''edge'', randomString ''r1''), (Overview, ''edge'', randomString ''r1'')])"
proof -
  let ?d = "sample_files [] [sample_reg ''edge'' ''pending'' install_name]"
  have "desk_of sample_env sample_app ?d = \<lparr>dk_regs = [(''edge'', install_name, Waiting)], dk_clients = []\<rparr>"
    by (simp add: application_of_def phase_of_def)
  then show ?thesis
    using console_refines_desk[OF sample_desk_inv(1,3)] unfolding sample_run by auto
qed

text \<open>
  C8. A client has one signer token and one install token: from well-formed files in which no two enrolled
  registrations are for the same client and each is for a client, over any sequence of requests, with whatever writes
  fail, two answers that carry a signer token of the same client carry the same one; and if both answer install
  requests (neither is the administrator's overview), these name the same install token.
\<close>

theorem one_install_token_per_client:
  assumes "console_inv env a d" and "desk_ok (desk_of env a d)" and "\<forall>e\<in>set es. timed e"
    and "(c, i, tok) \<in> set (console_log env a es d)" and "(c', i, tok') \<in> set (console_log env a es d)"
  shows "tok' = tok \<and> (c = Overview \<or> c' = Overview \<or> c' = c)"
proof -
  obtain as where "desk_run as (desk_of env a d) = Some (desk_of env a (fold (disk_step env a) es d), console_log env a es d)"
    using desk_simulation[OF assms(1,3)] by blast
  from log_single_valued[OF this assms(2,4,5)] show ?thesis .
qed

theorem one_install_token_per_client_witness:
  "list_all (\<lambda>(c, i, tok). tok = randomString ''r1'' \<and> (c = Overview \<or> c = Install install_name))
     (console_log sample_env sample_app sample_events (sample_files [] [sample_reg ''edge'' ''pending'' install_name]))"
proof -
  let ?log = "console_log sample_env sample_app sample_events (sample_files [] [sample_reg ''edge'' ''pending'' install_name])"
  have m: "(Install install_name, ''edge'', randomString ''r1'') \<in> set ?log" unfolding sample_run by simp
  note key = one_install_token_per_client[OF sample_desk_inv m]
  have "tok = randomString ''r1'' \<and> (c = Overview \<or> c = Install install_name)" if x: "(c, i, tok) \<in> set ?log" for c i tok
  proof -
    have "i = ''edge''" using x unfolding sample_run by auto
    then show ?thesis using key x by blast
  qed
  then show ?thesis unfolding list_all_iff by blast
qed

section \<open>An approval that is cut short\<close>

text \<open>
  What is left when the second write of an approval fails: the client with its token, and no application that is
  granted.
\<close>

lemma cut_approval_strands:
  assumes inv: "console_inv env a d" and ok: "desk_ok (desk_of env a d)"
    and h: "registrationAction env a now raw1 raw2 r d = (d', resp)" "co_status resp = 500" "d' \<noteq> d"
    and p: "parseRegistrationAction (cq_path r) = Some (cid, ''approve'')"
  shows "stranded cid (desk_of env a d') \<and> key_of cid (randomString raw1) (desk_of env a d')"
proof -
  have cok: "console_ok env a" using inv by (simp add: console_inv_def)
  from registrationAction_effect[OF cok h(1)] h(2,3) p obtain cs gs where
    f: "clients_of env a d = Inr cs" "regs_of env a d = Inr gs" "cid \<notin> cc_id ` set cs"
    "clients_of env a d' = Inr (cs @ [new_client cid (randomString raw1)])" "regs_of env a d' = Inr gs" by auto
  have "\<not> enrolled (snd (snd x))" if x: "x \<in> set (map application_of gs)" "fst x = cid" for x
  proof
    assume e: "enrolled (snd (snd x))"
    obtain j where j: "j < length gs" "application_of (gs ! j) = x" using x(1) by (auto simp: in_set_conv_nth)
    then have "is_client cid (desk_of env a d)"
      using ok e x(2) unfolding desk_ok_def desk_of_eq[OF f(2,1)] by fastforce
    then show False using f(3) by (simp add: is_client_def desk_of_eq[OF f(2,1)] client_key_map)
  qed
  moreover have "distinct (map fst (map client_key cs))"
    using ok by (simp add: desk_ok_def desk_of_eq[OF f(2,1)] del: map_map)
  ultimately show ?thesis
    using f(3) unfolding stranded_def key_of_def desk_of_eq[OF f(5,4)] is_client_keys
    by (auto simp: new_client_def client_key_def)
qed

text \<open>
  C29. An approval that is cut short cannot be repaired from the console: when, on well-formed files in which each
  enrolled registration is the only one of its client, the client file was written and the registration file could not be, then after any further requests, the disk working again or not, no answer to
  an install request carries a signer token of the new client (only the administrator's overview shows it, and it is
  the one drawn in that approval), and approving the id again does not succeed.
\<close>

theorem interrupted_approval_strands_edge:
  assumes "console_inv env a d" and "desk_ok (desk_of env a d)"
    and "registrationAction env a now raw1 raw2 r d = (d', resp)" and "co_status resp = 500" and "d' \<noteq> d"
    and "parseRegistrationAction (cq_path r) = Some (cid, ''approve'')" and "\<forall>e\<in>set es. timed e"
    and "parseRegistrationAction (cq_path q) = Some (cid, ''approve'')"
  shows "list_all (\<lambda>(c, i, tok). i \<noteq> cid \<or> c = Overview \<and> tok = randomString raw1) (console_log env a es d')
    \<and> co_status (snd (registrationAction env a now' raw1' raw2' q (faulty w (fold (disk_step env a) es d')))) \<noteq> 200"
proof
  let ?d = "fold (disk_step env a) es d'"
  have inv: "console_inv env a d'" by (rule registrationAction_inv[OF assms(1,3)])
  have st: "stranded cid (desk_of env a d')" and key: "key_of cid (randomString raw1) (desk_of env a d')"
    using cut_approval_strands[OF assms(1-6)] by blast+
  obtain as where as: "desk_run as (desk_of env a d') = Some (desk_of env a ?d, console_log env a es d')"
    using desk_simulation[OF inv assms(7)] by blast
  show "list_all (\<lambda>(c, i, tok). i \<noteq> cid \<or> c = Overview \<and> tok = randomString raw1) (console_log env a es d')"
    using stranded_run[OF as st key] by (auto simp: list_all_iff)
  have str: "stranded cid (desk_of env a ?d)" by (rule stranded.reach_inv[OF desk_run_reach[OF as] st])
  have "console_inv env a (faulty w ?d)" using disk.run_inv[OF inv] by simp
  then obtain cs gs where b: "console_ok env a" "clients_of env a (faulty w ?d) = Inr cs" "regs_of env a (faulty w ?d) = Inr gs"
    by (rule console_invE)
  have c: "cid \<in> cc_id ` set cs"
    using str desk_of_eq[OF b(3,2)] by (simp add: stranded_def is_client_keys)
  show "co_status (snd (registrationAction env a now' raw1' raw2' q (faulty w ?d))) \<noteq> 200"
    using registrationAction_effect[OF b(1) surjective_pairing] assms(8) b(2,3) c by fastforce
qed

text \<open>The sample console with a registration file that cannot be written.\<close>

definition regs_broken :: "string \<Rightarrow> error option" where
  "regs_broken = (\<lambda>p. if p = ''regs'' then Some ''no space left on device'' else None)"

theorem interrupted_approval_strands_edge_witness:
  "\<exists>d'. registrationAction sample_env sample_app ''t1'' ''r1'' ''r2''
        (sample_request ''POST'' ''/api/registrations/edge/approve'' [] (Some sample_cookie))
        (faulty regs_broken (sample_files [] [sample_reg ''edge'' ''pending'' install_name]))
      = (d', writeError ''no space left on device'')
     \<and> clients_of sample_env sample_app d' = Inr [new_client ''edge'' (randomString ''r1'')]
     \<and> list_all (\<lambda>(c, i, tok). i \<noteq> ''edge'' \<or> c = Overview \<and> tok = randomString ''r1'')
          (console_log sample_env sample_app sample_events d')"
proof -
  let ?d = "faulty regs_broken (sample_files [] [sample_reg ''edge'' ''pending'' install_name])"
  let ?d' = "faulty regs_broken (sample_files [new_client ''edge'' (randomString ''r1'')] [sample_reg ''edge'' ''pending'' install_name])"
  let ?r = "sample_request ''POST'' ''/api/registrations/edge/approve'' [] (Some sample_cookie)"
  have wc: "writeClientFile sample_env (faulty regs_broken (sample_files cs gs)) ''clients'' cs' = Inr (faulty regs_broken (sample_files cs' gs))"
    for cs cs' gs
    by (simp add: writeClientFile_def writeFile_def sample_files_def clean_fs_def regs_broken_def fun_upd_twist)
  have h: "registrationAction sample_env sample_app ''t1'' ''r1'' ''r2'' ?r ?d = (?d', writeError ''no space left on device'')"
    by (simp add: registrationAction_def wc store_registrations_def writeRegistrations_def writeFile_def)
       (simp add: regs_broken_def)
  have c: "clients_of sample_env sample_app ?d' = Inr [new_client ''edge'' (randomString ''r1'')]" by simp
  have n: "?d' \<noteq> ?d"
  proof
    assume "?d' = ?d"
    then have "clients_of sample_env sample_app ?d' = clients_of sample_env sample_app ?d" by (simp only:)
    then show False by simp
  qed
  have i: "console_inv sample_env sample_app ?d" "desk_ok (desk_of sample_env sample_app ?d)"
    unfolding faulty_reads by (rule sample_desk_inv)+
  from interrupted_approval_strands_edge[OF i h _ n _ sample_desk_inv(3), of "''edge''" ?r] h c show ?thesis by auto
qed

end
