(* ===== verification/CrashSafety.thy ===== *)
theory CrashSafety
  imports RevocationRace ConsoleSpec
begin

text \<open>
  Interrupted writes of the client file and of the registration file. Both are rewritten in place, so a crash, or a
  disk that fills up, can leave a beginning of the new text, which is not JSON: the console and the signer then
  refuse to work, and stay so until somebody repairs the file by hand.
\<close>

section \<open>A file that cannot be decoded\<close>

definition clients_broken :: "console_env \<Rightarrow> app \<Rightarrow> error \<Rightarrow> fs \<Rightarrow> bool" where
  "clients_broken env a e d \<longleftrightarrow> console_ok env a \<and> clients_of env a d = Inl e"

definition regs_unreadable :: "console_env \<Rightarrow> app \<Rightarrow> error \<Rightarrow> fs \<Rightarrow> bool" where
  "regs_unreadable env a e d \<longleftrightarrow> console_ok env a \<and> regs_of env a d = Inl e"

interpretation broken: invariant_system "console_step env a" "clients_broken env a e" for env a e
proof
  fix d :: fs and ev :: console_event
  assume b: "clients_broken env a e d"
  then have ok: "console_ok env a" and c: "clients_of env a d = Inl e" by (simp_all add: clients_broken_def)
  obtain now raw1 raw2 r where ev: "ev = (now, raw1, raw2, r)" by (metis prod.exhaust)
  show "clients_broken env a e (console_step env a ev d)" unfolding ev
  proof (cases rule: console_step_cases[of env a now raw1 raw2 r d])
    case (2 resp0)
    then show "clients_broken env a e (console_step env a (now, raw1, raw2, r) d)"
      using registerEdge_effect[OF ok 2] b c by (auto simp del: console_step.simps)
  next
    case (3 resp0)
    then show "clients_broken env a e (console_step env a (now, raw1, raw2, r) d)"
      using verifyInstall_effect[OF ok 3] b c by (auto simp: clients_broken_def simp del: console_step.simps)
  next
    case (4 resp0)
    then show "clients_broken env a e (console_step env a (now, raw1, raw2, r) d)"
      using installEdge_effect[OF ok 4] b c by (auto simp del: console_step.simps)
  next
    case (5 resp0)
    then show "clients_broken env a e (console_step env a (now, raw1, raw2, r) d)"
      using clientAction_effect[OF ok 5(2)] b c by (auto simp del: console_step.simps)
  next
    case (6 resp0)
    then show "clients_broken env a e (console_step env a (now, raw1, raw2, r) d)"
      using registrationAction_effect[OF ok 6(3)] b c by (auto simp del: console_step.simps)
  qed (use b in \<open>simp del: console_step.simps\<close>)
qed

interpretation unreadable: invariant_system "console_step env a" "regs_unreadable env a e" for env a e
proof
  fix d :: fs and ev :: console_event
  assume b: "regs_unreadable env a e d"
  then have ok: "console_ok env a" and c: "regs_of env a d = Inl e" by (simp_all add: regs_unreadable_def)
  obtain now raw1 raw2 r where ev: "ev = (now, raw1, raw2, r)" by (metis prod.exhaust)
  show "regs_unreadable env a e (console_step env a ev d)" unfolding ev
  proof (cases rule: console_step_cases[of env a now raw1 raw2 r d])
    case (2 resp0)
    then show "regs_unreadable env a e (console_step env a (now, raw1, raw2, r) d)"
      using registerEdge_effect[OF ok 2] b c by (auto simp del: console_step.simps)
  next
    case (3 resp0)
    then show "regs_unreadable env a e (console_step env a (now, raw1, raw2, r) d)"
      using verifyInstall_effect[OF ok 3] b c by (auto simp del: console_step.simps)
  next
    case (4 resp0)
    then show "regs_unreadable env a e (console_step env a (now, raw1, raw2, r) d)"
      using installEdge_effect[OF ok 4] b c by (auto simp del: console_step.simps)
  next
    case (5 resp0)
    then show "regs_unreadable env a e (console_step env a (now, raw1, raw2, r) d)"
      using clientAction_effect[OF ok 5(2)] b c by (simp add: regs_unreadable_def del: console_step.simps)
  next
    case (6 resp0)
    then show "regs_unreadable env a e (console_step env a (now, raw1, raw2, r) d)"
      using registrationAction_effect[OF ok 6(3)] b c by (auto simp del: console_step.simps)
  qed (use b in \<open>simp del: console_step.simps\<close>)
qed

text \<open>No signer token is delivered from files of which one cannot be decoded.\<close>

lemma broken_delivers_nothing:
  assumes ok: "console_ok env a" and b: "clients_of env a d = Inl e \<or> regs_of env a d = Inl e"
    and h: "consoleHandler env a now raw1 raw2 r d = Some (d', resp)"
  shows "\<not> delivers resp"
proof
  assume dl: "delivers resp"
  from h dl show False
  proof (cases rule: consoleHandler_delivers)
    case (install resp0)
    have "co_status resp0 = 200" using installEdge_refuses[OF install(1)] dl install(2) by auto
    then show False using installEdge_effect[OF ok install(1)] b by auto
  next
    case overview
    then have "delivers (summary env a d)" using dl by simp
    then show False by (rule summary_body) (use b in simp)
  qed
qed

section \<open>Torn writes\<close>

lemma torn_reads:
  assumes "fs_read_error d p = None"
  shows "readClientFile env (torn_write d p s n) p = cn_decodeClients env (take n s)"
    "readRegistrations env (torn_write d p s n) p = cn_decodeRegs env (take n s)"
  using assms by (simp_all add: readClientFile_def readRegistrations_def readFile_def torn_write_def)

lemma broken_no_signer:
  assumes "clients_of env a d = Inl e" and "ap_clientsPath a \<noteq> []" and "opt_ClientsPath opts = ap_clientsPath a"
  shows "newAuthManager (cn_decodeClients env) d opts = Inl e"
  using assms by (auto simp: newAuthManager_def Let_def loadClients_def readClientFile_def split: sum.splits)

text \<open>
  A torn client file stops everything and is never repaired: when writing the client file was interrupted so that
  the text left there does not decode, then after any sequence of requests to the console no signer starts from the
  files, every request is answered without a signer token and leaves the client file as it is.
\<close>

theorem torn_client_file_stops_all:
  assumes "console_ok env a" and "fs_read_error d (ap_clientsPath a) = None" and "ap_clientsPath a \<noteq> []"
    and "cn_decodeClients env (take n (cn_encodeClients env cs)) = Inl e"
    and "opt_ClientsPath opts = ap_clientsPath a"
    and "d' = fold (console_step env a) es (torn_write d (ap_clientsPath a) (cn_encodeClients env cs) n)"
    and "consoleHandler env a now raw1 raw2 r d' = Some (d'', resp)"
  shows "newAuthManager (cn_decodeClients env) d' opts = Inl e \<and> \<not> delivers resp \<and> clients_of env a d'' = Inl e"
proof -
  let ?t = "torn_write d (ap_clientsPath a) (cn_encodeClients env cs) n"
  have "clients_broken env a e ?t" using assms(1,2,4) by (simp add: clients_broken_def torn_reads)
  then have b: "clients_broken env a e d'" unfolding assms(6) by (rule broken.run_inv)
  then have c: "clients_of env a d' = Inl e" by (simp add: clients_broken_def)
  have "clients_broken env a e d''" using broken.step_inv[OF b, of "(now, raw1, raw2, r)"] assms(7) by simp
  then show ?thesis
    using broken_no_signer[OF c assms(3,5)] broken_delivers_nothing[OF assms(1) _ assms(7), of e] c
    by (simp add: clients_broken_def)
qed

text \<open>A codec whose texts end in a full stop, so that an empty file is not a list.\<close>

definition dotted_env :: console_env where
  "dotted_env = sample_env
     \<lparr>cn_encodeClients := \<lambda>cs. cn_encodeClients sample_env cs @ ''.'',
      cn_decodeClients := \<lambda>s. if s = [] then Inl ''unexpected end of JSON input'' else cn_decodeClients sample_env (butlast s),
      cn_encodeRegs := \<lambda>gs. cn_encodeRegs sample_env gs @ ''.'',
      cn_decodeRegs := \<lambda>s. if s = [] then Inl ''unexpected end of JSON input'' else cn_decodeRegs sample_env (butlast s)\<rparr>"

lemma dotted_ok: "console_ok dotted_env sample_app"
  using sample_ok by (simp add: console_ok_def dotted_env_def)

lemma dotted_torn:
  "cn_decodeClients dotted_env (take 0 (cn_encodeClients dotted_env cs)) = Inl ''unexpected end of JSON input''"
  "cn_decodeRegs dotted_env (take 0 (cn_encodeRegs dotted_env gs)) = Inl ''unexpected end of JSON input''"
  by (simp_all add: dotted_env_def)

lemma logout_handled:
  "consoleHandler env a now raw1 raw2 (sample_request ''POST'' ''/logout'' [] None) d = Some (d, securityHeaders logout)"
  by (simp add: consoleHandler_def)

theorem torn_client_file_stops_all_witness:
  "newAuthManager (cn_decodeClients dotted_env) (torn_write (clean_fs (\<lambda>_. None)) ''clients'' (cn_encodeClients dotted_env []) 0)
     (file_opts sample_app) = Inl ''unexpected end of JSON input''"
  using torn_client_file_stops_all[OF dotted_ok _ _ dotted_torn(1) _ HOL.refl logout_handled,
      of "clean_fs (\<lambda>_. None)" "file_opts sample_app" "[]" "[]"]
  by (simp add: clean_fs_def file_opts_def)

text \<open>The same for the registration file: nobody can enrol any more, whatever is requested.\<close>

theorem torn_registrations_stop_enrolment:
  assumes "console_ok env a" and "fs_read_error d (ap_registerPath a) = None"
    and "cn_decodeRegs env (take n (cn_encodeRegs env gs)) = Inl e"
    and "d' = fold (console_step env a) es (torn_write d (ap_registerPath a) (cn_encodeRegs env gs) n)"
    and "consoleHandler env a now raw1 raw2 r d' = Some (d'', resp)"
  shows "\<not> delivers resp \<and> co_status (snd (registerEdge env a now raw1 r d')) \<noteq> 202
    \<and> co_status (snd (registrationAction env a now raw1 raw2 r d')) \<noteq> 200 \<and> regs_of env a d'' = Inl e"
proof -
  let ?t = "torn_write d (ap_registerPath a) (cn_encodeRegs env gs) n"
  have "regs_unreadable env a e ?t" using assms(1-3) by (simp add: regs_unreadable_def torn_reads)
  then have b: "regs_unreadable env a e d'" unfolding assms(4) by (rule unreadable.run_inv)
  then have c: "regs_of env a d' = Inl e" by (simp add: regs_unreadable_def)
  have "regs_unreadable env a e d''" using unreadable.step_inv[OF b, of "(now, raw1, raw2, r)"] assms(5) by simp
  then show ?thesis
    using registerEdge_effect[OF assms(1) surjective_pairing, of now raw1 r d']
      registrationAction_effect[OF assms(1) surjective_pairing, of now raw1 raw2 r d']
      broken_delivers_nothing[OF assms(1) _ assms(5), of e] c
    by (auto simp: regs_unreadable_def)
qed

theorem torn_registrations_stop_enrolment_witness:
  "co_status (snd (registerEdge dotted_env sample_app ''t'' [] (sample_request ''POST'' ''/logout'' [] None)
     (torn_write (clean_fs (\<lambda>_. None)) ''regs'' (cn_encodeRegs dotted_env []) 0))) \<noteq> 202"
  using torn_registrations_stop_enrolment[OF dotted_ok _ dotted_torn(2) HOL.refl logout_handled,
      where d = "clean_fs (\<lambda>_. None)" and es = "[]" and now = "''t''" and ?raw1.0 = "[]"]
  by (simp add: clean_fs_def)

end
