(* ===== verification/ConsoleExact.thy ===== *)
theory ConsoleExact
  imports ConsoleSpec
begin

text \<open>
  While the console's files can be written, and those of an overview read, the console is the enrolment desk: every
  request does exactly the action it stands for if the desk enables it, and nothing otherwise.
\<close>

section \<open>The desk as a server\<close>

definition desk_handle ::
  "console_env \<Rightarrow> app \<Rightarrow> console_event \<Rightarrow> desk \<Rightarrow> desk \<times> handout list" where
  "desk_handle env a e s =
     (case act_of env a e of
        None \<Rightarrow> (s, [])
      | Some act \<Rightarrow> (case desk_do act s of None \<Rightarrow> (s, []) | Some s' \<Rightarrow> (s', desk_gives act s)))"

fun desk_serve ::
  "console_env \<Rightarrow> app \<Rightarrow> console_event list \<Rightarrow> desk \<Rightarrow> desk \<times> handout list" where
  "desk_serve env a [] s = (s, [])"
| "desk_serve env a (e # es) s =
     (let (s1, log1) = desk_handle env a e s; (s2, log2) = desk_serve env a es s1 in (s2, log1 @ log2))"

fun plain_log :: "console_env \<Rightarrow> app \<Rightarrow> console_event list \<Rightarrow> fs \<Rightarrow> handout list" where
  "plain_log env a [] d = []"
| "plain_log env a (e # es) d = handed env a e d @ plain_log env a es (console_step env a e d)"

text \<open>The two files the desk consists of can be written.\<close>

definition writable :: "console_env \<Rightarrow> app \<Rightarrow> fs \<Rightarrow> bool" where
  "writable env a d \<longleftrightarrow> (\<forall>p\<in>{ap_clientsPath a, ap_registerPath a}. cn_mkdir env p = None \<and> fs_write_error d p = None)"

text \<open>
  An overview also reads the revocation file and the last lines of the audit file: each can be read, or is missing,
  and has no line that is too long for the scanner.
\<close>

definition overview_readable :: "app \<Rightarrow> fs \<Rightarrow> bool" where
  "overview_readable a d \<longleftrightarrow>
     (case readRevoked d (ap_revokedPath a) of Inl _ \<Rightarrow> False | Inr _ \<Rightarrow> True)
     \<and> (case snd (tailLines d (ap_auditPath a) 200) of Some (OtherError _) \<Rightarrow> False | _ \<Rightarrow> True)"

text \<open>Whenever an administrator asks for the overview during a run, these files can be read.\<close>

fun overviews_readable :: "console_env \<Rightarrow> app \<Rightarrow> console_event list \<Rightarrow> fs \<Rightarrow> bool" where
  "overviews_readable env a [] d \<longleftrightarrow> True"
| "overviews_readable env a (e # es) d \<longleftrightarrow>
     (act_of env a e = Some Inspect \<longrightarrow> overview_readable a d) \<and> overviews_readable env a es (console_step env a e d)"

lemma summary_succeeds:
  assumes inv: "console_inv env a d" and o: "overview_readable a d"
  shows "map (Pair Overview) (handed_out (summary env a d)) = desk_gives Inspect (desk_of env a d)"
proof -
  obtain cs gs where b: "clients_of env a d = Inr cs" "regs_of env a d = Inr gs" using inv by (rule console_invE)
  obtain revoked where v: "readRevoked d (ap_revokedPath a) = Inr revoked"
    using o by (auto simp: overview_readable_def split: sum.splits)
  obtain ls e where t: "tailLines d (ap_auditPath a) 200 = (ls, e)" by (cases "tailLines d (ap_auditPath a) 200")
  have "e = None \<or> e = Some NotExist"
    using o by (cases e rule: option.exhaust; auto simp: overview_readable_def t split: os_error.splits)
  then have "co_body (summary env a d) = JSummary cs revoked ls gs"
    using b v t by (auto simp: summary_def)
  then show ?thesis by (simp add: handed_out_def desk_of_eq[OF b(2,1)])
qed

lemma writable_writes:
  assumes "writable env a d"
  shows "\<exists>d'. writeRegistrations env d (ap_registerPath a) gs = Inr d'"
    "\<exists>d'. writeClientFile env d (ap_clientsPath a) cs = Inr d'"
  using assms by (auto simp: writable_def writeRegistrations_def writeClientFile_def writeFile_def)

lemma writable_keeps: "fs_write_error d' = fs_write_error d \<Longrightarrow> writable env a d' = writable env a d"
  by (simp add: writable_def)

lemma store_succeeds: "writable env a d \<Longrightarrow> snd (store_registrations env a d gs resp) = resp"
  using writable_writes(1)[of env a d gs] by (auto simp: store_registrations_def)

text \<open>No request changes which files can be written.\<close>

lemma append_errors:
  "appendRevoked env d p cid = Inr d' \<Longrightarrow> fs_write_error d' = fs_write_error d"
  "removeRevoked d p cid = Inr d' \<Longrightarrow> fs_write_error d' = fs_write_error d"
  by (auto simp: appendRevoked_def removeRevoked_def appendFile_def dest: write_errors split: sum.splits option.splits if_splits)

lemma registerEdge_errors:
  assumes "registerEdge env a now raw r d = (d', resp)"
  shows "fs_write_error d' = fs_write_error d"
  using assms unfolding registerEdge_def Let_def by (auto split: sum.splits if_splits dest!: store_errors)

lemma verifyInstall_errors:
  assumes "verifyInstall env a now r d = (d', resp)"
  shows "fs_write_error d' = fs_write_error d"
  using assms unfolding verifyInstall_def Let_def by (auto split: option.splits sum.splits if_splits dest!: store_errors)

lemma writeRegistrations_errors: "writeRegistrations env d p gs = Inr d' \<Longrightarrow> fs_write_error d' = fs_write_error d"
  by (auto simp: writeRegistrations_def dest: write_errors split: option.splits)

lemma installEdge_errors:
  assumes "installEdge env a now r d = (d', resp)"
  shows "fs_write_error d' = fs_write_error d"
  using assms unfolding installEdge_def Let_def
  by (auto split: option.splits sum.splits if_splits dest!: writeRegistrations_errors simp del: append_Cons)

lemma clientAction_errors:
  assumes "clientAction env a r d = (d', resp)"
  shows "fs_write_error d' = fs_write_error d"
proof (cases "parseClientAction (cq_path r)")
  case None
  then show ?thesis using assms by (simp add: clientAction_def)
next
  case (Some p)
  obtain cid action where p: "p = (cid, action)" by (cases p)
  show ?thesis
    using assms unfolding clientAction_def Some p option.case prod.case
    by (auto split: sum.splits if_splits dest!: writeClientFile_errors append_errors)
qed

lemma console_step_errors: "fs_write_error (console_step env a e d) = fs_write_error d"
proof -
  obtain now raw1 raw2 r where e: "e = (now, raw1, raw2, r)" by (metis prod.exhaust)
  show ?thesis unfolding e
    by (cases rule: console_step_cases[of env a now raw1 raw2 r d])
       (auto simp del: console_step.simps dest: registerEdge_errors verifyInstall_errors installEdge_errors clientAction_errors registrationAction_errors)
qed

section \<open>Enabled actions succeed\<close>

lemma register_succeeds:
  assumes inv: "console_inv env a d" and w: "writable env a d"
    and act: "apply_of env raw1 r = Some act" "desk_do act (desk_of env a d) \<noteq> None"
  shows "co_status (snd (registerEdge env a now raw1 r d)) = 202"
proof -
  obtain cs gs where b: "clients_of env a d = Inr cs" "regs_of env a d = Inr gs" using inv by (rule console_invE)
  obtain req where req: "cn_decodeRegister env (take (16 * 1024) (cq_body r)) = Inr req"
    using act(1) by (auto simp: apply_of_def split: sum.splits)
  define t where "t = (if trimSpace (rr_InstallToken req) = [] then randomString raw1 else trimSpace (rr_InstallToken req))"
  have v: "validClientID (trimSpace (rr_ID req))" "validInstallToken t" "act = Apply (trimSpace (rr_ID req)) t"
    using act(1) unfolding apply_of_def req sum.case Let_def t_def[symmetric] by (auto split: if_splits)
  have free: "trimSpace (rr_ID req) \<notin> cc_id ` set cs"
    using act(2) v(3) by (simp add: desk_of_eq[OF b(2,1)] is_client_keys split: if_splits)
  show ?thesis
    using store_succeeds[OF w] v(1,2) free b unfolding registerEdge_def req sum.case Let_def t_def[symmetric]
    by simp
qed

lemma find_index_desk:
  "regs_of env a d = Inr gs \<Longrightarrow> clients_of env a d = Inr cs \<Longrightarrow>
   find_index P (dk_regs (desk_of env a d)) = find_index (\<lambda>g. P (application_of g)) gs"
  by (simp add: desk_of_eq find_index_map)

lemma settle_enabled: "settle P q s \<noteq> None \<longleftrightarrow> find_index P (dk_regs s) \<noteq> None"
  by (auto simp: settle_def split: option.splits)

lemma registration_succeeds:
  assumes inv: "console_inv env a d" and w: "writable env a d"
    and act: "settle_of raw1 r = Some act" "desk_do act (desk_of env a d) \<noteq> None"
  shows "co_status (snd (registrationAction env a now raw1 raw2 r d)) = 200"
proof -
  obtain cs gs where b: "clients_of env a d = Inr cs" "regs_of env a d = Inr gs" using inv by (rule console_invE)
  note fi = find_index_desk[OF b(2,1)]
  obtain i action where p: "parseRegistrationAction (cq_path r) = Some (i, action)"
    and x: "action = ''approve'' \<and> act = Grant i (randomString raw1) \<or> action = ''reject'' \<and> act = Refuse i"
    using act(1) by (auto simp: settle_of_def split: option.splits if_splits)
  from x show ?thesis
  proof (elim disjE conjE)
    assume x: "action = ''approve''" "act = Grant i (randomString raw1)"
    have free: "i \<notin> cc_id ` set cs" and en: "settle (is_for i) Granted
        (desk_of env a d\<lparr>dk_clients := dk_clients (desk_of env a d) @ [(i, randomString raw1)]\<rparr>) \<noteq> None"
      using act(2) x(2) by (simp_all add: is_client_keys desk_of_eq[OF b(2,1)] split: if_splits)
    then obtain k where k: "find_index (\<lambda>g. rg_ID g = i) gs = Some k"
      using fi[of "is_for i"] unfolding settle_enabled by auto
    obtain d1 where d1: "writeClientFile env d (ap_clientsPath a) (cs @ [new_client i (randomString raw1)]) = Inr d1"
      using writable_writes(2)[OF w] by blast
    have "writable env a d1" using w writable_keeps[OF writeClientFile_errors[OF d1]] by simp
    then show ?thesis
      using p x(1) b k free d1 by (simp add: registrationAction_def Let_def store_succeeds)
  next
    assume x: "action = ''reject''" "act = Refuse i"
    then obtain k where k: "find_index (\<lambda>g. rg_ID g = i) gs = Some k"
      using act(2) fi[of "is_for i"] unfolding x(2) desk_do.simps settle_enabled by auto
    show ?thesis
      using p x(1) b k by (simp add: registrationAction_def store_succeeds[OF w])
  qed
qed

lemma open_token:
  assumes "console_inv env a d" and "regs_of env a d = Inr gs" and "find_index (install_candidate t) gs = Some k"
  shows "t \<noteq> []" "\<not> contains t ''/''"
proof -
  obtain gs0 where "regs_of env a d = Inr gs0" "regs_ok gs0" using assms(1) by (rule console_invE)
  then have "reg_ok (gs ! k)" using assms(2) regs_ok_nth find_index_Some(1)[OF assms(3)] by simp
  then have "validInstallToken t" using find_index_Some(2)[OF assms(3)] by (auto simp: reg_ok_def install_candidate_def)
  then show "t \<noteq> []" "\<not> contains t ''/''" using validInstallToken_nonempty validInstallToken_no_slash by auto
qed

lemma verify_succeeds:
  assumes inv: "console_inv env a d" and w: "writable env a d"
    and act: "confirm_of r = Some act" "desk_do act (desk_of env a d) \<noteq> None"
  shows "co_status (snd (verifyInstall env a now r d)) = 200"
proof -
  obtain cs gs where b: "clients_of env a d = Inr cs" "regs_of env a d = Inr gs" using inv by (rule console_invE)
  define t where "t = trimSuffix (trimPrefix (cq_path r) ''/api/install/'') ''/verified''"
  have x: "hasSuffix (cq_path r) ''/verified''" "act = Confirm t"
    using act(1) by (simp_all add: confirm_of_def t_def split: if_splits)
  obtain k where k: "find_index (install_candidate t) gs = Some k"
    using act(2) find_index_desk[OF b(2,1), of "opens t"] unfolding x(2) desk_do.simps settle_enabled by auto
  show ?thesis
    using x(1) b k open_token[OF inv b(2) k] unfolding verifyInstall_def t_def[symmetric] Let_def
    by (simp add: store_succeeds[OF w])
qed

lemma install_succeeds:
  assumes inv: "console_inv env a d" and w: "writable env a d" and act: "desk_do (collect_of r) (desk_of env a d) \<noteq> None"
  shows "co_status (snd (installEdge env a now r d)) = 200"
proof -
  obtain cs gs where b: "clients_of env a d = Inr cs" "regs_of env a d = Inr gs" using inv by (rule console_invE)
  define t where "t = trimPrefix (cq_path r) ''/api/install/''"
  let ?s = "desk_of env a d"
  note fi = find_index_desk[OF b(2,1), of "opens t"]
  obtain k where k: "find_index (install_candidate t) gs = Some k"
    using act fi unfolding collect_of_def t_def[symmetric] by (cases "find_index (install_candidate t) gs") simp_all
  have en: "snd (snd (dk_regs ?s ! k)) \<noteq> Spent" "signer_token (fst (dk_regs ?s ! k)) ?s \<noteq> []"
    using act k fi unfolding collect_of_def t_def[symmetric] by (auto split: if_splits)
  have nth: "dk_regs ?s ! k = application_of (gs ! k)" using find_index_Some(1)[OF k] by (simp add: desk_of_eq[OF b(2,1)])
  have st: "rg_Status (gs ! k) = ''approved''" using find_index_Some(2)[OF k] by (simp add: install_candidate_def)
  have u: "rg_InstallUsedAt (gs ! k) = []"
    using en(1) st unfolding nth by (auto simp: application_of_def phase_of_def split: if_splits)
  have tk: "client_token (rg_ID (gs ! k)) cs \<noteq> []"
    using en(2) unfolding nth by (simp add: signer_token_def desk_of_eq[OF b(2,1)] client_key_map(2))
  obtain d1 d2 where "writeRegistrations env d (ap_registerPath a) (gs[k := (gs ! k)\<lparr>rg_InstallStatus := ''delivered''\<rparr>]) = Inr d1"
    "writeRegistrations env d (ap_registerPath a)
       (gs[k := (gs ! k)\<lparr>rg_InstallUsedAt := now, rg_InstallStatus := ''delivered''\<rparr>]) = Inr d2"
    using writable_writes(1)[OF w] by blast
  then show ?thesis
    using b k u tk open_token[OF inv b(2) k] unfolding installEdge_def t_def[symmetric] Let_def by simp
qed

section \<open>The console is the desk\<close>

text \<open>One request.\<close>

lemma step_exact:
  assumes inv: "console_inv env a d" and w: "writable env a d" and n: "now \<noteq> []"
    and o: "act_of env a (now, raw1, raw2, r) = Some Inspect \<Longrightarrow> overview_readable a d"
  shows "desk_handle env a (now, raw1, raw2, r) (desk_of env a d)
    = (desk_of env a (console_step env a (now, raw1, raw2, r) d), handed env a (now, raw1, raw2, r) d)"
proof (cases "consoleHandler env a now raw1 raw2 r d")
  case None
  then show ?thesis using unrouted_no_act[OF None] by (simp add: desk_handle_def del: act_of.simps)
next
  case (Some p)
  then obtain d' resp where h: "consoleHandler env a now raw1 raw2 r d = Some (d', resp)" by (cases p) auto
  have ok: "console_ok env a" using inv by (simp add: console_inv_def)
  let ?e = "(now, raw1, raw2, r)" and ?s = "desk_of env a d"
  have e: "console_step env a ?e d = d'"
    "handed env a ?e d = map (Pair (channel_of r)) (handed_out resp)"
    using h by simp_all
  have enabled: "desk_handle env a ?e ?s = (s', desk_gives act ?s)"
    if "act_of env a ?e = Some act" "desk_do act ?s = Some s'" for act s'
    using that by (simp add: desk_handle_def del: act_of.simps)
  have disabled: "desk_handle env a ?e ?s = (?s, [])" if "\<And>act. act_of env a ?e = Some act \<Longrightarrow> desk_do act ?s = None"
    using that by (simp add: desk_handle_def del: act_of.simps split: option.split)
  from h show ?thesis unfolding e
  proof (cases rule: console_routes)
    case other
    then have "desk_of env a d' = ?s" "handed_out resp = []" using client_act[OF ok] by auto
    then show "desk_handle env a ?e ?s = (desk_of env a d', map (Pair (channel_of r)) (handed_out resp))"
      using disabled other(1) by simp
  next
    case (register resp0)
    from register_act[OF ok register(1)]
    show "desk_handle env a ?e ?s = (desk_of env a d', map (Pair (channel_of r)) (handed_out resp))"
    proof (elim disjE exE conjE)
      assume "d' = d" "co_status resp0 \<noteq> 202"
      moreover have "desk_do act ?s = None" if "act_of env a ?e = Some act" for act
        using register_succeeds[OF inv w, of raw1 r act now] that register(1,2) \<open>co_status resp0 \<noteq> 202\<close> by force
      ultimately show ?thesis using disabled register(3) by simp
    qed (use enabled register in simp)
  next
    case (verify resp0)
    from verify_act[OF inv verify(1) n]
    show "desk_handle env a ?e ?s = (desk_of env a d', map (Pair (channel_of r)) (handed_out resp))"
    proof (elim disjE exE conjE)
      assume "d' = d" "co_status resp0 \<noteq> 200"
      moreover have "desk_do act ?s = None" if "act_of env a ?e = Some act" for act
        using verify_succeeds[OF inv w, of r act now] that verify(1,2) \<open>co_status resp0 \<noteq> 200\<close> by force
      ultimately show ?thesis using disabled verify(3) by simp
    qed (use enabled verify in simp)
  next
    case (install resp0)
    from install_act[OF ok install(1) n]
    show "desk_handle env a ?e ?s = (desk_of env a d', map (Pair (channel_of r)) (handed_out resp))"
    proof (elim disjE exE conjE)
      assume x: "d' = d" "co_status resp0 \<noteq> 200" "handed_out resp0 = []"
      moreover have "desk_do act ?s = None" if "act_of env a ?e = Some act" for act
        using install_succeeds[OF inv w, of r now] that install(1,2) x(2) by force
      ultimately show ?thesis using disabled install(3) by simp
    qed (use enabled install in simp)
  next
    case overview
    have "desk_handle env a ?e ?s = (?s, desk_gives Inspect ?s)" using enabled overview(1) by simp
    then show "desk_handle env a ?e ?s = (desk_of env a d', map (Pair (channel_of r)) (handed_out resp))"
      using summary_succeeds[OF inv o[OF overview(1)]] overview(2-4) by (simp del: desk_gives.simps)
  next
    case (registration resp0)
    from registration_act[OF inv registration(1)]
    show "desk_handle env a ?e ?s = (desk_of env a d', map (Pair (channel_of r)) (handed_out resp))"
    proof (elim disjE exE conjE)
      assume "d' = d" "co_status resp0 \<noteq> 200"
      moreover have "desk_do act ?s = None" if "act_of env a ?e = Some act" for act
        using registration_succeeds[OF inv w, of raw1 r act now raw2] that registration(1,2) \<open>co_status resp0 \<noteq> 200\<close> by force
      ultimately show ?thesis using disabled registration(3) by simp
    next
      fix i tok
      assume x: "settle_of raw1 r = Some (Grant i tok)" "co_status resp0 = 500" "desk_do (HalfGrant i tok) ?s = Some (desk_of env a d')"
      have "desk_do (Grant i tok) ?s \<noteq> None"
        using x(3) by (auto simp: settle_def split: if_splits option.splits)
      then show ?thesis
        using registration_succeeds[OF inv w x(1), of now raw2] registration(1) x(2) by simp
    qed (use enabled registration in simp)
  qed
qed

lemma desk_serve_exact:
  assumes "console_inv env a d" and "writable env a d" and "\<forall>e\<in>set es. fst e \<noteq> []"
    and "overviews_readable env a es d"
  shows "desk_serve env a es (desk_of env a d)
    = (desk_of env a (fold (console_step env a) es d), plain_log env a es d)"
  using assms
proof (induction es arbitrary: d)
  case (Cons e es)
  obtain now raw1 raw2 r where e: "e = (now, raw1, raw2, r)" by (metis prod.exhaust)
  have "desk_handle env a e (desk_of env a d) = (desk_of env a (console_step env a e d), handed env a e d)"
    using step_exact[OF Cons.prems(1,2), of now raw1 raw2 r] Cons.prems(3,4) unfolding e
    by (simp del: console_step.simps handed.simps act_of.simps)
  moreover have "writable env a (console_step env a e d)"
    using Cons.prems(2) writable_keeps[OF console_step_errors] by simp
  ultimately show ?case using Cons.IH[OF console.step_inv[OF Cons.prems(1)]] Cons.prems(3,4)
    by (simp del: console_step.simps handed.simps)
qed simp

text \<open>
  C6. With a client and a registration file that can be written, and a revocation and an audit file that can be read
  whenever an administrator asks for the overview, the console is the enrolment desk: from well-formed files, over any
  sequence of requests (each at some time), whoever sends them, every request does exactly the action it stands for if the desk enables it and nothing otherwise,
  and its answer carries a signer token (in an install configuration, an install script or the overview) exactly when
  the desk hands it out.
\<close>

theorem console_is_desk:
  assumes "console_inv env a d" and "writable env a d" and "\<forall>e\<in>set es. fst e \<noteq> []"
    and "overviews_readable env a es d"
  shows "desk_serve env a es (desk_of env a d)
    = (desk_of env a (fold (console_step env a) es d), plain_log env a es d)"
  using desk_serve_exact[OF assms] .

lemma sample_overview_readable: "overview_readable sample_app (sample_files cs gs)"
  by (simp add: overview_readable_def readRevoked_def tailLines_def readFile_def sample_files_def clean_fs_def sample_app_def)

theorem console_is_desk_witness:
  "plain_log sample_env sample_app [approve_event, inspect_event]
     (sample_files [] [sample_reg ''edge'' ''pending'' install_name]) = [(Overview, ''edge'', randomString ''r1'')]"
proof -
  let ?d = "sample_files [] [sample_reg ''edge'' ''pending'' install_name]"
  have w: "writable sample_env sample_app ?d" by (simp add: writable_def sample_files_def clean_fs_def)
  have t: "\<forall>e\<in>set [approve_event, inspect_event]. fst e \<noteq> []" by (simp add: approve_event_def inspect_event_def)
  have a1: "act_of sample_env sample_app approve_event = Some (Grant ''edge'' (randomString ''r1''))"
    by (simp add: approve_event_def settle_of_def hasPrefix_def)
  have a2: "act_of sample_env sample_app inspect_event = Some Inspect"
    by (simp add: inspect_event_def hasPrefix_def)
  have st: "console_step sample_env sample_app approve_event ?d = sample_files [new_client ''edge'' (randomString ''r1'')]
      [approved ''t1'' (randomString ''r2'') (sample_reg ''edge'' ''pending'' install_name)]"
    by (simp add: approve_event_def sample_approve_step del: console_step.simps)
  have o: "overviews_readable sample_env sample_app [approve_event, inspect_event] ?d"
    by (simp add: a1 a2 st sample_overview_readable del: console_step.simps act_of.simps)
  note exact = console_is_desk[OF sample_desk_inv(1) w t o]
  have s: "desk_of sample_env sample_app ?d = \<lparr>dk_regs = [(''edge'', install_name, Waiting)], dk_clients = []\<rparr>"
    by (simp add: application_of_def phase_of_def)
  have "snd (desk_serve sample_env sample_app [approve_event, inspect_event] (desk_of sample_env sample_app ?d))
      = [(Overview, ''edge'', randomString ''r1'')]"
    unfolding s
    by (simp add: desk_handle_def a1 a2 is_client_def settle_def predicates_of del: act_of.simps)
  then show ?thesis unfolding exact by simp
qed

end
