(* ===== verification/SignatureTrace.thy ===== *)
theory SignatureTrace
  imports Fleet ConsoleSpec ServerProps
begin

text \<open>
  From a signature back to the administrator: which clients a running signer can be serving, where their tokens come
  from, and what a signature therefore proves.
\<close>

section \<open>The clients of a running signer\<close>

text \<open>The client ids and configurations a manager holds. Serving requests adds none and changes none.\<close>

definition client_configs :: "authManager \<Rightarrow> (string \<times> ClientConfig) set" where
  "client_configs m = (\<lambda>(c, st). (c, st_cfg st)) ` set (am_clients m)"

lemma client_configs_run: "client_configs (fst (fold auth_step evs w)) \<subseteq> client_configs (fst w)"
proof (induction evs arbitrary: w)
  case (Cons e evs)
  have "client_configs (fst (auth_step e w)) \<subseteq> client_configs (fst w)"
    using auth_step_clients[of e w]
  proof (elim disjE exE conjE)
    fix cid st st'
    assume a: "mget (am_clients (fst w)) cid = Some st" "st_cfg st' = st_cfg st"
      "am_clients (fst (auth_step e w)) = mput cid st' (am_clients (fst w))"
    have "(cid, st) \<in> set (am_clients (fst w))" using a(1) by (rule map_of_SomeD)
    then show ?thesis
      using set_mput_subset[of cid st' "am_clients (fst w)"] a(2,3) by (force simp: client_configs_def)
  qed (simp add: client_configs_def)
  then show ?case using Cons.IH[of "auth_step e w"] by simp
qed simp

lemma add_clients_configs:
  assumes "add_clients cs m = Inr m'" and "(c, st) \<in> set m'" and "\<forall>x\<in>set cs. trimSpace (cc_id x) = cc_id x"
  shows "(c, st) \<in> set m \<or> st_cfg st \<in> set cs \<and> c = cc_id (st_cfg st)"
  using assms
proof (induction cs arbitrary: m)
  case (Cons x cs)
  then have r: "add_clients cs (mput (cc_id x) (fresh_state x) m) = Inr m'"
    by (auto simp: Let_def split: if_splits)
  from Cons.IH[OF r Cons.prems(2)] Cons.prems(3) show ?case
    using set_mput_subset[of "cc_id x" "fresh_state x" m] by (auto simp: fresh_state_def)
qed simp

text \<open>A signer started on the console's files holds the clients of the client file, each under its own id.\<close>

lemma started_clients:
  assumes inv: "console_inv env a d" and m: "newAuthManager (cn_decodeClients env) d opts = Inr m"
    and p: "opt_ClientsPath opts = ap_clientsPath a" "ap_clientsPath a \<noteq> []" and c: "(cid, cfg) \<in> client_configs m"
  shows "\<exists>cs. clients_of env a d = Inr cs \<and> cfg \<in> set cs \<and> cid = cc_id cfg"
proof -
  obtain cs gs where b: "clients_of env a d = Inr cs" "clients_ok cs" using inv by (rule console_invE)
  obtain ms where ms: "add_clients cs [] = Inr ms" "am_clients m = ms"
  proof -
    have "\<exists>data. readFile d (ap_clientsPath a) = Inr data \<and> cn_decodeClients env data = Inr cs"
      using b(1) by (auto simp: readClientFile_def split: sum.splits)
    then show thesis using m p that
      by (auto simp: newAuthManager_def loadClients_def loadRevoked_def Let_def
          split: sum.splits os_error.splits prod.splits if_splits)
  qed
  obtain st where "(cid, st) \<in> set ms" "cfg = st_cfg st" using c ms(2) by (auto simp: client_configs_def)
  moreover have "\<forall>x\<in>set cs. trimSpace (cc_id x) = cc_id x" using b(2) valid_id_trim(1) by (auto simp: clients_ok_def)
  ultimately show ?thesis using add_clients_configs[OF ms(1)] b(1) by force
qed

text \<open>Whom a running signer authenticates.\<close>

lemma authenticated_client:
  assumes "am_clientsMode (fst w)" and "authenticate (fst (fold auth_step evs w)) token = (cid, True, reason)"
  shows "\<exists>cfg. (cid, cfg) \<in> client_configs (fst w) \<and> cc_token cfg = token \<and> \<not> cc_disabled cfg"
    and "cid \<notin> am_revoked (fst w)"
proof -
  let ?w = "fold auth_step evs w"
  have f: "find_client token (am_revoked (fst ?w)) (am_clients (fst ?w)) = (cid, True, reason)"
    using assms auth_run_ids[of evs w] by (simp add: authenticate_def)
  then obtain st where "(cid, st) \<in> set (am_clients (fst ?w))" "cc_token (st_cfg st) = token"
    "\<not> cc_disabled (st_cfg st)" "cid \<notin> am_revoked (fst ?w)" using find_client_ok by blast
  then show "\<exists>cfg. (cid, cfg) \<in> client_configs (fst w) \<and> cc_token cfg = token \<and> \<not> cc_disabled cfg"
    "cid \<notin> am_revoked (fst w)"
    using client_configs_run[of evs w] auth_revocations.run_mono[of w evs] by (force simp: client_configs_def)+
qed

lemma signed_is_authenticated:
  assumes "Routes ce srv tk r w = Some (w', resp)" and "rq_path r = ''/v1/sign''" and "rs_status resp = 200"
  obtains cid reason where "authenticate (fst w) (hget (rq_header r) HeaderToken) = (cid, True, reason)"
proof -
  obtain cid ok reason where au: "authenticate (fst w) (hget (rq_header r) HeaderToken) = (cid, ok, reason)"
    by (metis prod_cases3)
  have "requireAuth (sign ce srv) tk r w = (w', resp)"
    using assms(1,2) by (simp add: Routes_def split: if_splits)
  then show thesis using assms(3) au that by (auto simp: find_client_denied_handled split: if_splits)
qed

section \<open>Where the token of a client comes from\<close>

lemma grants_faulty [simp]: "grants env a (faulty w d) = grants env a d"
  by (simp add: grants_def)

lemma grants_disk_run:
  "(cid, tok) \<in> grants env a (fold (disk_step env a) es d) \<Longrightarrow>
   (cid, tok) \<in> grants env a d \<or> (\<exists>e\<in>snd ` set es. admin_approval env a cid tok e)"
proof (induction es arbitrary: d)
  case (Cons x es)
  obtain w e where x: "x = (w, e)" by (cases x)
  from Cons have "(cid, tok) \<in> grants env a (console_step env a e (faulty w d))
      \<or> (\<exists>e\<in>snd ` set es. admin_approval env a cid tok e)"
    by (auto simp: x)
  then show ?case using grants_step[of env a e "faulty w d"] by (auto simp: x)
qed simp

text \<open>
  C2. Every signature traces back to an administrator: take a console whose files are well formed, any sequence of
  requests to it, whichever of its writes fail, and a signer started on the files it leaves, which has served anything
  since. If the signer now answers a signing request with a signature, then the token of the request belongs to a
  client that was in the console's client file already at the beginning, or that an administrator, in a session the
  account system confirmed, approved under that id, and the token is the one drawn at that approval; that client was
  neither disabled nor revoked in the files when the signer started.
\<close>

theorem signature_traces_to_approval:
  assumes inv: "console_inv env a d" and d': "d' = fold (disk_step env a) es d"
    and m: "newAuthManager (cn_decodeClients env) d' opts = Inr m"
    and p: "opt_ClientsPath opts = ap_clientsPath a" "ap_clientsPath a \<noteq> []"
      "opt_RevokedPath opts = ap_revokedPath a" "ap_revokedPath a \<noteq> []"
    and rf: "revfile_ok env (ap_revokedPath a) d'"
    and s: "Routes ce srv tk r (fold auth_step evs (m, df)) = Some (w', resp)" "rq_path r = ''/v1/sign''" "rs_status resp = 200"
  shows "\<exists>cid. ((cid, hget (rq_header r) HeaderToken) \<in> grants env a d
        \<or> (\<exists>e\<in>snd ` set es. admin_approval env a cid (hget (rq_header r) HeaderToken) e))
    \<and> (\<exists>cs c. clients_of env a d' = Inr cs \<and> c \<in> set cs \<and> cc_id c = cid
        \<and> cc_token c = hget (rq_header r) HeaderToken \<and> \<not> cc_disabled c)
    \<and> cid \<notin> revfile_ids (ap_revokedPath a) d'"
proof -
  let ?tok = "hget (rq_header r) HeaderToken"
  have inv': "console_inv env a d'" unfolding d' by (rule disk.run_inv[OF inv])
  have rv: "am_revoked m = revfile_ids (ap_revokedPath a) d'" "am_clientsMode m"
    using newAuthManager_revoked[OF m _ p(3,4) rf] p(1,2) by simp_all
  obtain cid reason where "authenticate (fst (fold auth_step evs (m, df))) ?tok = (cid, True, reason)"
    by (rule signed_is_authenticated[OF s])
  note au = authenticated_client[OF _ this]
  obtain cfg where cfg: "(cid, cfg) \<in> client_configs m" "cc_token cfg = ?tok" "\<not> cc_disabled cfg"
    using au(1) rv(2) by auto
  obtain cs where cs: "clients_of env a d' = Inr cs" "cfg \<in> set cs" "cid = cc_id cfg"
    using started_clients[OF inv' m p(1,2) cfg(1)] by blast
  have "(cid, ?tok) \<in> grants env a (fold (disk_step env a) es d)"
    using inv' cs cfg(2) by (auto simp: grants_eq console_inv_def d')
  from grants_disk_run[OF this] cs cfg(2,3) au(2) rv show ?thesis by auto
qed

theorem signature_traces_to_approval_witness:
  "\<exists>d' m w'. d' = fold (disk_step sample_env sample_app)
        [(\<lambda>_. None, ''now'', ''r1'', ''r2'',
          sample_request ''POST'' ''/api/registrations/edge/approve'' [] (Some sample_cookie))]
        (sample_files [] [sample_reg ''edge'' ''pending'' install_name])
    \<and> newAuthManager (cn_decodeClients sample_env) d' (file_opts sample_app) = Inr m
    \<and> Routes demo_env demo_server (demo_tick 0) (demo_request (randomString ''r1'')) (m, d')
        = Some (w', WriteJSON 200 (SignatureBody (stdEncode (''K'' @ [CHR 0x01]))))
    \<and> admin_approval sample_env sample_app ''edge'' (randomString ''r1'')
         (''now'', ''r1'', ''r2'', sample_request ''POST'' ''/api/registrations/edge/approve'' [] (Some sample_cookie))"
proof -
  let ?tok = "randomString ''r1''"
  let ?e = "(''now'', ''r1'', ''r2'', sample_request ''POST'' ''/api/registrations/edge/approve'' [] (Some sample_cookie))"
  let ?es = "[(\<lambda>_. None, ?e)]"
  let ?d = "sample_files [] [sample_reg ''edge'' ''pending'' install_name]"
  let ?d' = "sample_files [new_client ''edge'' ?tok]
     [approved ''now'' (randomString ''r2'') (sample_reg ''edge'' ''pending'' install_name)]"
  let ?ms = "[(''edge'', fresh_state (new_client ''edge'' ?tok))]"
  let ?m = "file_manager sample_app ?ms ?d'"
  have d': "?d' = fold (disk_step sample_env sample_app) ?es ?d"
    using sample_approve_step[of "''now''" "''r1''" "''r2''" "[]" install_name "[]"]
    by (simp add: sample_files_def clean_fs_def del: console_step.simps)
  have rf: "revfile_ok sample_env (ap_revokedPath sample_app) ?d'" by (simp add: sample_revfile)
  have "trimSpace ''edge'' = ''edge''" using plain_edge by (simp add: plain_id_def)
  then have ad: "add_clients [new_client ''edge'' ?tok] [] = Inr ?ms" by (simp add: new_client_def Let_def)
  have m: "newAuthManager (cn_decodeClients sample_env) ?d' (file_opts sample_app) = Inr ?m"
    by (rule newAuthManager_files[OF _ ad rf]) simp_all
  have au: "authenticate ?m ?tok = (''edge'', True, [])"
    by (simp add: authenticate_def file_manager_def fresh_state_def new_client_def sample_revfile)
  have "snd (requireAuth (sign demo_env demo_server) (demo_tick 0) (demo_request ?tok) (?m, ?d'))
      = WriteJSON 200 (SignatureBody (stdEncode (''K'' @ [CHR 0x01])))"
    using au demo_keyid[of ?tok]
    by (simp add: find_client_denied_handled demo_token sign_def Let_def)
       (simp add: allowed_def file_manager_def new_client_def fresh_state_def ReadJSON_def demo_env_def
         demo_payload SignerOptsFromRequest_def ParseHash_def validatePayload_def keyForRequest_def
         demo_server_def demo_tick_def sample_revfile)
  moreover have "Routes demo_env demo_server (demo_tick 0) (demo_request ?tok) (?m, ?d') =
      Some (requireAuth (sign demo_env demo_server) (demo_tick 0) (demo_request ?tok) (?m, ?d'))"
    by (simp add: Routes_def demo_request_def)
  ultimately obtain w' where s: "Routes demo_env demo_server (demo_tick 0) (demo_request ?tok) (fold auth_step [] (?m, ?d'))
      = Some (w', WriteJSON 200 (SignatureBody (stdEncode (''K'' @ [CHR 0x01]))))"
    by (simp del: append.simps) (metis prod.collapse)
  have path: "rq_path (demo_request ?tok) = ''/v1/sign''" by (simp add: demo_request_def)
  from signature_traces_to_approval[OF sample_inv d' m _ _ _ _ rf s path] demo_token[of ?tok]
  have "admin_approval sample_env sample_app ''edge'' ?tok ?e"
    by (auto simp: file_opts_def WriteJSON_def grants_def sample_ok new_client_def)
  with d' m s show ?thesis by auto
qed

end
