(* ===== verification/Spec2Isabelle.thy ===== *)
theory Spec2Isabelle
  imports WizardCentre WizardEdge Dashboard RevocationRace EdgeListeners CacheConcurrency CacheRetention
    Tunnel SignRate WizardForm CrashSafety ConsoleExact SignatureTrace
begin

text \<open>
  \<^bold>\<open>myzerossl: keyless TLS for edge servers.\<close> An edge (\<open>cmd/edgeproxy\<close>) terminates TLS for certificates whose
  private keys it does not have. Each handshake signature is asked of a signer (\<open>cmd/keylessd\<close>, over
  \<open>internal/keyless\<close>), which authenticates the edge by a token, limits its rate and audits it. Edges register
  with a console (\<open>cmd/signer-console\<close>), where an administrator approves them; the console and the signer
  share the client file and the revocation file. A wizard (\<open>cmd/setup-wizard\<close>) installs either side.

  \<^bold>\<open>Foundations.\<close> \<open>Prelude\<close> (errors as sums, Go maps as association lists, \<open>int64\<close> wrap-around, time),
  \<open>GoStrings\<close> (\<open>strings\<close>, \<open>strconv\<close>), \<open>GoEncoding\<close> (base64, hex, JSON text), \<open>GoSystem\<close> (files, \<open>bufio.Scanner\<close>,
  HTTP headers): the parts of Go's standard library the programs use, on byte strings.

  \<^bold>\<open>Signer, \<open>internal/keyless\<close> and \<open>cmd/keylessd\<close>.\<close>
  \<^item> \<open>Protocol\<close> (\<open>protocol.go\<close>): hash names, requests, options. It shows what survives the wire.
  \<^item> \<open>Auth\<close>, \<open>AuthProps\<close> (\<open>auth.go\<close>): \<open>authManager\<close> with its client map, minute windows, revocation set and audit
    log. Each method takes the lock for its whole body, so it is one step on the pair of manager and files.
    \<open>auth_step\<close> runs the methods the handlers call; the lemmas give the registry's invariant, the finality of
    revocation, and what the thresholds do.
  \<^item> \<open>SignServer\<close>, \<open>ServerProps\<close> (\<open>server.go\<close>, \<open>pem.go\<close>): key loading, the handlers and their routes.
    \<open>SignConcurrency\<close>: a step relation of overlapping handlers, for the rate limit. \<open>SignRate\<close>: the counters against
    the history of a client's requests, and the limit for every minute.
  \<^item> \<open>RemoteSigner\<close> (\<open>client.go\<close>): the client side over the server's handler: which digests and hashes the protocol and
    the server accept (\<open>honoured\<close>), that these get what the key returns, and the others an error; also over a server
    that changes between requests (\<open>connect_live\<close>).
  \<^item> \<open>Enroll\<close> holds the start-up of \<open>keylessd\<close>: settings and the choice of listener.

  \<^bold>\<open>Edge, \<open>cmd/edgeproxy\<close>.\<close>
  \<^item> \<open>EdgeHttp\<close>, \<open>ResponseCache\<close>: requests, responses, \<open>responseCache\<close> with its map, linked list and byte count,
    lifetimes, compression. \<open>CacheProps\<close> and \<open>CacheTheorems\<close>: the abstract store is a list of entries, most recent
    first, with \<open>lru_get\<close> and \<open>lru_put\<close>; the operations refine it. \<open>EdgeCache\<close>: the interface of a store whose
    answers must stem from earlier insertions (locale), the default handler, and its runs (\<open>served\<close>).
    \<open>CacheConcurrency\<close>: requests that overlap, as a step relation with the requests in flight; hits stay sound
    and memory bounded in every interleaving. \<open>CacheRetention\<close>: what a store keeps through other traffic that fits.
  \<^item> \<open>CertSelect\<close>: certificate lists, chain loading, the handshake's choice of a certificate.
  \<^item> \<open>PluginRoutes\<close>, \<open>PluginProps\<close>: route validation, matching, rewriting, the WebSocket tunnel, the handler of \<open>/\<close>.
    \<open>Tunnel\<close>: an established tunnel as two copying goroutines between two peers that send, read, end or fail at any
    moment, a write waiting until its peer has room: what arrives where, and when it closes.
  \<^item> \<open>Enroll\<close>, \<open>EnrollProps\<close>: settings, token file, enrolment, TLS settings for the signer.
  \<^item> \<open>EdgeMain\<close>: \<open>main\<close> as a whole, from the settings to what it serves with, and the mux; a started edge answers
    every request, and a handshake's signature is that of the signer's key. \<open>EdgeListeners\<close>: the settings of the
    servers and transports, and how \<open>main\<close> ends with its servers.

  \<^bold>\<open>Console, \<open>cmd/signer-console\<close>.\<close>
  \<^item> \<open>Console\<close>, \<open>ConsoleHandlers\<close>: files, sessions, handlers, routes. A handler runs under the console's lock and is
    a function from the files to the files and a response.
  \<^item> \<open>SampleCodec\<close>, \<open>ConsoleSamples\<close>: a concrete codec and console for the witnesses.
  \<^item> \<open>ConsoleState\<close> describes the effect of each handler on the files; \<open>ConsoleProps\<close> gives the invariant and the runs
    (\<open>console_step\<close>); \<open>ConsoleTheorems\<close>, \<open>ConsoleTokens\<close>, \<open>ConsoleSession\<close> hold the properties: well-formed files,
    who can obtain a token, the life of an install token, sessions.
  \<^item> \<open>EnrolDesk\<close>: what the console promises about enrolment, an abstract machine of applications, clients and actions
    (\<open>desk_do\<close>), with what it keeps and hands out. \<open>ConsoleSpec\<close>: the console refines it, request by request, with the
    signer tokens it answers as the observable output, each with the way it left (\<open>channel\<close>: for an install token, or in
    the overview that an administrator's session can ask for), also when writes fail between two files. \<open>ConsoleExact\<close>:
    as long as the files can be written (and those of an overview read), the console does exactly what the desk does.
  \<^item> \<open>ConsolePage\<close>: the install script as a shell reads it, and the tables of the administrator's page as a browser
    does, with the part of the HTML tokenizer they need in \<open>HtmlText\<close>. \<open>Dashboard\<close>: the requests of the page's buttons and form, from the click to the files.
  \<^item> \<open>RevocationStore\<close>: a set of revoked ids as an interface (locale), implemented by the revocation file.
    \<open>RevocationRace\<close>: the console's read and write of that file as two steps between which the signer appends, and
    a write that is interrupted. \<open>CrashSafety\<close>: interrupted writes of the client and of the registration file.
  \<^item> \<open>Fleet\<close>, \<open>FleetEnroll\<close>: console and signer on the same files; an edge that enrols over a link to the console.
    \<open>SignatureTrace\<close>: from a signature of the signer back to the administrator's approval.

  \<^bold>\<open>Wizard, \<open>cmd/setup-wizard\<close>.\<close> \<open>Wizard\<close>: environment files, installation as steps that stop at the first error.
  \<open>WizardProps\<close>: the sort, and reading back what was written. \<open>WizardInstall\<close>: what an installation leaves on disk.
  \<open>WizardPerms\<close>: the owners and modes its commands leave, and what the installed console can then write.
  \<open>WizardCentre\<close>: the signer and the console that start from the installed files. \<open>WizardEdge\<close>: the first and the
  later starts of an installed edge. \<open>WizardForm\<close>: the form of the wizard's page, whose shown values are what blank fields
  mean, and edge ids the console does not accept.

  This theory holds the properties that span programs: revocation and approval from console to signer, enrolment
  from edge to console, and from the wizard's files to the edge's start.

  \<^bold>\<open>Parameters.\<close> Code outside the repository is an argument of the definitions: JSON decoding, signing and key
  parsing, x509 and PEM, HMAC, the account service, HTTP round trips, gzip, SOCKS dialling, commands, random
  bytes and the clock. What a property needs of them (a codec that reads back what it wrote, a body that decodes) is
  a hypothesis of the property, and its witness instantiates it.

  \<^bold>\<open>Interfaces.\<close> \<open>Prelude\<close> states what several components have in common as locales: codecs that read back what
  they wrote, systems of steps with an invariant (\<open>concurrent_invariant\<close>, used by the tunnel, by overlapping
  requests and by the enrolment desk; \<open>invariant_system\<close>, used by the registry and by the console's runs), and systems of steps with a measure that end (\<open>terminating_system\<close>, used by the tunnel's closing).

  \<^bold>\<open>Loops.\<close> No fuel is used. Loops over lists are structural recursion; the two loops that might not end, the
  eviction of the cache and the polling of an enrolling edge, and the walk over PEM blocks, are
  partial functions into \<open>option\<close>: that the eviction ends is proved (memory bound), that polling ends is proved under an
  approval, and that it does not end otherwise is proved as well. Byte counts and lifetimes wrap at 64 bits.

  \<^bold>\<open>Not modelled.\<close> The insides of TLS, HTTP/2 and HTTP/3, timeouts and shutdown; the dialogue with an outbound
  proxy, which a library leads; the processing of hop-by-hop headers in Go's reverse proxy (a parameter); of the
  HTML pages the constant markup, style and translations, and the dialog and notices of their scripts; directories,
  whose absence only makes operations fail. File owners and modes are represented in \<open>WizardPerms\<close> and \<open>WizardEdge\<close> only, and a write
  is all or nothing except in \<open>RevocationRace\<close> and \<open>CrashSafety\<close>. What readers outside the repository make of a
  text (a shell's words, a browser's tags, \<open>parse_env\<close> for the service manager's environment files) and what
  \<open>chown\<close> and \<open>chmod\<close> do (\<open>command_perms\<close>) is written down as far as the programs use it, and is no translation of
  their code. JSON libraries are taken to read back what they wrote (\<open>console_ok\<close>).
\<close>

text \<open>
  C17. Revoking a client on the console is enforced by the signer from its next start on: when the client file can be
  read, the revocation file can be read and written and its last line is ended (an empty or missing file will do), and
  the id is one a line of it can hold (no outer spaces, no line feed, no leading hash, shorter than a scanner's line),
  the console answers the revocation 200, and a signer in clients mode that starts from the files so left
  authenticates no token as that client, whatever requests it has served since.
\<close>

theorem console_revocation_enforced:
  assumes "clients_of env a d = Inr cs" and "revfile_ok env (ap_revokedPath a) d" and "plain_id cid"
    and "parseClientAction (cq_path r) = Some (cid, ''revoke'')" and "clientAction env a r d = (d', resp)"
    and "opt_ClientsPath opts \<noteq> []" and "opt_RevokedPath opts = ap_revokedPath a" and "ap_revokedPath a \<noteq> []"
    and "newAuthManager decode d' opts = Inr m"
  shows "co_status resp = 200 \<and> authenticate (fst (fold auth_step es (m, d''))) token \<noteq> (cid, True, reason)"
proof -
  have r: "d' = revfile_add env (ap_revokedPath a) cid d" "resp = console_json 200 JOk"
    using clientAction_revoke[OF assms(1-4)] assms(5) by simp_all
  have "revfile_ok env (ap_revokedPath a) d'" "revfile_ids (ap_revokedPath a) d' = insert cid (revfile_ids (ap_revokedPath a) d)"
    using revfile.add_good[OF assms(2,3)] revfile.members_add[OF assms(2,3)] r(1) by simp_all
  with newAuthManager_revoked[OF assms(9,6,7,8)] have "am_clientsMode m" "cid \<in> am_revoked m" by auto
  then show ?thesis using revoked_stays_denied[of "(m, d'')" cid es] r(2) by simp
qed

theorem console_revocation_enforced_witness:
  "\<exists>d' m. clientAction sample_env sample_app revoke_request (sample_files [edge_cfg ''edge'' ''tok'' False] [])
       = (d', console_json 200 JOk)
     \<and> newAuthManager (cn_decodeClients sample_env) d' (file_opts sample_app) = Inr m
     \<and> authenticate (fst (fold auth_step [EvAllowed ''edge'' ''sign''] (m, d'))) ''tok'' \<noteq> (''edge'', True, [])"
proof -
  let ?d = "sample_files [edge_cfg ''edge'' ''tok'' False] []"
  let ?d' = "revfile_add sample_env ''revoked'' ''edge'' ?d"
  have p: "parseClientAction (cq_path revoke_request) = Some (''edge'', ''revoke'')"
    by (simp add: revoke_request_def)
  have ok: "revfile_ok sample_env (ap_revokedPath sample_app) ?d" by (simp add: sample_revfile)
  have cs: "clients_of sample_env sample_app ?d = Inr [edge_cfg ''edge'' ''tok'' False]" by simp
  have h: "clientAction sample_env sample_app revoke_request ?d = (?d', console_json 200 JOk)"
    using clientAction_revoke[OF cs ok plain_edge p] by simp
  have ok': "revfile_ok sample_env (ap_revokedPath sample_app) ?d'"
    using revfile.add_good[OF ok plain_edge] by simp
  have "appendRevoked sample_env ?d (ap_revokedPath sample_app) ''edge'' = Inr ?d'"
    using appendRevoked_eq[OF ok plain_edge] by simp
  then have cs': "clients_of sample_env sample_app ?d' = Inr [edge_cfg ''edge'' ''tok'' False]"
    using revoked_write_effect(1)[OF sample_ok, of ?d "''edge''" ?d'] cs by simp
  have "\<exists>m. newAuthManager (cn_decodeClients sample_env) ?d' (file_opts sample_app) = Inr m"
    using newAuthManager_files[OF cs' _ ok'] plain_edge by (simp add: edge_cfg_def plain_id_def)
  then obtain m where m: "newAuthManager (cn_decodeClients sample_env) ?d' (file_opts sample_app) = Inr m" by blast
  have "authenticate (fst (fold auth_step [EvAllowed ''edge'' ''sign''] (m, ?d'))) ''tok'' \<noteq> (''edge'', True, [])"
    by (rule conjunct2[OF console_revocation_enforced[OF cs ok plain_edge p h _ _ _ m]]) (simp_all add: file_opts_def)
  with h m show ?thesis by blast
qed

text \<open>
  What an approval means for the signer: a signer started on the files after the approval accepts the new
  token as the approved id, while a signer that was already running answers ``bad token'' to it however many
  requests it has served since, because it reads the client file only at start-up.
\<close>

theorem approval_reaches_signer_at_restart:
  assumes inv: "console_inv env a d" and cs: "clients_of env a d = Inr cs"
    and h: "registrationAction env a now raw1 raw2 r d = (d', resp)" "co_status resp = 200"
      "parseRegistrationAction (cq_path r) = Some (cid, ''approve'')"
    and fresh: "randomString raw1 \<noteq> []" "randomString raw1 \<notin> cc_token ` set cs"
    and paths: "ap_clientsPath a \<noteq> []" "ap_revokedPath a \<noteq> []"
    and rv: "revfile_ok env (ap_revokedPath a) d'" "cid \<notin> revfile_ids (ap_revokedPath a) d'"
    and m0: "newAuthManager (cn_decodeClients env) d (file_opts a) = Inr m0"
  shows "(\<exists>m. newAuthManager (cn_decodeClients env) d' (file_opts a) = Inr m
           \<and> authenticate m (randomString raw1) = (cid, True, []))
    \<and> authenticate (fst (fold auth_step es (m0, d''))) (randomString raw1) = ([], False, ''bad token'')"
proof -
  obtain gs where b: "console_ok env a" "regs_of env a d = Inr gs" "regs_ok gs"
    using inv cs by (auto elim!: console_invE)
  obtain i where i: "find_index (\<lambda>g. rg_ID g = cid) gs = Some i"
    and c': "clients_of env a d' = Inr (cs @ [new_client cid (randomString raw1)])"
    by (rule approval_effect[OF b(1) h cs b(2)])
  have v: "validClientID cid"
    using regs_ok_nth[OF b(3) find_index_Some(1)[OF i]] find_index_Some(2)[OF i] by (simp add: reg_ok_def)
  obtain data ms where ms: "add_clients cs [] = Inr ms" "am_clients m0 = ms" "am_clientsMode m0"
  proof -
    have "\<exists>data. readFile d (ap_clientsPath a) = Inr data \<and> cn_decodeClients env data = Inr cs"
      using cs by (auto simp: readClientFile_def split: sum.splits)
    then show thesis using m0 paths that
      by (auto simp: newAuthManager_def loadClients_def file_opts_def loadRevoked_def Let_def
          split: sum.splits os_error.splits prod.splits if_splits)
  qed
  have "randomString raw1 \<notin> known_tokens (m0, d'')"
    using add_clients_tokens[OF ms(1)] ms(2) fresh(2) by (auto simp: known_tokens_def)
  then show ?thesis
    using unknown_token_denied[of "(m0, d'')"] ms(3)
      appended_client_accepted[OF c' ms(1) rv(1) paths v fresh rv(2)] by simp
qed

theorem approval_reaches_signer_at_restart_witness:
  "(\<exists>m. newAuthManager (cn_decodeClients sample_env)
          (sample_files [new_client ''edge'' (randomString ''r1'')]
             [approved ''t'' (randomString ''r2'') (sample_reg ''edge'' ''pending'' install_name)]) (file_opts sample_app) = Inr m
        \<and> authenticate m (randomString ''r1'') = (''edge'', True, []))
   \<and> authenticate (fst (fold auth_step [EvAllowed ''edge'' ''sign'']
          (file_manager sample_app [] (sample_files [] [sample_reg ''edge'' ''pending'' install_name]), sample_files [] [])))
        (randomString ''r1'') = ([], False, ''bad token'')"
proof -
  let ?d = "sample_files [] [sample_reg ''edge'' ''pending'' install_name]"
  have m0: "newAuthManager (cn_decodeClients sample_env) ?d (file_opts sample_app) = Inr (file_manager sample_app [] ?d)"
    by (rule newAuthManager_files[where cs = "[]"]) (simp_all add: sample_revfile)
  show ?thesis
    by (rule approval_reaches_signer_at_restart[where cs = "[]", OF sample_inv _ sample_approval _ _ _ _ _ _ _ _ m0])
       (simp_all add: sample_revfile)
qed

text \<open>
  Enrolment over the console: an edge with an unused valid id and install token that registers with the
  console, while nothing else is registered, polls until an administrator approves its id, however many polls
  that takes; then \<open>enrollEdge\<close> returns, with the signer token drawn at the approval and the console's edge
  configuration, and the client file lists the edge with that token.
\<close>

theorem enrolment_through_console:
  assumes inv: "console_inv env a d" and cs: "clients_of env a d = Inr cs" and gs: "regs_of env a d = Inr gs"
    and v: "validClientID rid" "validInstallToken tok"
    and fresh: "rid \<notin> cc_id ` set cs" "rid \<notin> rg_ID ` set gs" "tok \<notin> rg_InstallToken ` set gs"
    and wr: "regs_writable env a d" "fs_write_error d (ap_clientsPath a) = None" "cn_mkdir env (ap_clientsPath a) = None"
    and ap: "admin_approval env a rid st (now1, raw1, raw2, r1)" "hasPrefix (cq_path r1) ''/api/registrations/''" "st \<noteq> []"
    and url: "url = trimRight consoleURL CHR ''/''"
    and l: "link_ok env a l decode url rid (if label = [] then rid else label) tok st"
  shows "\<exists>d'. enrollEdge (edge_on_console env a l decode now raw) raw0 consoleURL rid label tok
        (d, [] # replicate n [] @ [(now1, raw1, raw2, r1)] # rest)
      = Some ((d', rest), Inr (st, tok, edgeConfig a))
    \<and> clients_of env a d' = Inr (cs @ [new_client rid st])"
  by (rule enrolment_run[OF assms]) blast

theorem enrolment_through_console_witness:
  "\<exists>d'. enrollEdge (edge_on_console sample_env sample_app sample_link
          (\<lambda>_. Inr \<lparr>ir_KeylessToken = randomString ''r1'', ir_EdgeConfig = edgeConfig sample_app\<rparr>) ''t0'' ''r0'')
        [] ''https://console'' ''edge'' [] install_name
        (sample_files [] [], [] # replicate 5 [] @
          [(''t'', ''r1'', ''r2'', sample_request ''POST'' ''/api/registrations/edge/approve'' [] (Some sample_cookie))] # [])
      = Some ((d', []), Inr (randomString ''r1'', install_name, edgeConfig sample_app))
    \<and> clients_of sample_env sample_app d' = Inr ([] @ [new_client ''edge'' (randomString ''r1'')])"
proof (rule enrolment_through_console[where cs = "[]" and gs = "[]"])
  show "console_inv sample_env sample_app (sample_files [] [])"
    by (simp add: console_inv_def sample_ok clients_ok_def regs_ok_def)
  show "regs_writable sample_env sample_app (sample_files [] [])"
    by (simp add: regs_writable_def sample_files_def clean_fs_def)
  show "fs_write_error (sample_files [] []) (ap_clientsPath sample_app) = None"
    by (simp add: sample_files_def clean_fs_def)
  show "link_ok sample_env sample_app sample_link
     (\<lambda>_. Inr \<lparr>ir_KeylessToken = randomString ''r1'', ir_EdgeConfig = edgeConfig sample_app\<rparr>)
     (trimRight ''https://console'' CHR ''/'') ''edge'' (if [] = [] then ''edge'' else []) install_name (randomString ''r1'')"
    by (simp add: link_ok_def sample_link_def del: append_Cons)
  show "hasPrefix (cq_path (sample_request ''POST'' ''/api/registrations/edge/approve'' [] (Some sample_cookie)))
     ''/api/registrations/''" by (simp add: hasPrefix_def)
qed simp_all

text \<open>
  C9. Enrolment works end to end: an edge with an unused valid id and install token that registers with the
  console, while nothing else is registered, polls until an administrator approves its id, however many polls
  that takes; then \<open>enrollEdge\<close> returns, with the signer token drawn at the approval and the console's edge
  configuration, and a signer started on the console's files accepts that token as the edge's id.
\<close>

theorem enrolled_edge_accepted:
  assumes inv: "console_inv env a d" and cs: "clients_of env a d = Inr cs" and gs: "regs_of env a d = Inr gs"
    and v: "validClientID rid" "validInstallToken tok"
    and fresh: "rid \<notin> cc_id ` set cs" "rid \<notin> rg_ID ` set gs" "tok \<notin> rg_InstallToken ` set gs"
    and wr: "regs_writable env a d" "fs_write_error d (ap_clientsPath a) = None" "cn_mkdir env (ap_clientsPath a) = None"
    and ap: "admin_approval env a rid st (now1, raw1, raw2, r1)" "hasPrefix (cq_path r1) ''/api/registrations/''" "st \<noteq> []"
    and url: "url = trimRight consoleURL CHR ''/''"
    and l: "link_ok env a l decode url rid (if label = [] then rid else label) tok st"
    and signer: "add_clients cs [] = Inr ms" "revfile_ok env (ap_revokedPath a) d" "ap_clientsPath a \<noteq> []"
      "ap_revokedPath a \<noteq> []" "st \<notin> cc_token ` set cs" "rid \<notin> revfile_ids (ap_revokedPath a) d"
  shows "\<exists>d' m. enrollEdge (edge_on_console env a l decode now raw) raw0 consoleURL rid label tok
        (d, [] # replicate n [] @ [(now1, raw1, raw2, r1)] # rest)
      = Some ((d', rest), Inr (st, tok, edgeConfig a))
    \<and> newAuthManager (cn_decodeClients env) d' (file_opts a) = Inr m \<and> authenticate m st = (rid, True, [])"
proof -
  have ok: "console_ok env a" using inv by (auto elim: console_invE)
  obtain d' where d': "enrollEdge (edge_on_console env a l decode now raw) raw0 consoleURL rid label tok
        (d, [] # replicate n [] @ [(now1, raw1, raw2, r1)] # rest)
      = Some ((d', rest), Inr (st, tok, edgeConfig a))" "clients_of env a d' = Inr (cs @ [new_client rid st])"
    and same: "\<forall>q. q \<noteq> ap_registerPath a \<longrightarrow> q \<noteq> ap_clientsPath a \<longrightarrow> same_file q d d'"
    by (rule enrolment_run[OF inv cs gs v fresh wr ap url l, of now raw raw0 n rest])
  have "same_file (ap_revokedPath a) d d'" using same ok by (auto simp: console_ok_def)
  note rv = same_revfile[OF this]
  have "revfile_ok env (ap_revokedPath a) d'" "rid \<notin> revfile_ids (ap_revokedPath a) d'" using signer(2,6) rv by simp_all
  from appended_client_accepted[OF d'(2) signer(1) this(1) signer(3,4) v(1) ap(3) signer(5) this(2)] d'(1)
  show ?thesis by blast
qed

theorem enrolled_edge_accepted_witness:
  "\<exists>d' m. enrollEdge (edge_on_console sample_env sample_app sample_link
          (\<lambda>_. Inr \<lparr>ir_KeylessToken = randomString ''r1'', ir_EdgeConfig = edgeConfig sample_app\<rparr>) ''t0'' ''r0'')
        [] ''https://console'' ''edge'' [] install_name
        (sample_files [] [], [] # replicate 5 [] @
          [(''t'', ''r1'', ''r2'', sample_request ''POST'' ''/api/registrations/edge/approve'' [] (Some sample_cookie))] # [])
      = Some ((d', []), Inr (randomString ''r1'', install_name, edgeConfig sample_app))
    \<and> newAuthManager (cn_decodeClients sample_env) d' (file_opts sample_app) = Inr m
    \<and> authenticate m (randomString ''r1'') = (''edge'', True, [])"
proof (rule enrolled_edge_accepted[where cs = "[]" and gs = "[]" and ms = "[]"])
  show "console_inv sample_env sample_app (sample_files [] [])"
    by (simp add: console_inv_def sample_ok clients_ok_def regs_ok_def)
  show "regs_writable sample_env sample_app (sample_files [] [])"
    by (simp add: regs_writable_def sample_files_def clean_fs_def)
  show "fs_write_error (sample_files [] []) (ap_clientsPath sample_app) = None"
    by (simp add: sample_files_def clean_fs_def)
  show "link_ok sample_env sample_app sample_link
     (\<lambda>_. Inr \<lparr>ir_KeylessToken = randomString ''r1'', ir_EdgeConfig = edgeConfig sample_app\<rparr>)
     (trimRight ''https://console'' CHR ''/'') ''edge'' (if [] = [] then ''edge'' else []) install_name (randomString ''r1'')"
    by (simp add: link_ok_def sample_link_def del: append_Cons)
  show "hasPrefix (cq_path (sample_request ''POST'' ''/api/registrations/edge/approve'' [] (Some sample_cookie)))
     ''/api/registrations/''" by (simp add: hasPrefix_def)
qed (simp_all add: sample_revfile)

text \<open>
  C32. An edge whose id the console already lists as a client, and whose install token no approved registration
  carries, never finishes its enrolment: the console answers 409 to the registration, which the edge takes
  for success, and 404 to every poll, so \<open>enrollEdge\<close> does not return.
\<close>

theorem reenrolment_polls_forever:
  assumes inv: "console_inv env a d" and cs: "clients_of env a d = Inr cs" and gs: "regs_of env a d = Inr gs"
    and v: "validClientID rid" "validInstallToken tok" and listed: "rid \<in> cc_id ` set cs"
    and none: "\<forall>g\<in>set gs. \<not> install_candidate tok g"
    and url: "url = trimRight consoleURL CHR ''/''"
    and l: "link_ok env a l decode url rid (if label = [] then rid else label) tok st"
  shows "enrollEdge (edge_on_console env a l decode now raw) raw0 consoleURL rid label tok (d, []) = None"
proof -
  let ?env = "edge_on_console env a l decode now raw" and ?label = "if label = [] then rid else label"
  have body: "cn_decodeRegister env (take (16 * 1024) (cq_body (hl_parse l (register_call url rid ?label tok))))
      = Inr \<lparr>rr_ID = rid, rr_Label = ?label, rr_InstallToken = tok\<rparr>"
    using l by (auto simp: link_ok_def)
  have reg: "registerEdge env a now raw (hl_parse l (register_call url rid ?label tok)) d
      = (d, console_json 409 (JErr ''client already exists''))"
    using body cs v listed valid_id_trim(1)[OF v(1)] valid_token_trim[OF v(2)] validInstallToken_nonempty[OF v(2)]
    by (simp add: registerEdge_def Let_def)
  have f: "find_index (install_candidate tok) gs = None" using none by (simp add: find_index_None)
  have poll: "poll_install ?env url tok (d, []) = None"
    by (rule poll_forever[OF poll_pending(2)[OF l v(2) cs gs f]]) (simp add: edge_on_console_def)
  have "ev_badURL ?env u = None" for u by (simp add: edge_on_console_def)
  then show ?thesis
    using register_over_link(2,3)[OF l reg] poll validInstallToken_nonempty[OF v(2)] url
    by (cases "label = []") (simp_all add: enrollEdge_def)
qed

theorem reenrolment_polls_forever_witness:
  "enrollEdge (edge_on_console sample_env sample_app sample_link
       (\<lambda>_. Inr \<lparr>ir_KeylessToken = ''T'', ir_EdgeConfig = edgeConfig sample_app\<rparr>) ''t0'' ''r0'')
     [] ''https://console'' ''edge'' [] install_name (sample_files [new_client ''edge'' ''T''] [], []) = None"
proof (rule reenrolment_polls_forever[where cs = "[new_client ''edge'' ''T'']" and gs = "[]" and st = "''T''"])
  show "console_inv sample_env sample_app (sample_files [new_client ''edge'' ''T''] [])"
    by (simp add: console_inv_def sample_ok clients_ok_def regs_ok_def new_client_def)
  show "link_ok sample_env sample_app sample_link
     (\<lambda>_. Inr \<lparr>ir_KeylessToken = ''T'', ir_EdgeConfig = edgeConfig sample_app\<rparr>)
     (trimRight ''https://console'' CHR ''/'') ''edge'' (if [] = [] then ''edge'' else []) install_name ''T''"
    by (simp add: link_ok_def sample_link_def del: append_Cons)
qed (simp_all add: new_client_def)

text \<open>
  An edge installed by the wizard enrols at its first start: \<open>edgeproxy\<close>, started with the environment file
  the installation wrote and no token file yet (\<open>10s\<close> is a duration), calls \<open>enrollEdge\<close> with the console's URL and the edge id of the
  form and with the install token the wizard drew, which the console accepts.
\<close>

theorem installed_edge_enrols:
  assumes inst: "wiz_installEdge env repo raw form w = (w', Inr u)" "length raw = 48"
    and ft: "fs_files (fst w') ''/etc/myzerossl/edgeproxy.env'' = Some text"
    and c: "c = edge_settings (env_of text) flags" and flags: "ed_token flags = []"
    and d: "readFile d ''/var/lib/memecdn/keyless.token'' = Inl NotExist" and poll: "ev_duration eenv ''10s'' = Some n"
  shows "edge_enrolled eenv raw2 c d s =
      (case enrollEdge eenv raw2 (wiz_value form ''edge_register_url'' ''https://ssl-signer.example.com'')
              (wiz_value form ''edge_id'' (hostname env @ ''-edge'')) (ed_registerLabel c) (secret raw) s of
         None \<Rightarrow> None
       | Some (s', Inl e) \<Rightarrow> Some (s', Inl (''edge enrollment failed: '' @ e))
       | Some (s', Inr (token, installToken, config)) \<Rightarrow>
           (case writeTokenFile eenv d ''/var/lib/memecdn/keyless.token'' token of
              Inl e \<Rightarrow> Some (s', Inl (''write token file: '' @ e))
            | Inr d' \<Rightarrow> Some (s', Inr (d', c\<lparr>ed_token := token\<rparr>, installToken, config))))
    \<and> validInstallToken (secret raw)"
proof -
  note c' = installed_edge_config(1-6)[OF inst ft c] and ne = installed_edge_config(8,9)[OF inst ft c]
  have "validInstallToken (secret raw)" by (rule secret_valid[OF inst(2)])
  moreover have "readTokenFile d (ed_tokenFile c) = Inr []" using d by (simp add: readTokenFile_def c')
  ultimately show ?thesis using ne flags poll by (simp add: edge_enrolled_def c' mustParseDuration_def split: option.split prod.split sum.split)
qed

theorem installed_edge_enrols_witness:
  "\<exists>w' text. wiz_installEdge sample_wizard ''/opt'' (replicate 48 (CHR ''x'')) (\<lambda>_. []) sample_machine = (w', Inr ())
     \<and> fs_files (fst w') ''/etc/myzerossl/edgeproxy.env'' = Some text
     \<and> edge_enrolled slow_console [] (edge_settings (env_of text) (demo_edge_config\<lparr>ed_token := []\<rparr>)) (clean_fs (\<lambda>_. None)) 0
       = (case enrollEdge slow_console [] ''https://ssl-signer.example.com'' ''tw-edge''
                (ed_registerLabel (edge_settings (env_of text) (demo_edge_config\<lparr>ed_token := []\<rparr>)))
                (secret (replicate 48 (CHR ''x''))) 0 of
            None \<Rightarrow> None
          | Some (s', Inl e) \<Rightarrow> Some (s', Inl (''edge enrollment failed: '' @ e))
          | Some (s', Inr (token, installToken, config)) \<Rightarrow>
              (case writeTokenFile slow_console (clean_fs (\<lambda>_. None)) ''/var/lib/memecdn/keyless.token'' token of
                 Inl e \<Rightarrow> Some (s', Inl (''write token file: '' @ e))
               | Inr d' \<Rightarrow> Some (s', Inr (d', (edge_settings (env_of text) (demo_edge_config\<lparr>ed_token := []\<rparr>))\<lparr>ed_token := token\<rparr>,
                                          installToken, config))))"
proof -
  let ?raw = "replicate 48 (CHR ''x'')" and ?d = "clean_fs (\<lambda>_. None)"
  obtain w' where w': "wiz_installEdge sample_wizard ''/opt'' ?raw (\<lambda>_. []) sample_machine = (w', Inr ())"
    using sample_edge_install by blast
  note ft = installEdge_file[OF w']
  have v: "wiz_value (\<lambda>_. []) k f = f" for k f by (simp add: wiz_value_def)
  have h: "hostname sample_wizard @ ''-edge'' = ''tw-edge''" by (simp add: hostname_def)
  have r: "readFile ?d ''/var/lib/memecdn/keyless.token'' = Inl NotExist" by (simp add: readFile_def clean_fs_def)
  have n: "length ?raw = 48" "ed_token (demo_edge_config\<lparr>ed_token := []\<rparr>) = []"
    "ev_duration slow_console ''10s'' = Some 10000000000" by (simp_all add: slow_console_def)
  from conjunct1[OF installed_edge_enrols[OF w' n(1) ft HOL.refl n(2) r n(3), of "[]" 0]] w' ft
  show ?thesis unfolding v h by blast
qed

end
